(* ===== verification/Prelude.thy ===== *)
theory Prelude
  imports Main "HOL-Library.List_Lexorder" "HOL-Library.Char_ord" "HOL-Library.Sublist"
    "HOL-Library.Multiset"
begin

text \<open>
  Shared vocabulary of the development: the collections of rewrite and introduction rules the
  component theories fill, the byte-string helpers of the Go standard library the sources call
  (\<^verbatim>\<open>strings.TrimSpace\<close>, \<^verbatim>\<open>strings.Join\<close>, \<^verbatim>\<open>strings.Split\<close>, \<^verbatim>\<open>sort.Strings\<close>,
  \<^verbatim>\<open>strconv\<close>), maps built from association lists the way a Go loop fills a map, and generic
  lemmas on them.  A Go \<^verbatim>\<open>string\<close> is a list of bytes, modelled as \<^typ>\<open>string\<close>
  (a list of 8-bit characters); \<^verbatim>\<open>sort.Strings\<close> is \<^const>\<open>sort\<close> for the bytewise
  lexicographic order of the imported library theories.
\<close>

section \<open>Collections\<close>

named_theorems status_simps \<open>unfolding rules of the status machines\<close>
named_theorems handler_defs \<open>definitions of the plan-manager mutation handlers\<close>
named_theorems step_intros \<open>introduction rules of the step relations\<close>

section \<open>Byte strings\<close>

type_synonym bytes = string

text \<open>The UTF-8 encodings of the code points for which \<^verbatim>\<open>unicode.IsSpace\<close> holds.\<close>

definition space_seqs :: "bytes list" where
  "space_seqs =
     [[CHR 0x09], [CHR 0x0A], [CHR 0x0B], [CHR 0x0C], [CHR 0x0D], [CHR 0x20],
      [CHR 0xC2, CHR 0x85], [CHR 0xC2, CHR 0xA0], [CHR 0xE1, CHR 0x9A, CHR 0x80],
      [CHR 0xE2, CHR 0x80, CHR 0x80], [CHR 0xE2, CHR 0x80, CHR 0x81],
      [CHR 0xE2, CHR 0x80, CHR 0x82], [CHR 0xE2, CHR 0x80, CHR 0x83],
      [CHR 0xE2, CHR 0x80, CHR 0x84], [CHR 0xE2, CHR 0x80, CHR 0x85],
      [CHR 0xE2, CHR 0x80, CHR 0x86], [CHR 0xE2, CHR 0x80, CHR 0x87],
      [CHR 0xE2, CHR 0x80, CHR 0x88], [CHR 0xE2, CHR 0x80, CHR 0x89],
      [CHR 0xE2, CHR 0x80, CHR 0x8A], [CHR 0xE2, CHR 0x80, CHR 0xA8],
      [CHR 0xE2, CHR 0x80, CHR 0xA9], [CHR 0xE2, CHR 0x80, CHR 0xAF],
      [CHR 0xE2, CHR 0x81, CHR 0x9F], [CHR 0xE3, CHR 0x80, CHR 0x80]]"

text \<open>Drop the first of the given sequences that is a prefix.\<close>

fun strip_seq :: "bytes list \<Rightarrow> bytes \<Rightarrow> bytes option" where
  "strip_seq [] s = None"
| "strip_seq (p # ps) s =
     (if p \<noteq> [] \<and> take (length p) s = p then Some (drop (length p) s) else strip_seq ps s)"

lemma strip_seq_shorter: "strip_seq ps s = Some r \<Longrightarrow> length r < length s"
  by (induction ps s rule: strip_seq.induct)
     (auto split: if_splits, metis length_greater_0_conv take_eq_Nil2 diff_less list.size(3))

function trim_seqs :: "bytes list \<Rightarrow> bytes \<Rightarrow> bytes" where
  "trim_seqs ps s = (case strip_seq ps s of None \<Rightarrow> s | Some r \<Rightarrow> trim_seqs ps r)"
  by pat_completeness auto

termination by (relation "measure (length \<circ> snd)") (auto dest: strip_seq_shorter)

declare trim_seqs.simps [simp del]

text \<open>\<^verbatim>\<open>strings.TrimSpace\<close>: white space removed at both ends.\<close>

definition TrimSpace :: "bytes \<Rightarrow> bytes" where
  "TrimSpace s = rev (trim_seqs (map rev space_seqs) (rev (trim_seqs space_seqs s)))"

text \<open>\<^verbatim>\<open>strings.HasPrefix\<close>, \<^verbatim>\<open>strings.HasSuffix\<close> and \<^verbatim>\<open>strings.Contains\<close>.\<close>

definition HasPrefix :: "bytes \<Rightarrow> bytes \<Rightarrow> bool" where
  "HasPrefix s p = (take (length p) s = p)"

definition HasSuffix :: "bytes \<Rightarrow> bytes \<Rightarrow> bool" where
  "HasSuffix s p = HasPrefix (rev s) (rev p)"

fun Contains :: "bytes \<Rightarrow> bytes \<Rightarrow> bool" where
  "Contains [] p = (p = [])"
| "Contains (c # s) p = (HasPrefix (c # s) p \<or> Contains s p)"

text \<open>\<^verbatim>\<open>strings.TrimPrefix\<close> and \<^verbatim>\<open>strings.TrimSuffix\<close>.\<close>

definition TrimPrefix :: "bytes \<Rightarrow> bytes \<Rightarrow> bytes" where
  "TrimPrefix s p = (if HasPrefix s p then drop (length p) s else s)"

definition TrimSuffix :: "bytes \<Rightarrow> bytes \<Rightarrow> bytes" where
  "TrimSuffix s p = (if HasSuffix s p then take (length s - length p) s else s)"

text \<open>\<^verbatim>\<open>strings.ContainsAny\<close> for ASCII character sets, \<^verbatim>\<open>strings.Split\<close> on one
  character and \<^verbatim>\<open>strings.Join\<close>.\<close>

definition ContainsAny :: "bytes \<Rightarrow> bytes \<Rightarrow> bool" where
  "ContainsAny s cs = list_ex (\<lambda>c. c \<in> set cs) s"

fun split_on :: "char \<Rightarrow> bytes \<Rightarrow> bytes list" where
  "split_on d [] = [[]]"
| "split_on d (c # s) =
     (if c = d then [] # split_on d s
      else (case split_on d s of [] \<Rightarrow> [[c]] | w # ws \<Rightarrow> (c # w) # ws))"

fun Join :: "bytes \<Rightarrow> bytes list \<Rightarrow> bytes" where
  "Join sep [] = []"
| "Join sep [x] = x"
| "Join sep (x # y # ys) = x @ sep @ Join sep (y # ys)"

text \<open>\<^verbatim>\<open>strings.ToLower\<close> on the letters of ASCII and the two other code points whose lower
  case is an ASCII letter (U+0130 and U+212A); every other code point is kept, which no
  comparison with an ASCII constant can observe.\<close>

definition lower_char :: "char \<Rightarrow> char" where
  "lower_char c = (let n = (of_char c :: nat) in
     if 65 \<le> n \<and> n \<le> 90 then char_of (n + 32) else c)"

fun ToLower :: "bytes \<Rightarrow> bytes" where
  "ToLower [] = []"
| "ToLower (c # s) =
     (if take 2 (c # s) = [CHR 0xC4, CHR 0xB0] then CHR ''i'' # ToLower (drop 1 s)
      else if take 3 (c # s) = [CHR 0xE2, CHR 0x84, CHR 0xAA] then CHR ''k'' # ToLower (drop 2 s)
      else lower_char c # ToLower s)"

text \<open>Decimal printing (\<^verbatim>\<open>%d\<close>).\<close>

fun show_nat :: "nat \<Rightarrow> bytes" where
  "show_nat n = (if n < 10 then [char_of (48 + n)]
                 else show_nat (n div 10) @ [char_of (48 + n mod 10)])"

declare show_nat.simps [simp del]

definition show_int :: "int \<Rightarrow> bytes" where
  "show_int i = (if i < 0 then CHR ''-'' # show_nat (nat (- i)) else show_nat (nat i))"

subsection \<open>Lemmas on byte strings\<close>

lemma take_length_prefix: "take (length p) s = p \<longleftrightarrow> prefix p s"
  by (auto simp: prefix_def) (metis append_take_drop_id)

lemma strip_seq_None_iff:
  "strip_seq ps s = None \<longleftrightarrow> (\<forall>p \<in> set ps. p \<noteq> [] \<longrightarrow> \<not> prefix p s)"
  by (induction ps) (auto simp: take_length_prefix)

lemma trim_seqs_fixed: "strip_seq ps (trim_seqs ps s) = None"
proof (induction ps s rule: trim_seqs.induct)
  case (1 ps s)
  then show ?case by (subst trim_seqs.simps) (auto split: option.splits)
qed

lemma trim_seqs_id: "strip_seq ps s = None \<Longrightarrow> trim_seqs ps s = s"
  by (subst trim_seqs.simps) simp

lemma strip_seq_suffix: "strip_seq ps s = Some r \<Longrightarrow> suffix r s"
  by (induction ps s rule: strip_seq.induct) (auto split: if_splits simp: suffix_drop)

lemma trim_seqs_suffix: "suffix (trim_seqs ps s) s"
proof (induction ps s rule: trim_seqs.induct)
  case (1 ps s)
  then show ?case
    by (subst trim_seqs.simps)
       (auto split: option.splits dest: strip_seq_suffix intro: suffix_order.trans)
qed

lemma strip_seq_prefix_None: "prefix t s \<Longrightarrow> strip_seq ps s = None \<Longrightarrow> strip_seq ps t = None"
  by (auto simp: strip_seq_None_iff dest: prefix_order.trans)

lemma TrimSpace_idem [simp]: "TrimSpace (TrimSpace s) = TrimSpace s"
proof -
  let ?L = "trim_seqs space_seqs s" and ?R = "trim_seqs (map rev space_seqs)"
  have "prefix (rev (?R (rev ?L))) ?L"
    using trim_seqs_suffix [of "map rev space_seqs" "rev ?L"] by (simp add: suffix_to_prefix)
  then have "strip_seq space_seqs (TrimSpace s) = None"
    unfolding TrimSpace_def by (rule strip_seq_prefix_None) (rule trim_seqs_fixed)
  then have "trim_seqs space_seqs (TrimSpace s) = TrimSpace s" by (rule trim_seqs_id)
  moreover have "strip_seq (map rev space_seqs) (rev (TrimSpace s)) = None"
    by (simp add: TrimSpace_def trim_seqs_fixed)
  ultimately show ?thesis
    by (subst TrimSpace_def) (simp add: trim_seqs_id)
qed

lemma TrimSpace_Nil [simp]: "TrimSpace [] = []"
proof -
  have "strip_seq ps [] = None" for ps by (induction ps) auto
  then show ?thesis by (simp add: TrimSpace_def trim_seqs_id)
qed

lemma HasPrefix_iff: "HasPrefix s p \<longleftrightarrow> prefix p s"
  by (simp add: HasPrefix_def take_length_prefix)

lemma HasSuffix_iff: "HasSuffix s p \<longleftrightarrow> suffix p s"
  by (simp add: HasSuffix_def HasPrefix_iff suffix_to_prefix)

lemma Contains_iff: "Contains s p \<longleftrightarrow> sublist p s"
  by (induction s) (auto simp: HasPrefix_iff sublist_Cons_right)

lemma split_on_nonempty [simp]: "split_on d s \<noteq> []"
  by (induction s) (auto split: list.splits)

lemma Join_split_on: "Join [d] (split_on d s) = s"
proof (induction s)
  case (Cons c s)
  then show ?case
    by (cases "split_on d s"; cases "tl (split_on d s)") auto
qed simp

lemma split_on_parts: "w \<in> set (split_on d s) \<Longrightarrow> d \<notin> set w"
  by (induction s arbitrary: w) (auto split: list.splits if_splits)

lemma split_on_chars: "w \<in> set (split_on d s) \<Longrightarrow> set w \<subseteq> set s"
  by (induction s arbitrary: w) (fastforce split: list.splits if_splits)+

section \<open>Association lists as Go maps\<close>

text \<open>A Go map filled by \<^verbatim>\<open>for _, x := range xs { m[key(x)] = val(x) }\<close>: a later entry
  overwrites an earlier one with the same key.\<close>

definition fill_map :: "('a \<Rightarrow> 'k) \<Rightarrow> ('a \<Rightarrow> 'v) \<Rightarrow> 'a list \<Rightarrow> ('k \<Rightarrow> 'v option)" where
  "fill_map key val xs = map_of (rev (map (\<lambda>x. (key x, val x)) xs))"

lemma dom_fill_map [simp]: "dom (fill_map key val xs) = key ` set xs"
  by (auto simp: fill_map_def dom_map_of_conv_image_fst image_image)

lemma fill_map_SomeD: "fill_map key val xs k = Some v \<Longrightarrow> \<exists>x \<in> set xs. key x = k \<and> val x = v"
  by (auto simp: fill_map_def dest!: map_of_SomeD)

lemma fill_map_distinct:
  assumes "distinct (map key xs)" "x \<in> set xs"
  shows "fill_map key val xs (key x) = Some (val x)"
proof -
  have "distinct (map fst (rev (map (\<lambda>x. (key x, val x)) xs)))"
    using assms(1) by (simp add: rev_map [symmetric] comp_def)
  then show ?thesis
    using assms(2) by (auto simp: fill_map_def intro!: map_of_is_SomeI)
qed

text \<open>Reading a Go map of slices: an absent key gives the nil slice.\<close>

definition slice_at :: "('k \<Rightarrow> 'v list option) \<Rightarrow> 'k \<Rightarrow> 'v list" where
  "slice_at m k = (case m k of None \<Rightarrow> [] | Some v \<Rightarrow> v)"

text \<open>The first element satisfying a predicate (the \<^verbatim>\<open>for ... if ... return\<close> idiom).\<close>

lemma find_SomeD: "find P xs = Some x \<Longrightarrow> x \<in> set xs \<and> P x"
  by (auto simp: find_Some_iff)

lemma find_None_set: "find P xs = None \<longleftrightarrow> (\<forall>x \<in> set xs. \<not> P x)"
  by (auto simp: find_None_iff)

text \<open>The validation loop \<^verbatim>\<open>for ... { if err := f(x); err != nil { return err } }\<close>.\<close>

fun first_error :: "('a \<Rightarrow> 'e option) \<Rightarrow> 'a list \<Rightarrow> 'e option" where
  "first_error f [] = None"
| "first_error f (x # xs) = (case f x of Some e \<Rightarrow> Some e | None \<Rightarrow> first_error f xs)"

lemma first_error_None [simp]: "first_error f xs = None \<longleftrightarrow> (\<forall>x \<in> set xs. f x = None)"
  by (induction xs) (auto split: option.splits)

lemma first_error_SomeD: "first_error f xs = Some e \<Longrightarrow> \<exists>x \<in> set xs. f x = Some e"
  by (induction xs) (auto split: option.splits)

text \<open>Two checks in sequence.\<close>

definition or_else :: "'e option \<Rightarrow> 'e option \<Rightarrow> 'e option" where
  "or_else a b = (case a of Some e \<Rightarrow> Some e | None \<Rightarrow> b)"

lemma or_else_None [simp]: "or_else a b = None \<longleftrightarrow> a = None \<and> b = None"
  by (auto simp: or_else_def split: option.splits)

section \<open>Guarded status changes\<close>

text \<open>The compare-and-set idiom of the sources: the new status is stored only when the
  transition table allows the move.\<close>

definition cas_status :: "('s \<Rightarrow> 's \<Rightarrow> bool) \<Rightarrow> 's \<Rightarrow> 's \<Rightarrow> 's option" where
  "cas_status can s t = (if can s t then Some t else None)"

text \<open>A sequence of requested targets against one cell: a refused request leaves the cell.\<close>

fun cas_run :: "('s \<Rightarrow> 's \<Rightarrow> bool) \<Rightarrow> 's \<Rightarrow> 's list \<Rightarrow> 's" where
  "cas_run can s [] = s"
| "cas_run can s (t # ts) = cas_run can (case cas_status can s t of None \<Rightarrow> s | Some u \<Rightarrow> u) ts"

fun cas_successes :: "('s \<Rightarrow> 's \<Rightarrow> bool) \<Rightarrow> 's \<Rightarrow> 's list \<Rightarrow> nat" where
  "cas_successes can s [] = 0"
| "cas_successes can s (t # ts) =
     (case cas_status can s t of None \<Rightarrow> cas_successes can s ts
      | Some u \<Rightarrow> Suc (cas_successes can u ts))"

end
