(* ===== verification/Dag.thy ===== *)
theory Dag
  imports Prelude
begin

text \<open>
  The graph searches the sources repeat in every component: the three-colour depth-first search
  behind \<^verbatim>\<open>ValidateRequirementDAG\<close>, \<^verbatim>\<open>ValidateStoryDAG\<close>, \<^verbatim>\<open>ValidateTaskDAG\<close>,
  \<^verbatim>\<open>detectCapabilityCycle\<close>, \<^verbatim>\<open>detectSchedulerCycle\<close>, \<^verbatim>\<open>detectCycles\<close> and
  \<^verbatim>\<open>topoSortStoryIDs\<close>, and the breadth-first closure behind \<^verbatim>\<open>buildReqClosure\<close> and
  \<^verbatim>\<open>buildStoryClosure\<close>.  An adjacency is a function from a node to its list of successors;
  the recursion of \<^verbatim>\<open>visit\<close> runs on fuel, and \<open>dfs_run_total\<close> shows that the fuel of
  \<open>dfs_run\<close> (one unit per node or edge endpoint, plus one) never runs out.
\<close>

section \<open>Definitions\<close>

datatype color = White | Gray | Black

text \<open>Colours only ever darken, so they form a chain.\<close>

instantiation color :: linorder
begin

fun shade :: "color \<Rightarrow> nat" where
  "shade White = 0"
| "shade Gray = 1"
| "shade Black = 2"

definition less_eq_color :: "color \<Rightarrow> color \<Rightarrow> bool" where
  "less_eq_color a b \<longleftrightarrow> shade a \<le> shade b"

definition less_color :: "color \<Rightarrow> color \<Rightarrow> bool" where
  "less_color a b \<longleftrightarrow> shade a < shade b"

instance
proof
  fix x y :: color
  show "x \<le> y \<Longrightarrow> y \<le> x \<Longrightarrow> x = y"
    by (cases x; cases y) (auto simp: less_eq_color_def)
qed (auto simp: less_eq_color_def less_color_def)

end

text \<open>The variables captured by the Go closure: the colour map, the stack of open calls, and the
  order in which the calls finished.\<close>

record 'a dfs =
  color_of :: "'a \<Rightarrow> color"
  path :: "'a list"
  finished :: "'a list"

datatype 'a dfs_error = Cycle 'a 'a "'a list" | OutOfFuel

definition dfs_init :: "'a dfs" where
  "dfs_init = \<lparr>color_of = (\<lambda>_. White), path = [], finished = []\<rparr>"

definition dfs_open :: "'a \<Rightarrow> 'a dfs \<Rightarrow> 'a dfs" where
  "dfs_open x st = st\<lparr>color_of := (color_of st)(x := Gray), path := path st @ [x]\<rparr>"

definition dfs_close :: "'a \<Rightarrow> 'a dfs \<Rightarrow> 'a dfs" where
  "dfs_close x st = st\<lparr>color_of := (color_of st)(x := Black), path := butlast (path st),
                       finished := finished st @ [x]\<rparr>"

fun visit :: "nat \<Rightarrow> ('a \<Rightarrow> 'a list) \<Rightarrow> 'a \<Rightarrow> 'a dfs \<Rightarrow> 'a dfs_error + 'a dfs"
  and visit_deps :: "nat \<Rightarrow> ('a \<Rightarrow> 'a list) \<Rightarrow> 'a \<Rightarrow> 'a list \<Rightarrow> 'a dfs \<Rightarrow> 'a dfs_error + 'a dfs"
where
  "visit 0 adj x st = Inl OutOfFuel"
| "visit (Suc n) adj x st =
     (case visit_deps n adj x (adj x) (dfs_open x st) of
        Inl e \<Rightarrow> Inl e
      | Inr st' \<Rightarrow> Inr (dfs_close x st'))"
| "visit_deps n adj x [] st = Inr st"
| "visit_deps n adj x (d # ds) st =
     (case color_of st d of
        Gray \<Rightarrow> Inl (Cycle x d (path st))
      | Black \<Rightarrow> visit_deps n adj x ds st
      | White \<Rightarrow>
          (case visit n adj d st of
             Inl e \<Rightarrow> Inl e
           | Inr st' \<Rightarrow> visit_deps n adj x ds st'))"

fun visit_roots :: "nat \<Rightarrow> ('a \<Rightarrow> 'a list) \<Rightarrow> 'a list \<Rightarrow> 'a dfs \<Rightarrow> 'a dfs_error + 'a dfs" where
  "visit_roots n adj [] st = Inr st"
| "visit_roots n adj (r # rs) st =
     (if color_of st r = White then
        (case visit n adj r st of
           Inl e \<Rightarrow> Inl e
         | Inr st' \<Rightarrow> visit_roots n adj rs st')
      else visit_roots n adj rs st)"

definition dfs_fuel :: "('a \<Rightarrow> 'a list) \<Rightarrow> 'a list \<Rightarrow> nat" where
  "dfs_fuel adj roots = Suc (length (roots @ concat (map adj roots)))"

definition dfs_run :: "('a \<Rightarrow> 'a list) \<Rightarrow> 'a list \<Rightarrow> 'a dfs_error + 'a dfs" where
  "dfs_run adj roots = visit_roots (dfs_fuel adj roots) adj roots dfs_init"

section \<open>Chains and topological orders\<close>

definition dep_rel :: "('a \<Rightarrow> 'a list) \<Rightarrow> ('a \<times> 'a) set" where
  "dep_rel adj = {(x, y). y \<in> set (adj x)}"

lemma dep_rel_iff [simp]: "(x, y) \<in> dep_rel adj \<longleftrightarrow> y \<in> set (adj x)"
  by (simp add: dep_rel_def)

text \<open>Every element of the list comes after all its successors.\<close>

definition topo :: "('a \<Rightarrow> 'a list) \<Rightarrow> 'a list \<Rightarrow> bool" where
  "topo adj xs \<longleftrightarrow> (\<forall>ys y zs. xs = ys @ y # zs \<longrightarrow> set (adj y) \<subseteq> set ys)"

lemma topo_Nil [simp]: "topo adj []"
  by (simp add: topo_def)

lemma topo_snoc [simp]: "topo adj (xs @ [x]) \<longleftrightarrow> topo adj xs \<and> set (adj x) \<subseteq> set xs"
proof
  assume t: "topo adj (xs @ [x])"
  then have "set (adj x) \<subseteq> set xs" unfolding topo_def by blast
  moreover have "topo adj xs" unfolding topo_def
  proof (intro allI impI)
    fix ys y zs assume "xs = ys @ y # zs"
    then have "xs @ [x] = ys @ y # (zs @ [x])" by simp
    then show "set (adj y) \<subseteq> set ys" using t unfolding topo_def by blast
  qed
  ultimately show "topo adj xs \<and> set (adj x) \<subseteq> set xs" by simp
next
  assume t: "topo adj xs \<and> set (adj x) \<subseteq> set xs"
  show "topo adj (xs @ [x])" unfolding topo_def
  proof (intro allI impI)
    fix ys y zs assume e: "xs @ [x] = ys @ y # zs"
    show "set (adj y) \<subseteq> set ys"
    proof (cases zs rule: rev_cases)
      case Nil
      then show ?thesis using e t by simp
    next
      case (snoc zs' z)
      then have "xs = ys @ y # zs'" using e by simp
      then show ?thesis using t unfolding topo_def by blast
    qed
  qed
qed

lemma topo_closed: "topo adj xs \<Longrightarrow> x \<in> set xs \<Longrightarrow> set (adj x) \<subseteq> set xs"
  unfolding topo_def by (metis Un_iff set_append split_list subsetD subsetI)

lemma topo_reach_closed:
  assumes "topo adj xs" "(x, y) \<in> (dep_rel adj)\<^sup>*" "x \<in> set xs"
  shows "y \<in> set xs"
  using assms(2,3) by (induction rule: rtrancl_induct) (auto dest: topo_closed [OF assms(1)])

text \<open>A node with a topological order has no cycle through it.\<close>

lemma topo_no_cycle: "topo adj xs \<Longrightarrow> x \<in> set xs \<Longrightarrow> (x, x) \<notin> (dep_rel adj)\<^sup>+"
proof (induction xs arbitrary: x rule: rev_induct)
  case (snoc z xs)
  have t: "topo adj xs" "set (adj z) \<subseteq> set xs" using snoc.prems(1) by auto
  show ?case
  proof (cases "x \<in> set xs")
    case True
    then show ?thesis using snoc.IH t(1) by blast
  next
    case False
    then have x: "x = z" using snoc.prems(2) by auto
    show ?thesis
    proof
      assume "(x, x) \<in> (dep_rel adj)\<^sup>+"
      then obtain y where y: "(x, y) \<in> dep_rel adj" "(y, x) \<in> (dep_rel adj)\<^sup>*"
        by (meson tranclD)
      then have "y \<in> set xs" using t(2) x by auto
      then have "x \<in> set xs" using topo_reach_closed [OF t(1) y(2)] by simp
      then show False using False by simp
    qed
  qed
qed simp

fun chain :: "('a \<Rightarrow> 'a list) \<Rightarrow> 'a list \<Rightarrow> bool" where
  "chain adj (x # y # zs) \<longleftrightarrow> y \<in> set (adj x) \<and> chain adj (y # zs)"
| "chain adj _ \<longleftrightarrow> True"

lemma chain_snoc: "chain adj (xs @ [x]) \<longleftrightarrow> chain adj xs \<and> (xs = [] \<or> x \<in> set (adj (last xs)))"
  by (induction adj xs rule: chain.induct) auto

lemma chain_reach: "chain adj xs \<Longrightarrow> x \<in> set xs \<Longrightarrow> (x, last xs) \<in> (dep_rel adj)\<^sup>*"
proof (induction xs rule: rev_induct)
  case (snoc z xs)
  then show ?case
    by (cases "x = z")
       (auto simp: chain_snoc intro: rtrancl_into_rtrancl [of _ "last xs"])
qed simp

section \<open>The search invariant\<close>

definition dfs_inv :: "('a \<Rightarrow> 'a list) \<Rightarrow> 'a dfs \<Rightarrow> bool" where
  "dfs_inv adj st \<longleftrightarrow>
     (\<forall>x. color_of st x = Gray \<longleftrightarrow> x \<in> set (path st)) \<and>
     (\<forall>x. color_of st x = Black \<longleftrightarrow> x \<in> set (finished st)) \<and>
     distinct (path st) \<and> distinct (finished st) \<and>
     chain adj (path st) \<and> topo adj (finished st)"

lemma dfs_inv_init [simp]: "dfs_inv adj dfs_init"
  by (simp add: dfs_inv_def dfs_init_def)

lemma dfs_inv_open:
  assumes "dfs_inv adj st" "color_of st x = White" "path st = [] \<or> x \<in> set (adj (last (path st)))"
  shows "dfs_inv adj (dfs_open x st)"
proof -
  have "x \<notin> set (path st)" "x \<notin> set (finished st)"
    using assms(1,2) unfolding dfs_inv_def by (metis color.distinct)+
  then show ?thesis
    using assms unfolding dfs_inv_def dfs_open_def by (auto simp: chain_snoc)
qed

lemma dfs_inv_close:
  assumes "dfs_inv adj st" "path st = p @ [x]" "set (adj x) \<subseteq> set (finished st)"
  shows "dfs_inv adj (dfs_close x st)" and "path (dfs_close x st) = p"
proof -
  have g: "color_of st x = Gray" using assms(1,2) by (auto simp: dfs_inv_def)
  then have "x \<notin> set (finished st)" using assms(1) unfolding dfs_inv_def by (metis color.distinct(5))
  then show "dfs_inv adj (dfs_close x st)"
    using assms unfolding dfs_inv_def dfs_close_def by (auto simp: chain_snoc)
  show "path (dfs_close x st) = p" using assms(2) by (simp add: dfs_close_def)
qed

lemma path_open [simp]: "path (dfs_open x st) = path st @ [x]"
  and finished_open [simp]: "finished (dfs_open x st) = finished st"
  and finished_close [simp]: "finished (dfs_close x st) = finished st @ [x]"
  by (simp_all add: dfs_open_def dfs_close_def)

lemma inv_white: "dfs_inv adj st \<Longrightarrow> color_of st x = White \<longleftrightarrow>
    x \<notin> set (path st) \<and> x \<notin> set (finished st)"
  unfolding dfs_inv_def by (metis color.distinct(1,3) color.exhaust)

text \<open>A call that returns leaves the stack as it found it and finishes its node; what it finishes is
  reachable from the node.\<close>

lemma visit_ok:
  "visit n adj x st = Inr st' \<Longrightarrow> dfs_inv adj st \<Longrightarrow> color_of st x = White \<Longrightarrow>
     path st = [] \<or> x \<in> set (adj (last (path st))) \<Longrightarrow>
     dfs_inv adj st' \<and> path st' = path st \<and> x \<in> set (finished st') \<and>
     (\<exists>new. finished st' = finished st @ new \<and> (\<forall>y \<in> set new. (x, y) \<in> (dep_rel adj)\<^sup>*))"
  and visit_deps_ok:
  "visit_deps n adj x ds st = Inr st' \<Longrightarrow> dfs_inv adj st \<Longrightarrow> path st = p @ [x] \<Longrightarrow>
     set ds \<subseteq> set (adj x) \<Longrightarrow>
     dfs_inv adj st' \<and> path st' = path st \<and> set ds \<subseteq> set (finished st') \<and>
     (\<exists>new. finished st' = finished st @ new \<and> (\<forall>y \<in> set new. (x, y) \<in> (dep_rel adj)\<^sup>*))"
proof (induction n adj x st and n adj x ds st arbitrary: st' and p st' rule: visit_visit_deps.induct)
  case (2 n adj x st)
  from "2.prems"(1) obtain s1 where s1: "visit_deps n adj x (adj x) (dfs_open x st) = Inr s1"
    and st': "st' = dfs_close x s1"
    by (auto split: sum.splits)
  note inv = dfs_inv_open [OF "2.prems"(2,3,4)]
  from "2.IH" [OF s1 inv path_open subset_refl]
  have I: "dfs_inv adj s1" "path s1 = path st @ [x]" "set (adj x) \<subseteq> set (finished s1)"
    and N: "\<exists>new. finished s1 = finished st @ new \<and> (\<forall>y \<in> set new. (x, y) \<in> (dep_rel adj)\<^sup>*)"
    by auto
  then show ?case using dfs_inv_close [OF I] st' by auto
next
  case (4 n adj x d ds st)
  show ?case
  proof (cases "color_of st d")
    case Gray
    then show ?thesis using "4.prems"(1) by simp
  next
    case Black
    then have d: "d \<in> set (finished st)" using "4.prems"(2) by (simp add: dfs_inv_def)
    have "visit_deps n adj x ds st = Inr st'" using "4.prems"(1) Black by simp
    from "4.IH"(3) [OF Black this "4.prems"(2,3)] "4.prems"(4) d show ?thesis by auto
  next
    case White
    from "4.prems"(1) White obtain s1 where s1: "visit n adj d st = Inr s1"
      and s2: "visit_deps n adj x ds s1 = Inr st'" by (auto split: sum.splits)
    have dx: "d \<in> set (adj x)" using "4.prems"(4) by simp
    from "4.IH"(1) [OF White s1 "4.prems"(2) White] dx "4.prems"(3)
    have A: "dfs_inv adj s1" "path s1 = path st" "d \<in> set (finished s1)"
      and A': "\<exists>new. finished s1 = finished st @ new \<and> (\<forall>y \<in> set new. (d, y) \<in> (dep_rel adj)\<^sup>*)"
      by auto
    from "4.IH"(2) [OF White s1 s2 A(1)] A(2) "4.prems"(3,4)
    have B: "dfs_inv adj st'" "path st' = path st" "set ds \<subseteq> set (finished st')"
      and B': "\<exists>new. finished st' = finished s1 @ new \<and> (\<forall>y \<in> set new. (x, y) \<in> (dep_rel adj)\<^sup>*)"
      by auto
    have "(d, y) \<in> (dep_rel adj)\<^sup>* \<Longrightarrow> (x, y) \<in> (dep_rel adj)\<^sup>*" for y
      using dx by (auto intro: converse_rtrancl_into_rtrancl)
    then show ?thesis using A' B B' A(3) by fastforce
  qed
qed auto

text \<open>An error reported by the search is a cycle: the stack leads from the offending successor back
  to the node it was found at.\<close>

lemma visit_cycle:
  "visit n adj x st = Inl (Cycle i d p) \<Longrightarrow> dfs_inv adj st \<Longrightarrow> color_of st x = White \<Longrightarrow>
     path st = [] \<or> x \<in> set (adj (last (path st))) \<Longrightarrow>
     d \<in> set p \<and> d \<in> set (adj i) \<and> p \<noteq> [] \<and> last p = i \<and> chain adj p \<and> distinct p"
  and visit_deps_cycle:
  "visit_deps n adj x ds st = Inl (Cycle i d p) \<Longrightarrow> dfs_inv adj st \<Longrightarrow> path st = q @ [x] \<Longrightarrow>
     set ds \<subseteq> set (adj x) \<Longrightarrow>
     d \<in> set p \<and> d \<in> set (adj i) \<and> p \<noteq> [] \<and> last p = i \<and> chain adj p \<and> distinct p"
proof (induction n adj x st and n adj x ds st arbitrary: and q rule: visit_visit_deps.induct)
  case (2 n adj x st)
  then have e: "visit_deps n adj x (adj x) (dfs_open x st) = Inl (Cycle i d p)"
    by (auto split: sum.splits)
  show ?case
    by (rule "2.IH" [OF e dfs_inv_open [OF "2.prems"(2,3,4)] path_open subset_refl])
next
  case (4 n adj x e ds st)
  show ?case
  proof (cases "color_of st e")
    case Gray
    then show ?thesis using "4.prems" by (auto simp: dfs_inv_def)
  next
    case Black
    then show ?thesis using "4.IH"(3) "4.prems" by auto
  next
    case White
    show ?thesis
    proof (cases "visit n adj e st")
      case (Inl err)
      then have "visit n adj e st = Inl (Cycle i d p)" using "4.prems"(1) White by simp
      from "4.IH"(1) [OF White this "4.prems"(2) White] "4.prems"(3,4) show ?thesis by simp
    next
      case (Inr s1)
      then have s2: "visit_deps n adj x ds s1 = Inl (Cycle i d p)" using "4.prems"(1) White by simp
      have A: "dfs_inv adj s1 \<and> path s1 = path st"
        using visit_ok [OF Inr "4.prems"(2) White] "4.prems"(3,4) by auto
      show ?thesis
        using "4.IH"(2) [OF White Inr s2] A "4.prems"(3,4) by auto
    qed
  qed
qed auto

text \<open>Fuel: one unit for every node not yet on the stack is enough.\<close>

definition closed_under :: "('a \<Rightarrow> 'a list) \<Rightarrow> 'a set \<Rightarrow> bool" where
  "closed_under adj U \<longleftrightarrow> (\<forall>x \<in> U. set (adj x) \<subseteq> U)"

lemma closed_underD: "closed_under adj U \<Longrightarrow> x \<in> U \<Longrightarrow> set (adj x) \<subseteq> U"
  by (simp add: closed_under_def)

lemma visit_fuel:
  "finite U \<Longrightarrow> closed_under adj U \<Longrightarrow> card (U - set (path st)) \<le> n \<Longrightarrow>
     x \<in> U \<Longrightarrow> dfs_inv adj st \<Longrightarrow> color_of st x = White \<Longrightarrow>
     path st = [] \<or> x \<in> set (adj (last (path st))) \<Longrightarrow> visit n adj x st \<noteq> Inl OutOfFuel"
  and visit_deps_fuel:
  "finite U \<Longrightarrow> closed_under adj U \<Longrightarrow> card (U - set (path st)) \<le> n \<Longrightarrow>
     set ds \<subseteq> U \<Longrightarrow> dfs_inv adj st \<Longrightarrow> path st = q @ [x] \<Longrightarrow> set ds \<subseteq> set (adj x) \<Longrightarrow>
     visit_deps n adj x ds st \<noteq> Inl OutOfFuel"
proof (induction n adj x st and n adj x ds st arbitrary: and q rule: visit_visit_deps.induct)
  case (1 adj x st)
  then have "x \<notin> set (path st)" using inv_white by metis
  then have "x \<in> U - set (path st)" using "1.prems"(4) by simp
  then have "card (U - set (path st)) \<noteq> 0" using "1.prems"(1) by (metis card_0_eq empty_iff finite_Diff)
  then show ?case using "1.prems"(3) by simp
next
  case (2 n adj x st)
  note inv = dfs_inv_open [OF "2.prems"(5,6,7)]
  have "x \<notin> set (path st)" using "2.prems"(5,6) inv_white by metis
  then have "set (path (dfs_open x st)) = insert x (set (path st))" "x \<in> U - set (path st)"
    using "2.prems"(4) by auto
  then have "card (U - set (path (dfs_open x st))) = card (U - set (path st)) - 1"
    using "2.prems"(1) by (metis Diff_insert card_Diff_singleton)
  then have "card (U - set (path (dfs_open x st))) \<le> n"
    using "2.prems"(3) by simp
  then have "visit_deps n adj x (adj x) (dfs_open x st) \<noteq> Inl OutOfFuel"
    using "2.IH" [OF "2.prems"(1,2) _ closed_underD [OF "2.prems"(2,4)] inv path_open subset_refl]
    by simp
  then show ?case by (auto split: sum.splits)
next
  case (4 n adj x d ds st)
  show ?case
  proof (cases "color_of st d")
    case Gray
    then show ?thesis by simp
  next
    case Black
    then have "visit_deps n adj x ds st \<noteq> Inl OutOfFuel"
      using "4.IH"(3) [OF Black "4.prems"(1,2,3) _ "4.prems"(5,6)] "4.prems"(4,7) by simp
    then show ?thesis using Black by simp
  next
    case White
    have v: "visit n adj d st \<noteq> Inl OutOfFuel"
      using "4.IH"(1) [OF White "4.prems"(1,2,3) _ "4.prems"(5) White] "4.prems"(4,6,7) by simp
    show ?thesis
    proof (cases "visit n adj d st")
      case (Inl err)
      then show ?thesis using v White by simp
    next
      case (Inr s1)
      have A: "dfs_inv adj s1 \<and> path s1 = path st"
        using visit_ok [OF Inr "4.prems"(5) White] "4.prems"(6,7) by auto
      then have "visit_deps n adj x ds s1 \<noteq> Inl OutOfFuel"
        using "4.IH"(2) [OF White Inr "4.prems"(1,2)] "4.prems"(3,4,6,7) by simp
      then show ?thesis using Inr White by simp
    qed
  qed
qed auto

section \<open>The whole search\<close>

lemma visit_roots_ok:
  "visit_roots n adj rs st = Inr st' \<Longrightarrow> dfs_inv adj st \<Longrightarrow> path st = [] \<Longrightarrow>
     dfs_inv adj st' \<and> path st' = [] \<and> set rs \<subseteq> set (finished st') \<and>
     (\<exists>new. finished st' = finished st @ new \<and>
        (\<forall>y \<in> set new. \<exists>r \<in> set rs. (r, y) \<in> (dep_rel adj)\<^sup>*))"
proof (induction n adj rs st arbitrary: st' rule: visit_roots.induct)
  case (2 n adj r rs st)
  show ?case
  proof (cases "color_of st r = White")
    case True
    from "2.prems"(1) True obtain s1 where s1: "visit n adj r st = Inr s1"
      and s2: "visit_roots n adj rs s1 = Inr st'" by (auto split: sum.splits)
    have A: "dfs_inv adj s1" "path s1 = []" "r \<in> set (finished s1)"
      and A': "\<exists>new. finished s1 = finished st @ new \<and> (\<forall>y \<in> set new. (r, y) \<in> (dep_rel adj)\<^sup>*)"
      using visit_ok [OF s1 "2.prems"(2) True] "2.prems"(3) by auto
    have B: "dfs_inv adj st'" "path st' = []" "set rs \<subseteq> set (finished st')"
      and B': "\<exists>new. finished st' = finished s1 @ new \<and>
        (\<forall>y \<in> set new. \<exists>r \<in> set rs. (r, y) \<in> (dep_rel adj)\<^sup>*)"
      using "2.IH"(1) [OF True s1 s2 A(1,2)] by blast+
    from A' B' obtain n1 n2 where n: "finished s1 = finished st @ n1"
      "\<forall>y \<in> set n1. (r, y) \<in> (dep_rel adj)\<^sup>*" "finished st' = finished s1 @ n2"
      "\<forall>y \<in> set n2. \<exists>r \<in> set rs. (r, y) \<in> (dep_rel adj)\<^sup>*" by blast
    then have "finished st' = finished st @ (n1 @ n2)" by simp
    moreover have "\<forall>y \<in> set (n1 @ n2). \<exists>r \<in> set (r # rs). (r, y) \<in> (dep_rel adj)\<^sup>*"
      using n(2,4) by auto
    moreover have "r \<in> set (finished st')" using A(3) n(3) by simp
    ultimately show ?thesis using B by (metis insert_subset list.simps(15))
  next
    case False
    then have "r \<in> set (finished st)"
      using "2.prems"(2,3) inv_white [OF "2.prems"(2), of r] by auto
    moreover have "visit_roots n adj rs st = Inr st'" using "2.prems"(1) False by simp
    ultimately show ?thesis using "2.IH"(2) [OF False _ "2.prems"(2,3)] by auto
  qed
qed simp

lemma visit_roots_cycle:
  "visit_roots n adj rs st = Inl (Cycle i d p) \<Longrightarrow> dfs_inv adj st \<Longrightarrow> path st = [] \<Longrightarrow>
     d \<in> set p \<and> d \<in> set (adj i) \<and> p \<noteq> [] \<and> last p = i \<and> chain adj p \<and> distinct p"
proof (induction n adj rs st rule: visit_roots.induct)
  case (2 n adj r rs st)
  show ?case
  proof (cases "color_of st r = White")
    case True
    show ?thesis
    proof (cases "visit n adj r st")
      case (Inl e)
      then have "visit n adj r st = Inl (Cycle i d p)" using "2.prems"(1) True by simp
      then show ?thesis by (rule visit_cycle) (use "2.prems"(2,3) True in simp_all)
    next
      case (Inr s1)
      then have "dfs_inv adj s1 \<and> path s1 = []"
        using visit_ok [OF Inr "2.prems"(2) True] "2.prems"(3) by auto
      moreover have "visit_roots n adj rs s1 = Inl (Cycle i d p)"
        using "2.prems"(1) True Inr by simp
      ultimately show ?thesis using "2.IH"(1) [OF True Inr] by blast
    qed
  next
    case False
    then have "visit_roots n adj rs st = Inl (Cycle i d p)" using "2.prems"(1) by simp
    from "2.IH"(2) [OF False this "2.prems"(2,3)] show ?thesis .
  qed
qed simp

lemma visit_roots_fuel:
  "finite U \<Longrightarrow> closed_under adj U \<Longrightarrow> card U \<le> n \<Longrightarrow> set rs \<subseteq> U \<Longrightarrow> dfs_inv adj st \<Longrightarrow>
     path st = [] \<Longrightarrow> visit_roots n adj rs st \<noteq> Inl OutOfFuel"
proof (induction n adj rs st rule: visit_roots.induct)
  case (2 n adj r rs st)
  show ?case
  proof (cases "color_of st r = White")
    case True
    have v: "visit n adj r st \<noteq> Inl OutOfFuel"
      using visit_fuel [OF "2.prems"(1,2)] "2.prems"(3-6) True by simp
    show ?thesis
    proof (cases "visit n adj r st")
      case (Inl e)
      then show ?thesis using v True by simp
    next
      case (Inr s1)
      then have "dfs_inv adj s1 \<and> path s1 = []"
        using visit_ok [OF Inr "2.prems"(5) True] "2.prems"(6) by auto
      then show ?thesis using "2.IH"(1) [OF True Inr "2.prems"(1,2,3)] "2.prems"(4) True Inr by simp
    qed
  next
    case False
    then show ?thesis using "2.IH"(2) [OF False "2.prems"(1,2,3) _ "2.prems"(5,6)] "2.prems"(4) by simp
  qed
qed simp

text \<open>The roots carry every edge: all clients start a visit at each node of the adjacency.\<close>

definition rooted :: "('a \<Rightarrow> 'a list) \<Rightarrow> 'a list \<Rightarrow> bool" where
  "rooted adj roots \<longleftrightarrow> (\<forall>x. adj x \<noteq> [] \<longrightarrow> x \<in> set roots)"

lemma dfs_run_total:
  assumes "rooted adj roots"
  shows "dfs_run adj roots \<noteq> Inl OutOfFuel"
proof -
  let ?l = "roots @ concat (map adj roots)"
  have "closed_under adj (set ?l)"
    unfolding closed_under_def
  proof
    fix x assume "x \<in> set ?l"
    show "set (adj x) \<subseteq> set ?l"
      using assms by (cases "adj x = []") (auto simp: rooted_def)
  qed
  moreover have "card (set ?l) \<le> dfs_fuel adj roots"
    unfolding dfs_fuel_def by (meson card_length le_SucI)
  ultimately show ?thesis
    unfolding dfs_run_def
    by (intro visit_roots_fuel [of "set ?l"]) (simp_all add: dfs_init_def dfs_inv_def)
qed

lemma dfs_run_ok:
  assumes "dfs_run adj roots = Inr st"
  shows "topo adj (finished st)" "distinct (finished st)" "set roots \<subseteq> set (finished st)"
    "y \<in> set (finished st) \<Longrightarrow> \<exists>r \<in> set roots. (r, y) \<in> (dep_rel adj)\<^sup>*"
proof -
  have "dfs_inv adj st \<and> set roots \<subseteq> set (finished st) \<and>
    (\<exists>new. finished st = finished dfs_init @ new \<and>
        (\<forall>y \<in> set new. \<exists>r \<in> set roots. (r, y) \<in> (dep_rel adj)\<^sup>*))"
    using visit_roots_ok [of "dfs_fuel adj roots" adj roots dfs_init st] assms
    by (simp add: dfs_run_def) (simp add: dfs_init_def dfs_inv_def)
  then show "topo adj (finished st)" "distinct (finished st)" "set roots \<subseteq> set (finished st)"
    "y \<in> set (finished st) \<Longrightarrow> \<exists>r \<in> set roots. (r, y) \<in> (dep_rel adj)\<^sup>*"
    by (auto simp: dfs_inv_def dfs_init_def)
qed

lemma dfs_run_cycle:
  assumes "dfs_run adj roots = Inl (Cycle i d p)"
  shows "d \<in> set p" "d \<in> set (adj i)" "p \<noteq> []" "last p = i" "chain adj p" "distinct p"
    "(d, i) \<in> (dep_rel adj)\<^sup>*" "(d, d) \<in> (dep_rel adj)\<^sup>+"
proof -
  have *: "d \<in> set p \<and> d \<in> set (adj i) \<and> p \<noteq> [] \<and> last p = i \<and> chain adj p \<and> distinct p"
    using assms unfolding dfs_run_def
    by (rule visit_roots_cycle) (simp_all add: dfs_init_def dfs_inv_def)
  then show "d \<in> set p" "d \<in> set (adj i)" "p \<noteq> []" "last p = i" "chain adj p" "distinct p"
    by auto
  show r: "(d, i) \<in> (dep_rel adj)\<^sup>*" using * chain_reach by metis
  show "(d, d) \<in> (dep_rel adj)\<^sup>+" using * r by (auto intro: rtrancl_into_trancl1)
qed

text \<open>The search succeeds exactly on acyclic graphs.\<close>

lemma dfs_run_iff:
  assumes "rooted adj roots"
  shows "(\<exists>st. dfs_run adj roots = Inr st) \<longleftrightarrow> acyclic (dep_rel adj)"
proof
  assume "\<exists>st. dfs_run adj roots = Inr st"
  then obtain st where st: "dfs_run adj roots = Inr st" by blast
  show "acyclic (dep_rel adj)"
  proof (rule acyclicI, rule allI, rule notI)
    fix x assume c: "(x, x) \<in> (dep_rel adj)\<^sup>+"
    then have "adj x \<noteq> []" by (auto dest: tranclD)
    then have "x \<in> set (finished st)" using assms dfs_run_ok(3) [OF st] by (auto simp: rooted_def)
    then show False using topo_no_cycle [OF dfs_run_ok(1) [OF st]] c by blast
  qed
next
  assume a: "acyclic (dep_rel adj)"
  show "\<exists>st. dfs_run adj roots = Inr st"
  proof (cases "dfs_run adj roots")
    case (Inl e)
    then show ?thesis
      using dfs_run_total [OF assms] a
      by (cases e) (auto simp: acyclic_def dest: dfs_run_cycle(8))
  qed auto
qed

text \<open>In a topological order the first member of a set has no successor in the set.\<close>

lemma topo_minimal:
  assumes "topo adj xs" "S \<inter> set xs \<noteq> {}"
  shows "\<exists>x \<in> S \<inter> set xs. set (adj x) \<inter> S = {}"
proof -
  obtain ys y zs where "xs = ys @ y # zs" "y \<in> S" "\<forall>z \<in> set ys. z \<notin> S"
    using assms(2) split_list_first_prop [of xs "\<lambda>x. x \<in> S"] by auto
  then show ?thesis using assms(1) unfolding topo_def by (intro bexI [of _ y]) auto
qed

section \<open>Breadth-first closure\<close>

text \<open>The queue loop of \<^verbatim>\<open>buildReqClosure\<close>: the adjacency is the map filled from the list
  of items, given by its entries, newest first.\<close>

definition succs :: "('a \<times> 'a list) list \<Rightarrow> 'a \<Rightarrow> 'a list" where
  "succs m = slice_at (map_of m)"

lemma succs_values: "set (succs m x) \<subseteq> \<Union> (set ` snd ` set m)"
proof (cases "map_of m x")
  case (Some ys)
  then have "(x, ys) \<in> set m" by (rule map_of_SomeD)
  then show ?thesis using Some by (force simp: succs_def slice_at_def)
qed (simp add: succs_def slice_at_def)

lemma bfs_step_less:
  assumes "x \<notin> set seen"
  shows "card ((\<Union> (set ` snd ` set m) \<union> set (q @ succs m x)) - set (seen @ [x]))
      < card ((\<Union> (set ` snd ` set m) \<union> set (x # q)) - set seen)"
  using assms succs_values [of m x] by (intro psubset_card_mono) auto

lemma bfs_skip_le: "card ((\<Union> (set ` snd ` set m) \<union> set q) - set seen)
      \<le> card ((\<Union> (set ` snd ` set m) \<union> set (x # q)) - set seen)"
  by (rule card_mono) auto

function bfs :: "('a \<times> 'a list) list \<Rightarrow> 'a list \<Rightarrow> 'a list \<Rightarrow> 'a list" where
  "bfs m [] seen = seen"
| "bfs m (x # q) seen = (if x \<in> set seen then bfs m q seen else bfs m (q @ succs m x) (seen @ [x]))"
  by pat_completeness auto

termination
proof (relation "measures [\<lambda>(m, q, s). card ((\<Union> (set ` snd ` set m) \<union> set q) - set s),
                           \<lambda>(m, q, s). length q]", goal_cases)
  case (2 m x q seen)
  show ?case using bfs_skip_le [of m q seen x] by (simp only: in_measures split_conv) auto
next
  case (3 m x q seen)
  show ?case using bfs_step_less [OF 3] by (simp only: in_measures split_conv) simp
qed simp

lemma bfs_sound:
  "y \<in> set (bfs m q s) \<Longrightarrow> y \<in> set s \<or> (\<exists>x \<in> set q. (x, y) \<in> (dep_rel (succs m))\<^sup>*)"
proof (induction m q s rule: bfs.induct)
  case (2 m x q s)
  show ?case
  proof (cases "x \<in> set s")
    case False
    then have "y \<in> set (bfs m (q @ succs m x) (s @ [x]))" using "2.prems" by simp
    from "2.IH"(2) [OF False this] show ?thesis
      by (auto intro: converse_rtrancl_into_rtrancl)
  qed (use 2 in auto)
qed simp

lemma bfs_closed:
  "(\<forall>x \<in> set s. set (succs m x) \<subseteq> set s \<union> set q) \<Longrightarrow>
     set s \<union> set q \<subseteq> set (bfs m q s) \<and>
     (\<forall>x \<in> set (bfs m q s). set (succs m x) \<subseteq> set (bfs m q s))"
proof (induction m q s rule: bfs.induct)
  case (2 m x q s)
  show ?case
  proof (cases "x \<in> set s")
    case True
    then show ?thesis using "2.IH"(1) "2.prems" by auto
  next
    case False
    have "\<forall>y \<in> set (s @ [x]). set (succs m y) \<subseteq> set (s @ [x]) \<union> set (q @ succs m x)"
      using "2.prems" by fastforce
    from "2.IH"(2) [OF False this] show ?thesis using False by auto
  qed
qed auto

lemma bfs_distinct: "distinct s \<Longrightarrow> distinct (bfs m q s)"
  by (induction m q s rule: bfs.induct) auto

lemma set_bfs: "set (bfs m q []) = {y. \<exists>x \<in> set q. (x, y) \<in> (dep_rel (succs m))\<^sup>*}"
proof (intro equalityI subsetI CollectI)
  fix y assume "y \<in> set (bfs m q [])"
  then show "\<exists>x \<in> set q. (x, y) \<in> (dep_rel (succs m))\<^sup>*" using bfs_sound by fastforce
next
  have c: "set q \<subseteq> set (bfs m q [])"
    "\<forall>x \<in> set (bfs m q []). set (succs m x) \<subseteq> set (bfs m q [])"
    using bfs_closed [of "[]" m q] by auto
  fix y assume "y \<in> {y. \<exists>x \<in> set q. (x, y) \<in> (dep_rel (succs m))\<^sup>*}"
  then obtain x where "x \<in> set q" "(x, y) \<in> (dep_rel (succs m))\<^sup>*" by blast
  from this(2,1) show "y \<in> set (bfs m q [])"
    by (induction rule: rtrancl_induct) (use c in auto)
qed

text \<open>Started at the successors of a node, the closure is the transitive closure.\<close>

lemma set_bfs_succs: "set (bfs m (succs m x) []) = {y. (x, y) \<in> (dep_rel (succs m))\<^sup>+}"
  unfolding set_bfs
  by (auto intro: rtrancl_into_trancl2) (meson dep_rel_iff tranclD)

section \<open>Validating a list of items\<close>

text \<open>The search seen by a validator: the node, the successor and the stack of the first cycle.
  Running out of fuel is not reported; \<open>dfs_run_total\<close> excludes it for rooted graphs.\<close>

definition dfs_cycle :: "('a \<Rightarrow> 'a list) \<Rightarrow> 'a list \<Rightarrow> ('a \<times> 'a \<times> 'a list) option" where
  "dfs_cycle adj roots = (case dfs_run adj roots of Inl (Cycle i d p) \<Rightarrow> Some (i, d, p) | _ \<Rightarrow> None)"

lemma dfs_cycle_None:
  assumes "rooted adj roots"
  shows "dfs_cycle adj roots = None \<longleftrightarrow> acyclic (dep_rel adj)"
proof -
  have "dfs_cycle adj roots = None \<longleftrightarrow> (\<exists>st. dfs_run adj roots = Inr st)"
    using dfs_run_total [OF assms]
    by (auto simp: dfs_cycle_def split: sum.splits dfs_error.splits)
  then show ?thesis using dfs_run_iff [OF assms] by simp
qed

lemma dfs_cycle_SomeD:
  "dfs_cycle adj roots = Some (i, d, p) \<Longrightarrow> dfs_run adj roots = Inl (Cycle i d p)"
  by (auto simp: dfs_cycle_def split: sum.splits dfs_error.splits)

text \<open>The adjacency map a validator builds: \<^verbatim>\<open>adj[x.ID] = x.DependsOn\<close>.\<close>

definition dag_adj :: "('n \<Rightarrow> 'k) \<Rightarrow> ('n \<Rightarrow> 'k list) \<Rightarrow> 'n list \<Rightarrow> 'k \<Rightarrow> 'k list" where
  "dag_adj ident deps xs = slice_at (fill_map ident deps xs)"

lemma dag_adj_nonempty: "dag_adj ident deps xs k \<noteq> [] \<Longrightarrow>
    \<exists>x \<in> set xs. ident x = k \<and> deps x = dag_adj ident deps xs k"
  by (auto simp: dag_adj_def slice_at_def split: option.splits dest: fill_map_SomeD)

lemma dag_adj_item: "k \<in> ident ` set xs \<Longrightarrow>
    \<exists>x \<in> set xs. ident x = k \<and> deps x = dag_adj ident deps xs k"
proof -
  assume "k \<in> ident ` set xs"
  then have "k \<in> dom (fill_map ident deps xs)" by simp
  then obtain v where "fill_map ident deps xs k = Some v" by blast
  then show ?thesis by (auto simp: dag_adj_def slice_at_def dest: fill_map_SomeD)
qed

lemma dag_adj_rooted [simp]: "rooted (dag_adj ident deps xs) (map ident xs)"
  by (auto simp: rooted_def dest: dag_adj_nonempty)

lemma dag_adj_distinct: "distinct (map ident xs) \<Longrightarrow> x \<in> set xs \<Longrightarrow>
    dag_adj ident deps xs (ident x) = deps x"
  by (simp add: dag_adj_def slice_at_def fill_map_distinct)

lemma dag_adj_succs: "dag_adj ident deps xs = succs (rev (map (\<lambda>x. (ident x, deps x)) xs))"
  by (simp add: dag_adj_def succs_def fill_map_def)

text \<open>The closure map \<^verbatim>\<open>closure[x.ID] = reachable from adj[x.ID]\<close> is the transitive closure.\<close>

lemma set_closure_map:
  fixes ident :: "'n \<Rightarrow> 'k" and deps :: "'n \<Rightarrow> 'k list"
  defines "E \<equiv> \<lambda>xs. rev (map (\<lambda>x. (ident x, deps x)) xs)"
  shows "set (slice_at (fill_map ident (\<lambda>x. bfs (E xs) (succs (E xs) (ident x)) []) xs) k) =
     {y. (k, y) \<in> (dep_rel (dag_adj ident deps xs))\<^sup>+}"
proof (cases "k \<in> ident ` set xs")
  let ?f = "fill_map ident (\<lambda>x. bfs (E xs) (succs (E xs) (ident x)) []) xs"
  case True
  then have "k \<in> dom ?f" by simp
  then obtain v where v: "?f k = Some v" by blast
  then have "v = bfs (E xs) (succs (E xs) k) []" by (auto dest: fill_map_SomeD)
  with v show ?thesis
    using set_bfs_succs [of "E xs" k] by (simp add: slice_at_def E_def dag_adj_succs)
next
  let ?f = "fill_map ident (\<lambda>x. bfs (E xs) (succs (E xs) (ident x)) []) xs"
  case False
  then have "?f k = None" by (metis dom_fill_map domIff)
  moreover have "dag_adj ident deps xs k = []" using False dag_adj_nonempty by fastforce
  then have "(k, y) \<notin> (dep_rel (dag_adj ident deps xs))\<^sup>+" for y by (auto dest: tranclD)
  ultimately show ?thesis by (simp add: slice_at_def)
qed

text \<open>References resolve and no item refers to itself.\<close>

definition ref_check :: "('n \<Rightarrow> 'k) \<Rightarrow> ('n \<Rightarrow> 'k list) \<Rightarrow> ('k \<Rightarrow> 'e) \<Rightarrow> ('k \<Rightarrow> 'k \<Rightarrow> 'e) \<Rightarrow> 'n list \<Rightarrow> 'e option" where
  "ref_check ident deps self unknown xs =
     first_error (\<lambda>x. first_error (\<lambda>d.
        if d = ident x then Some (self (ident x))
        else if d \<notin> set (map ident xs) then Some (unknown (ident x) d)
        else None) (deps x)) xs"

text \<open>The common body of the three DAG validators: references first, then the search.\<close>

definition validate_dag :: "('n \<Rightarrow> 'k) \<Rightarrow> ('n \<Rightarrow> 'k list) \<Rightarrow> ('k \<Rightarrow> 'e) \<Rightarrow> ('k \<Rightarrow> 'k \<Rightarrow> 'e) \<Rightarrow>
    ('k \<Rightarrow> 'k \<Rightarrow> 'e) \<Rightarrow> 'n list \<Rightarrow> 'e option" where
  "validate_dag ident deps self unknown cyc xs =
     or_else (ref_check ident deps self unknown xs)
       (case dfs_cycle (dag_adj ident deps xs) (map ident xs) of
          None \<Rightarrow> None
        | Some (i, d, _) \<Rightarrow> Some (cyc i d))"

definition refs_resolve :: "('n \<Rightarrow> 'k) \<Rightarrow> ('n \<Rightarrow> 'k list) \<Rightarrow> 'n list \<Rightarrow> bool" where
  "refs_resolve ident deps xs \<longleftrightarrow> (\<forall>x \<in> set xs. set (deps x) \<subseteq> ident ` set xs - {ident x})"

lemma ref_check_None: "ref_check ident deps self unknown xs = None \<longleftrightarrow> refs_resolve ident deps xs"
  by (fastforce simp: ref_check_def refs_resolve_def split: if_splits)

lemma validate_dag_None:
  "validate_dag ident deps self unknown cyc xs = None \<longleftrightarrow>
     refs_resolve ident deps xs \<and> acyclic (dep_rel (dag_adj ident deps xs))"
  using dfs_cycle_None [OF dag_adj_rooted [of ident deps xs]]
  by (auto simp: validate_dag_def ref_check_None split: option.splits)

section \<open>What a validated list offers\<close>

text \<open>The contract of a DAG validator towards schedulers: a list it accepts has resolving
  references and no dependency cycle.\<close>

locale dag_validator_sound =
  fixes ident :: "'n \<Rightarrow> 'k"
    and deps :: "'n \<Rightarrow> 'k list"
    and validate :: "'n list \<Rightarrow> 'e option"
  assumes sound_refs: "validate xs = None \<Longrightarrow> refs_resolve ident deps xs"
    and sound_acyclic: "validate xs = None \<Longrightarrow> acyclic (dep_rel (dag_adj ident deps xs))"
begin

text \<open>An accepted list can be put in an order in which every item follows its dependencies.\<close>

lemma topological_order:
  assumes "validate xs = None"
  shows "\<exists>order. distinct order \<and> set order = ident ` set xs \<and> topo (dag_adj ident deps xs) order"
proof -
  let ?adj = "dag_adj ident deps xs"
  obtain st where st: "dfs_run ?adj (map ident xs) = Inr st"
    using dfs_run_iff [OF dag_adj_rooted] sound_acyclic [OF assms] by blast
  have "y \<in> ident ` set xs" if "(r, y) \<in> (dep_rel ?adj)\<^sup>*" "r \<in> ident ` set xs" for r y
    using that
  proof (induction rule: rtrancl_induct)
    case (step y z)
    then have "z \<in> set (?adj y)" "y \<in> ident ` set xs" by auto
    then show ?case
      using sound_refs [OF assms] dag_adj_item [of y ident xs deps] by (fastforce simp: refs_resolve_def)
  qed
  then have "set (finished st) \<subseteq> ident ` set xs"
    using dfs_run_ok(4) [OF st] by fastforce
  moreover have "ident ` set xs \<subseteq> set (finished st)"
    using dfs_run_ok(3) [OF st] by simp
  ultimately show ?thesis using dfs_run_ok(1,2) [OF st] by blast
qed

text \<open>No deadlock: while something is not done, something not done has all its dependencies done.\<close>

lemma ready_exists:
  assumes "validate xs = None" "x \<in> set xs" "ident x \<notin> done_ids"
  shows "\<exists>y \<in> set xs. ident y \<notin> done_ids \<and> set (deps y) \<subseteq> done_ids"
proof -
  let ?adj = "dag_adj ident deps xs"
  obtain order where o: "set order = ident ` set xs" "topo ?adj order"
    using topological_order [OF assms(1)] by blast
  then have "- done_ids \<inter> set order \<noteq> {}" using assms(2,3) by auto
  from topo_minimal [OF o(2) this] obtain k where k: "k \<notin> done_ids" "k \<in> set order"
    "set (?adj k) \<inter> - done_ids = {}" by auto
  then obtain y where "y \<in> set xs" "ident y = k" "deps y = ?adj k"
    using o(1) dag_adj_item by metis
  then show ?thesis using k by (intro bexI [of _ y]) auto
qed

end

locale dag_validator = dag_validator_sound +
  assumes complete: "refs_resolve ident deps xs \<Longrightarrow> acyclic (dep_rel (dag_adj ident deps xs)) \<Longrightarrow>
    validate xs = None"
begin

lemma validate_iff: "validate xs = None \<longleftrightarrow>
    refs_resolve ident deps xs \<and> acyclic (dep_rel (dag_adj ident deps xs))"
  using sound_refs sound_acyclic complete by blast

text \<open>A list in dependency order is accepted: the direction a generator relies on.\<close>

lemma ordered_accepted:
  assumes "distinct (map ident xs)" "topo (dag_adj ident deps xs) (map ident xs)"
  shows "validate xs = None"
proof (rule complete)
  let ?adj = "dag_adj ident deps xs"
  have c: "set (?adj k) \<subseteq> ident ` set xs" if "k \<in> ident ` set xs" for k
    using topo_closed [OF assms(2)] that by auto
  have n: "(k, k) \<notin> (dep_rel ?adj)\<^sup>+" for k
  proof
    assume "(k, k) \<in> (dep_rel ?adj)\<^sup>+"
    then have "?adj k \<noteq> []" by (auto dest: tranclD)
    then have "k \<in> set (map ident xs)" using dag_adj_nonempty by fastforce
    then show False using topo_no_cycle [OF assms(2)] \<open>(k, k) \<in> (dep_rel ?adj)\<^sup>+\<close> by blast
  qed
  then show "acyclic (dep_rel ?adj)" by (simp add: acyclic_def)
  show "refs_resolve ident deps xs"
    unfolding refs_resolve_def
  proof (intro ballI subsetI DiffI)
    fix x d assume x: "x \<in> set xs" "d \<in> set (deps x)"
    then have d: "d \<in> set (?adj (ident x))" by (simp add: dag_adj_distinct [OF assms(1)])
    then show "d \<in> ident ` set xs" using c x(1) by blast
    show "d \<notin> {ident x}" using n [of "ident x"] d by auto
  qed
qed

end

end
