(* ===== verification/Status.thy ===== *)
theory Status
  imports Prelude
begin

text \<open>
  The closed string types of \<^verbatim>\<open>src/workflow/types.go\<close> and
  \<^verbatim>\<open>src/workflow/story_task.go\<close>: plan status, QA level, requirement, scenario, story, task
  and plan-decision status, each with its \<^verbatim>\<open>IsValid\<close> and \<^verbatim>\<open>CanTransitionTo\<close> table, and the
  contract-impact and decision kinds.  A Go constant is a constructor; a string that is none of the
  constants (it can arrive in a decoded message) is the constructor ending in
  \<^verbatim>\<open>Other\<close>.  The wire encodings and their round trips relate both views.  The locale
  \<^verbatim>\<open>status_machine\<close> states what the clients of a transition table rely on, and is interpreted on
  each of the tables.
\<close>

section \<open>Plan status\<close>

datatype Status =
    StatusCreated | StatusDrafted | StatusReviewed | StatusApproved
  | StatusRequirementsGenerated | StatusScenariosGenerated | StatusScenariosReviewed
  | StatusReadyForExecution | StatusImplementing | StatusReviewingRollup | StatusComplete
  | StatusArchived | StatusRejected | StatusAwaitingReview | StatusChanged | StatusReadyForQA
  | StatusReviewingQA | StatusExploring | StatusDrafting | StatusReviewingDraft
  | StatusGeneratingRequirements | StatusGeneratingArchitecture | StatusGeneratingScenarios
  | StatusReviewingScenarios | StatusReviewingRequirements | StatusReviewingArchitecture
  | StatusPreparingStories | StatusRequirementsReviewed | StatusArchitectureGenerated
  | StatusArchitectureReviewed | StatusExplored | StatusStoriesGenerated | StatusOther bytes

text \<open>\<^verbatim>\<open>Status.String\<close>: the wire form of a status.\<close>

fun Status_String :: "Status \<Rightarrow> bytes" where
  "Status_String StatusCreated = ''created''"
| "Status_String StatusDrafted = ''drafted''"
| "Status_String StatusReviewed = ''reviewed''"
| "Status_String StatusApproved = ''approved''"
| "Status_String StatusRequirementsGenerated = ''requirements_generated''"
| "Status_String StatusScenariosGenerated = ''scenarios_generated''"
| "Status_String StatusScenariosReviewed = ''scenarios_reviewed''"
| "Status_String StatusReadyForExecution = ''ready_for_execution''"
| "Status_String StatusImplementing = ''implementing''"
| "Status_String StatusReviewingRollup = ''reviewing_rollup''"
| "Status_String StatusComplete = ''complete''"
| "Status_String StatusArchived = ''archived''"
| "Status_String StatusRejected = ''rejected''"
| "Status_String StatusAwaitingReview = ''awaiting_review''"
| "Status_String StatusChanged = ''changed''"
| "Status_String StatusReadyForQA = ''ready_for_qa''"
| "Status_String StatusReviewingQA = ''reviewing_qa''"
| "Status_String StatusExploring = ''exploring''"
| "Status_String StatusDrafting = ''drafting''"
| "Status_String StatusReviewingDraft = ''reviewing_draft''"
| "Status_String StatusGeneratingRequirements = ''generating_requirements''"
| "Status_String StatusGeneratingArchitecture = ''generating_architecture''"
| "Status_String StatusGeneratingScenarios = ''generating_scenarios''"
| "Status_String StatusReviewingScenarios = ''reviewing_scenarios''"
| "Status_String StatusReviewingRequirements = ''reviewing_requirements''"
| "Status_String StatusReviewingArchitecture = ''reviewing_architecture''"
| "Status_String StatusPreparingStories = ''preparing_stories''"
| "Status_String StatusRequirementsReviewed = ''requirements_reviewed''"
| "Status_String StatusArchitectureGenerated = ''architecture_generated''"
| "Status_String StatusArchitectureReviewed = ''architecture_reviewed''"
| "Status_String StatusExplored = ''explored''"
| "Status_String StatusStoriesGenerated = ''stories_generated''"
| "Status_String (StatusOther s) = s"

text \<open>The constants, and decoding: a string equal to a constant is that constant.\<close>

definition plan_statuses :: "Status list" where
  "plan_statuses = [
     StatusCreated, StatusDrafted, StatusReviewed, StatusApproved,
     StatusRequirementsGenerated, StatusScenariosGenerated, StatusScenariosReviewed,
     StatusReadyForExecution, StatusImplementing, StatusReviewingRollup, StatusComplete,
     StatusArchived, StatusRejected, StatusAwaitingReview, StatusChanged, StatusReadyForQA,
     StatusReviewingQA, StatusExploring, StatusDrafting, StatusReviewingDraft,
     StatusGeneratingRequirements, StatusGeneratingArchitecture, StatusGeneratingScenarios,
     StatusReviewingScenarios, StatusReviewingRequirements, StatusReviewingArchitecture,
     StatusPreparingStories, StatusRequirementsReviewed, StatusArchitectureGenerated,
     StatusArchitectureReviewed, StatusExplored, StatusStoriesGenerated]"

definition Status_of :: "bytes \<Rightarrow> Status" where
  "Status_of s = (case find (\<lambda>st. Status_String st = s) plan_statuses of
                    Some st \<Rightarrow> st | None \<Rightarrow> StatusOther s)"

fun Status_IsValid :: "Status \<Rightarrow> bool" where
  "Status_IsValid (StatusOther _) = False"
| "Status_IsValid _ = True"

definition Status_IsInProgress :: "Status \<Rightarrow> bool" where
  "Status_IsInProgress s \<longleftrightarrow> s \<in> {
     StatusExploring, StatusDrafting, StatusReviewingDraft, StatusGeneratingRequirements,
     StatusGeneratingArchitecture, StatusGeneratingScenarios, StatusReviewingScenarios,
     StatusReviewingRequirements, StatusReviewingArchitecture, StatusPreparingStories}"

text \<open>\<^verbatim>\<open>Status.CanTransitionTo\<close>: the plan pipeline.\<close>

fun allowed_targets :: "Status \<Rightarrow> Status list" where
  "allowed_targets StatusCreated =
     [StatusExploring, StatusDrafting, StatusDrafted, StatusRejected]"
| "allowed_targets StatusExploring =
     [StatusExplored, StatusRejected]"
| "allowed_targets StatusExplored =
     [StatusDrafting, StatusDrafted, StatusRejected]"
| "allowed_targets StatusDrafting =
     [StatusDrafted, StatusRejected]"
| "allowed_targets StatusDrafted =
     [StatusReviewingDraft, StatusRequirementsGenerated, StatusReviewed, StatusRejected]"
| "allowed_targets StatusReviewingDraft =
     [StatusReviewed, StatusCreated, StatusRejected]"
| "allowed_targets StatusReviewed =
     [StatusApproved, StatusRejected]"
| "allowed_targets StatusApproved =
     [StatusGeneratingRequirements, StatusRequirementsGenerated, StatusScenariosGenerated,
      StatusReadyForExecution, StatusRejected]"
| "allowed_targets StatusGeneratingRequirements =
     [StatusRequirementsGenerated, StatusRejected]"
| "allowed_targets StatusRequirementsGenerated =
     [StatusGeneratingArchitecture, StatusReviewingRequirements, StatusArchitectureGenerated,
      StatusChanged, StatusRejected]"
| "allowed_targets StatusReviewingRequirements =
     [StatusRequirementsReviewed, StatusApproved, StatusChanged, StatusRejected]"
| "allowed_targets StatusRequirementsReviewed =
     [StatusGeneratingArchitecture, StatusArchitectureGenerated, StatusChanged, StatusRejected]"
| "allowed_targets StatusGeneratingArchitecture =
     [StatusArchitectureGenerated, StatusRejected]"
| "allowed_targets StatusArchitectureGenerated =
     [StatusPreparingStories, StatusReviewingArchitecture, StatusChanged, StatusRejected]"
| "allowed_targets StatusReviewingArchitecture =
     [StatusArchitectureReviewed, StatusRequirementsGenerated, StatusChanged, StatusRejected]"
| "allowed_targets StatusArchitectureReviewed =
     [StatusPreparingStories, StatusChanged, StatusRejected]"
| "allowed_targets StatusPreparingStories =
     [StatusStoriesGenerated, StatusArchitectureGenerated, StatusRejected]"
| "allowed_targets StatusStoriesGenerated =
     [StatusGeneratingScenarios, StatusPreparingStories, StatusChanged, StatusRejected]"
| "allowed_targets StatusGeneratingScenarios =
     [StatusScenariosGenerated, StatusRejected]"
| "allowed_targets StatusScenariosGenerated =
     [StatusReviewingScenarios, StatusScenariosReviewed, StatusReviewed,
      StatusReadyForExecution, StatusChanged, StatusRejected]"
| "allowed_targets StatusReviewingScenarios =
     [StatusScenariosReviewed, StatusReviewed, StatusReadyForExecution, StatusApproved,
      StatusCreated, StatusRequirementsGenerated, StatusArchitectureGenerated, StatusRejected]"
| "allowed_targets StatusScenariosReviewed =
     [StatusReadyForExecution, StatusChanged, StatusRejected]"
| "allowed_targets StatusReadyForExecution =
     [StatusImplementing, StatusChanged, StatusRejected]"
| "allowed_targets StatusImplementing =
     [StatusReviewingRollup, StatusReviewingQA, StatusReadyForQA, StatusAwaitingReview,
      StatusComplete, StatusChanged, StatusPreparingStories, StatusRequirementsGenerated,
      StatusRejected]"
| "allowed_targets StatusReviewingRollup =
     [StatusAwaitingReview, StatusComplete, StatusRejected]"
| "allowed_targets StatusReadyForQA =
     [StatusReviewingQA, StatusRejected]"
| "allowed_targets StatusReviewingQA =
     [StatusComplete, StatusAwaitingReview, StatusRejected]"
| "allowed_targets StatusAwaitingReview =
     [StatusComplete, StatusReadyForExecution, StatusRejected, StatusArchived]"
| "allowed_targets StatusComplete =
     [StatusArchived, StatusReadyForExecution, StatusChanged]"
| "allowed_targets StatusArchived =
     [StatusComplete, StatusReadyForExecution]"
| "allowed_targets StatusChanged =
     [StatusGeneratingRequirements, StatusRejected]"
| "allowed_targets StatusRejected =
     [StatusApproved, StatusCreated, StatusRequirementsGenerated, StatusReadyForExecution,
      StatusImplementing]"
| "allowed_targets (StatusOther _) = []"

definition Status_CanTransitionTo :: "Status \<Rightarrow> Status \<Rightarrow> bool" where
  "Status_CanTransitionTo s t \<longleftrightarrow> t \<in> set (allowed_targets s)"

lemmas Status_CanTransitionTo_simps [status_simps] = Status_CanTransitionTo_def

section \<open>QA level\<close>

datatype QALevel = QALevelNone | QALevelSynthesis | QALevelUnit | QALevelIntegration
  | QALevelOther bytes

fun QALevel_String :: "QALevel \<Rightarrow> bytes" where
  "QALevel_String QALevelNone = ''none''"
| "QALevel_String QALevelSynthesis = ''synthesis''"
| "QALevel_String QALevelUnit = ''unit''"
| "QALevel_String QALevelIntegration = ''integration''"
| "QALevel_String (QALevelOther s) = s"

fun QALevel_IsValid :: "QALevel \<Rightarrow> bool" where
  "QALevel_IsValid (QALevelOther _) = False"
| "QALevel_IsValid _ = True"

definition QALevel_UsesSandboxTests :: "QALevel \<Rightarrow> bool" where
  "QALevel_UsesSandboxTests l \<longleftrightarrow> l = QALevelUnit \<or> l = QALevelIntegration"

section \<open>Requirement, scenario, story, task and decision status\<close>

datatype RequirementStatus = RequirementStatusActive | RequirementStatusDeprecated
  | RequirementStatusSuperseded | RequirementStatusOther bytes

fun RequirementStatus_IsValid :: "RequirementStatus \<Rightarrow> bool" where
  "RequirementStatus_IsValid (RequirementStatusOther _) = False"
| "RequirementStatus_IsValid _ = True"

fun RequirementStatus_CanTransitionTo :: "RequirementStatus \<Rightarrow> RequirementStatus \<Rightarrow> bool" where
  "RequirementStatus_CanTransitionTo RequirementStatusActive t \<longleftrightarrow>
     t = RequirementStatusDeprecated \<or> t = RequirementStatusSuperseded"
| "RequirementStatus_CanTransitionTo RequirementStatusSuperseded t \<longleftrightarrow>
     t = RequirementStatusActive"
| "RequirementStatus_CanTransitionTo RequirementStatusDeprecated t \<longleftrightarrow> False"
| "RequirementStatus_CanTransitionTo (RequirementStatusOther _) t \<longleftrightarrow> False"

datatype ScenarioStatus = ScenarioStatusPending | ScenarioStatusPassing | ScenarioStatusFailing
  | ScenarioStatusSkipped | ScenarioStatusOther bytes

fun ScenarioStatus_IsValid :: "ScenarioStatus \<Rightarrow> bool" where
  "ScenarioStatus_IsValid (ScenarioStatusOther _) = False"
| "ScenarioStatus_IsValid _ = True"

fun ScenarioStatus_CanTransitionTo :: "ScenarioStatus \<Rightarrow> ScenarioStatus \<Rightarrow> bool" where
  "ScenarioStatus_CanTransitionTo ScenarioStatusPending t \<longleftrightarrow>
     t = ScenarioStatusPassing \<or> t = ScenarioStatusFailing \<or> t = ScenarioStatusSkipped"
| "ScenarioStatus_CanTransitionTo ScenarioStatusPassing t \<longleftrightarrow> t = ScenarioStatusFailing"
| "ScenarioStatus_CanTransitionTo ScenarioStatusFailing t \<longleftrightarrow> t = ScenarioStatusPassing"
| "ScenarioStatus_CanTransitionTo ScenarioStatusSkipped t \<longleftrightarrow> t = ScenarioStatusPending"
| "ScenarioStatus_CanTransitionTo (ScenarioStatusOther _) t \<longleftrightarrow> False"

datatype StoryStatus = StoryStatusPending | StoryStatusReady | StoryStatusExecuting
  | StoryStatusComplete | StoryStatusFailed | StoryStatusOther bytes

fun StoryStatus_String :: "StoryStatus \<Rightarrow> bytes" where
  "StoryStatus_String StoryStatusPending = ''pending''"
| "StoryStatus_String StoryStatusReady = ''ready''"
| "StoryStatus_String StoryStatusExecuting = ''executing''"
| "StoryStatus_String StoryStatusComplete = ''complete''"
| "StoryStatus_String StoryStatusFailed = ''failed''"
| "StoryStatus_String (StoryStatusOther s) = s"

fun StoryStatus_IsValid :: "StoryStatus \<Rightarrow> bool" where
  "StoryStatus_IsValid (StoryStatusOther _) = False"
| "StoryStatus_IsValid _ = True"

fun StoryStatus_CanTransitionTo :: "StoryStatus \<Rightarrow> StoryStatus \<Rightarrow> bool" where
  "StoryStatus_CanTransitionTo StoryStatusPending t \<longleftrightarrow>
     t = StoryStatusReady \<or> t = StoryStatusFailed"
| "StoryStatus_CanTransitionTo StoryStatusReady t \<longleftrightarrow>
     t = StoryStatusExecuting \<or> t = StoryStatusFailed"
| "StoryStatus_CanTransitionTo StoryStatusExecuting t \<longleftrightarrow>
     t = StoryStatusComplete \<or> t = StoryStatusFailed"
| "StoryStatus_CanTransitionTo StoryStatusComplete t \<longleftrightarrow> t = StoryStatusReady"
| "StoryStatus_CanTransitionTo StoryStatusFailed t \<longleftrightarrow> t = StoryStatusPending"
| "StoryStatus_CanTransitionTo (StoryStatusOther _) t \<longleftrightarrow> False"

datatype TaskStatus = TaskStatusPending | TaskStatusDispatched | TaskStatusComplete
  | TaskStatusFailed | TaskStatusOther bytes

fun TaskStatus_IsValid :: "TaskStatus \<Rightarrow> bool" where
  "TaskStatus_IsValid (TaskStatusOther _) = False"
| "TaskStatus_IsValid _ = True"

fun TaskStatus_CanTransitionTo :: "TaskStatus \<Rightarrow> TaskStatus \<Rightarrow> bool" where
  "TaskStatus_CanTransitionTo TaskStatusPending t \<longleftrightarrow>
     t = TaskStatusDispatched \<or> t = TaskStatusFailed"
| "TaskStatus_CanTransitionTo TaskStatusDispatched t \<longleftrightarrow>
     t = TaskStatusComplete \<or> t = TaskStatusFailed \<or> t = TaskStatusPending"
| "TaskStatus_CanTransitionTo TaskStatusComplete t \<longleftrightarrow> t = TaskStatusPending"
| "TaskStatus_CanTransitionTo TaskStatusFailed t \<longleftrightarrow> t = TaskStatusPending"
| "TaskStatus_CanTransitionTo (TaskStatusOther _) t \<longleftrightarrow> False"

datatype PlanDecisionStatus = PlanDecisionStatusProposed | PlanDecisionStatusUnderReview
  | PlanDecisionStatusAccepted | PlanDecisionStatusRejected | PlanDecisionStatusArchived
  | PlanDecisionStatusOther bytes

fun PlanDecisionStatus_String :: "PlanDecisionStatus \<Rightarrow> bytes" where
  "PlanDecisionStatus_String PlanDecisionStatusProposed = ''proposed''"
| "PlanDecisionStatus_String PlanDecisionStatusUnderReview = ''under_review''"
| "PlanDecisionStatus_String PlanDecisionStatusAccepted = ''accepted''"
| "PlanDecisionStatus_String PlanDecisionStatusRejected = ''rejected''"
| "PlanDecisionStatus_String PlanDecisionStatusArchived = ''archived''"
| "PlanDecisionStatus_String (PlanDecisionStatusOther s) = s"

fun PlanDecisionStatus_IsValid :: "PlanDecisionStatus \<Rightarrow> bool" where
  "PlanDecisionStatus_IsValid (PlanDecisionStatusOther _) = False"
| "PlanDecisionStatus_IsValid _ = True"

fun PlanDecisionStatus_CanTransitionTo :: "PlanDecisionStatus \<Rightarrow> PlanDecisionStatus \<Rightarrow> bool" where
  "PlanDecisionStatus_CanTransitionTo PlanDecisionStatusProposed t \<longleftrightarrow>
     t = PlanDecisionStatusUnderReview \<or> t = PlanDecisionStatusAccepted
     \<or> t = PlanDecisionStatusArchived"
| "PlanDecisionStatus_CanTransitionTo PlanDecisionStatusUnderReview t \<longleftrightarrow>
     t = PlanDecisionStatusAccepted \<or> t = PlanDecisionStatusRejected
     \<or> t = PlanDecisionStatusArchived"
| "PlanDecisionStatus_CanTransitionTo PlanDecisionStatusAccepted t \<longleftrightarrow>
     t = PlanDecisionStatusArchived"
| "PlanDecisionStatus_CanTransitionTo PlanDecisionStatusRejected t \<longleftrightarrow>
     t = PlanDecisionStatusArchived"
| "PlanDecisionStatus_CanTransitionTo PlanDecisionStatusArchived t \<longleftrightarrow> False"
| "PlanDecisionStatus_CanTransitionTo (PlanDecisionStatusOther _) t \<longleftrightarrow> False"

section \<open>Kinds\<close>

datatype PlanDecisionKind = PlanDecisionKindRequirementChange
  | PlanDecisionKindExecutionExhausted | PlanDecisionKindStoryReprepare
  | PlanDecisionKindArchitectureRevise | PlanDecisionKindAssemblyConflict
  | PlanDecisionKindScopeIncomplete | PlanDecisionKindOther bytes

fun PlanDecisionKind_String :: "PlanDecisionKind \<Rightarrow> bytes" where
  "PlanDecisionKind_String PlanDecisionKindRequirementChange = ''requirement_change''"
| "PlanDecisionKind_String PlanDecisionKindExecutionExhausted = ''execution_exhausted''"
| "PlanDecisionKind_String PlanDecisionKindStoryReprepare = ''story_reprepare''"
| "PlanDecisionKind_String PlanDecisionKindArchitectureRevise = ''architecture_revise''"
| "PlanDecisionKind_String PlanDecisionKindAssemblyConflict = ''assembly_conflict''"
| "PlanDecisionKind_String PlanDecisionKindScopeIncomplete = ''scope_incomplete''"
| "PlanDecisionKind_String (PlanDecisionKindOther s) = s"

fun PlanDecisionKind_IsValid :: "PlanDecisionKind \<Rightarrow> bool" where
  "PlanDecisionKind_IsValid (PlanDecisionKindOther _) = False"
| "PlanDecisionKind_IsValid _ = True"

datatype ContractImpactKind = ContractImpactPreserve | ContractImpactRefine
  | ContractImpactChange | ContractImpactOther bytes

fun ContractImpactKind_IsValid :: "ContractImpactKind \<Rightarrow> bool" where
  "ContractImpactKind_IsValid (ContractImpactOther _) = False"
| "ContractImpactKind_IsValid _ = True"

datatype CapabilityLifecycle = CapabilityNew | CapabilityModified | CapabilityLifecycleOther bytes

fun CapabilityLifecycle_IsValid :: "CapabilityLifecycle \<Rightarrow> bool" where
  "CapabilityLifecycle_IsValid (CapabilityLifecycleOther _) = False"
| "CapabilityLifecycle_IsValid _ = True"

datatype CapabilitySurface = SurfaceUI | SurfaceAPI | SurfaceBackground | SurfaceOther bytes

fun CapabilitySurface_IsValid :: "CapabilitySurface \<Rightarrow> bool" where
  "CapabilitySurface_IsValid (SurfaceOther _) = False"
| "CapabilitySurface_IsValid _ = True"

section \<open>What the clients of a transition table rely on\<close>

text \<open>
  The clients check \<^verbatim>\<open>CanTransitionTo\<close> and then store the target.  They rely on the table
  relating valid statuses only and having no self loop: the second of two requests for the same
  target must be refused, which is how a claim is exclusive.
\<close>

locale status_machine =
  fixes can :: "'s \<Rightarrow> 's \<Rightarrow> bool"
    and valid :: "'s \<Rightarrow> bool"
  assumes can_source: "can s t \<Longrightarrow> valid s"
    and can_target: "can s t \<Longrightarrow> valid t"
    and can_irrefl: "\<not> can s s"
begin

lemma cas_twice_refused: "cas_status can s t = Some u \<Longrightarrow> cas_status can u t = None"
  by (auto simp: cas_status_def can_irrefl split: if_splits)

lemma cas_run_valid: "valid s \<Longrightarrow> valid (cas_run can s ts)"
  by (induction ts arbitrary: s) (auto simp: cas_status_def dest: can_target)

lemma cas_run_path: "can\<^sup>*\<^sup>* s (cas_run can s ts)"
proof (induction ts arbitrary: s)
  case (Cons t ts)
  then show ?case
    by (auto simp: cas_status_def intro: converse_rtranclp_into_rtranclp)
qed simp

lemma cas_run_stuck: "(\<And>t. \<not> can s t) \<Longrightarrow> cas_run can s ts = s"
  by (induction ts) (auto simp: cas_status_def)

text \<open>Any number of racing requests for one target succeed at most once.\<close>

lemma cas_race: "cas_successes can s (replicate n t) \<le> 1"
proof (induction n)
  case (Suc n)
  have "cas_successes can t (replicate m t) = 0" for m
    by (induction m) (auto simp: cas_status_def can_irrefl)
  with Suc show ?case by (auto simp: cas_status_def)
qed simp

end

lemmas transition_cases = Status.exhaust RequirementStatus.exhaust ScenarioStatus.exhaust
  StoryStatus.exhaust TaskStatus.exhaust PlanDecisionStatus.exhaust

lemma allowed_targets_valid: "t \<in> set (allowed_targets s) \<Longrightarrow> Status_IsValid s \<and> Status_IsValid t"
  by (cases s) auto

lemma allowed_targets_irrefl: "s \<notin> set (allowed_targets s)"
  by (cases s) auto

interpretation plan_sm: status_machine Status_CanTransitionTo Status_IsValid
  by unfold_locales
     (auto simp: Status_CanTransitionTo_def allowed_targets_irrefl dest: allowed_targets_valid)

interpretation requirement_sm:
  status_machine RequirementStatus_CanTransitionTo RequirementStatus_IsValid
proof
  show "RequirementStatus_CanTransitionTo s t \<Longrightarrow> RequirementStatus_IsValid s" for s t
    by (cases s) auto
  show "RequirementStatus_CanTransitionTo s t \<Longrightarrow> RequirementStatus_IsValid t" for s t
    by (cases s) auto
  show "\<not> RequirementStatus_CanTransitionTo s s" for s
    by (cases s) auto
qed

interpretation scenario_sm: status_machine ScenarioStatus_CanTransitionTo ScenarioStatus_IsValid
proof
  show "ScenarioStatus_CanTransitionTo s t \<Longrightarrow> ScenarioStatus_IsValid s" for s t
    by (cases s) auto
  show "ScenarioStatus_CanTransitionTo s t \<Longrightarrow> ScenarioStatus_IsValid t" for s t
    by (cases s) auto
  show "\<not> ScenarioStatus_CanTransitionTo s s" for s
    by (cases s) auto
qed

interpretation story_sm: status_machine StoryStatus_CanTransitionTo StoryStatus_IsValid
proof
  show "StoryStatus_CanTransitionTo s t \<Longrightarrow> StoryStatus_IsValid s" for s t
    by (cases s) auto
  show "StoryStatus_CanTransitionTo s t \<Longrightarrow> StoryStatus_IsValid t" for s t
    by (cases s) auto
  show "\<not> StoryStatus_CanTransitionTo s s" for s
    by (cases s) auto
qed

interpretation task_sm: status_machine TaskStatus_CanTransitionTo TaskStatus_IsValid
proof
  show "TaskStatus_CanTransitionTo s t \<Longrightarrow> TaskStatus_IsValid s" for s t
    by (cases s) auto
  show "TaskStatus_CanTransitionTo s t \<Longrightarrow> TaskStatus_IsValid t" for s t
    by (cases s) auto
  show "\<not> TaskStatus_CanTransitionTo s s" for s
    by (cases s) auto
qed

interpretation decision_sm:
  status_machine PlanDecisionStatus_CanTransitionTo PlanDecisionStatus_IsValid
proof
  show "PlanDecisionStatus_CanTransitionTo s t \<Longrightarrow> PlanDecisionStatus_IsValid s" for s t
    by (cases s) auto
  show "PlanDecisionStatus_CanTransitionTo s t \<Longrightarrow> PlanDecisionStatus_IsValid t" for s t
    by (cases s) auto
  show "\<not> PlanDecisionStatus_CanTransitionTo s s" for s
    by (cases s) auto
qed

section \<open>The pipeline\<close>

lemma Status_of_String: "Status_String (Status_of s) = s"
  by (auto simp: Status_of_def dest!: find_SomeD split: option.split)

lemma in_progress_targets:
  "Status_IsInProgress s \<Longrightarrow> Status_CanTransitionTo s t \<Longrightarrow> \<not> Status_IsInProgress t"
  unfolding Status_IsInProgress_def Status_CanTransitionTo_def by auto

lemma in_progress_rejectable: "Status_IsInProgress s \<Longrightarrow> Status_CanTransitionTo s StatusRejected"
  unfolding Status_IsInProgress_def Status_CanTransitionTo_def by auto

text \<open>Paths of the table, by successive targets.\<close>

fun path_ok :: "Status \<Rightarrow> Status list \<Rightarrow> bool" where
  "path_ok s [] = True"
| "path_ok s (t # ts) = (Status_CanTransitionTo s t \<and> path_ok t ts)"

lemma path_ok_reach: "path_ok s ts \<Longrightarrow> Status_CanTransitionTo\<^sup>*\<^sup>* s (last (s # ts))"
proof (induction ts arbitrary: s)
  case (Cons t ts)
  then have "Status_CanTransitionTo s t" "Status_CanTransitionTo\<^sup>*\<^sup>* t (last (t # ts))" by auto
  then show ?case by (simp add: converse_rtranclp_into_rtranclp)
qed simp

lemma status_reaches:
  "path_ok s ts \<Longrightarrow> last (s # ts) = t \<Longrightarrow> Status_CanTransitionTo\<^sup>*\<^sup>* s t"
  using path_ok_reach by blast

text \<open>The regular course of a plan, from creation to completion, and the entry of every other
  status into it.\<close>

definition pipeline :: "Status list" where
  "pipeline = [StatusCreated, StatusExploring, StatusExplored, StatusDrafting, StatusDrafted,
     StatusReviewingDraft, StatusReviewed, StatusApproved, StatusGeneratingRequirements,
     StatusRequirementsGenerated, StatusReviewingRequirements, StatusRequirementsReviewed,
     StatusGeneratingArchitecture, StatusArchitectureGenerated, StatusReviewingArchitecture,
     StatusArchitectureReviewed, StatusPreparingStories, StatusStoriesGenerated,
     StatusGeneratingScenarios, StatusScenariosGenerated, StatusReviewingScenarios,
     StatusScenariosReviewed, StatusReadyForExecution, StatusImplementing, StatusReadyForQA,
     StatusReviewingQA, StatusAwaitingReview, StatusComplete]"

lemma pipeline_ok: "path_ok (hd pipeline) (tl pipeline)"
  by (simp add: pipeline_def Status_CanTransitionTo_def)

lemma path_ok_append: "path_ok s (xs @ t # ys) \<Longrightarrow> path_ok t ys"
  by (induction xs arbitrary: s) auto

lemma pipeline_completes:
  assumes "s \<in> set pipeline"
  shows "Status_CanTransitionTo\<^sup>*\<^sup>* s StatusComplete"
proof -
  obtain xs ys where p: "pipeline = xs @ s # ys" using split_list [OF assms] by blast
  have "path_ok s ys"
  proof (cases xs)
    case Nil
    then show ?thesis using pipeline_ok [unfolded p] by simp
  next
    case (Cons x xs')
    then have "path_ok x (xs' @ s # ys)" using pipeline_ok [unfolded p] by simp
    then show ?thesis by (rule path_ok_append)
  qed
  moreover have "last (s # ys) = last pipeline" unfolding p by simp
  ultimately show ?thesis by (intro status_reaches) (auto simp: pipeline_def)
qed

text \<open>no valid plan status is a dead end: from every one the transition table still leads to
  complete.\<close>

theorem status_completable:
  assumes "Status_IsValid s"
  shows "Status_CanTransitionTo\<^sup>*\<^sup>* s StatusComplete"
proof (cases "s \<in> set pipeline")
  case True
  then show ?thesis by (rule pipeline_completes)
next
  case False
  then obtain t where "Status_CanTransitionTo s t" "t \<in> set pipeline"
    using assms by (cases s) (force simp: pipeline_def Status_CanTransitionTo_def)+
  then show ?thesis by (blast intro: converse_rtranclp_into_rtranclp pipeline_completes)
qed

theorem status_completable_witness:
  "Status_CanTransitionTo\<^sup>*\<^sup>* StatusRejected StatusComplete"
  by (rule status_completable) simp


end
