(* ===== verification/Plan_Types.thy ===== *)
theory Plan_Types
  imports Status
begin

text \<open>
  The data of a plan, one record per struct of \<^verbatim>\<open>src/workflow/types.go\<close>,
  \<^verbatim>\<open>src/workflow/story_task.go\<close>, \<^verbatim>\<open>src/workflow/subjects.go\<close> and
  \<^verbatim>\<open>src/workflow/plan_review_result.go\<close>.  A field keeps its Go name behind a prefix for the
  struct (\<^verbatim>\<open>p_Status\<close> is \<^verbatim>\<open>Plan.Status\<close>); a time stamp is a natural number
  (0 is the zero time), a pointer is an option, a slice a list, a Go map of strings a partial map.
  The saved architecture text \<^verbatim>\<open>PreviousArchitectureJSON\<close> is kept decoded.  The section on
  lookups translates the accessors of \<^verbatim>\<open>Plan\<close>.
\<close>

section \<open>Findings, QA and GitHub metadata\<close>

record PlanReviewFinding =
  f_SOPID :: "bytes"
  f_SOPTitle :: "bytes"
  f_Severity :: "bytes"
  f_Status :: "bytes"
  f_Category :: "bytes"
  f_Phase :: "bytes"
  f_TargetID :: "bytes"
  f_Action :: "bytes"
  f_TargetField :: "bytes"
  f_TargetValue :: "bytes"
  f_Issue :: "bytes"
  f_Suggestion :: "bytes"
  f_Evidence :: "bytes"

text \<open>\<^verbatim>\<open>Plan.ReviewFindings\<close> is raw JSON: absent, not decodable as findings, or the
  encoding of a list of findings.\<close>

datatype RawFindings = RawEmpty | RawInvalid bytes | RawFindings "PlanReviewFinding list"

record QAFailure =
  qf_JobName :: "bytes"
  qf_StepName :: "bytes"
  qf_TestName :: "bytes"
  qf_Category :: "bytes"
  qf_Message :: "bytes"
  qf_LogExcerpt :: "bytes"

record QASkippedTest =
  qs_Suite :: "bytes"
  qs_Name :: "bytes"
  qs_File :: "bytes"

record QAArtifactRef =
  qart_Path :: "bytes"
  qart_Type :: "bytes"
  qart_Purpose :: "bytes"

record QAVerdictDimensions =
  qd_RequirementFulfillment :: "bytes"
  qd_CapabilityEvidence :: "bytes"
  qd_Coverage :: "bytes"
  qd_AssertionQuality :: "bytes"
  qd_RegressionSurface :: "bytes"
  qd_FlakeJudgment :: "bytes"

datatype QAVerdict = QAVerdictApproved | QAVerdictConditionallyApproved | QAVerdictNeedsChanges
  | QAVerdictRejected | QAVerdictOther bytes

record QARun =
  qr_RunID :: "bytes"
  qr_Passed :: "bool"
  qr_Failures :: "QAFailure list"
  qr_SkippedTests :: "QASkippedTest list"
  qr_Artifacts :: "QAArtifactRef list"
  qr_DurationMs :: "int"
  qr_RunnerError :: "bytes"
  qr_TraceID :: "bytes"
  qr_CompletedAt :: "nat"

record QAVerdictSummary =
  qv_Verdict :: "QAVerdict"
  qv_Level :: "QALevel"
  qv_Summary :: "bytes"
  qv_Dimensions :: "QAVerdictDimensions"
  qv_RecordedAt :: "nat"

record GitHubMetadata =
  gh_IssueNumber :: "int"
  gh_IssueURL :: "bytes"
  gh_Repository :: "bytes"
  gh_PlanBranch :: "bytes"
  gh_PRNumber :: "int"
  gh_PRURL :: "bytes"
  gh_PRRevision :: "int"
  gh_LastProcessedReviewID :: "int"
  gh_PRState :: "bytes"
  gh_LatestFeedback :: "bytes"
  gh_LastSynced :: "nat"


section \<open>Requirements, scenarios, tasks, stories and decisions\<close>

record Requirement =
  r_ID :: "bytes"
  r_PlanID :: "bytes"
  r_Title :: "bytes"
  r_Description :: "bytes"
  r_AcceptanceCriteria :: "bytes list"
  r_Status :: "RequirementStatus"
  r_DependsOn :: "bytes list"
  r_CapabilityName :: "bytes"
  r_RecoveryHint :: "bytes"
  r_CreatedAt :: "nat"
  r_UpdatedAt :: "nat"

record Scenario =
  sc_ID :: "bytes"
  sc_RequirementID :: "bytes"
  sc_StoryID :: "bytes"
  sc_Title :: "bytes"
  sc_Given :: "bytes"
  sc_When :: "bytes"
  sc_Then :: "bytes list"
  sc_Status :: "ScenarioStatus"
  sc_Tags :: "bytes list"
  sc_HarnessProfileIDs :: "bytes list"
  sc_Env :: "bytes \<rightharpoonup> bytes"
  sc_RequiredAssertions :: "bytes list"
  sc_CreatedAt :: "nat"
  sc_UpdatedAt :: "nat"

record Task =
  t_ID :: "bytes"
  t_StoryID :: "bytes"
  t_Description :: "bytes"
  t_DependsOn :: "bytes list"
  t_Status :: "TaskStatus"
  t_CreatedAt :: "nat"
  t_UpdatedAt :: "nat"

record Story =
  s_ID :: "bytes"
  s_ComponentName :: "bytes"
  s_RequirementIDs :: "bytes list"
  s_CapabilityNames :: "bytes list"
  s_Title :: "bytes"
  s_Intent :: "bytes"
  s_FilesOwned :: "bytes list"
  s_DependsOn :: "bytes list"
  s_Tasks :: "Task list"
  s_Status :: "StoryStatus"
  s_PreparedBy :: "bytes"
  s_PreparedAt :: "nat option"
  s_RecoveryHint :: "bytes"
  s_CreatedAt :: "nat"
  s_UpdatedAt :: "nat"

record ContractImpact =
  ci_Kind :: "ContractImpactKind"
  ci_Summary :: "bytes"
  ci_AffectedIDs :: "bytes list"

record ArtifactRef =
  ar_Path :: "bytes"
  ar_Type :: "bytes"
  ar_Purpose :: "bytes"

record PlanDecision =
  d_ID :: "bytes"
  d_PlanID :: "bytes"
  d_Kind :: "PlanDecisionKind"
  d_Title :: "bytes"
  d_Rationale :: "bytes"
  d_Status :: "PlanDecisionStatus"
  d_ProposedBy :: "bytes"
  d_AffectedReqIDs :: "bytes list"
  d_AffectedStoryIDs :: "bytes list"
  d_RejectionReasons :: "bytes \<rightharpoonup> bytes"
  d_ContractImpact :: "ContractImpact option"
  d_ArtifactReferences :: "ArtifactRef list"
  d_CreatedAt :: "nat"
  d_ReviewedAt :: "nat option"
  d_DecidedAt :: "nat option"


section \<open>Exploration, contract and architecture\<close>

record Capability =
  cap_Name :: "bytes"
  cap_Lifecycle :: "CapabilityLifecycle"
  cap_Description :: "bytes"
  cap_DependsOn :: "bytes list"
  cap_Surfaces :: "CapabilitySurface list"

record Exploration =
  e_Capabilities :: "Capability list"
  e_OpenQuestions :: "bytes list"

record Scope =
  scope_Include :: "bytes list"
  scope_Exclude :: "bytes list"
  scope_DoNotTouch :: "bytes list"
  scope_Create :: "bytes list"

record ContractScopeSnapshot =
  cs_Include :: "bytes list"
  cs_Exclude :: "bytes list"
  cs_DoNotTouch :: "bytes list"
  cs_Create :: "bytes list"

record ContractSourceRef =
  csr_Kind :: "bytes"
  csr_Ref :: "bytes"
  csr_Digest :: "bytes"

record TopologyFact =
  tf_Kind :: "bytes"
  tf_Path :: "bytes"
  tf_Value :: "bytes"
  tf_Evidence :: "bytes list"

record ContractAmendment =
  am_ID :: "bytes"
  am_PlanDecisionID :: "bytes"
  am_Impact :: "ContractImpact"
  am_CreatedAt :: "nat"

record ContractValidationFinding =
  cvf_ID :: "bytes"
  cvf_Severity :: "bytes"
  cvf_Category :: "bytes"
  cvf_Message :: "bytes"
  cvf_Evidence :: "bytes list"
  cvf_CreatedAt :: "nat"

record ContractPacket =
  cp_ID :: "bytes"
  cp_Version :: "int"
  cp_Brief :: "bytes"
  cp_SourceRefs :: "ContractSourceRef list"
  cp_Constraints :: "bytes list"
  cp_AcceptanceObligations :: "bytes list"
  cp_ForbiddenMoves :: "bytes list"
  cp_Scope :: "ContractScopeSnapshot"
  cp_TopologyFacts :: "TopologyFact list"
  cp_Amendments :: "ContractAmendment list"
  cp_ValidationFindings :: "ContractValidationFinding list"
  cp_CreatedAt :: "nat"

record IntegrationFlow =
  if_Name :: "bytes"
  if_ComponentsInvolved :: "bytes list"
  if_Description :: "bytes"
  if_ScenarioRefs :: "bytes list"

record E2EFlow =
  ef_Actor :: "bytes"
  ef_Steps :: "bytes list"
  ef_SuccessCriteria :: "bytes list"

record TestSurface =
  ts_IntegrationFlows :: "IntegrationFlow list"
  ts_E2EFlows :: "E2EFlow list"

record TechChoice =
  tc_Category :: "bytes"
  tc_Choice :: "bytes"
  tc_Rationale :: "bytes"

record ComponentDef =
  comp_Name :: "bytes"
  comp_Responsibility :: "bytes"
  comp_Dependencies :: "bytes list"
  comp_UpstreamRefs :: "bytes list"
  comp_ImplementationFiles :: "bytes list"
  comp_CapabilityIndices :: "int list"
  comp_Capabilities :: "bytes list"

record ArchDecision =
  ad_ID :: "bytes"
  ad_Title :: "bytes"
  ad_Decision :: "bytes"
  ad_Rationale :: "bytes"

record ActorDef =
  actor_Name :: "bytes"
  actor_Type :: "bytes"
  actor_Triggers :: "bytes list"
  actor_Permissions :: "bytes list"

record IntegrationPoint =
  ip_Name :: "bytes"
  ip_Direction :: "bytes"
  ip_Protocol :: "bytes"
  ip_Contract :: "bytes"
  ip_ErrorMode :: "bytes"

record HarnessProfileSelection =
  hps_ProfileID :: "bytes"
  hps_UsedBy :: "bytes list"
  hps_Purpose :: "bytes"
  hps_Covers :: "bytes list"

record APISurface =
  api_Symbol :: "bytes"
  api_Import :: "bytes"
  api_Artifact :: "bytes"
  api_Kind :: "bytes"
  api_Signature :: "bytes"
  api_Lifecycle :: "bytes"
  api_Notes :: "bytes"
  api_Citation :: "bytes"

record UpstreamResolution =
  ur_Name :: "bytes"
  ur_Coordinate :: "bytes"
  ur_SourceRef :: "bytes"
  ur_ResolutionKind :: "bytes"
  ur_APIs :: "APISurface list"
  ur_UsedBy :: "bytes list"
  ur_Role :: "bytes"

record ArchitectureDocument =
  a_TechnologyChoices :: "TechChoice list"
  a_ComponentBoundaries :: "ComponentDef list"
  a_DataFlow :: "bytes"
  a_Decisions :: "ArchDecision list"
  a_Actors :: "ActorDef list"
  a_Integrations :: "IntegrationPoint list"
  a_TestSurface :: "TestSurface option"
  a_UpstreamResolutions :: "UpstreamResolution list"
  a_HarnessProfiles :: "HarnessProfileSelection list"

record ArchitectureRevisionScope =
  ars_ProposalID :: "bytes"
  ars_RequirementIDs :: "bytes list"
  ars_StoryIDs :: "bytes list"


section \<open>The plan\<close>

record IterationCalls =
  ic_Iteration :: "int"
  ic_LLMRequestIDs :: "bytes list"
  ic_Verdict :: "bytes"

record LLMCallHistory =
  lh_PlanReview :: "IterationCalls list"

record Plan =
  p_ID :: "bytes"
  p_Slug :: "bytes"
  p_Title :: "bytes"
  p_ProjectID :: "bytes"
  p_Status :: "Status"
  p_Approved :: "bool"
  p_CreatedAt :: "nat"
  p_ApprovedAt :: "nat option"
  p_ReviewVerdict :: "bytes"
  p_ReviewSummary :: "bytes"
  p_ReviewedAt :: "nat option"
  p_ReviewFindings :: "RawFindings"
  p_ReviewFormattedFindings :: "bytes"
  p_ReviewIteration :: "int"
  p_AutoRejectOnExhaustion :: "bool option"
  p_LastError :: "bytes"
  p_LastErrorAt :: "nat option"
  p_Goal :: "bytes"
  p_Context :: "bytes"
  p_Constraints :: "bytes list"
  p_Contract :: "ContractPacket option"
  p_Scope :: "Scope"
  p_Exploration :: "Exploration option"
  p_ExecutionTraceIDs :: "bytes list"
  p_LLMCallHistory :: "LLMCallHistory option"
  p_SkipArchitecture :: "bool"
  p_Architecture :: "ArchitectureDocument option"
  p_PreviousArchitectureJSON :: "ArchitectureDocument option"
  p_PendingArchitectureRevision :: "ArchitectureRevisionScope option"
  p_Requirements :: "Requirement list"
  p_Scenarios :: "Scenario list"
  p_Stories :: "Story list"
  p_PlanDecisions :: "PlanDecision list"
  p_GitHub :: "GitHubMetadata option"
  p_QALevel :: "QALevel"
  p_QARun :: "QARun option"
  p_QAVerdictSummary :: "QAVerdictSummary option"
  p_AssembledBranch :: "bytes"
  p_AssembledMergeCommit :: "bytes"
  p_InfraHealth :: "bytes"

section \<open>Zero values\<close>

text \<open>The Go zero values of the structs: the base of every literal that names only some fields.\<close>

definition PlanReviewFinding_zero :: PlanReviewFinding where
  "PlanReviewFinding_zero =
     \<lparr>f_SOPID = [], f_SOPTitle = [], f_Severity = [], f_Status = [], f_Category = [],
      f_Phase = [], f_TargetID = [], f_Action = [], f_TargetField = [], f_TargetValue = [],
      f_Issue = [], f_Suggestion = [], f_Evidence = []\<rparr>"

definition Requirement_zero :: Requirement where
  "Requirement_zero =
     \<lparr>r_ID = [], r_PlanID = [], r_Title = [], r_Description = [], r_AcceptanceCriteria = [],
      r_Status = RequirementStatusOther [], r_DependsOn = [], r_CapabilityName = [],
      r_RecoveryHint = [], r_CreatedAt = 0, r_UpdatedAt = 0\<rparr>"

definition Scenario_zero :: Scenario where
  "Scenario_zero =
     \<lparr>sc_ID = [], sc_RequirementID = [], sc_StoryID = [], sc_Title = [], sc_Given = [],
      sc_When = [], sc_Then = [], sc_Status = ScenarioStatusOther [], sc_Tags = [],
      sc_HarnessProfileIDs = [], sc_Env = Map.empty, sc_RequiredAssertions = [], sc_CreatedAt = 0,
      sc_UpdatedAt = 0\<rparr>"

definition Task_zero :: Task where
  "Task_zero =
     \<lparr>t_ID = [], t_StoryID = [], t_Description = [], t_DependsOn = [],
      t_Status = TaskStatusOther [], t_CreatedAt = 0, t_UpdatedAt = 0\<rparr>"

definition Story_zero :: Story where
  "Story_zero =
     \<lparr>s_ID = [], s_ComponentName = [], s_RequirementIDs = [], s_CapabilityNames = [],
      s_Title = [], s_Intent = [], s_FilesOwned = [], s_DependsOn = [], s_Tasks = [],
      s_Status = StoryStatusOther [], s_PreparedBy = [], s_PreparedAt = None, s_RecoveryHint = [],
      s_CreatedAt = 0, s_UpdatedAt = 0\<rparr>"

definition ContractImpact_zero :: ContractImpact where
  "ContractImpact_zero =
     \<lparr>ci_Kind = ContractImpactOther [], ci_Summary = [], ci_AffectedIDs = []\<rparr>"

definition PlanDecision_zero :: PlanDecision where
  "PlanDecision_zero =
     \<lparr>d_ID = [], d_PlanID = [], d_Kind = PlanDecisionKindOther [], d_Title = [],
      d_Rationale = [], d_Status = PlanDecisionStatusOther [], d_ProposedBy = [],
      d_AffectedReqIDs = [], d_AffectedStoryIDs = [], d_RejectionReasons = Map.empty,
      d_ContractImpact = None, d_ArtifactReferences = [], d_CreatedAt = 0, d_ReviewedAt = None,
      d_DecidedAt = None\<rparr>"

definition Capability_zero :: Capability where
  "Capability_zero =
     \<lparr>cap_Name = [], cap_Lifecycle = CapabilityLifecycleOther [], cap_Description = [],
      cap_DependsOn = [], cap_Surfaces = []\<rparr>"

definition Exploration_zero :: Exploration where
  "Exploration_zero =
     \<lparr>e_Capabilities = [], e_OpenQuestions = []\<rparr>"

definition Scope_zero :: Scope where
  "Scope_zero =
     \<lparr>scope_Include = [], scope_Exclude = [], scope_DoNotTouch = [],
      scope_Create = []\<rparr>"

definition ContractScopeSnapshot_zero :: ContractScopeSnapshot where
  "ContractScopeSnapshot_zero =
     \<lparr>cs_Include = [], cs_Exclude = [], cs_DoNotTouch = [], cs_Create = []\<rparr>"

definition ContractPacket_zero :: ContractPacket where
  "ContractPacket_zero =
     \<lparr>cp_ID = [], cp_Version = 0, cp_Brief = [], cp_SourceRefs = [], cp_Constraints = [],
      cp_AcceptanceObligations = [], cp_ForbiddenMoves = [], cp_Scope = ContractScopeSnapshot_zero,
      cp_TopologyFacts = [], cp_Amendments = [], cp_ValidationFindings = [],
      cp_CreatedAt = 0\<rparr>"

definition ComponentDef_zero :: ComponentDef where
  "ComponentDef_zero =
     \<lparr>comp_Name = [], comp_Responsibility = [], comp_Dependencies = [],
      comp_UpstreamRefs = [], comp_ImplementationFiles = [], comp_CapabilityIndices = [],
      comp_Capabilities = []\<rparr>"

definition ArchitectureDocument_zero :: ArchitectureDocument where
  "ArchitectureDocument_zero =
     \<lparr>a_TechnologyChoices = [], a_ComponentBoundaries = [], a_DataFlow = [],
      a_Decisions = [], a_Actors = [], a_Integrations = [], a_TestSurface = None,
      a_UpstreamResolutions = [], a_HarnessProfiles = []\<rparr>"

definition ArchitectureRevisionScope_zero :: ArchitectureRevisionScope where
  "ArchitectureRevisionScope_zero =
     \<lparr>ars_ProposalID = [], ars_RequirementIDs = [], ars_StoryIDs = []\<rparr>"

definition QAVerdictDimensions_zero :: QAVerdictDimensions where
  "QAVerdictDimensions_zero =
     \<lparr>qd_RequirementFulfillment = [], qd_CapabilityEvidence = [], qd_Coverage = [],
      qd_AssertionQuality = [], qd_RegressionSurface = [], qd_FlakeJudgment = []\<rparr>"

definition GitHubMetadata_zero :: GitHubMetadata where
  "GitHubMetadata_zero =
     \<lparr>gh_IssueNumber = 0, gh_IssueURL = [], gh_Repository = [], gh_PlanBranch = [],
      gh_PRNumber = 0, gh_PRURL = [], gh_PRRevision = 0, gh_LastProcessedReviewID = 0,
      gh_PRState = [], gh_LatestFeedback = [], gh_LastSynced = 0\<rparr>"

definition Plan_zero :: Plan where
  "Plan_zero =
     \<lparr>p_ID = [], p_Slug = [], p_Title = [], p_ProjectID = [], p_Status = StatusOther [],
      p_Approved = False, p_CreatedAt = 0, p_ApprovedAt = None, p_ReviewVerdict = [],
      p_ReviewSummary = [], p_ReviewedAt = None, p_ReviewFindings = RawEmpty,
      p_ReviewFormattedFindings = [], p_ReviewIteration = 0, p_AutoRejectOnExhaustion = None,
      p_LastError = [], p_LastErrorAt = None, p_Goal = [], p_Context = [], p_Constraints = [],
      p_Contract = None, p_Scope = Scope_zero, p_Exploration = None, p_ExecutionTraceIDs = [],
      p_LLMCallHistory = None, p_SkipArchitecture = False, p_Architecture = None,
      p_PreviousArchitectureJSON = None, p_PendingArchitectureRevision = None, p_Requirements = [],
      p_Scenarios = [], p_Stories = [], p_PlanDecisions = [], p_GitHub = None,
      p_QALevel = QALevelOther [], p_QARun = None, p_QAVerdictSummary = None,
      p_AssembledBranch = [], p_AssembledMergeCommit = [], p_InfraHealth = []\<rparr>"

lemmas zero_defs = PlanReviewFinding_zero_def Requirement_zero_def Scenario_zero_def Task_zero_def Story_zero_def ContractImpact_zero_def PlanDecision_zero_def Capability_zero_def Exploration_zero_def Scope_zero_def ContractScopeSnapshot_zero_def ContractPacket_zero_def ComponentDef_zero_def ArchitectureDocument_zero_def ArchitectureRevisionScope_zero_def QAVerdictDimensions_zero_def GitHubMetadata_zero_def Plan_zero_def

text \<open>Literals for the concrete instances of the properties.\<close>

definition ex_story :: "bytes \<Rightarrow> bytes \<Rightarrow> bytes list \<Rightarrow> bytes list \<Rightarrow> Story" where
  "ex_story i c reqs files =
     Story_zero\<lparr>s_ID := i, s_ComponentName := c, s_RequirementIDs := reqs, s_FilesOwned := files\<rparr>"

definition ex_req :: "bytes \<Rightarrow> bytes list \<Rightarrow> Requirement" where
  "ex_req i deps = Requirement_zero\<lparr>r_ID := i, r_DependsOn := deps\<rparr>"

section \<open>Lookups\<close>

abbreviation StatusEmpty :: Status where
  "StatusEmpty \<equiv> StatusOther []"

definition EffectiveQALevel :: "Plan \<Rightarrow> QALevel" where
  "EffectiveQALevel p = (if \<not> QALevel_IsValid (p_QALevel p) then QALevelSynthesis else p_QALevel p)"

text \<open>The index-returning accessors: the first element with the given ID and its position.\<close>

fun find_at :: "('a \<Rightarrow> bool) \<Rightarrow> nat \<Rightarrow> 'a list \<Rightarrow> ('a \<times> nat) option" where
  "find_at P i [] = None"
| "find_at P i (x # xs) = (if P x then Some (x, i) else find_at P (Suc i) xs)"

definition FindRequirement :: "Plan \<Rightarrow> bytes \<Rightarrow> (Requirement \<times> nat) option" where
  "FindRequirement p i = find_at (\<lambda>r. r_ID r = i) 0 (p_Requirements p)"

definition FindScenario :: "Plan \<Rightarrow> bytes \<Rightarrow> (Scenario \<times> nat) option" where
  "FindScenario p i = find_at (\<lambda>s. sc_ID s = i) 0 (p_Scenarios p)"

definition ScenariosForRequirement :: "Plan \<Rightarrow> bytes \<Rightarrow> Scenario list" where
  "ScenariosForRequirement p rid = filter (\<lambda>s. sc_RequirementID s = rid) (p_Scenarios p)"

definition FindPlanDecision :: "Plan \<Rightarrow> bytes \<Rightarrow> (PlanDecision \<times> nat) option" where
  "FindPlanDecision p i = find_at (\<lambda>d. d_ID d = i) 0 (p_PlanDecisions p)"

definition FindStory :: "Plan \<Rightarrow> bytes \<Rightarrow> (Story \<times> nat) option" where
  "FindStory p i = find_at (\<lambda>s. s_ID s = i) 0 (p_Stories p)"

definition StoriesForRequirement :: "Plan \<Rightarrow> bytes \<Rightarrow> Story list" where
  "StoriesForRequirement p rid = filter (\<lambda>s. rid \<in> set (s_RequirementIDs s)) (p_Stories p)"

fun find_task :: "bytes \<Rightarrow> nat \<Rightarrow> Story list \<Rightarrow> (Task \<times> nat \<times> nat) option" where
  "find_task i si [] = None"
| "find_task i si (s # ss) =
     (case find_at (\<lambda>t. t_ID t = i) 0 (s_Tasks s) of
        Some (t, ti) \<Rightarrow> Some (t, si, ti)
      | None \<Rightarrow> find_task i (Suc si) ss)"

definition FindTask :: "Plan \<Rightarrow> bytes \<Rightarrow> (Task \<times> nat \<times> nat) option" where
  "FindTask p i = find_task i 0 (p_Stories p)"

definition ScenariosForStory :: "Plan \<Rightarrow> bytes \<Rightarrow> Scenario list" where
  "ScenariosForStory p sid = filter (\<lambda>s. sc_StoryID s = sid) (p_Scenarios p)"

definition FindCapability :: "Exploration option \<Rightarrow> bytes \<Rightarrow> (Capability \<times> nat) option" where
  "FindCapability e name = (case e of None \<Rightarrow> None
     | Some ex \<Rightarrow> find_at (\<lambda>c. cap_Name c = name) 0 (e_Capabilities ex))"

definition EffectiveStatus :: "Plan \<Rightarrow> Status" where
  "EffectiveStatus p =
     (if p_Status p \<noteq> StatusEmpty then p_Status p
      else if p_Approved p then StatusApproved
      else if p_ReviewVerdict p = ''needs_changes'' then StatusReviewed
      else if p_ReviewVerdict p = ''approved'' then StatusReviewed
      else if p_Goal p \<noteq> [] \<and> p_Context p \<noteq> [] then StatusDrafted
      else if p_Exploration p \<noteq> None then StatusExplored
      else StatusCreated)"

definition DeterministicStoryOwner :: "Story \<Rightarrow> bytes" where
  "DeterministicStoryOwner s =
     (if s_RequirementIDs s = [] then [] else hd (sort (s_RequirementIDs s)))"

definition PrimaryRequirementID :: "Story \<Rightarrow> bytes" where
  "PrimaryRequirementID s = (case s_RequirementIDs s of r # _ \<Rightarrow> r | [] \<Rightarrow> [])"

definition IsTierTag :: "bytes \<Rightarrow> bool" where
  "IsTierTag s \<longleftrightarrow> s \<in> {''@unit'', ''@integration'', ''@smoke'', ''@e2e''}"

subsection \<open>Lemmas on lookups\<close>

lemma find_at_SomeD: "find_at P i xs = Some (x, j) \<Longrightarrow> i \<le> j \<and> j < i + length xs \<and> xs ! (j - i) = x \<and> P x"
proof (induction xs arbitrary: i)
  case (Cons a xs)
  show ?case
  proof (cases "P a")
    case False
    then have "Suc i \<le> j \<and> j < Suc i + length xs \<and> xs ! (j - Suc i) = x \<and> P x"
      using Cons.IH [of "Suc i"] Cons.prems by simp
    then show ?thesis by (auto simp: nth_Cons')
  qed (use Cons.prems in auto)
qed simp

lemma find_at_0_SomeD: "find_at P 0 xs = Some (x, j) \<Longrightarrow> j < length xs \<and> xs ! j = x \<and> P x"
  using find_at_SomeD by fastforce

lemma find_at_None: "find_at P i xs = None \<longleftrightarrow> (\<forall>x \<in> set xs. \<not> P x)"
  by (induction xs arbitrary: i) auto

lemma EffectiveStatus_valid: "p_Status p = StatusEmpty \<or> Status_IsValid (p_Status p) \<Longrightarrow>
    Status_IsValid (EffectiveStatus p)"
  by (auto simp: EffectiveStatus_def)

lemma DeterministicStoryOwner_in:
  "s_RequirementIDs s \<noteq> [] \<Longrightarrow> DeterministicStoryOwner s \<in> set (s_RequirementIDs s)"
  by (metis DeterministicStoryOwner_def hd_in_set set_sort set_empty)

lemma DeterministicStoryOwner_least:
  assumes "r \<in> set (s_RequirementIDs s)"
  shows "DeterministicStoryOwner s \<le> r"
proof -
  have "s_RequirementIDs s \<noteq> []" using assms by auto
  moreover obtain x xs where "sort (s_RequirementIDs s) = x # xs"
    using assms by (metis list.exhaust set_sort empty_iff empty_set)
  moreover have "sorted (sort (s_RequirementIDs s))" "r \<in> set (sort (s_RequirementIDs s))"
    using assms by auto
  ultimately show ?thesis by (auto simp: DeterministicStoryOwner_def)
qed

end
