(* ===== verification/File_Paths.thy ===== *)
theory File_Paths
  imports Plan_Types
begin

text \<open>
  Workspace paths: \<^verbatim>\<open>path.Clean\<close>, \<^verbatim>\<open>path.Base\<close>, \<^verbatim>\<open>path.Dir\<close> and
  \<^verbatim>\<open>path.Ext\<close> of the Go library on slash-separated components, and the helpers the sources build
  on them: \<^verbatim>\<open>NormalizeFilePath\<close> (\<^verbatim>\<open>plan_requirement.go\<close>), companion tests
  (\<^verbatim>\<open>file_scope.go\<close>), ownership of scoped files (\<^verbatim>\<open>file_ownership.go\<close>), topology files
  (\<^verbatim>\<open>topology_path.go\<close>), documentation files (\<^verbatim>\<open>plan_capability.go\<close>), the traversal check of
  the task DAG (\<^verbatim>\<open>requirement-executor/dag.go\<close>), slugs (\<^verbatim>\<open>plan.go\<close>) and scenario tags
  (\<^verbatim>\<open>plan_scenario.go\<close>).
\<close>

section \<open>The path package\<close>

definition clean_step :: "bool \<Rightarrow> bytes list \<Rightarrow> bytes \<Rightarrow> bytes list" where
  "clean_step rooted acc c =
     (if c = [] \<or> c = ''.'' then acc
      else if c = ''..'' then
        (case acc of
           [] \<Rightarrow> if rooted then [] else [''..'']
         | x # xs \<Rightarrow> if x = ''..'' then ''..'' # acc else xs)
      else c # acc)"

definition clean_comps :: "bool \<Rightarrow> bytes list \<Rightarrow> bytes list" where
  "clean_comps rooted cs = rev (foldl (clean_step rooted) [] cs)"

definition path_Clean :: "bytes \<Rightarrow> bytes" where
  "path_Clean p =
     (if p = [] then ''.''
      else let rooted = (hd p = CHR ''/'');
               body = Join ''/'' (clean_comps rooted (split_on (CHR ''/'') p))
           in if rooted then CHR ''/'' # body else if body = [] then ''.'' else body)"

text \<open>The part after the last slash, with trailing slashes removed first.\<close>

definition path_Base :: "bytes \<Rightarrow> bytes" where
  "path_Base p =
     (if p = [] then ''.''
      else let q = rev (dropWhile (\<lambda>c. c = CHR ''/'') (rev p));
               b = rev (takeWhile (\<lambda>c. c \<noteq> CHR ''/'') (rev q))
           in if b = [] then ''/'' else b)"

definition path_Dir :: "bytes \<Rightarrow> bytes" where
  "path_Dir p = path_Clean (rev (dropWhile (\<lambda>c. c \<noteq> CHR ''/'') (rev p)))"

text \<open>The suffix of the last element that starts at its last dot.\<close>

definition path_Ext :: "bytes \<Rightarrow> bytes" where
  "path_Ext p =
     (let l = rev (takeWhile (\<lambda>c. c \<noteq> CHR ''/'') (rev p));
          e = takeWhile (\<lambda>c. c \<noteq> CHR ''.'') (rev l)
      in if CHR ''.'' \<in> set l then CHR ''.'' # rev e else [])"

section \<open>Normalised paths\<close>

definition slashes :: "bytes \<Rightarrow> bytes" where
  "slashes p = map (\<lambda>c. if c = CHR 0x5C then CHR ''/'' else c) p"

definition NormalizeFilePath :: "bytes \<Rightarrow> bytes" where
  "NormalizeFilePath p =
     (let p1 = TrimSpace p in
      if p1 = [] then []
      else let p2 = TrimPrefix (path_Clean (slashes p1)) ''./'' in
        if p2 = ''.'' \<or> p2 = ''..'' \<or> HasPrefix p2 ''../'' then [] else p2)"

definition NormalizeFilePaths :: "bytes list \<Rightarrow> bytes list" where
  "NormalizeFilePaths ps = filter (\<lambda>p. p \<noteq> []) (map NormalizeFilePath ps)"

section \<open>Companion tests and ownership\<close>

definition CompanionTestPaths :: "bytes \<Rightarrow> bytes list" where
  "CompanionTestPaths sourcePath =
     (let p = NormalizeFilePath sourcePath in
      if p = [] then []
      else if HasPrefix p ''src/main/java/'' \<and> HasSuffix p ''.java'' then
        (let rel = TrimPrefix p ''src/main/java/'';
             base = TrimSuffix (path_Base rel) ''.java''
         in if base = [] \<or> HasSuffix base ''Test'' \<or> HasSuffix base ''Tests'' then []
            else let dir = path_Dir rel;
                     testRel = (if dir \<noteq> ''.'' then dir @ ''/'' @ base @ ''Test.java''
                                else base @ ''Test.java'')
                 in (''src/test/java/'' @ testRel) #
                    (if HasSuffix base ''Descriptor''
                     then [''src/main/resources/META-INF/services/org.sensorhub.api.module.IModuleProvider'']
                     else []))
      else [])"

text \<open>The closure \<^verbatim>\<open>add\<close> of \<^verbatim>\<open>ExpandFileScopeWithCompanionTests\<close>; the set
  \<^verbatim>\<open>seen\<close> holds exactly the elements of \<^verbatim>\<open>out\<close>.\<close>

definition scope_add :: "bytes list \<Rightarrow> bytes \<Rightarrow> bytes list" where
  "scope_add out p = (let q = NormalizeFilePath p in
     if q = [] then out else if q \<in> set out then out else out @ [q])"

definition ExpandFileScopeWithCompanionTests :: "bytes list \<Rightarrow> bytes list" where
  "ExpandFileScopeWithCompanionTests paths =
     foldl (\<lambda>out p. let np = NormalizeFilePath p in
              foldl scope_add (scope_add out np) (CompanionTestPaths np)) [] paths"

definition wellKnownExtensionlessDeliverables :: "bytes list" where
  "wellKnownExtensionlessDeliverables =
     [''Dockerfile'', ''Makefile'', ''Jenkinsfile'', ''Vagrantfile'', ''Procfile'']"

definition IsConcreteScopedFile :: "bytes \<Rightarrow> bool" where
  "IsConcreteScopedFile p =
     (if ContainsAny p ''*?['' then False
      else if path_Ext p \<noteq> [] then True
      else path_Base p \<in> set wellKnownExtensionlessDeliverables)"

definition ownedFileUniverse :: "ComponentDef list \<Rightarrow> bytes set" where
  "ownedFileUniverse components =
     (\<Union>c \<in> set components. set (ExpandFileScopeWithCompanionTests (comp_ImplementationFiles c)))"

text \<open>The loop of \<^verbatim>\<open>UnownedScopedIncludeFiles\<close> over \<^verbatim>\<open>scope.Include\<close>, with the set
  \<^verbatim>\<open>seen\<close> and the slice \<^verbatim>\<open>orphans\<close>.\<close>

fun unowned_loop :: "bytes set \<Rightarrow> bytes set \<Rightarrow> bytes list \<Rightarrow> bytes set \<Rightarrow> bytes list \<Rightarrow> bytes list" where
  "unowned_loop owned dnt [] seen orphans = orphans"
| "unowned_loop owned dnt (raw # rs) seen orphans =
     (let f = NormalizeFilePath raw in
      if f = [] \<or> \<not> IsConcreteScopedFile f then unowned_loop owned dnt rs seen orphans
      else if f \<in> seen then unowned_loop owned dnt rs seen orphans
      else if f \<in> dnt then unowned_loop owned dnt rs (insert f seen) orphans
      else if f \<in> owned then unowned_loop owned dnt rs (insert f seen) orphans
      else unowned_loop owned dnt rs (insert f seen) (orphans @ [f]))"

definition UnownedScopedIncludeFiles :: "Scope \<Rightarrow> ComponentDef list \<Rightarrow> bytes list" where
  "UnownedScopedIncludeFiles scope components =
     sort (unowned_loop (ownedFileUniverse components)
             (set (NormalizeFilePaths (scope_DoNotTouch scope))) (scope_Include scope) {} [])"

section \<open>Path predicates\<close>

definition IsTopologyControlledPath :: "bytes \<Rightarrow> bool" where
  "IsTopologyControlledPath p0 =
     (let p = NormalizeFilePath p0 in
      if p = [] then False
      else let base = path_Base p in
        if base \<in> set [''go.mod'', ''go.work'', ''package.json'', ''pnpm-workspace.yaml'',
             ''lerna.json'', ''nx.json'', ''pyproject.toml'', ''requirements.txt'', ''setup.py'',
             ''Pipfile'', ''Cargo.toml'', ''pom.xml'', ''build.gradle'', ''build.gradle.kts'',
             ''settings.gradle'', ''settings.gradle.kts'', ''composer.json'', ''Gemfile'',
             ''gradlew'', ''gradlew.bat''] then True
        else if HasSuffix base ''.csproj'' then True
        else p = ''gradle/wrapper/gradle-wrapper.properties''
             \<or> HasSuffix p ''/gradle/wrapper/gradle-wrapper.properties'')"

definition IsDocumentationPath :: "bytes \<Rightarrow> bool" where
  "IsDocumentationPath p =
     (let lower = ToLower p in
      list_ex (HasSuffix lower) [''.md'', ''.txt'', ''.rst'', ''.adoc'']
      \<or> list_ex (\<lambda>b. path_Base lower = b) [''readme'', ''license'', ''contributing'', ''changelog''])"

text \<open>\<^verbatim>\<open>splitPathComponents\<close>: runs of characters other than slash and backslash.\<close>

fun split_components :: "bytes \<Rightarrow> bytes \<Rightarrow> bytes list \<Rightarrow> bytes list" where
  "split_components [] current parts = (if current \<noteq> [] then parts @ [current] else parts)"
| "split_components (c # s) current parts =
     (if c = CHR ''/'' \<or> c = CHR 0x5C then
        (if current \<noteq> [] then split_components s [] (parts @ [current])
         else split_components s current parts)
      else split_components s (current @ [c]) parts)"

definition splitPathComponents :: "bytes \<Rightarrow> bytes list" where
  "splitPathComponents p = split_components p [] []"

definition containsPathTraversal :: "bytes \<Rightarrow> bool" where
  "containsPathTraversal entry = list_ex (\<lambda>part. part = ''..'') (splitPathComponents entry)"

section \<open>Slugs and tags\<close>

datatype slug_error = ErrSlugRequired | ErrInvalidSlug

definition slug_alnum :: "char \<Rightarrow> bool" where
  "slug_alnum c \<longleftrightarrow> (CHR ''a'' \<le> c \<and> c \<le> CHR ''z'') \<or> (CHR ''0'' \<le> c \<and> c \<le> CHR ''9'')"

text \<open>The regular expression \<^verbatim>\<open>slugPattern\<close>: one alphanumeric character, or two of them
  around at most 48 alphanumeric characters or hyphens.\<close>

definition slugPattern :: "bytes \<Rightarrow> bool" where
  "slugPattern s \<longleftrightarrow>
     s \<noteq> [] \<and> length s \<le> 50 \<and> slug_alnum (hd s) \<and> slug_alnum (last s)
     \<and> list_all (\<lambda>c. slug_alnum c \<or> c = CHR ''-'') s"

definition ValidateSlug :: "bytes \<Rightarrow> slug_error option" where
  "ValidateSlug slug =
     (if slug = [] then Some ErrSlugRequired
      else if Contains slug ''..'' \<or> Contains slug ''/'' \<or> Contains slug [CHR 0x5C]
      then Some ErrInvalidSlug
      else if \<not> slugPattern slug then Some ErrInvalidSlug
      else None)"

datatype tag_error = TagEmpty | TagNoAt bytes | TagNoBody bytes | TagBadChar bytes
  | ScenarioNoTags bytes | TagSyntax bytes nat tag_error | TagDuplicate bytes bytes
  | NoTierTag bytes | ManyTierTags bytes nat | EmptyHarnessID bytes nat

definition tag_char :: "char \<Rightarrow> bool" where
  "tag_char c \<longleftrightarrow> (CHR ''a'' \<le> c \<and> c \<le> CHR ''z'') \<or> (CHR ''A'' \<le> c \<and> c \<le> CHR ''Z'')
     \<or> (CHR ''0'' \<le> c \<and> c \<le> CHR ''9'') \<or> c = CHR ''-''"

fun validateTagSyntax :: "bytes \<Rightarrow> tag_error option" where
  "validateTagSyntax [] = Some TagEmpty"
| "validateTagSyntax (c # body) =
     (if c \<noteq> CHR ''@'' then Some (TagNoAt (c # body))
      else if body = [] then Some (TagNoBody (c # body))
      else if \<not> list_all tag_char body then Some (TagBadChar (c # body))
      else None)"

fun tags_loop :: "bytes \<Rightarrow> bytes list \<Rightarrow> nat \<Rightarrow> bytes set \<Rightarrow> nat \<Rightarrow> tag_error + nat" where
  "tags_loop sid [] i seen tiers = Inr tiers"
| "tags_loop sid (tag # ts) i seen tiers =
     (case validateTagSyntax tag of
        Some e \<Rightarrow> Inl (TagSyntax sid i e)
      | None \<Rightarrow> if tag \<in> seen then Inl (TagDuplicate sid tag)
               else tags_loop sid ts (Suc i) (insert tag seen)
                      (if IsTierTag tag then Suc tiers else tiers))"

definition ValidateScenarioTags :: "Scenario \<Rightarrow> tag_error option" where
  "ValidateScenarioTags s =
     (if sc_Tags s = [] then Some (ScenarioNoTags (sc_ID s))
      else case tags_loop (sc_ID s) (sc_Tags s) 0 {} 0 of
        Inl e \<Rightarrow> Some e
      | Inr n \<Rightarrow>
          if n = 0 then Some (NoTierTag (sc_ID s))
          else if n > 1 then Some (ManyTierTags (sc_ID s) n)
          else (case find_at (\<lambda>h. TrimSpace h = []) 0 (sc_HarnessProfileIDs s) of
                  Some (_, i) \<Rightarrow> Some (EmptyHarnessID (sc_ID s) i)
                | None \<Rightarrow> None))"

section \<open>Canonical form of normalised paths\<close>

definition normal_comp :: "bytes \<Rightarrow> bool" where
  "normal_comp c \<longleftrightarrow> c \<noteq> [] \<and> c \<noteq> ''.'' \<and> c \<noteq> ''..'' \<and> CHR ''/'' \<notin> set c \<and> CHR 0x5C \<notin> set c"

text \<open>A canonical workspace path: components none of which is empty, a dot or a parent reference,
  without backslashes, joined by single slashes, with an optional root.\<close>

definition canonical_path :: "bytes \<Rightarrow> bool" where
  "canonical_path q \<longleftrightarrow> (\<exists>ns. list_all normal_comp ns \<and>
     (ns \<noteq> [] \<and> q = Join ''/'' ns \<or> q = CHR ''/'' # Join ''/'' ns))"

lemma clean_fold_shape:
  assumes "list_all (\<lambda>c. CHR ''/'' \<notin> set c \<and> CHR 0x5C \<notin> set c) cs"
    and "\<exists>k ns. acc = rev ns @ replicate k ''..'' \<and> list_all normal_comp ns \<and> (rooted \<longrightarrow> k = 0)"
  shows "\<exists>k ns. foldl (clean_step rooted) acc cs = rev ns @ replicate k ''..''
           \<and> list_all normal_comp ns \<and> (rooted \<longrightarrow> k = 0)"
  using assms
proof (induction cs arbitrary: acc)
  case (Cons c cs)
  from Cons.prems(2) obtain k ns where a: "acc = rev ns @ replicate k ''..''"
    "list_all normal_comp ns" "rooted \<longrightarrow> k = 0" by blast
  have "\<exists>k ns. clean_step rooted acc c = rev ns @ replicate k ''..''
          \<and> list_all normal_comp ns \<and> (rooted \<longrightarrow> k = 0)"
  proof (cases "c = ''..''")
    case True
    show ?thesis
    proof (cases ns rule: rev_cases)
      case Nil
      then show ?thesis using a True
        by (cases k) (auto simp: clean_step_def intro!: exI [of _ "Suc k"] exI [of _ "[]"])
    next
      case (snoc ms m)
      then have "m \<noteq> ''..''" using a(2) by (simp add: normal_comp_def)
      then show ?thesis using a snoc True
        by (auto simp: clean_step_def intro!: exI [of _ k] exI [of _ ms])
    qed
  next
    case False
    show ?thesis
    proof (cases "c = [] \<or> c = ''.''")
      case True
      then show ?thesis using a by (auto simp: clean_step_def)
    next
      case nonempty: False
      then have "clean_step rooted acc c = rev (ns @ [c]) @ replicate k ''..''"
        "list_all normal_comp (ns @ [c])"
        using False a Cons.prems(1) by (auto simp: clean_step_def normal_comp_def)
      then show ?thesis using a(3) by blast
    qed
  qed
  then show ?case using Cons by simp
qed simp

lemma clean_comps_shape:
  assumes "CHR 0x5C \<notin> set p"
  obtains k ns where "clean_comps rooted (split_on (CHR ''/'') p) = replicate k ''..'' @ ns"
    "list_all normal_comp ns" "rooted \<longrightarrow> k = 0"
proof -
  have "list_all (\<lambda>c. CHR ''/'' \<notin> set c \<and> CHR 0x5C \<notin> set c) (split_on (CHR ''/'') p)"
    unfolding list_all_iff
  proof (intro ballI conjI)
    fix w assume w: "w \<in> set (split_on (CHR ''/'') p)"
    then show "CHR ''/'' \<notin> set w" by (rule split_on_parts)
    show "CHR 0x5C \<notin> set w" using w assms split_on_chars by blast
  qed
  from clean_fold_shape [OF this, of "[]" rooted] that show ?thesis
    unfolding clean_comps_def by fastforce
qed

lemma Join_eq_Nil: "Join sep xs = [] \<Longrightarrow> list_all (\<lambda>x. x \<noteq> []) xs \<Longrightarrow> xs = []"
  by (cases "(sep, xs)" rule: Join.cases) auto

lemma normal_comps_nonempty: "list_all normal_comp ns \<Longrightarrow> list_all (\<lambda>x. x \<noteq> []) ns"
  by (auto simp: list_all_iff normal_comp_def)

lemma Join_parent_prefix:
  "Join ''/'' (''..'' # xs) = ''..'' \<or> HasPrefix (Join ''/'' (''..'' # xs)) ''../''"
  by (cases xs) (auto simp: HasPrefix_def)

lemma Join_not_dot:
  assumes "list_all normal_comp ns"
  shows "Join ''/'' ns \<noteq> ''.''" "Join ''/'' ns \<noteq> ''..''"
    "\<not> HasPrefix (Join ''/'' ns) ''./''" "\<not> HasPrefix (Join ''/'' ns) ''../''"
proof -
  have "Join ''/'' ns \<noteq> ''.'' \<and> Join ''/'' ns \<noteq> ''..'' \<and> \<not> HasPrefix (Join ''/'' ns) ''./''
          \<and> \<not> HasPrefix (Join ''/'' ns) ''../''"
  proof (cases ns)
    case (Cons n ms)
    then have n: "n \<noteq> []" "n \<noteq> ''.''" "n \<noteq> ''..''" "CHR ''/'' \<notin> set n"
      using assms by (auto simp: normal_comp_def)
    obtain t where t: "Join ''/'' ns = n @ t" "t = [] \<or> hd t = CHR ''/''"
      using Cons by (cases ms) auto
    show ?thesis
      using n t by (cases n; cases "tl n"; cases "tl (tl n)"; cases t) (auto simp: HasPrefix_def)
  qed (simp add: HasPrefix_def)
  then show "Join ''/'' ns \<noteq> ''.''" "Join ''/'' ns \<noteq> ''..''"
    "\<not> HasPrefix (Join ''/'' ns) ''./''" "\<not> HasPrefix (Join ''/'' ns) ''../''" by auto
qed

lemma slashes_no_backslash [simp]: "CHR 0x5C \<notin> set (slashes p)"
  by (auto simp: slashes_def)

lemma NormalizeFilePath_canonical_lemma:
  assumes "NormalizeFilePath p \<noteq> []"
  shows "canonical_path (NormalizeFilePath p)"
proof -
  let ?s = "slashes (TrimSpace p)"
  have s: "?s \<noteq> []" using assms by (auto simp: NormalizeFilePath_def slashes_def Let_def)
  let ?r = "hd ?s = CHR ''/''"
  obtain k ns where c: "clean_comps ?r (split_on (CHR ''/'') ?s) = replicate k ''..'' @ ns"
    "list_all normal_comp ns" "?r \<longrightarrow> k = 0"
    using clean_comps_shape [of ?s] by auto
  show ?thesis
  proof (cases ?r)
    case True
    then have "path_Clean ?s = CHR ''/'' # Join ''/'' ns"
      using s c by (simp add: path_Clean_def)
    then have "NormalizeFilePath p = CHR ''/'' # Join ''/'' ns"
      using assms by (auto simp: NormalizeFilePath_def Let_def TrimPrefix_def HasPrefix_def
          split: if_splits)
    then show ?thesis using c(2) unfolding canonical_path_def by blast
  next
    case False
    let ?b = "Join ''/'' (replicate k ''..'' @ ns)"
    have q: "path_Clean ?s = (if ?b = [] then ''.'' else ?b)"
      using s c False by (simp add: path_Clean_def)
    have k: "k = 0"
    proof (cases k)
      case (Suc j)
      then have b: "?b = ''..'' \<or> HasPrefix ?b ''../''" using Join_parent_prefix by simp
      then have "TrimPrefix ?b ''./'' = ?b" "?b \<noteq> []"
        by (auto simp: TrimPrefix_def HasPrefix_iff prefix_def)
      then have "NormalizeFilePath p = []"
        using q b by (auto simp: NormalizeFilePath_def Let_def)
      then show ?thesis using assms by simp
    qed
    have "ns \<noteq> []"
      using q k assms
      by (auto simp: NormalizeFilePath_def Let_def TrimPrefix_def HasPrefix_def split: if_splits)
    moreover have "NormalizeFilePath p = Join ''/'' ns"
    proof -
      have "Join ''/'' ns \<noteq> []" using \<open>ns \<noteq> []\<close> Join_eq_Nil normal_comps_nonempty [OF c(2)] by blast
      then show ?thesis
        using q k Join_not_dot [OF c(2)] assms
        by (auto simp: NormalizeFilePath_def Let_def TrimPrefix_def split: if_splits)
    qed
    ultimately show ?thesis using c(2) unfolding canonical_path_def by blast
  qed
qed

text \<open>Cleaning a canonical path changes nothing.\<close>

lemma clean_fold_normal:
  "list_all normal_comp ns \<Longrightarrow> foldl (clean_step r) acc ns = rev ns @ acc"
  by (induction ns arbitrary: acc) (auto simp: clean_step_def normal_comp_def)

lemma split_on_no: "d \<notin> set w \<Longrightarrow> split_on d w = [w]"
  by (induction w) auto

lemma split_on_append: "d \<notin> set w \<Longrightarrow> split_on d (w @ d # s) = w # split_on d s"
  by (induction w) auto

lemma split_on_Join:
  "ns \<noteq> [] \<Longrightarrow> list_all (\<lambda>w. d \<notin> set w) ns \<Longrightarrow> split_on d (Join [d] ns) = ns"
  by (induction "[d]" ns rule: Join.induct) (auto simp: split_on_no split_on_append)

lemma normal_no_slash: "list_all normal_comp ns \<Longrightarrow> list_all (\<lambda>w. CHR ''/'' \<notin> set w) ns"
  by (auto simp: list_all_iff normal_comp_def)

lemma set_Join_subset: "set (Join sep ns) \<subseteq> set sep \<union> \<Union> (set ` set ns)"
  by (induction sep ns rule: Join.induct) auto

lemma canonical_slashes: "canonical_path q \<Longrightarrow> slashes q = q"
proof -
  assume "canonical_path q"
  then obtain ns where ns: "list_all normal_comp ns" "q = Join ''/'' ns \<or> q = CHR ''/'' # Join ''/'' ns"
    unfolding canonical_path_def by blast
  then have "CHR 0x5C \<notin> set q"
    using set_Join_subset [of "''/''" ns] by (auto simp: list_all_iff normal_comp_def)
  then show ?thesis by (auto simp: slashes_def intro: map_idI)
qed

lemma canonical_clean: "canonical_path q \<Longrightarrow> path_Clean q = q"
proof -
  assume "canonical_path q"
  then obtain ns where ns: "list_all normal_comp ns"
    and q: "ns \<noteq> [] \<and> q = Join ''/'' ns \<or> q = CHR ''/'' # Join ''/'' ns"
    unfolding canonical_path_def by blast
  note sp = split_on_Join [OF _ normal_no_slash [OF ns]]
  have "hd (Join ''/'' ns) \<noteq> CHR ''/''" "Join ''/'' ns \<noteq> []" if ne: "ns \<noteq> []"
  proof -
    obtain n ms where nm: "ns = n # ms" using ne by (cases ns) auto
    then have "n \<noteq> []" "CHR ''/'' \<notin> set n" using ns by (auto simp: normal_comp_def)
    then show "hd (Join ''/'' ns) \<noteq> CHR ''/''" "Join ''/'' ns \<noteq> []"
      using nm by (cases ms; cases n; auto)+
  qed
  moreover have "clean_comps r (split_on (CHR ''/'') (Join ''/'' ns)) = ns" if "ns \<noteq> []" for r
    using sp that clean_fold_normal [OF ns] by (simp add: clean_comps_def)
  moreover have "clean_comps r ([] # split_on (CHR ''/'') (Join ''/'' ns)) = ns" for r
    using sp clean_fold_normal [OF ns]
    by (cases "ns = []") (auto simp: clean_comps_def clean_step_def)
  ultimately show ?thesis using q by (auto simp: path_Clean_def Let_def)
qed

lemma canonical_not_escape:
  assumes "canonical_path q"
  shows "q \<noteq> []" "q \<noteq> ''.''" "q \<noteq> ''..''" "\<not> HasPrefix q ''./''" "\<not> HasPrefix q ''../''"
proof -
  obtain ns where ns: "list_all normal_comp ns"
    and q: "ns \<noteq> [] \<and> q = Join ''/'' ns \<or> q = CHR ''/'' # Join ''/'' ns"
    using assms unfolding canonical_path_def by blast
  have "Join ''/'' ns = [] \<Longrightarrow> ns = []"
    using Join_eq_Nil normal_comps_nonempty [OF ns] by blast
  then show "q \<noteq> []" using q by auto
  show "q \<noteq> ''.''" "q \<noteq> ''..''" "\<not> HasPrefix q ''./''" "\<not> HasPrefix q ''../''"
    using q Join_not_dot [OF ns] by (auto simp: HasPrefix_def)
qed

lemma NormalizeFilePath_of_canonical:
  "canonical_path q \<Longrightarrow> TrimSpace q = q \<Longrightarrow> NormalizeFilePath q = q"
  using canonical_not_escape [of q] canonical_clean [of q] canonical_slashes [of q]
  by (simp add: NormalizeFilePath_def TrimPrefix_def)

lemma NormalizeFilePath_Nil [simp]: "NormalizeFilePath [] = []"
  by (simp add: NormalizeFilePath_def)

lemma NormalizeFilePath_idem_trimmed:
  "TrimSpace (NormalizeFilePath p) = NormalizeFilePath p \<Longrightarrow>
   NormalizeFilePath (NormalizeFilePath p) = NormalizeFilePath p"
  by (cases "NormalizeFilePath p = []")
     (auto intro: NormalizeFilePath_of_canonical NormalizeFilePath_canonical_lemma)

section \<open>Scopes, slugs and tags\<close>

lemma scope_add_distinct: "distinct out \<Longrightarrow> distinct (scope_add out p)"
  by (auto simp: scope_add_def Let_def)

lemma foldl_scope_add_distinct: "distinct out \<Longrightarrow> distinct (foldl scope_add out ps)"
  by (induction ps arbitrary: out) (auto intro: scope_add_distinct)

lemma set_scope_add: "set (scope_add out p) = set out \<union> ({NormalizeFilePath p} - {[]})"
  by (auto simp: scope_add_def Let_def)

lemma set_foldl_scope_add:
  "set (foldl scope_add out ps) = set out \<union> (NormalizeFilePath ` set ps - {[]})"
  by (induction ps arbitrary: out) (auto simp: set_scope_add)

lemma expand_fold_set:
  "set (foldl (\<lambda>out p. let np = NormalizeFilePath p in
          foldl scope_add (scope_add out np) (CompanionTestPaths np)) out paths)
   = set out \<union> (\<Union>p \<in> set paths.
       NormalizeFilePath ` set (NormalizeFilePath p # CompanionTestPaths (NormalizeFilePath p)) - {[]})"
  by (induction paths arbitrary: out)
     (auto simp: set_scope_add set_foldl_scope_add Let_def)

lemma expand_fold_distinct:
  "distinct out \<Longrightarrow> distinct (foldl (\<lambda>out p. let np = NormalizeFilePath p in
          foldl scope_add (scope_add out np) (CompanionTestPaths np)) out paths)"
  by (induction paths arbitrary: out)
     (simp_all add: Let_def foldl_scope_add_distinct scope_add_distinct)

lemma ExpandFileScope_set:
  "set (ExpandFileScopeWithCompanionTests paths) = (\<Union>p \<in> set paths.
       NormalizeFilePath ` set (NormalizeFilePath p # CompanionTestPaths (NormalizeFilePath p)) - {[]})"
  unfolding ExpandFileScopeWithCompanionTests_def expand_fold_set by simp

lemma ExpandFileScope_distinct: "distinct (ExpandFileScopeWithCompanionTests paths)"
  unfolding ExpandFileScopeWithCompanionTests_def by (rule expand_fold_distinct) simp

lemma unowned_loop_set:
  "set (unowned_loop owned dnt rs seen orphans) = set orphans \<union>
     {f. f \<in> NormalizeFilePath ` set rs \<and> f \<noteq> [] \<and> IsConcreteScopedFile f \<and> f \<notin> seen
         \<and> f \<notin> dnt \<and> f \<notin> owned}"
proof (induction rs arbitrary: seen orphans)
  case (Cons r rs)
  show ?case
    unfolding unowned_loop.simps Let_def
    by (cases "NormalizeFilePath r = [] \<or> \<not> IsConcreteScopedFile (NormalizeFilePath r)";
        cases "NormalizeFilePath r \<in> seen"; cases "NormalizeFilePath r \<in> dnt";
        cases "NormalizeFilePath r \<in> owned")
       (auto simp: Cons.IH)
qed simp

lemma unowned_loop_distinct:
  "distinct orphans \<Longrightarrow> set orphans \<subseteq> seen \<Longrightarrow> distinct (unowned_loop owned dnt rs seen orphans)"
proof (induction rs arbitrary: seen orphans)
  case (Cons r rs)
  then have "set orphans \<subseteq> insert f seen" for f by auto
  then show ?case using Cons.prems
    unfolding unowned_loop.simps Let_def by (auto intro!: Cons.IH)
qed simp

lemma split_components_append:
  "split_components s cur parts = parts @ split_components s cur []"
proof (induction s arbitrary: cur parts)
  case (Cons c s)
  show ?case
    by (simp, safe; subst Cons.IH; subst (2) Cons.IH; simp)
qed simp

lemma split_components_eq:
  assumes "CHR ''/'' \<notin> set cur"
  shows "split_components s cur [] = filter (\<lambda>w. w \<noteq> []) (split_on (CHR ''/'') (cur @ slashes s))"
  using assms
proof (induction s arbitrary: cur)
  case Nil
  then show ?case by (simp add: slashes_def split_on_no)
next
  case (Cons c s)
  have app: "split_components s [] [w] = w # split_components s [] []" for w
    using split_components_append [of s "[]" "[w]"] by simp
  show ?case
  proof (cases "c = CHR ''/'' \<or> c = CHR 0x5C")
    case True
    then have "slashes (c # s) = CHR ''/'' # slashes s" by (auto simp: slashes_def)
    then show ?thesis
      using True Cons.IH [of "[]"] Cons.prems by (auto simp: split_on_append app)
  next
    case False
    then have "slashes (c # s) = c # slashes s" by (auto simp: slashes_def)
    then show ?thesis using False Cons.IH [of "cur @ [c]"] Cons.prems by auto
  qed
qed

lemma containsPathTraversal_iff:
  "containsPathTraversal entry \<longleftrightarrow> ''..'' \<in> set (split_on (CHR ''/'') (slashes entry))"
  by (auto simp: containsPathTraversal_def splitPathComponents_def split_components_eq list_ex_iff)

lemma slugPattern_safe:
  assumes "slugPattern s"
  shows "\<not> Contains s ''..''" "\<not> Contains s ''/''" "\<not> Contains s [CHR 0x5C]"
proof -
  have a: "\<forall>c \<in> set s. slug_alnum c \<or> c = CHR ''-''"
    using assms by (auto simp: slugPattern_def list_all_iff)
  have ok: "\<not> (slug_alnum c \<or> c = CHR ''-'')" if "c \<in> {CHR ''.'', CHR ''/'', CHR 0x5C}" for c
    using that by (auto simp: slug_alnum_def less_eq_char_def)
  have "set w \<subseteq> set s" if "Contains s w" for w
    using that by (auto simp: Contains_iff sublist_def)
  then show "\<not> Contains s ''..''" "\<not> Contains s ''/''" "\<not> Contains s [CHR 0x5C]"
    using a ok by fastforce+
qed

lemma validateTagSyntax_iff: "validateTagSyntax t = None \<longleftrightarrow>
    (\<exists>body. t = CHR ''@'' # body \<and> body \<noteq> [] \<and> list_all tag_char body)"
  by (cases t) auto

lemma tags_loop_Inr:
  "tags_loop sid ts i seen n = Inr m \<longleftrightarrow>
     (\<forall>t \<in> set ts. validateTagSyntax t = None) \<and> distinct ts \<and> set ts \<inter> seen = {}
     \<and> m = n + length (filter IsTierTag ts)"
  by (induction sid ts i seen n rule: tags_loop.induct) (auto split: option.splits)

lemma canonical_no_traversal:
  assumes "canonical_path q"
  shows "\<not> containsPathTraversal q"
proof -
  obtain ns where ns: "list_all normal_comp ns"
    and q: "ns \<noteq> [] \<and> q = Join ''/'' ns \<or> q = CHR ''/'' # Join ''/'' ns"
    using assms unfolding canonical_path_def by blast
  have s: "slashes q = q" by (rule canonical_slashes [OF assms])
  have no: "''..'' \<notin> set ns" using ns by (auto simp: list_all_iff normal_comp_def)
  have j: "ns \<noteq> [] \<Longrightarrow> split_on (CHR ''/'') (Join ''/'' ns) = ns"
    using split_on_Join normal_no_slash [OF ns] by simp
  have c: "split_on (CHR ''/'') (CHR ''/'' # w) = [] # split_on (CHR ''/'') w" for w
    using split_on_append [of "CHR ''/''" "[]" w] by simp
  show ?thesis
    unfolding containsPathTraversal_iff s
    using q no j by (cases "ns = []") (auto simp: c split_on_no)
qed

section \<open>Properties\<close>

text \<open>C32: NormalizeFilePath confines paths.  Whatever the input, the result is empty or a canonical
  path: components that are neither empty nor \<^verbatim>\<open>.\<close> nor \<^verbatim>\<open>..\<close>, joined by single forward
  slashes, free of backslashes; in particular the traversal check of the task DAG never
  rejects it.\<close>

theorem normalize_confined:
  "NormalizeFilePath p = [] \<or>
   canonical_path (NormalizeFilePath p) \<and> containsPathTraversal (NormalizeFilePath p) = False"
  using NormalizeFilePath_canonical_lemma canonical_no_traversal by blast

text \<open>Normalising twice is not normalising once.  The path is trimmed before a leading
  \<^verbatim>\<open>./\<close> is removed, so a component with outer spaces survives one pass and loses them in the next;
  the ownership universe, which is normalised twice, then misses a scoped file that its component
  lists verbatim.\<close>

theorem normalize_not_idempotent:
  "NormalizeFilePath ''./ a.go'' = '' a.go'' \<and> NormalizeFilePath '' a.go'' = ''a.go'' \<and>
   UnownedScopedIncludeFiles
     \<lparr>scope_Include = [''./ a.go''], scope_Exclude = [], scope_DoNotTouch = [], scope_Create = []\<rparr>
     [ComponentDef_zero\<lparr>comp_Name := ''c'', comp_ImplementationFiles := [''./ a.go'']\<rparr>] = ['' a.go'']"
  by code_simp

text \<open>the scope-completeness check reports exactly the normalised concrete files of
  scope.Include that are neither protected nor owned (directly or as a companion test) by a
  component, sorted and each once.\<close>

theorem unowned_files_exact:
  "set (UnownedScopedIncludeFiles scope comps) =
     {f \<in> NormalizeFilePath ` set (scope_Include scope). f \<noteq> [] \<and> IsConcreteScopedFile f \<and>
        f \<notin> set (NormalizeFilePaths (scope_DoNotTouch scope)) \<and>
        f \<notin> (\<Union>c \<in> set comps. set (ExpandFileScopeWithCompanionTests (comp_ImplementationFiles c)))}
   \<and> sorted (UnownedScopedIncludeFiles scope comps)
   \<and> distinct (UnownedScopedIncludeFiles scope comps)"
  by (auto simp: UnownedScopedIncludeFiles_def unowned_loop_set ownedFileUniverse_def
      intro!: unowned_loop_distinct)

text \<open>ValidateSlug accepts exactly the strings of slugPattern (the substring tests before it
  never decide), and an accepted slug is at most 50 characters and contains no dot, slash or
  backslash, so that it is a single component of a file path and of a KV key.\<close>

theorem slug_safe:
  "(ValidateSlug slug = None) = slugPattern slug
   \<and> (ValidateSlug slug = None \<longrightarrow> length slug \<le> 50 \<and>
        set slug \<inter> {CHR ''.'', CHR ''/'', CHR 0x5C} = {} \<and> splitPathComponents slug = [slug])"
proof -
  have e: "slugPattern slug \<Longrightarrow> slug \<noteq> []" by (simp add: slugPattern_def)
  have c: "length slug \<le> 50 \<and> set slug \<inter> {CHR ''.'', CHR ''/'', CHR 0x5C} = {}" if "slugPattern slug"
  proof -
    have "\<not> (slug_alnum c \<or> c = CHR ''-'')" if "c \<in> {CHR ''.'', CHR ''/'', CHR 0x5C}" for c
      using that by (auto simp: slug_alnum_def less_eq_char_def)
    then show ?thesis using that by (auto simp: slugPattern_def list_all_iff)
  qed
  have sl: "splitPathComponents slug = [slug]" if p: "slugPattern slug"
  proof -
    have "slashes slug = slug" unfolding slashes_def by (rule map_idI) (use c [OF p] in auto)
    then show ?thesis
      using c [OF p] e [OF p] by (simp add: splitPathComponents_def split_components_eq split_on_no)
  qed
  show ?thesis using e c sl slugPattern_safe [of slug] by (auto simp: ValidateSlug_def)
qed

theorem slug_safe_witness:
  "ValidateSlug ''add-auth-2'' = None \<and> splitPathComponents ''add-auth-2'' = [''add-auth-2'']"
proof -
  have v: "ValidateSlug ''add-auth-2'' = None" by code_simp
  then show ?thesis using slug_safe [of "''add-auth-2''"] by simp
qed

text \<open>a scenario passes tag validation exactly when every tag is an at-sign followed by
  letters, digits and hyphens, no tag repeats, exactly one is a tier tag and no harness profile ID
  is blank.\<close>

theorem scenario_tags_exact:
  "(ValidateScenarioTags s = None) =
     (list_all (\<lambda>t. \<exists>body. t = CHR ''@'' # body \<and> body \<noteq> [] \<and> list_all tag_char body) (sc_Tags s)
      \<and> distinct (sc_Tags s) \<and> length (filter IsTierTag (sc_Tags s)) = 1
      \<and> list_all (\<lambda>h. TrimSpace h \<noteq> []) (sc_HarnessProfileIDs s))"
proof -
  let ?tags = "\<forall>t \<in> set (sc_Tags s). validateTagSyntax t = None"
  let ?n = "length (filter IsTierTag (sc_Tags s))"
  have h: "(case find_at (\<lambda>h. TrimSpace h = []) 0 (sc_HarnessProfileIDs s) of
        Some (_, i) \<Rightarrow> Some (EmptyHarnessID (sc_ID s) i) | None \<Rightarrow> None) = None
      \<longleftrightarrow> list_all (\<lambda>h. TrimSpace h \<noteq> []) (sc_HarnessProfileIDs s)"
  proof (cases "find_at (\<lambda>h. TrimSpace h = []) 0 (sc_HarnessProfileIDs s)")
    case None
    then have "\<forall>h \<in> set (sc_HarnessProfileIDs s). TrimSpace h \<noteq> []" by (simp add: find_at_None)
    then show ?thesis by (simp add: None list_all_iff)
  next
    case (Some p)
    obtain h i where p: "p = (h, i)" by (cases p)
    from find_at_0_SomeD [OF Some [unfolded p]]
    have "h \<in> set (sc_HarnessProfileIDs s)" "TrimSpace h = []" by auto
    then show ?thesis unfolding Some p by (auto simp: list_all_iff)
  qed
  have "ValidateScenarioTags s = None \<longleftrightarrow>
      ?tags \<and> distinct (sc_Tags s) \<and> ?n = 1 \<and> list_all (\<lambda>h. TrimSpace h \<noteq> []) (sc_HarnessProfileIDs s)"
  proof (cases "tags_loop (sc_ID s) (sc_Tags s) 0 {} 0")
    case (Inl e)
    then have "\<not> (?tags \<and> distinct (sc_Tags s))"
      using tags_loop_Inr [of "sc_ID s" "sc_Tags s" 0 "{}" 0 ?n] by auto
    then show ?thesis using Inl unfolding ValidateScenarioTags_def by auto
  next
    case (Inr n)
    then have "?tags" "distinct (sc_Tags s)" and n: "n = ?n" by (auto simp: tags_loop_Inr)
    moreover have "sc_Tags s = [] \<Longrightarrow> n = 0" using n by simp
    ultimately show ?thesis
      unfolding ValidateScenarioTags_def Inr sum.case n [symmetric] h [symmetric]
      by (cases "n = 0"; cases "1 < n") auto
  qed
  then show ?thesis by (simp add: list_all_iff validateTagSyntax_iff)
qed

end
