(* ===== verification/Validators.thy ===== *)
theory Validators
  imports Dag File_Paths
begin

text \<open>
  The structural validators of \<^verbatim>\<open>src/workflow/plan_requirement.go\<close>,
  \<^verbatim>\<open>plan_capability.go\<close> and \<^verbatim>\<open>plan_story.go\<close>.  A validator returns \<open>None\<close> for a nil
  error and otherwise the first error in the order of the code; a \<^verbatim>\<open>fmt.Errorf\<close> call is a
  constructor carrying the arguments of its format.  The interpretations at the end discharge the
  DAG-validator contract of theory \<open>Dag\<close> for requirements, stories, tasks and capabilities.
\<close>

section \<open>Errors\<close>

datatype validation_error =
    ReqSelf bytes | ReqUnknown bytes bytes | ReqCycle bytes bytes
  | StorySelf bytes | StoryUnknown bytes bytes | StoryCycle bytes bytes
  | TaskSelf bytes bytes | TaskUnknown bytes bytes bytes | TaskCycle bytes bytes bytes
  | StoryMissingID | StoryMissingReqs bytes | StoryMissingComponent bytes | StoryMissingTitle bytes
  | StoryNoFiles bytes | StoryDocsOnly bytes | StoryNoTasks bytes
  | StoryReqOrphan bytes bytes | StoryUnresolvedComponent bytes bytes
  | StoryFileOutside bytes bytes bytes
  | StoryFileRace bytes bytes "bytes list"
  | TaskMissingID bytes | TaskWrongStory bytes bytes bytes | TaskMissingDescription bytes
  | CapMissingName nat | CapBadLifecycle bytes | CapDuplicate bytes | CapBadSurface bytes nat
  | CapDuplicateSurface bytes | CapUndeclared bytes bytes | CapCycle "bytes list" bytes
  | CapInconsistent nat nat | ReqCapUnknown bytes bytes | CapOrphan bytes
  | CapIndexRange bytes int | CapUncovered "bytes list"
  | CompNoFiles bytes | CompDocsOnly bytes | CompNoCapability bytes
  | UpstreamImports "(bytes \<times> bytes) list" "(bytes \<times> bytes) list"

section \<open>Requirements\<close>

definition ValidateRequirementDAG :: "Requirement list \<Rightarrow> validation_error option" where
  "ValidateRequirementDAG reqs = validate_dag r_ID r_DependsOn ReqSelf ReqUnknown ReqCycle reqs"

text \<open>Retired: kept as a no-op for its callers.\<close>

definition ValidateFileOwnershipPartition :: "Requirement list \<Rightarrow> validation_error option" where
  "ValidateFileOwnershipPartition reqs = None"

section \<open>Capabilities\<close>

fun surfaces_loop :: "bytes \<Rightarrow> CapabilitySurface list \<Rightarrow> nat \<Rightarrow> CapabilitySurface set \<Rightarrow>
    validation_error option" where
  "surfaces_loop name [] i seen = None"
| "surfaces_loop name (s # ss) i seen =
     (if \<not> CapabilitySurface_IsValid s then Some (CapBadSurface name i)
      else if s \<in> seen then Some (CapDuplicateSurface name)
      else surfaces_loop name ss (Suc i) (insert s seen))"

definition ValidateCapabilitySurfaces :: "Capability \<Rightarrow> validation_error option" where
  "ValidateCapabilitySurfaces c = surfaces_loop (cap_Name c) (cap_Surfaces c) 0 {}"

text \<open>The cycle is reported through the stack of open visits, outermost first.\<close>

definition detectCapabilityCycle :: "Capability list \<Rightarrow> validation_error option" where
  "detectCapabilityCycle caps =
     (case dfs_cycle (dag_adj cap_Name cap_DependsOn caps) (map cap_Name caps) of
        None \<Rightarrow> None
      | Some (_, d, stack) \<Rightarrow> Some (CapCycle stack d))"

fun capset_loop :: "Capability list \<Rightarrow> nat \<Rightarrow> bytes set \<Rightarrow> validation_error option" where
  "capset_loop [] i names = None"
| "capset_loop (c # cs) i names =
     (if cap_Name c = [] then Some (CapMissingName i)
      else if \<not> CapabilityLifecycle_IsValid (cap_Lifecycle c) then Some (CapBadLifecycle (cap_Name c))
      else if cap_Name c \<in> names then Some (CapDuplicate (cap_Name c))
      else or_else (ValidateCapabilitySurfaces c)
             (capset_loop cs (Suc i) (insert (cap_Name c) names)))"

definition ValidateCapabilitySet :: "Capability list \<Rightarrow> validation_error option" where
  "ValidateCapabilitySet caps =
     (if caps = [] then None
      else or_else (capset_loop caps 0 {})
          (or_else (first_error (\<lambda>c. first_error (\<lambda>dep.
               if dep \<notin> cap_Name ` set caps then Some (CapUndeclared (cap_Name c) dep) else None)
               (cap_DependsOn c)) caps)
            (detectCapabilityCycle caps)))"

definition ValidateRequirementCapabilityCoverage ::
    "Exploration option \<Rightarrow> Requirement list \<Rightarrow> validation_error option" where
  "ValidateRequirementCapabilityCoverage exp reqs =
     (case exp of None \<Rightarrow> None
      | Some e \<Rightarrow>
          if e_Capabilities e = [] \<or> reqs = [] then None
          else let withCap = length (filter (\<lambda>r. r_CapabilityName r \<noteq> []) reqs) in
            if withCap = 0 then None
            else if withCap < length reqs then Some (CapInconsistent withCap (length reqs))
            else or_else
              (first_error (\<lambda>r. if r_CapabilityName r \<notin> cap_Name ` set (e_Capabilities e)
                 then Some (ReqCapUnknown (r_ID r) (r_CapabilityName r)) else None) reqs)
              (first_error (\<lambda>c. if cap_Name c \<notin> r_CapabilityName ` set reqs
                 then Some (CapOrphan (cap_Name c)) else None) (e_Capabilities e)))"

definition FindUncoveredCapabilities :: "Exploration option \<Rightarrow> Requirement list \<Rightarrow> bytes list" where
  "FindUncoveredCapabilities exp reqs =
     (case exp of None \<Rightarrow> []
      | Some e \<Rightarrow> filter (\<lambda>n. n \<notin> r_CapabilityName ` set (filter (\<lambda>r. r_CapabilityName r \<noteq> []) reqs))
                   (map cap_Name (e_Capabilities e)))"

definition FindOrphanRequirementCapabilities ::
    "Exploration option \<Rightarrow> Requirement list \<Rightarrow> Requirement list" where
  "FindOrphanRequirementCapabilities exp reqs =
     (case exp of None \<Rightarrow> []
      | Some e \<Rightarrow> filter (\<lambda>r. r_CapabilityName r \<noteq> [] \<and>
                   r_CapabilityName r \<notin> cap_Name ` set (e_Capabilities e)) reqs)"

section \<open>Stories and tasks\<close>

definition ValidateStoryDAG :: "Story list \<Rightarrow> validation_error option" where
  "ValidateStoryDAG stories = validate_dag s_ID s_DependsOn StorySelf StoryUnknown StoryCycle stories"

definition hasSourceFile :: "bytes list \<Rightarrow> bool" where
  "hasSourceFile paths = list_ex (\<lambda>p. \<not> IsDocumentationPath p) paths"

definition ValidateStory :: "Story \<Rightarrow> validation_error option" where
  "ValidateStory s =
     (if s_ID s = [] then Some StoryMissingID
      else if s_RequirementIDs s = [] then Some (StoryMissingReqs (s_ID s))
      else if s_ComponentName s = [] then Some (StoryMissingComponent (s_ID s))
      else if TrimSpace (s_Title s) = [] then Some (StoryMissingTitle (s_ID s))
      else if s_Status s = StoryStatusPending then None
      else if s_FilesOwned s = [] then Some (StoryNoFiles (s_ID s))
      else if \<not> hasSourceFile (s_FilesOwned s) then Some (StoryDocsOnly (s_ID s))
      else if s_Tasks s = [] then Some (StoryNoTasks (s_ID s))
      else None)"

definition ValidateTask :: "bytes \<Rightarrow> Task \<Rightarrow> validation_error option" where
  "ValidateTask parentStoryID t =
     (if t_ID t = [] then Some (TaskMissingID parentStoryID)
      else if t_StoryID t \<noteq> parentStoryID
      then Some (TaskWrongStory (t_ID t) (t_StoryID t) parentStoryID)
      else if TrimSpace (t_Description t) = [] then Some (TaskMissingDescription (t_ID t))
      else None)"

definition ValidateTaskDAG :: "bytes \<Rightarrow> Task list \<Rightarrow> validation_error option" where
  "ValidateTaskDAG parentStoryID tasks =
     validate_dag t_ID t_DependsOn (\<lambda>i. TaskSelf i parentStoryID)
       (\<lambda>i d. TaskUnknown i parentStoryID d) (\<lambda>i d. TaskCycle parentStoryID i d) tasks"

text \<open>The sorted intersection of two normalised file sets, given as lists.\<close>

definition sharedFiles :: "bytes list \<Rightarrow> bytes list \<Rightarrow> bytes list" where
  "sharedFiles a b = sort (remdups (filter (\<lambda>f. f \<in> set b) a))"

text \<open>The pair loop \<^verbatim>\<open>for i ... for j := i+1 ...\<close>.\<close>

fun pairs_error :: "('a \<Rightarrow> 'a \<Rightarrow> 'e option) \<Rightarrow> 'a list \<Rightarrow> 'e option" where
  "pairs_error f [] = None"
| "pairs_error f (x # xs) = or_else (first_error (f x) xs) (pairs_error f xs)"

definition story_edges :: "Story list \<Rightarrow> (bytes \<times> bytes list) list" where
  "story_edges stories = rev (map (\<lambda>s. (s_ID s, s_DependsOn s)) stories)"

text \<open>The maps \<^verbatim>\<open>closure\<close> and \<^verbatim>\<open>normalized\<close> of \<^verbatim>\<open>ValidateStoryFileOwnership\<close>.\<close>

definition ownership_closure :: "Story list \<Rightarrow> bytes \<Rightarrow> bytes list" where
  "ownership_closure stories =
     slice_at (fill_map s_ID (\<lambda>s. bfs (story_edges stories) (s_DependsOn s) []) stories)"

definition normalized_files :: "Story list \<Rightarrow> bytes \<Rightarrow> bytes list" where
  "normalized_files stories =
     slice_at (fill_map s_ID (\<lambda>s. NormalizeFilePaths (s_FilesOwned s)) stories)"

definition ValidateStoryFileOwnership :: "Story list \<Rightarrow> validation_error option" where
  "ValidateStoryFileOwnership stories =
     (if length stories < 2 then None
      else let closure = ownership_closure stories; normalized = normalized_files stories in
        pairs_error (\<lambda>a b.
          let shared = sharedFiles (normalized (s_ID a)) (normalized (s_ID b)) in
          if shared = [] then None
          else if s_ID b \<notin> set (closure (s_ID a)) \<and> s_ID a \<notin> set (closure (s_ID b))
          then Some (StoryFileRace (s_ID a) (s_ID b) shared)
          else None) stories)"

definition ValidateStories :: "Story list \<Rightarrow> validation_error option" where
  "ValidateStories stories =
     or_else (first_error ValidateStory stories)
    (or_else (ValidateStoryDAG stories)
    (or_else (ValidateStoryFileOwnership stories)
      (first_error (\<lambda>s. or_else (ValidateTaskDAG (s_ID s) (s_Tasks s))
                         (first_error (ValidateTask (s_ID s)) (s_Tasks s))) stories)))"

text \<open>The map \<^verbatim>\<open>componentFiles\<close> of \<^verbatim>\<open>ValidateStoriesAgainstPlan\<close>; it is empty when there
  is no architecture or no component.\<close>

definition component_files :: "ComponentDef list \<Rightarrow> bytes \<Rightarrow> bytes list option" where
  "component_files comps = fill_map comp_Name
     (\<lambda>c. NormalizeFilePaths (ExpandFileScopeWithCompanionTests (comp_ImplementationFiles c))) comps"

definition ValidateStoriesAgainstPlan :: "Plan option \<Rightarrow> Story list \<Rightarrow> validation_error option" where
  "ValidateStoriesAgainstPlan planp stories =
     (case planp of None \<Rightarrow> None
      | Some plan \<Rightarrow>
          let comps = (case p_Architecture plan of None \<Rightarrow> [] | Some a \<Rightarrow> a_ComponentBoundaries a);
              reqIDs = map r_ID (p_Requirements plan)
          in first_error (\<lambda>s.
               if s_Status s = StoryStatusPending then None
               else or_else
                 (if reqIDs \<noteq> [] then first_error (\<lambda>rid. if rid \<notin> set reqIDs
                      then Some (StoryReqOrphan (s_ID s) rid) else None) (s_RequirementIDs s)
                  else None)
                 (if comps \<noteq> [] \<and> s_ComponentName s \<noteq> [] then
                    (case component_files comps (s_ComponentName s) of
                       None \<Rightarrow> Some (StoryUnresolvedComponent (s_ID s) (s_ComponentName s))
                     | Some owned \<Rightarrow> first_error (\<lambda>raw. let f = NormalizeFilePath raw in
                         if f = [] then None
                         else if f \<notin> set owned
                         then Some (StoryFileOutside (s_ID s) (s_ComponentName s) f)
                         else None) (s_FilesOwned s))
                  else None)) stories)"

section \<open>Components\<close>

fun index_names :: "bytes \<Rightarrow> Capability list \<Rightarrow> int list \<Rightarrow> int set \<Rightarrow> bytes list \<Rightarrow>
    validation_error + bytes list" where
  "index_names cname caps [] seen names = Inr names"
| "index_names cname caps (idx # is) seen names =
     (if idx < 0 \<or> int (length caps) \<le> idx then Inl (CapIndexRange cname idx)
      else if idx \<in> seen then index_names cname caps is seen names
      else index_names cname caps is (insert idx seen) (names @ [cap_Name (caps ! nat idx)]))"

text \<open>The components are updated in place; those before a failing one keep their new names.\<close>

fun resolve_loop :: "Capability list \<Rightarrow> ComponentDef list \<Rightarrow> validation_error option \<times> ComponentDef list" where
  "resolve_loop caps [] = (None, [])"
| "resolve_loop caps (c # cs) =
     (if comp_CapabilityIndices c = [] then
        (let (e, cs') = resolve_loop caps cs in (e, c # cs'))
      else case index_names (comp_Name c) caps (comp_CapabilityIndices c) {} [] of
        Inl e \<Rightarrow> (Some e, c # cs)
      | Inr names \<Rightarrow>
          (let (e, cs') = resolve_loop caps cs in (e, c\<lparr>comp_Capabilities := names\<rparr> # cs')))"

definition ResolveCapabilityIndices ::
    "Exploration option \<Rightarrow> ComponentDef list \<Rightarrow> validation_error option \<times> ComponentDef list" where
  "ResolveCapabilityIndices exp comps =
     (case exp of None \<Rightarrow> (None, comps)
      | Some e \<Rightarrow> if e_Capabilities e = [] then (None, comps)
                 else resolve_loop (e_Capabilities e) comps)"

definition ValidateCapabilityCoverage ::
    "Exploration option \<Rightarrow> ComponentDef list \<Rightarrow> validation_error option" where
  "ValidateCapabilityCoverage exp comps =
     (case exp of None \<Rightarrow> None
      | Some e \<Rightarrow>
          if e_Capabilities e = [] \<or> comps = [] then None
          else let covered = (\<Union>c \<in> set comps. set (comp_Capabilities c));
                   uncovered = filter (\<lambda>n. n \<notin> covered) (map cap_Name (e_Capabilities e))
               in if uncovered = [] then None else Some (CapUncovered uncovered))"

definition ValidateComponentImplementationFiles :: "ComponentDef list \<Rightarrow> validation_error option" where
  "ValidateComponentImplementationFiles comps =
     first_error (\<lambda>c.
       if comp_Name c = [] then None
       else if comp_ImplementationFiles c = [] then Some (CompNoFiles (comp_Name c))
       else if \<not> hasSourceFile (comp_ImplementationFiles c) then Some (CompDocsOnly (comp_Name c))
       else if comp_Capabilities c = [] \<and> comp_CapabilityIndices c = []
       then Some (CompNoCapability (comp_Name c))
       else None) comps"

definition codeSymbolImportKinds :: "bytes list" where
  "codeSymbolImportKinds = [''class'', ''interface'', ''type'', ''function'', ''annotation'', ''constant'']"

definition ValidateUpstreamImports :: "UpstreamResolution list \<Rightarrow> validation_error option" where
  "ValidateUpstreamImports resolutions =
     (let surfaces = concat (map (\<lambda>u. map (\<lambda>a. (u, a))
             (filter (\<lambda>a. api_Kind a \<in> set codeSymbolImportKinds) (ur_APIs u))) resolutions);
          missing = filter (\<lambda>(u, a). TrimSpace (api_Import a) = []) surfaces;
          bare = filter (\<lambda>(u, a). TrimSpace (api_Import a) \<noteq> []
                   \<and> \<not> ContainsAny (TrimSpace (api_Import a)) ''./''
                   \<and> \<not> Contains (TrimSpace (api_Import a)) ''::'') surfaces
      in if missing = [] \<and> bare = [] then None
         else Some (UpstreamImports (map (\<lambda>(u, a). (ur_Name u, api_Symbol a)) missing)
                                    (map (\<lambda>(u, a). (ur_Name u, api_Symbol a)) bare)))"

section \<open>The validators meet the contract\<close>

interpretation requirement_dag: dag_validator r_ID r_DependsOn ValidateRequirementDAG
  by unfold_locales (auto simp: ValidateRequirementDAG_def validate_dag_None)

interpretation story_dag: dag_validator s_ID s_DependsOn ValidateStoryDAG
  by unfold_locales (auto simp: ValidateStoryDAG_def validate_dag_None)

interpretation task_dag: dag_validator t_ID t_DependsOn "ValidateTaskDAG sid" for sid
  by unfold_locales (auto simp: ValidateTaskDAG_def validate_dag_None)

lemma detectCapabilityCycle_None:
  "detectCapabilityCycle caps = None \<longleftrightarrow> acyclic (dep_rel (dag_adj cap_Name cap_DependsOn caps))"
  using dfs_cycle_None [OF dag_adj_rooted [of cap_Name cap_DependsOn caps]]
  by (auto simp: detectCapabilityCycle_def split: option.splits)

lemma surfaces_loop_None: "surfaces_loop name ss i seen = None \<longleftrightarrow>
    (\<forall>s \<in> set ss. CapabilitySurface_IsValid s) \<and> distinct ss \<and> set ss \<inter> seen = {}"
  by (induction name ss i seen rule: surfaces_loop.induct) auto

lemma capset_loop_None: "capset_loop cs i names = None \<longleftrightarrow>
    (\<forall>c \<in> set cs. cap_Name c \<noteq> [] \<and> CapabilityLifecycle_IsValid (cap_Lifecycle c)
        \<and> ValidateCapabilitySurfaces c = None)
    \<and> distinct (map cap_Name cs) \<and> cap_Name ` set cs \<inter> names = {}"
  by (induction cs i names rule: capset_loop.induct) auto

lemma capability_set_None:
  assumes "ValidateCapabilitySet caps = None"
  shows "distinct (map cap_Name caps)"
    and "\<forall>c \<in> set caps. set (cap_DependsOn c) \<subseteq> cap_Name ` set caps"
    and "acyclic (dep_rel (dag_adj cap_Name cap_DependsOn caps))"
    and "\<forall>c \<in> set caps. cap_Name c \<noteq> [] \<and> CapabilityLifecycle_IsValid (cap_Lifecycle c)"
proof -
  have e: "acyclic (dep_rel (dag_adj cap_Name cap_DependsOn ([] :: Capability list)))"
    using detectCapabilityCycle_None [of "[]"]
    by (simp add: detectCapabilityCycle_def dfs_cycle_def dfs_run_def)
  show "distinct (map cap_Name caps)"
    "\<forall>c \<in> set caps. set (cap_DependsOn c) \<subseteq> cap_Name ` set caps"
    "\<forall>c \<in> set caps. cap_Name c \<noteq> [] \<and> CapabilityLifecycle_IsValid (cap_Lifecycle c)"
    "acyclic (dep_rel (dag_adj cap_Name cap_DependsOn caps))"
    using assms e
    by (cases "caps = []";
        fastforce simp: ValidateCapabilitySet_def capset_loop_None detectCapabilityCycle_None
          split: if_splits)+
qed

lemma capability_set_refs:
  assumes "ValidateCapabilitySet caps = None"
  shows "refs_resolve cap_Name cap_DependsOn caps"
  unfolding refs_resolve_def
proof (intro ballI subsetI DiffI)
  note v = capability_set_None [OF assms]
  fix c d assume c: "c \<in> set caps" "d \<in> set (cap_DependsOn c)"
  then show "d \<in> cap_Name ` set caps" using v(2) by blast
  have "(cap_Name c, d) \<in> dep_rel (dag_adj cap_Name cap_DependsOn caps)"
    using c v(1) by (simp add: dag_adj_distinct)
  then show "d \<notin> {cap_Name c}" using v(3) unfolding acyclic_def by blast
qed

interpretation capability_dag: dag_validator_sound cap_Name cap_DependsOn ValidateCapabilitySet
  by unfold_locales (auto intro: capability_set_refs capability_set_None(3))

section \<open>File ownership\<close>

lemma pairs_error_None: "pairs_error f xs = None \<longleftrightarrow> sorted_wrt (\<lambda>a b. f a b = None) xs"
  by (induction xs) auto

lemma sharedFiles_Nil: "sharedFiles a b = [] \<longleftrightarrow> set a \<inter> set b = {}"
proof -
  have "sharedFiles a b = [] \<longleftrightarrow> set (sharedFiles a b) = {}" by simp
  then show ?thesis by (auto simp: sharedFiles_def)
qed

lemma set_sharedFiles [simp]: "set (sharedFiles a b) = set a \<inter> set b"
  by (auto simp: sharedFiles_def)

definition story_files :: "Story \<Rightarrow> bytes set" where
  "story_files s = set (NormalizeFilePaths (s_FilesOwned s))"

text \<open>The dependency order of the stories, as the schedulers see it.\<close>

abbreviation story_rel :: "Story list \<Rightarrow> (bytes \<times> bytes) set" where
  "story_rel stories \<equiv> dep_rel (dag_adj s_ID s_DependsOn stories)"

lemma story_edges_adj: "succs (story_edges stories) = dag_adj s_ID s_DependsOn stories"
  by (simp add: story_edges_def dag_adj_succs)

lemma ownership_closure_set:
  assumes "distinct (map s_ID stories)" "s \<in> set stories"
  shows "set (ownership_closure stories (s_ID s)) = {t. (s_ID s, t) \<in> (story_rel stories)\<^sup>+}"
proof -
  have "ownership_closure stories (s_ID s) = bfs (story_edges stories) (s_DependsOn s) []"
    using assms by (simp add: ownership_closure_def slice_at_def fill_map_distinct)
  also have "s_DependsOn s = succs (story_edges stories) (s_ID s)"
    using assms by (simp add: story_edges_adj dag_adj_distinct)
  finally show ?thesis using set_bfs_succs [of "story_edges stories" "s_ID s"]
    by (simp add: story_edges_adj)
qed

lemma normalized_files_set:
  assumes "distinct (map s_ID stories)" "s \<in> set stories"
  shows "set (normalized_files stories (s_ID s)) = story_files s"
  using assms by (simp add: normalized_files_def slice_at_def fill_map_distinct story_files_def)

text \<open>The ownership validator accepts exactly the lists in which any two stories that share a file
  are ordered by their dependencies.\<close>

definition files_ordered :: "Story list \<Rightarrow> bool" where
  "files_ordered stories \<longleftrightarrow> (\<forall>a \<in> set stories. \<forall>b \<in> set stories. s_ID a \<noteq> s_ID b \<longrightarrow>
     story_files a \<inter> story_files b \<noteq> {} \<longrightarrow>
     (s_ID a, s_ID b) \<in> (story_rel stories)\<^sup>+ \<or> (s_ID b, s_ID a) \<in> (story_rel stories)\<^sup>+)"

lemma sorted_wrt_iff:
  "(\<And>x y. x \<in> set xs \<Longrightarrow> y \<in> set xs \<Longrightarrow> P x y = Q x y) \<Longrightarrow> sorted_wrt P xs = sorted_wrt Q xs"
  by (induction xs) auto

lemma sorted_wrt_all_pairs:
  assumes "distinct (map key xs)" "\<And>a b. P a b = P b a"
  shows "sorted_wrt P xs \<longleftrightarrow> (\<forall>a \<in> set xs. \<forall>b \<in> set xs. key a \<noteq> key b \<longrightarrow> P a b)"
  using assms(1)
proof (induction xs)
  case (Cons x xs)
  have d: "\<forall>b \<in> set xs. key x \<noteq> key b" using Cons.prems by auto
  have "sorted_wrt P (x # xs) \<longleftrightarrow> (\<forall>b \<in> set xs. P x b)
      \<and> (\<forall>a \<in> set xs. \<forall>b \<in> set xs. key a \<noteq> key b \<longrightarrow> P a b)"
    using Cons by simp
  also have "\<dots> \<longleftrightarrow> (\<forall>a \<in> set (x # xs). \<forall>b \<in> set (x # xs). key a \<noteq> key b \<longrightarrow> P a b)"
  proof
    assume L: "(\<forall>b \<in> set xs. P x b) \<and> (\<forall>a \<in> set xs. \<forall>b \<in> set xs. key a \<noteq> key b \<longrightarrow> P a b)"
    show "\<forall>a \<in> set (x # xs). \<forall>b \<in> set (x # xs). key a \<noteq> key b \<longrightarrow> P a b"
    proof (intro ballI impI)
      fix a b assume ab: "a \<in> set (x # xs)" "b \<in> set (x # xs)" "key a \<noteq> key b"
      then consider "a = x" "b \<in> set xs" | "b = x" "a \<in> set xs" | "a \<in> set xs" "b \<in> set xs" by auto
      then show "P a b" by cases (use L ab(3) assms(2) in blast)+
    qed
  qed (use d in simp)
  finally show ?case .
qed simp

lemma ownership_None:
  assumes "distinct (map s_ID stories)"
  shows "ValidateStoryFileOwnership stories = None \<longleftrightarrow> files_ordered stories"
proof (cases "length stories < 2")
  case True
  then consider "stories = []" | s where "stories = [s]"
    by (metis One_nat_def Suc_1 length_0_conv length_Suc_conv less_2_cases)
  then show ?thesis
    by cases (auto simp: ValidateStoryFileOwnership_def files_ordered_def)
next
  case False
  let ?P = "\<lambda>a b. story_files a \<inter> story_files b \<noteq> {} \<longrightarrow>
     (s_ID a, s_ID b) \<in> (story_rel stories)\<^sup>+ \<or> (s_ID b, s_ID a) \<in> (story_rel stories)\<^sup>+"
  have "ValidateStoryFileOwnership stories = None \<longleftrightarrow> sorted_wrt (\<lambda>a b.
      (let shared = sharedFiles (normalized_files stories (s_ID a)) (normalized_files stories (s_ID b)) in
          if shared = [] then None
          else if s_ID b \<notin> set (ownership_closure stories (s_ID a))
                \<and> s_ID a \<notin> set (ownership_closure stories (s_ID b))
          then Some (StoryFileRace (s_ID a) (s_ID b) shared) else None) = None) stories"
    using False by (simp add: ValidateStoryFileOwnership_def pairs_error_None Let_def)
  also have "\<dots> \<longleftrightarrow> sorted_wrt ?P stories"
    by (intro sorted_wrt_iff)
       (auto simp: Let_def sharedFiles_Nil normalized_files_set [OF assms]
           ownership_closure_set [OF assms])
  also have "\<dots> \<longleftrightarrow> files_ordered stories"
    unfolding files_ordered_def
    by (rule sorted_wrt_all_pairs [OF assms]) blast
  finally show ?thesis .
qed

lemma ownership_error:
  assumes d: "distinct (map s_ID stories)"
    and e: "ValidateStoryFileOwnership stories = Some (StoryFileRace i j fs)"
  shows "\<exists>a \<in> set stories. \<exists>b \<in> set stories. s_ID a = i \<and> s_ID b = j \<and>
     set fs = story_files a \<inter> story_files b \<and> fs \<noteq> [] \<and>
     (i, j) \<notin> (story_rel stories)\<^sup>+ \<and> (j, i) \<notin> (story_rel stories)\<^sup>+"
proof -
  let ?f = "\<lambda>a b. let shared = sharedFiles (normalized_files stories (s_ID a)) (normalized_files stories (s_ID b)) in
          if shared = [] then None
          else if s_ID b \<notin> set (ownership_closure stories (s_ID a))
                \<and> s_ID a \<notin> set (ownership_closure stories (s_ID b))
          then Some (StoryFileRace (s_ID a) (s_ID b) shared) else None"
  have p: "pairs_error f xs = Some err \<Longrightarrow> \<exists>a \<in> set xs. \<exists>b \<in> set xs. f a b = Some err"
    for f :: "Story \<Rightarrow> Story \<Rightarrow> validation_error option" and xs err
  proof (induction xs)
    case (Cons x xs)
    then show ?case
      by (cases "first_error (f x) xs") (auto simp: or_else_def dest!: first_error_SomeD)
  qed simp
  have "pairs_error ?f stories = Some (StoryFileRace i j fs)"
    using e by (simp add: ValidateStoryFileOwnership_def Let_def split: if_splits)
  then obtain a b where ab: "a \<in> set stories" "b \<in> set stories" "?f a b = Some (StoryFileRace i j fs)"
    using p by blast
  then have "s_ID a = i" "s_ID b = j"
    "fs = sharedFiles (normalized_files stories (s_ID a)) (normalized_files stories (s_ID b))" "fs \<noteq> []"
    "s_ID b \<notin> set (ownership_closure stories (s_ID a))" "s_ID a \<notin> set (ownership_closure stories (s_ID b))"
    by (auto simp: Let_def split: if_splits)
  then show ?thesis
    using ab(1,2) by (intro bexI [of _ a] bexI [of _ b])
      (auto simp: normalized_files_set [OF d] ownership_closure_set [OF d])
qed

lemma validate_dag_cycle:
  assumes "\<And>k. self k \<noteq> cyc i d" "\<And>k l. unknown k l \<noteq> cyc i d" "\<And>k l. cyc k l = cyc i d \<Longrightarrow> k = i \<and> l = d"
    and "validate_dag ident deps self unknown cyc xs = Some (cyc i d)"
  shows "(i, d) \<in> dep_rel (dag_adj ident deps xs) \<and> (d, i) \<in> (dep_rel (dag_adj ident deps xs))\<^sup>*"
proof -
  have "ref_check ident deps self unknown xs \<noteq> Some (cyc i d)"
    using assms(1,2) by (auto simp: ref_check_def dest!: first_error_SomeD split: if_splits)
  then obtain p where "dfs_cycle (dag_adj ident deps xs) (map ident xs) = Some (i, d, p)"
    using assms(3,4) by (fastforce simp: validate_dag_def or_else_def split: option.splits)
  from dfs_run_cycle [OF dfs_cycle_SomeD [OF this]] show ?thesis by simp
qed

section \<open>Properties\<close>

text \<open>C29: ValidateRequirementDAG is exact.  It accepts a requirement list exactly when every
  dependency names another requirement of the list and the dependencies have no cycle; then the
  requirements have an order in which each follows what it depends on.  A reported cycle is real:
  the named edge exists and its target leads back to its source.\<close>

theorem requirement_dag_exact:
  "(ValidateRequirementDAG reqs = None) =
     (refs_resolve r_ID r_DependsOn reqs \<and> acyclic (dep_rel (dag_adj r_ID r_DependsOn reqs)))
   \<and> (ValidateRequirementDAG reqs = None \<longrightarrow>
       (\<exists>order. distinct order \<and> set order = r_ID ` set reqs \<and> topo (dag_adj r_ID r_DependsOn reqs) order))
   \<and> (\<forall>i d. ValidateRequirementDAG reqs = Some (ReqCycle i d) \<longrightarrow>
       d \<in> set (dag_adj r_ID r_DependsOn reqs i) \<and> (d, i) \<in> (dep_rel (dag_adj r_ID r_DependsOn reqs))\<^sup>*)"
proof (intro conjI allI impI)
  fix i d assume "ValidateRequirementDAG reqs = Some (ReqCycle i d)"
  then have "validate_dag r_ID r_DependsOn ReqSelf ReqUnknown ReqCycle reqs = Some (ReqCycle i d)"
    by (simp add: ValidateRequirementDAG_def)
  then have "(i, d) \<in> dep_rel (dag_adj r_ID r_DependsOn reqs)
      \<and> (d, i) \<in> (dep_rel (dag_adj r_ID r_DependsOn reqs))\<^sup>*"
    by (rule validate_dag_cycle [rotated 3]) simp_all
  then show "d \<in> set (dag_adj r_ID r_DependsOn reqs i)"
    and "(d, i) \<in> (dep_rel (dag_adj r_ID r_DependsOn reqs))\<^sup>*" by simp_all
next
  show "(ValidateRequirementDAG reqs = None) =
     (refs_resolve r_ID r_DependsOn reqs \<and> acyclic (dep_rel (dag_adj r_ID r_DependsOn reqs)))"
    by (rule requirement_dag.validate_iff)
  show "\<exists>order. distinct order \<and> set order = r_ID ` set reqs \<and> topo (dag_adj r_ID r_DependsOn reqs) order"
    if "ValidateRequirementDAG reqs = None"
    by (rule requirement_dag.topological_order [OF that])
qed

theorem requirement_dag_exact_witness:
  "ValidateRequirementDAG [ex_req ''r1'' [], ex_req ''r2'' [''r1'']] = None
   \<and> (\<exists>order. set order = {''r1'', ''r2''} \<and>
        topo (dag_adj r_ID r_DependsOn [ex_req ''r1'' [], ex_req ''r2'' [''r1'']]) order)
   \<and> ValidateRequirementDAG [ex_req ''r1'' [''r2''], ex_req ''r2'' [''r1'']] = Some (ReqCycle ''r2'' ''r1'')
   \<and> (''r1'', ''r2'') \<in> (dep_rel (dag_adj r_ID r_DependsOn
        [ex_req ''r1'' [''r2''], ex_req ''r2'' [''r1'']]))\<^sup>*"
proof -
  have a: "ValidateRequirementDAG [ex_req ''r1'' [], ex_req ''r2'' [''r1'']] = None"
    and b: "ValidateRequirementDAG [ex_req ''r1'' [''r2''], ex_req ''r2'' [''r1'']]
      = Some (ReqCycle ''r2'' ''r1'')" by code_simp+
  have ids: "r_ID ` set [ex_req ''r1'' [], ex_req ''r2'' [''r1'']] = {''r1'', ''r2''}"
    by (simp add: ex_req_def)
  have o: "\<exists>order. set order = {''r1'', ''r2''} \<and>
      topo (dag_adj r_ID r_DependsOn [ex_req ''r1'' [], ex_req ''r2'' [''r1'']]) order"
    using mp [OF conjunct1 [OF conjunct2 [OF requirement_dag_exact]] a] unfolding ids by metis
  have c: "(''r1'', ''r2'') \<in> (dep_rel (dag_adj r_ID r_DependsOn
      [ex_req ''r1'' [''r2''], ex_req ''r2'' [''r1'']]))\<^sup>*"
    using conjunct2 [OF conjunct2 [OF requirement_dag_exact]] b by metis
  show ?thesis by (intro conjI a b o c)
qed

text \<open>ValidateStoryFileOwnership is exact on stories with distinct IDs.  It accepts exactly the
  lists in which every two stories that own a common normalised file are ordered by the transitive
  dependencies, and a reported race names two such unordered stories with all their common
  files.\<close>

theorem story_ownership_exact:
  assumes "distinct (map s_ID stories)"
  shows "(ValidateStoryFileOwnership stories = None) = files_ordered stories
   \<and> (\<forall>i j fs. ValidateStoryFileOwnership stories = Some (StoryFileRace i j fs) \<longrightarrow>
       (\<exists>a \<in> set stories. \<exists>b \<in> set stories. s_ID a = i \<and> s_ID b = j \<and>
          set fs = story_files a \<inter> story_files b \<and> fs \<noteq> [] \<and>
          (i, j) \<notin> (story_rel stories)\<^sup>+ \<and> (j, i) \<notin> (story_rel stories)\<^sup>+))"
  using ownership_None [OF assms] ownership_error [OF assms] by blast

theorem story_ownership_exact_witness:
  "ValidateStoryFileOwnership
     [ex_story ''s1'' ''c'' [''r1''] [''./a.go''], ex_story ''s2'' ''c'' [''r2''] [''a.go'', ''b.go'']]
     = Some (StoryFileRace ''s1'' ''s2'' [''a.go''])
   \<and> files_ordered [ex_story ''s1'' ''c'' [''r1''] [''./a.go''], ex_story ''s2'' ''c'' [''r2''] [''a.go'', ''b.go'']] = False
   \<and> (''s1'', ''s2'') \<notin> (story_rel [ex_story ''s1'' ''c'' [''r1''] [''./a.go''],
        ex_story ''s2'' ''c'' [''r2''] [''a.go'', ''b.go'']])\<^sup>+"
proof -
  let ?ss = "[ex_story ''s1'' ''c'' [''r1''] [''./a.go''], ex_story ''s2'' ''c'' [''r2''] [''a.go'', ''b.go'']]"
  have v: "ValidateStoryFileOwnership ?ss = Some (StoryFileRace ''s1'' ''s2'' [''a.go''])" by code_simp
  have d: "distinct (map s_ID ?ss)" by (simp add: ex_story_def)
  from v story_ownership_exact [OF d] show ?thesis by fastforce
qed

text \<open>The gate on requirement coverage agrees with the two reporting functions.  When some
  requirement names a capability, ValidateRequirementCapabilityCoverage accepts exactly when every
  requirement names one, FindUncoveredCapabilities reports none (for capabilities with names) and
  FindOrphanRequirementCapabilities reports none.\<close>

theorem capability_coverage_agrees:
  assumes "list_ex (\<lambda>r. r_CapabilityName r \<noteq> []) reqs" and "e_Capabilities e \<noteq> []"
    and "ValidateCapabilitySet (e_Capabilities e) = None"
  shows "(ValidateRequirementCapabilityCoverage (Some e) reqs = None) =
     (list_all (\<lambda>r. r_CapabilityName r \<noteq> []) reqs
      \<and> FindUncoveredCapabilities (Some e) reqs = []
      \<and> FindOrphanRequirementCapabilities (Some e) reqs = [])"
proof -
  have n: "cap_Name c \<noteq> []" if "c \<in> set (e_Capabilities e)" for c
    using capability_set_None(4) [OF assms(3)] that by blast
  have w: "filter (\<lambda>r. r_CapabilityName r \<noteq> []) reqs \<noteq> []" and r: "reqs \<noteq> []"
    using assms(1) by (auto simp: list_ex_iff filter_empty_conv)
  have l: "length (filter (\<lambda>r. r_CapabilityName r \<noteq> []) reqs) < length reqs
      \<longleftrightarrow> \<not> list_all (\<lambda>r. r_CapabilityName r \<noteq> []) reqs"
    by (metis (mono_tags, lifting) filter_True length_filter_less list_all_iff nat_neq_iff)
  show ?thesis
  proof (cases "list_all (\<lambda>r. r_CapabilityName r \<noteq> []) reqs")
    case False
    then show ?thesis
      using assms(2) w r l by (simp add: ValidateRequirementCapabilityCoverage_def Let_def)
  next
    case True
    then have f: "filter (\<lambda>r. r_CapabilityName r \<noteq> []) reqs = reqs"
      by (simp add: list_all_iff)
    have "ValidateRequirementCapabilityCoverage (Some e) reqs = None \<longleftrightarrow>
        (\<forall>r \<in> set reqs. r_CapabilityName r \<in> cap_Name ` set (e_Capabilities e))
        \<and> (\<forall>c \<in> set (e_Capabilities e). cap_Name c \<in> r_CapabilityName ` set reqs)"
      using assms(2) w r l True by (simp add: ValidateRequirementCapabilityCoverage_def Let_def)
    then show ?thesis
      using True by (auto simp: FindUncoveredCapabilities_def FindOrphanRequirementCapabilities_def
          f filter_empty_conv list_all_iff)
  qed
qed

theorem capability_coverage_agrees_witness:
  "(ValidateRequirementCapabilityCoverage
      (Some (Exploration_zero\<lparr>e_Capabilities := [Capability_zero\<lparr>cap_Name := ''c1'', cap_Lifecycle := CapabilityNew\<rparr>]\<rparr>))
      [(ex_req ''r1'' [])\<lparr>r_CapabilityName := ''c1''\<rparr>] = None) = True"
proof -
  let ?e = "Exploration_zero\<lparr>e_Capabilities := [Capability_zero\<lparr>cap_Name := ''c1'', cap_Lifecycle := CapabilityNew\<rparr>]\<rparr>"
  let ?rs = "[(ex_req ''r1'' [])\<lparr>r_CapabilityName := ''c1''\<rparr>]"
  have "list_ex (\<lambda>r. r_CapabilityName r \<noteq> []) ?rs" "e_Capabilities ?e \<noteq> []"
    "ValidateCapabilitySet (e_Capabilities ?e) = None" by code_simp+
  from capability_coverage_agrees [OF this] show ?thesis
    by (simp add: FindUncoveredCapabilities_def FindOrphanRequirementCapabilities_def ex_req_def)
qed

text \<open>stories accepted against the plan stay inside it.  For a plan with requirements and an
  architecture whose component names are distinct, every prepared (not pending) story of an accepted
  list covers only requirements of the plan, names one of its components (if it names any), and every
  file it owns normalises to a file of that component, companion tests included, or to
  nothing.\<close>

theorem stories_inside_plan:
  assumes "ValidateStoriesAgainstPlan (Some plan) stories = None" and "s \<in> set stories"
    and "s_Status s \<noteq> StoryStatusPending" and "p_Requirements plan \<noteq> []"
    and "p_Architecture plan = Some a" and "a_ComponentBoundaries a \<noteq> []"
    and "distinct (map comp_Name (a_ComponentBoundaries a))" and "s_ComponentName s \<noteq> []"
  shows "set (s_RequirementIDs s) \<subseteq> r_ID ` set (p_Requirements plan)
    \<and> (\<exists>c \<in> set (a_ComponentBoundaries a). comp_Name c = s_ComponentName s \<and>
         set (NormalizeFilePaths (s_FilesOwned s)) \<subseteq>
           set (NormalizeFilePaths (ExpandFileScopeWithCompanionTests (comp_ImplementationFiles c))))"
proof -
  let ?cs = "a_ComponentBoundaries a"
  have *: "\<forall>rid \<in> set (s_RequirementIDs s). rid \<in> r_ID ` set (p_Requirements plan)"
    "(case component_files ?cs (s_ComponentName s) of
        None \<Rightarrow> Some (StoryUnresolvedComponent (s_ID s) (s_ComponentName s))
      | Some owned \<Rightarrow> first_error (\<lambda>raw. let f = NormalizeFilePath raw in
          if f = [] then None else if f \<notin> set owned
          then Some (StoryFileOutside (s_ID s) (s_ComponentName s) f) else None) (s_FilesOwned s)) = None"
    using assms by (auto simp: ValidateStoriesAgainstPlan_def Let_def split: if_splits)
  then obtain owned where o: "component_files ?cs (s_ComponentName s) = Some owned"
    by (cases "component_files ?cs (s_ComponentName s)") auto
  then obtain c where c: "c \<in> set ?cs" "comp_Name c = s_ComponentName s"
    "owned = NormalizeFilePaths (ExpandFileScopeWithCompanionTests (comp_ImplementationFiles c))"
    unfolding component_files_def by (auto dest: fill_map_SomeD)
  have "\<forall>raw \<in> set (s_FilesOwned s). NormalizeFilePath raw = [] \<or> NormalizeFilePath raw \<in> set owned"
    using *(2) unfolding o by (auto simp: Let_def split: if_splits)
  then have "set (NormalizeFilePaths (s_FilesOwned s)) \<subseteq> set owned"
    by (auto simp: NormalizeFilePaths_def)
  then show ?thesis using *(1) c by auto
qed

text \<open>A plan with one requirement and one component, and a prepared story of it.\<close>

definition ex_plan1 :: Plan where
  "ex_plan1 = Plan_zero\<lparr>p_Requirements := [ex_req ''r1'' []],
     p_Architecture := Some (ArchitectureDocument_zero\<lparr>a_ComponentBoundaries :=
       [ComponentDef_zero\<lparr>comp_Name := ''c'', comp_ImplementationFiles := [''a.go'']\<rparr>]\<rparr>)\<rparr>"

definition ex_story1 :: Story where
  "ex_story1 = (ex_story ''s1'' ''c'' [''r1''] [''./a.go''])\<lparr>s_Status := StoryStatusReady\<rparr>"

theorem stories_inside_plan_witness:
  "set (s_RequirementIDs ex_story1) \<subseteq> {''r1''}"
proof -
  let ?a = "the (p_Architecture ex_plan1)"
  have v: "ValidateStoriesAgainstPlan (Some ex_plan1) [ex_story1] = None" by code_simp
  have f: "s_Status ex_story1 \<noteq> StoryStatusPending" "p_Requirements ex_plan1 \<noteq> []"
    "p_Architecture ex_plan1 = Some ?a" "a_ComponentBoundaries ?a \<noteq> []"
    "distinct (map comp_Name (a_ComponentBoundaries ?a))" "s_ComponentName ex_story1 \<noteq> []"
    by (simp_all add: ex_plan1_def ex_story1_def ex_story_def)
  have "r_ID ` set (p_Requirements ex_plan1) = {''r1''}" by (simp add: ex_plan1_def ex_req_def)
  with stories_inside_plan [OF v _ f] show ?thesis by auto
qed

end
