(* ===== verification/Execution_Types.thy ===== *)
theory Execution_Types
  imports Plan_Types
begin

text \<open>
  The execution records of \<^verbatim>\<open>src/workflow/execution.go\<close>, keyed in the bucket
  EXECUTION_STATES, and the task DAG of \<^verbatim>\<open>src/processor/requirement-executor/dag.go\<close>.  Field
  names follow theory \<open>Plan_Types\<close>; the serialised DAG is kept decoded.
\<close>

record TaskNode =
  n_ID :: "bytes"
  n_Prompt :: "bytes"
  n_Role :: "bytes"
  n_DependsOn :: "bytes list"
  n_FileScope :: "bytes list"
  n_ScenarioIDs :: "bytes list"

record TaskDAG =
  dag_Nodes :: "TaskNode list"

record NodeResult =
  nr_NodeID :: "bytes"
  nr_FilesModified :: "bytes list"
  nr_Summary :: "bytes"
  nr_CommitSHA :: "bytes"

record ScenarioVerdict =
  sv_ScenarioID :: "bytes"
  sv_Passed :: "bool"
  sv_Feedback :: "bytes"

record PrereqContext =
  pc_RequirementID :: "bytes"
  pc_Title :: "bytes"
  pc_Description :: "bytes"
  pc_FilesModified :: "bytes list"
  pc_Summary :: "bytes"

record TaskExecution =
  te_EntityID :: "bytes"
  te_Slug :: "bytes"
  te_TaskID :: "bytes"
  te_RequirementID :: "bytes"
  te_Stage :: "bytes"
  te_TDDCycle :: "int"
  te_MaxTDDCycles :: "int"
  te_Title :: "bytes"
  te_Description :: "bytes"
  te_ProjectID :: "bytes"
  te_Prompt :: "bytes"
  te_Model :: "bytes"
  te_TraceID :: "bytes"
  te_LoopID :: "bytes"
  te_RequestID :: "bytes"
  te_TaskType :: "bytes"
  te_AgentID :: "bytes"
  te_WorktreePath :: "bytes"
  te_WorktreeBranch :: "bytes"
  te_ScenarioBranch :: "bytes"
  te_FileScope :: "bytes list"
  te_Scenarios :: "Scenario list"
  te_FilesModified :: "bytes list"
  te_TestsPassed :: "bool"
  te_ValidationPassed :: "bool"
  te_MergeCommit :: "bytes"
  te_DeveloperTaskID :: "bytes"
  te_ValidatorTaskID :: "bytes"
  te_ReviewerTaskID :: "bytes"
  te_Verdict :: "bytes"
  te_RejectionType :: "bytes"
  te_Feedback :: "bytes"
  te_ReviewRetryCount :: "int"
  te_ErrorReason :: "bytes"
  te_ErrorClass :: "bytes"
  te_EscalationReason :: "bytes"
  te_CreatedAt :: "nat"
  te_UpdatedAt :: "nat"

record RequirementExecution =
  re_EntityID :: "bytes"
  re_Slug :: "bytes"
  re_RequirementID :: "bytes"
  re_Stage :: "bytes"
  re_Title :: "bytes"
  re_Description :: "bytes"
  re_ProjectID :: "bytes"
  re_TraceID :: "bytes"
  re_LoopID :: "bytes"
  re_RequestID :: "bytes"
  re_Model :: "bytes"
  re_Scenarios :: "Scenario list"
  re_DependsOn :: "PrereqContext list"
  re_Prompt :: "bytes"
  re_Role :: "bytes"
  re_PlanBranch :: "bytes"
  re_BaseBranch :: "bytes"
  re_SortedStoryIDs :: "bytes list"
  re_CurrentStoryIdx :: "int"
  re_NodeCount :: "int"
  re_CurrentNodeIdx :: "int"
  re_DAGRaw :: "TaskDAG option"
  re_SortedNodeIDs :: "bytes list"
  re_NodeResults :: "NodeResult list"
  re_ScenarioVerdicts :: "ScenarioVerdict list"
  re_CurrentNodeTaskID :: "bytes"
  re_ReviewerTaskID :: "bytes"
  re_RequirementBranch :: "bytes"
  re_ReviewVerdict :: "bytes"
  re_ReviewFeedback :: "bytes"
  re_ErrorReason :: "bytes"
  re_ErrorClass :: "bytes"
  re_RetryCount :: "int"
  re_MaxRetries :: "int"
  re_CreatedAt :: "nat"
  re_UpdatedAt :: "nat"

definition TaskExecutionKey :: "bytes \<Rightarrow> bytes \<Rightarrow> bytes" where
  "TaskExecutionKey slug taskID = ''task.'' @ slug @ ''.'' @ taskID"

definition RequirementExecutionKey :: "bytes \<Rightarrow> bytes \<Rightarrow> bytes" where
  "RequirementExecutionKey slug requirementID = ''req.'' @ slug @ ''.'' @ requirementID"

definition IsTerminalTaskStage :: "bytes \<Rightarrow> bool" where
  "IsTerminalTaskStage stage \<longleftrightarrow> stage \<in> {''approved'', ''escalated'', ''error'', ''rejected''}"

definition IsTerminalReqStage :: "bytes \<Rightarrow> bool" where
  "IsTerminalReqStage stage \<longleftrightarrow> stage \<in> {''completed'', ''failed'', ''error''}"

end
