(* ===== verification/Task_Dag.thy ===== *)
theory Task_Dag
  imports Validators Execution_Types
begin

text \<open>
  \<^verbatim>\<open>src/processor/requirement-executor/dag.go\<close> and \<^verbatim>\<open>synthesize_dag.go\<close>: the task DAG of a
  story, its validation, its synthesis from the tasks of the story, and the order in which the
  stories of a requirement run.  The Markdown block of integration bindings that synthesis appends to
  a task prompt is the argument \<open>bindingBlock\<close>.
\<close>

section \<open>Definitions\<close>

datatype dag_error =
    DagEmpty | DagTooLarge nat | DagDuplicate bytes | NodeSelf bytes | NodeUnknown bytes bytes
  | NodeCycle bytes bytes | ScopeEmpty bytes | ScopeTooLarge bytes nat | ScopeEntryEmpty bytes nat
  | ScopeTraversal bytes nat bytes
  | NoTasks bytes | NoFilesOwned bytes | SynthesisInvalid dag_error
  | StoryDuplicate bytes | StoryOrderCycle bytes

definition maxDAGNodes :: nat where
  "maxDAGNodes = 100"

definition maxFileScopeEntries :: nat where
  "maxFileScopeEntries = 100"

definition detectCycles :: "TaskNode list \<Rightarrow> dag_error option" where
  "detectCycles nodes =
     (case dfs_cycle (dag_adj n_ID n_DependsOn nodes) (map n_ID nodes) of
        None \<Rightarrow> None
      | Some (i, d, _) \<Rightarrow> Some (NodeCycle i d))"

fun dup_check :: "bytes list \<Rightarrow> bytes set \<Rightarrow> bytes option" where
  "dup_check [] seen = None"
| "dup_check (i # is) seen = (if i \<in> seen then Some i else dup_check is (insert i seen))"

fun scope_entries_check :: "bytes \<Rightarrow> bytes list \<Rightarrow> nat \<Rightarrow> dag_error option" where
  "scope_entries_check nid [] i = None"
| "scope_entries_check nid (entry # es) i =
     (if entry = [] then Some (ScopeEntryEmpty nid i)
      else if containsPathTraversal entry then Some (ScopeTraversal nid i entry)
      else scope_entries_check nid es (Suc i))"

definition TaskDAG_Validate :: "TaskDAG \<Rightarrow> dag_error option" where
  "TaskDAG_Validate d =
     (let nodes = dag_Nodes d in
      if nodes = [] then Some DagEmpty
      else if length nodes > maxDAGNodes then Some (DagTooLarge (length nodes))
      else or_else (case dup_check (map n_ID nodes) {} of None \<Rightarrow> None | Some i \<Rightarrow> Some (DagDuplicate i))
          (or_else (ref_check n_ID n_DependsOn NodeSelf NodeUnknown nodes)
          (or_else (detectCycles nodes)
            (first_error (\<lambda>n.
               if n_FileScope n = [] then Some (ScopeEmpty (n_ID n))
               else if length (n_FileScope n) > maxFileScopeEntries
               then Some (ScopeTooLarge (n_ID n) (length (n_FileScope n)))
               else scope_entries_check (n_ID n) (n_FileScope n) 0) nodes))))"

definition task_node :: "bytes \<Rightarrow> bytes list \<Rightarrow> bytes list \<Rightarrow> Task \<Rightarrow> TaskNode" where
  "task_node block files scenarioIDs t =
     \<lparr>n_ID = t_ID t,
      n_Prompt = (if block \<noteq> [] then t_Description t @ [CHR 0x0A, CHR 0x0A] @ ''---'' @ [CHR 0x0A, CHR 0x0A] @ block
                  else t_Description t),
      n_Role = ''developer'', n_DependsOn = t_DependsOn t, n_FileScope = files,
      n_ScenarioIDs = scenarioIDs\<rparr>"

definition synthesizeTaskDAGForStory :: "(Scenario list \<Rightarrow> bytes) \<Rightarrow> Plan option \<Rightarrow> Story \<Rightarrow>
    dag_error + TaskDAG" where
  "synthesizeTaskDAGForStory bindingBlock plan story =
     (if s_Tasks story = [] then Inl (NoTasks (s_ID story))
      else if s_FilesOwned story = [] then Inl (NoFilesOwned (s_ID story))
      else let scenarios = (case plan of None \<Rightarrow> [] | Some p \<Rightarrow> ScenariosForStory p (s_ID story));
               nodes = map (task_node (bindingBlock scenarios) (s_FilesOwned story) (map sc_ID scenarios))
                         (s_Tasks story);
               d = \<lparr>dag_Nodes = nodes\<rparr>
           in case TaskDAG_Validate d of
                Some e \<Rightarrow> Inl (SynthesisInvalid e)
              | None \<Rightarrow> Inr d)"

text \<open>Dependencies on stories outside the list are skipped; the search is the recursive
  \<^verbatim>\<open>visit\<close>, whose finishing order is the result.\<close>

definition local_deps :: "Story list \<Rightarrow> bytes \<Rightarrow> bytes list" where
  "local_deps stories i = filter (\<lambda>d. d \<in> set (map s_ID stories)) (dag_adj s_ID s_DependsOn stories i)"

definition topoSortStoryIDs :: "Story list \<Rightarrow> dag_error + bytes list" where
  "topoSortStoryIDs stories =
     (if stories = [] then Inr []
      else case dup_check (map s_ID stories) {} of
        Some i \<Rightarrow> Inl (StoryDuplicate i)
      | None \<Rightarrow>
          (case dfs_run (local_deps stories) (map s_ID stories) of
             Inl (Cycle i d p) \<Rightarrow> Inl (StoryOrderCycle d)
           | Inl OutOfFuel \<Rightarrow> Inl (StoryOrderCycle [])
           | Inr st \<Rightarrow> Inr (finished st)))"

section \<open>Lemmas\<close>

lemma dup_check_None: "dup_check is seen = None \<longleftrightarrow> distinct is \<and> set is \<inter> seen = {}"
  by (induction "is" seen rule: dup_check.induct) auto

lemma scope_entries_None: "scope_entries_check nid es i = None \<longleftrightarrow>
    (\<forall>e \<in> set es. e \<noteq> [] \<and> \<not> containsPathTraversal e)"
  by (induction nid es i rule: scope_entries_check.induct) auto

lemma detectCycles_None: "detectCycles nodes = None \<longleftrightarrow> acyclic (dep_rel (dag_adj n_ID n_DependsOn nodes))"
  using dfs_cycle_None [OF dag_adj_rooted [of n_ID n_DependsOn nodes]]
  by (auto simp: detectCycles_def split: option.splits)

definition scope_ok :: "bytes list \<Rightarrow> bool" where
  "scope_ok files \<longleftrightarrow> files \<noteq> [] \<and> length files \<le> maxFileScopeEntries
     \<and> (\<forall>e \<in> set files. e \<noteq> [] \<and> \<not> containsPathTraversal e)"

lemma TaskDAG_Validate_None:
  "TaskDAG_Validate d = None \<longleftrightarrow>
     dag_Nodes d \<noteq> [] \<and> length (dag_Nodes d) \<le> maxDAGNodes \<and> distinct (map n_ID (dag_Nodes d))
     \<and> refs_resolve n_ID n_DependsOn (dag_Nodes d)
     \<and> acyclic (dep_rel (dag_adj n_ID n_DependsOn (dag_Nodes d)))
     \<and> (\<forall>n \<in> set (dag_Nodes d). scope_ok (n_FileScope n))"
proof -
  have "(case dup_check (map n_ID (dag_Nodes d)) {} of None \<Rightarrow> None | Some i \<Rightarrow> Some (DagDuplicate i)) = None
      \<longleftrightarrow> distinct (map n_ID (dag_Nodes d))"
    using dup_check_None [of "map n_ID (dag_Nodes d)" "{}"] by (auto split: option.splits)
  moreover have "(if n_FileScope n = [] then Some (ScopeEmpty (n_ID n))
      else if length (n_FileScope n) > maxFileScopeEntries
      then Some (ScopeTooLarge (n_ID n) (length (n_FileScope n)))
      else scope_entries_check (n_ID n) (n_FileScope n) 0) = None \<longleftrightarrow> scope_ok (n_FileScope n)" for n :: TaskNode
    by (auto simp: scope_ok_def scope_entries_None)
  ultimately show ?thesis
    by (auto simp: TaskDAG_Validate_def Let_def ref_check_None detectCycles_None not_less)
qed

interpretation node_dag: dag_validator_sound n_ID n_DependsOn "\<lambda>nodes. TaskDAG_Validate \<lparr>dag_Nodes = nodes\<rparr>"
  by unfold_locales (simp_all add: TaskDAG_Validate_None)

lemma local_deps_rooted: "rooted (local_deps stories) (map s_ID stories)"
  unfolding rooted_def
proof (intro allI impI)
  fix i assume "local_deps stories i \<noteq> []"
  then have "dag_adj s_ID s_DependsOn stories i \<noteq> []" by (auto simp: local_deps_def)
  then show "i \<in> set (map s_ID stories)"
    using dag_adj_rooted [of s_ID s_DependsOn stories] unfolding rooted_def by blast
qed

lemma local_deps_closed: "set (local_deps stories i) \<subseteq> s_ID ` set stories"
  by (auto simp: local_deps_def)

lemma topoSort_ok:
  assumes "topoSortStoryIDs stories = Inr order"
  shows "distinct order \<and> set order = s_ID ` set stories \<and> topo (local_deps stories) order"
proof (cases "stories = []")
  case True
  then show ?thesis using assms by (simp add: topoSortStoryIDs_def)
next
  case False
  then obtain st where st: "dfs_run (local_deps stories) (map s_ID stories) = Inr st" "order = finished st"
    using assms by (auto simp: topoSortStoryIDs_def split: option.splits sum.splits dfs_error.splits)
  have "y \<in> s_ID ` set stories" if "(r, y) \<in> (dep_rel (local_deps stories))\<^sup>*" "r \<in> s_ID ` set stories" for r y
    using that
  proof (induction rule: rtrancl_induct)
    case (step y z)
    then have "z \<in> set (local_deps stories y)" by simp
    then show ?case using local_deps_closed by blast
  qed simp
  then have "set order \<subseteq> s_ID ` set stories"
    using dfs_run_ok(4) [OF st(1)] st(2) by (metis list.set_map subsetI)
  moreover have "s_ID ` set stories \<subseteq> set order" using dfs_run_ok(3) [OF st(1)] st(2) by simp
  ultimately show ?thesis using dfs_run_ok(1,2) [OF st(1)] st(2) by blast
qed

lemma topoSort_complete:
  assumes "distinct (map s_ID stories)" "acyclic (dep_rel (local_deps stories))"
  shows "\<exists>order. topoSortStoryIDs stories = Inr order"
  using dfs_run_iff [OF local_deps_rooted [of stories]] assms dup_check_None [of "map s_ID stories" "{}"]
  by (auto simp: topoSortStoryIDs_def)

lemma map_node_fields: "map n_ID (map (task_node b f s) ts) = map t_ID ts"
  "n_DependsOn (task_node b f s t) = t_DependsOn t" "n_FileScope (task_node b f s t) = f"
  "n_ID (task_node b f s t) = t_ID t"
  by (simp_all add: task_node_def)

lemma node_adj: "dag_adj n_ID n_DependsOn (map (task_node b f s) ts) = dag_adj t_ID t_DependsOn ts"
  by (simp add: dag_adj_def fill_map_def comp_def map_node_fields)

section \<open>Properties\<close>

text \<open>A story whose tasks pass the task DAG validator and have distinct IDs, and whose tasks and
  files stay within the limits of the executor, always yields a task DAG: one developer node per
  task, in order, with the dependencies of the task, the files of the story and the scenarios of
  the story.\<close>

theorem synthesis_succeeds:
  assumes "ValidateTaskDAG (s_ID story) (s_Tasks story) = None" "distinct (map t_ID (s_Tasks story))"
    and "s_Tasks story \<noteq> []" "length (s_Tasks story) \<le> maxDAGNodes" "scope_ok (s_FilesOwned story)"
  shows "\<exists>d. synthesizeTaskDAGForStory block (Some p) story = Inr d
    \<and> map n_ID (dag_Nodes d) = map t_ID (s_Tasks story)
    \<and> map n_DependsOn (dag_Nodes d) = map t_DependsOn (s_Tasks story)
    \<and> (\<forall>n \<in> set (dag_Nodes d). n_FileScope n = s_FilesOwned story
         \<and> n_ScenarioIDs n = map sc_ID (ScenariosForStory p (s_ID story)))"
proof -
  let ?ns = "map (task_node (block (ScenariosForStory p (s_ID story))) (s_FilesOwned story)
      (map sc_ID (ScenariosForStory p (s_ID story)))) (s_Tasks story)"
  have t: "refs_resolve t_ID t_DependsOn (s_Tasks story)" "acyclic (dep_rel (dag_adj t_ID t_DependsOn (s_Tasks story)))"
    using assms(1) task_dag.validate_iff by blast+
  have "refs_resolve n_ID n_DependsOn ?ns"
    using t(1) by (auto simp: refs_resolve_def map_node_fields image_image)
  then have "TaskDAG_Validate \<lparr>dag_Nodes = ?ns\<rparr> = None"
    using assms t(2)
    unfolding TaskDAG_Validate_None by (simp add: node_adj map_node_fields comp_def)
  then have "synthesizeTaskDAGForStory block (Some p) story = Inr \<lparr>dag_Nodes = ?ns\<rparr>"
    using assms(3,5) by (simp add: synthesizeTaskDAGForStory_def scope_ok_def Let_def)
  then show ?thesis by (auto simp: task_node_def)
qed

definition ex_task_story :: Story where
  "ex_task_story = (ex_story ''s1'' ''core'' [''r1''] [''core.go''])\<lparr>s_Tasks :=
     [Task_zero\<lparr>t_ID := ''t2'', t_DependsOn := [''t1'']\<rparr>, Task_zero\<lparr>t_ID := ''t1''\<rparr>]\<rparr>"

theorem synthesis_succeeds_witness:
  "\<exists>d. synthesizeTaskDAGForStory (\<lambda>_. []) (Some Plan_zero) ex_task_story = Inr d
    \<and> map n_ID (dag_Nodes d) = [''t2'', ''t1'']"
proof -
  have v: "ValidateTaskDAG (s_ID ex_task_story) (s_Tasks ex_task_story) = None" by code_simp
  have f: "s_FilesOwned ex_task_story = [''core.go'']" "\<not> containsPathTraversal ''core.go''"
    by code_simp+
  have "scope_ok (s_FilesOwned ex_task_story)" using f by (simp add: scope_ok_def maxFileScopeEntries_def)
  from synthesis_succeeds [OF v _ _ _ this, of "\<lambda>_. []" Plan_zero] show ?thesis
    by (auto simp: ex_task_story_def zero_defs maxDAGNodes_def)
qed

text \<open>A validated task DAG has between 1 and 100 distinct nodes with resolving, acyclic
  dependencies; every node writes between 1 and 100 paths, none of them a parent-directory
  traversal (with either kind of slash); and as long as a node is not done, some node not done has
  all its dependencies done.\<close>

theorem validated_dag_runs:
  assumes "TaskDAG_Validate d = None"
  shows "0 < length (dag_Nodes d) \<and> length (dag_Nodes d) \<le> 100 \<and> distinct (map n_ID (dag_Nodes d))
    \<and> (\<forall>n \<in> set (dag_Nodes d). \<forall>e \<in> set (n_FileScope n). ''..'' \<notin> set (split_on (CHR ''/'') (slashes e)))
    \<and> (\<forall>done_ids. (\<exists>n \<in> set (dag_Nodes d). n_ID n \<notin> done_ids) \<longrightarrow>
         (\<exists>n \<in> set (dag_Nodes d). n_ID n \<notin> done_ids \<and> set (n_DependsOn n) \<subseteq> done_ids))"
proof -
  have "\<lparr>dag_Nodes = dag_Nodes d\<rparr> = d" by (cases d) simp
  then have d: "TaskDAG_Validate \<lparr>dag_Nodes = dag_Nodes d\<rparr> = None" by (metis assms)
  show ?thesis
    using assms node_dag.ready_exists [OF d]
    by (simp add: TaskDAG_Validate_None scope_ok_def maxDAGNodes_def containsPathTraversal_iff) blast
qed

theorem validated_dag_runs_witness:
  "0 < length [task_node [] [''a.go''] [] (Task_zero\<lparr>t_ID := ''t1''\<rparr>)]"
proof -
  have "TaskDAG_Validate \<lparr>dag_Nodes = [task_node [] [''a.go''] [] (Task_zero\<lparr>t_ID := ''t1''\<rparr>)]\<rparr> = None"
    by code_simp
  from validated_dag_runs [OF this] show ?thesis by simp
qed

text \<open>The story order of a requirement contains each of its stories once, every story after the
  stories of the requirement it depends on; the order exists for every requirement of a plan whose
  stories pass the story DAG validator and have distinct IDs.\<close>

theorem story_order_correct:
  fixes plan :: Plan and rid :: bytes
  assumes "ValidateStoryDAG (p_Stories plan) = None" "distinct (map s_ID (p_Stories plan))"
  defines "stories \<equiv> StoriesForRequirement plan rid"
  shows "\<exists>order. topoSortStoryIDs stories = Inr order \<and> distinct order \<and> set order = s_ID ` set stories
    \<and> topo (local_deps stories) order"
proof -
  have sub: "set stories \<subseteq> set (p_Stories plan)" by (auto simp: stories_def StoriesForRequirement_def)
  have dist: "distinct (map s_ID stories)"
    using assms(2) by (simp add: stories_def StoriesForRequirement_def distinct_map_filter)
  have "dep_rel (local_deps stories) \<subseteq> story_rel (p_Stories plan)"
  proof (clarsimp simp: local_deps_def)
    fix i s assume a: "s_ID s \<in> set (dag_adj s_ID s_DependsOn stories i)" "s \<in> set stories"
    then have "dag_adj s_ID s_DependsOn stories i \<noteq> []" by auto
    then obtain t where "t \<in> set stories" "s_ID t = i" "s_DependsOn t = dag_adj s_ID s_DependsOn stories i"
      using dag_adj_nonempty by metis
    then show "s_ID s \<in> set (dag_adj s_ID s_DependsOn (p_Stories plan) i)"
      using a(1) sub dag_adj_distinct [OF assms(2), of t s_DependsOn] by auto
  qed
  moreover have "acyclic (story_rel (p_Stories plan))" using assms(1) story_dag.validate_iff by blast
  ultimately have "acyclic (dep_rel (local_deps stories))" by (rule acyclic_subset [rotated])
  then obtain order where "topoSortStoryIDs stories = Inr order"
    using topoSort_complete [OF dist] by blast
  then show ?thesis using topoSort_ok by blast
qed

theorem story_order_correct_witness:
  "let plan = Plan_zero\<lparr>p_Stories := [(ex_story ''s2'' ''b'' [''r1''] [])\<lparr>s_DependsOn := [''s1'']\<rparr>,
       ex_story ''s1'' ''a'' [''r1''] [], ex_story ''s3'' ''c'' [''r2''] []]\<rparr> in
   \<exists>order. topoSortStoryIDs (StoriesForRequirement plan ''r1'') = Inr order \<and> set order = {''s1'', ''s2''}"
proof -
  let ?plan = "Plan_zero\<lparr>p_Stories := [(ex_story ''s2'' ''b'' [''r1''] [])\<lparr>s_DependsOn := [''s1'']\<rparr>,
       ex_story ''s1'' ''a'' [''r1''] [], ex_story ''s3'' ''c'' [''r2''] []]\<rparr>"
  have v: "ValidateStoryDAG (p_Stories ?plan) = None" by code_simp
  have d: "distinct (map s_ID (p_Stories ?plan))" by (simp add: ex_story_def zero_defs)
  have "s_ID ` set (StoriesForRequirement ?plan ''r1'') = {''s1'', ''s2''}"
    by (auto simp: StoriesForRequirement_def ex_story_def zero_defs)
  then show ?thesis using story_order_correct [OF v d, of "''r1''"] by auto
qed

end
