(* ===== verification/Retry.thy ===== *)
theory Retry
  imports Prelude
begin

text \<open>
  The dispatch-retry registry of \<^verbatim>\<open>src/workflow/dispatchretry/retry.go\<close>, which every
  generator component uses to claim a key, to bound its re-dispatches and to discard completions of
  superseded loops.  A State is its configuration and the map of tracked entries.  Every method
  holds the mutex for its whole effect on the map (the back-off sleep of Tick happens after the
  unlock and only decides what is returned), so a concurrent use of the registry is a sequence of
  the methods' atomic sections; \<^verbatim>\<open>run\<close> executes such a sequence.  Whether the sleep was
  cancelled and the random jitter are arguments.
\<close>

section \<open>State and methods\<close>

record Config =
  MaxRetries :: int
  BackoffMs :: int

record 'p Entry =
  Count :: int
  Payload :: 'p
  activeLoopID :: bytes

record 'p State =
  cfg :: Config
  entries :: "bytes \<rightharpoonup> 'p Entry"

definition New :: "Config \<Rightarrow> 'p State" where
  "New c = (let c = (if MaxRetries c < 0 then c\<lparr>MaxRetries := 0\<rparr> else c);
                c = (if BackoffMs c < 0 then c\<lparr>BackoffMs := 0\<rparr> else c)
            in \<lparr>cfg = c, entries = Map.empty\<rparr>)"

definition Track :: "bytes \<Rightarrow> 'p \<Rightarrow> 'p State \<Rightarrow> ('p Entry \<times> bool) \<times> 'p State" where
  "Track key payload s =
     (case entries s key of
        Some existing \<Rightarrow> ((existing, False), s)
      | None \<Rightarrow>
          let entry = \<lparr>Count = 0, Payload = payload, activeLoopID = []\<rparr>
          in ((entry, True), s\<lparr>entries := (entries s)(key \<mapsto> entry)\<rparr>))"

definition SetActiveLoop :: "bytes \<Rightarrow> bytes \<Rightarrow> 'p State \<Rightarrow> 'p State" where
  "SetActiveLoop key loopID s =
     (case entries s key of
        Some entry \<Rightarrow> s\<lparr>entries := (entries s)(key \<mapsto> entry\<lparr>activeLoopID := loopID\<rparr>)\<rparr>
      | None \<Rightarrow> s)"

definition IsStaleLoop :: "bytes \<Rightarrow> bytes \<Rightarrow> 'p State \<Rightarrow> bool" where
  "IsStaleLoop key completedLoopID s =
     (case entries s key of
        None \<Rightarrow> False
      | Some entry \<Rightarrow>
          if activeLoopID entry = [] then False else activeLoopID entry \<noteq> completedLoopID)"

definition Tick :: "bool \<Rightarrow> bytes \<Rightarrow> 'p State \<Rightarrow> ('p Entry option \<times> bool) \<times> 'p State" where
  "Tick slept key s =
     (case entries s key of
        None \<Rightarrow> ((None, False), s)
      | Some entry \<Rightarrow>
          let entry = entry\<lparr>Count := Count entry + 1\<rparr> in
          if Count entry > MaxRetries (cfg s)
          then ((Some entry, False), s\<lparr>entries := (entries s)(key := None)\<rparr>)
          else let s = s\<lparr>entries := (entries s)(key \<mapsto> entry)\<rparr>
               in if \<not> slept then ((None, False), s) else ((Some entry, True), s))"

definition Clear :: "bytes \<Rightarrow> 'p State \<Rightarrow> 'p State" where
  "Clear key s = s\<lparr>entries := (entries s)(key := None)\<rparr>"

definition Snapshot :: "bytes \<Rightarrow> 'p State \<Rightarrow> 'p Entry option \<times> bool" where
  "Snapshot key s = (case entries s key of None \<Rightarrow> (None, False) | Some entry \<Rightarrow> (Some entry, True))"

definition Len :: "'p State \<Rightarrow> nat" where
  "Len s = card (dom (entries s))"

text \<open>The delay in nanoseconds; \<^verbatim>\<open>rnd n\<close> is the draw of rand.Int64N, a value below n.\<close>

definition backoff :: "(int \<Rightarrow> int) \<Rightarrow> 'p State \<Rightarrow> int" where
  "backoff rnd s =
     (if BackoffMs (cfg s) \<le> 0 then 0
      else let base = BackoffMs (cfg s) * 1000000 in base + rnd base)"

section \<open>Sequences of atomic sections\<close>

datatype 'p op = OTrack bytes 'p | OSetActiveLoop bytes bytes | OTick bytes bool | OClear bytes

datatype 'p outcome = Tracked bytes "'p Entry" bool | Ticked bytes "'p Entry option" bool | Silent

fun exec_op :: "'p op \<Rightarrow> 'p State \<Rightarrow> 'p outcome \<times> 'p State" where
  "exec_op (OTrack k p) s = (case Track k p s of ((e, fresh), s') \<Rightarrow> (Tracked k e fresh, s'))"
| "exec_op (OSetActiveLoop k l) s = (Silent, SetActiveLoop k l s)"
| "exec_op (OTick k slept) s = (case Tick slept k s of ((e, ok), s') \<Rightarrow> (Ticked k e ok, s'))"
| "exec_op (OClear k) s = (Silent, Clear k s)"

fun run :: "'p op list \<Rightarrow> 'p State \<Rightarrow> 'p outcome list \<times> 'p State" where
  "run [] s = ([], s)"
| "run (x # xs) s = (case exec_op x s of (o1, s1) \<Rightarrow> case run xs s1 of (os, s2) \<Rightarrow> (o1 # os, s2))"

text \<open>Claims granted for a key (fresh Tracks) and re-dispatches granted for it (Ticks that report
  true): what the component's dispatches of that key are made of.\<close>

definition claims :: "bytes \<Rightarrow> 'p outcome list \<Rightarrow> nat" where
  "claims k os = length (filter (\<lambda>x. case x of Tracked k' _ b \<Rightarrow> k' = k \<and> b | _ \<Rightarrow> False) os)"

definition regrants :: "bytes \<Rightarrow> 'p outcome list \<Rightarrow> nat" where
  "regrants k os = length (filter (\<lambda>x. case x of Ticked k' _ b \<Rightarrow> k' = k \<and> b | _ \<Rightarrow> False) os)"

definition ticks :: "bytes \<Rightarrow> 'p op list \<Rightarrow> nat" where
  "ticks k xs = length (filter (\<lambda>x. case x of OTick k' _ \<Rightarrow> k' = k | _ \<Rightarrow> False) xs)"

definition clears :: "bytes \<Rightarrow> 'p op list \<Rightarrow> bool" where
  "clears k xs \<longleftrightarrow> list_ex (\<lambda>x. case x of OClear k' \<Rightarrow> k' = k | _ \<Rightarrow> False) xs"

text \<open>The loop recorded for a key after a sequence, from the one recorded before.\<close>

fun last_loop :: "bytes \<Rightarrow> 'p op list \<Rightarrow> bytes \<Rightarrow> bytes" where
  "last_loop k [] l = l"
| "last_loop k (OSetActiveLoop k' l' # xs) l = last_loop k xs (if k' = k then l' else l)"
| "last_loop k (_ # xs) l = last_loop k xs l"

lemmas retry_defs = Track_def SetActiveLoop_def Tick_def Clear_def Let_def
lemmas count_defs = claims_def regrants_def ticks_def clears_def

section \<open>Invariant\<close>

text \<open>Every tracked entry has used at most the allowed number of retries.\<close>

definition retry_inv :: "'p State \<Rightarrow> bool" where
  "retry_inv s \<longleftrightarrow> 0 \<le> MaxRetries (cfg s) \<and>
     (\<forall>k e. entries s k = Some e \<longrightarrow> 0 \<le> Count e \<and> Count e \<le> MaxRetries (cfg s))"

lemma New_inv: "retry_inv (New c)" and New_entries: "entries (New c) = Map.empty"
  and New_max: "MaxRetries (cfg (New c)) = max 0 (MaxRetries c)"
  by (auto simp: retry_inv_def New_def Let_def)

lemma exec_op_cfg [simp]: "cfg (snd (exec_op x s)) = cfg s"
  by (cases x) (auto simp: retry_defs split: option.splits)

lemma inv_store:
  assumes "retry_inv s" and "0 \<le> Count e" and "Count e \<le> MaxRetries (cfg s)"
  shows "retry_inv (s\<lparr>entries := (entries s)(k \<mapsto> e)\<rparr>)"
  using assms by (simp add: retry_inv_def)

lemma inv_delete: "retry_inv s \<Longrightarrow> retry_inv (s\<lparr>entries := (entries s)(k := None)\<rparr>)"
  by (simp add: retry_inv_def)

lemma inv_entry:
  assumes "retry_inv s" and "entries s k = Some e"
  shows "0 \<le> Count e" and "Count e \<le> MaxRetries (cfg s)"
  using assms by (auto simp: retry_inv_def)

lemma exec_op_inv:
  assumes "retry_inv s"
  shows "retry_inv (snd (exec_op x s))"
proof (cases x)
  case (OTrack k p)
  have "0 \<le> MaxRetries (cfg s)" using assms by (simp add: retry_inv_def)
  then show ?thesis
    using assms OTrack by (cases "entries s k") (auto simp: Track_def Let_def intro: inv_store)
next
  case (OSetActiveLoop k l)
  then show ?thesis
    using assms inv_entry [OF assms]
    by (cases "entries s k") (auto simp: SetActiveLoop_def intro: inv_store)
next
  case (OTick k slept)
  then show ?thesis
    using assms inv_entry(1) [OF assms, of k]
    by (cases "entries s k") (auto simp: Tick_def Let_def intro!: inv_store inv_delete)
next
  case (OClear k)
  then show ?thesis using assms by (simp add: Clear_def inv_delete)
qed

lemma snd_run_Cons: "snd (run (x # xs) s) = snd (run xs (snd (exec_op x s)))"
  by (simp split: prod.splits)

lemma run_cfg [simp]: "cfg (snd (run xs s)) = cfg s"
  by (induction xs arbitrary: s) (simp, simp only: snd_run_Cons exec_op_cfg)

lemma run_inv: "retry_inv s \<Longrightarrow> retry_inv (snd (run xs s))"
proof (induction xs arbitrary: s)
  case (Cons x xs)
  from Cons.IH [OF exec_op_inv [OF Cons.prems, of x]] show ?case by (simp only: snd_run_Cons)
qed simp

text \<open>The accounting of one step: what a key may still be granted, plus the grant of the step, is
  covered by what it could be granted before, plus a full budget for a fresh claim.\<close>

definition budget :: "bytes \<Rightarrow> 'p State \<Rightarrow> int" where
  "budget k s = (case entries s k of None \<Rightarrow> 0 | Some e \<Rightarrow> MaxRetries (cfg s) - Count e)"

lemma exec_op_budget:
  assumes "retry_inv s"
  shows "int (regrants k [fst (exec_op x s)]) + budget k (snd (exec_op x s))
           \<le> budget k s + MaxRetries (cfg s) * int (claims k [fst (exec_op x s)])"
proof (cases x)
  case (OTrack k' p)
  then show ?thesis
    by (cases "entries s k'") (auto simp: retry_defs budget_def count_defs split: option.splits)
next
  case (OSetActiveLoop k' l)
  then show ?thesis
    by (cases "entries s k'") (auto simp: retry_defs budget_def count_defs split: option.splits)
next
  case (OTick k' slept)
  then show ?thesis
  proof (cases "entries s k'")
    case (Some e)
    then have "Count e \<le> MaxRetries (cfg s)" using assms by (simp add: retry_inv_def)
    with Some OTick show ?thesis
      by (auto simp: retry_defs budget_def count_defs split: option.splits)
  qed (simp add: retry_defs budget_def count_defs)
next
  case (OClear k')
  then show ?thesis
    using assms by (auto simp: retry_inv_def retry_defs budget_def count_defs split: option.splits)
qed

lemma budget_nonneg: "retry_inv s \<Longrightarrow> 0 \<le> budget k s"
  by (auto simp: retry_inv_def budget_def split: option.splits)

lemma count_Cons:
  "claims k (x # os) = claims k [x] + claims k os"
  "regrants k (x # os) = regrants k [x] + regrants k os"
  by (simp_all add: count_defs)

lemma run_budget:
  assumes "retry_inv s"
  shows "int (regrants k (fst (run xs s))) + budget k (snd (run xs s))
           \<le> budget k s + MaxRetries (cfg s) * int (claims k (fst (run xs s)))"
  using assms
proof (induction xs arbitrary: s)
  case Nil
  then show ?case by (simp add: count_defs)
next
  case (Cons x xs)
  obtain o1 s1 where e: "exec_op x s = (o1, s1)" by (cases "exec_op x s")
  obtain os s2 where r: "run xs s1 = (os, s2)" by (cases "run xs s1")
  have c: "cfg s1 = cfg s" using exec_op_cfg [of x s] e by simp
  have i: "retry_inv s1" using exec_op_inv [OF Cons.prems, of x] e by simp
  have "int (regrants k os) + budget k s2 \<le> budget k s1 + MaxRetries (cfg s) * int (claims k os)"
    using Cons.IH [OF i] r c by simp
  moreover have "int (regrants k [o1]) + budget k s1
      \<le> budget k s + MaxRetries (cfg s) * int (claims k [o1])"
    using exec_op_budget [OF Cons.prems, of k x] e by simp
  ultimately show ?case
    using e r by (simp add: count_Cons [of k o1 os] distrib_left)
qed

section \<open>The life of a tracked key\<close>

lemma exec_op_life:
  assumes e: "entries s k = Some \<lparr>Count = n, Payload = p, activeLoopID = l\<rparr>"
    and "\<not> clears k (x # xs)" and "n + int (ticks k (x # xs)) \<le> MaxRetries (cfg s)"
    and "ticks k (x # xs) = ticks k [x] + ticks k xs"
  shows "entries (snd (exec_op x s)) k = Some \<lparr>Count = n + int (ticks k [x]), Payload = p,
      activeLoopID = last_loop k [x] l\<rparr>"
proof (cases x)
  case (OTrack k' q)
  then show ?thesis
    using e by (cases "k' = k"; cases "entries s k'") (auto simp: Track_def Let_def ticks_def)
next
  case (OSetActiveLoop k' l')
  then show ?thesis
    using e by (cases "k' = k"; cases "entries s k'") (auto simp: SetActiveLoop_def ticks_def)
next
  case (OTick k' b)
  have m: "n + 1 \<le> MaxRetries (cfg s)" if "k' = k"
    using assms(3) OTick that by (simp add: ticks_def)
  show ?thesis
    using e m OTick by (cases "k' = k"; cases "entries s k'") (auto simp: Tick_def Let_def ticks_def)
next
  case (OClear k')
  then show ?thesis using e assms(2) by (auto simp: Clear_def clears_def ticks_def)
qed

text \<open>While a tracked key is not cleared and its ticks stay within the budget, its entry is exactly
  the payload it was claimed with, the number of ticks and the last loop recorded.\<close>

lemma tracked_life:
  assumes "entries s k = Some \<lparr>Count = n, Payload = p, activeLoopID = l\<rparr>"
    and "\<not> clears k xs" and "n + int (ticks k xs) \<le> MaxRetries (cfg s)"
  shows "entries (snd (run xs s)) k
           = Some \<lparr>Count = n + int (ticks k xs), Payload = p, activeLoopID = last_loop k xs l\<rparr>"
  using assms
proof (induction xs arbitrary: s n l)
  case Nil
  then show ?case by (simp add: count_defs)
next
  case (Cons x xs)
  let ?s1 = "snd (exec_op x s)"
  have nc: "\<not> clears k xs" and t: "ticks k (x # xs) = ticks k [x] + ticks k xs"
    using Cons.prems(2) by (simp_all add: clears_def ticks_def)
  have s1: "entries ?s1 k = Some \<lparr>Count = n + int (ticks k [x]), Payload = p,
      activeLoopID = last_loop k [x] l\<rparr>"
    using Cons.prems t by (rule exec_op_life)
  have "n + int (ticks k [x]) + int (ticks k xs) \<le> MaxRetries (cfg ?s1)"
    using Cons.prems(3) t by simp
  from Cons.IH [OF s1 nc this]
  have "entries (snd (run xs ?s1)) k = Some \<lparr>Count = n + int (ticks k (x # xs)), Payload = p,
      activeLoopID = last_loop k xs (last_loop k [x] l)\<rparr>"
    by (simp add: t)
  moreover have "last_loop k xs (last_loop k [x] l) = last_loop k (x # xs) l"
    by (cases x) auto
  ultimately show ?case by (simp only: snd_run_Cons)
qed

lemma run_append:
  "run (xs @ ys) s = (fst (run xs s) @ fst (run ys (snd (run xs s))), snd (run ys (snd (run xs s))))"
  by (induction xs arbitrary: s) (auto split: prod.splits)

lemma Track_fresh:
  assumes "entries s k = None"
  shows "exec_op (OTrack k p) s
     = (Tracked k \<lparr>Count = 0, Payload = p, activeLoopID = []\<rparr> True,
        s\<lparr>entries := (entries s)(k \<mapsto> \<lparr>Count = 0, Payload = p, activeLoopID = []\<rparr>)\<rparr>)"
  using assms by (simp add: Track_def Let_def)

lemma run_Track_fresh:
  assumes "entries s k = None"
  shows "snd (run (OTrack k p # xs) s)
     = snd (run xs (s\<lparr>entries := (entries s)(k \<mapsto> \<lparr>Count = 0, Payload = p, activeLoopID = []\<rparr>)\<rparr>))"
  by (simp only: run.simps Track_fresh [OF assms]) (simp split: prod.splits)

lemma claimed_life:
  assumes "entries s k = None" and "\<not> clears k xs" and "int (ticks k xs) \<le> MaxRetries (cfg s)"
  shows "entries (snd (run (OTrack k p # xs) s)) k
     = Some \<lparr>Count = int (ticks k xs), Payload = p, activeLoopID = last_loop k xs []\<rparr>"
    and "cfg (snd (run (OTrack k p # xs) s)) = cfg s"
  using tracked_life [of "s\<lparr>entries := (entries s)(k \<mapsto> \<lparr>Count = 0, Payload = p, activeLoopID = []\<rparr>)\<rparr>"
      k 0 p "[]" xs] assms
  by (simp_all only: run_Track_fresh [OF assms(1)]) simp_all

section \<open>Properties\<close>

text \<open>C31: for every interleaving of the registry's operations starting from an empty registry, the
  dispatches of a key (its fresh claims and its granted re-dispatches) number at most
  MaxRetries + 1 per fresh claim, a negative MaxRetries counting as 0; and no stored entry ever
  has a count above MaxRetries.\<close>

theorem retry_budget:
  fixes c :: Config and xs :: "'p op list"
  defines "os \<equiv> fst (run xs (New c :: 'p State))" and "m \<equiv> max 0 (MaxRetries c)"
  shows "int (claims k os + regrants k os) \<le> (m + 1) * int (claims k os)
    \<and> retry_inv (snd (run xs (New c :: 'p State)))"
proof -
  let ?s = "New c :: 'p State"
  have b0: "budget k ?s = 0" by (simp add: budget_def New_entries)
  have "0 \<le> budget k (snd (run xs ?s))" by (rule budget_nonneg [OF run_inv [OF New_inv]])
  then have "int (regrants k os) \<le> m * int (claims k os)"
    using run_budget [OF New_inv, of k xs c] b0 by (simp add: os_def m_def New_max)
  then show ?thesis using run_inv [OF New_inv, of xs c] by (simp add: distrib_right)
qed

text \<open>a key that is claimed and then ticked MaxRetries times, whatever is done meanwhile to
  other keys, with duplicate Tracks of the key and with loop registrations, but without a Clear of
  it, still holds the payload of the claim; one more Tick of it returns that payload with
  the verdict false and removes the key, so that a later Track claims it anew.  Each of the first
  MaxRetries ticks is granted unless its back-off was cancelled.\<close>

theorem retry_exhaustion:
  assumes "entries s k = None" and "\<not> clears k xs"
    and "int (ticks k xs) = MaxRetries (cfg s)"
  shows "(\<exists>e s'. Tick slept k (snd (run (OTrack k p # xs) s)) = ((Some e, False), s') \<and>
            Payload e = p \<and> entries s' k = None \<and> snd (fst (Track k q s')))
     \<and> (\<forall>ys zs b. xs = ys @ OTick k b # zs \<longrightarrow>
            (\<exists>e. fst (Tick b k (snd (run (OTrack k p # ys) s)))
                  = (if b then (Some e, True) else (None, False)) \<and> Payload e = p))"
proof -
  have t: "int (ticks k xs) \<le> MaxRetries (cfg s)" using assms(3) by simp
  have grant: "\<exists>e. fst (Tick b k (snd (run (OTrack k p # ys) s)))
      = (if b then (Some e, True) else (None, False)) \<and> Payload e = p"
    if "xs = ys @ OTick k b # zs" for ys zs b
  proof -
    have t: "int (ticks k ys) + 1 \<le> MaxRetries (cfg s)" and nc: "\<not> clears k ys"
      using assms(2,3) that by (auto simp: count_defs)
    from t have "int (ticks k ys) \<le> MaxRetries (cfg s)" by simp
    note l = claimed_life [OF assms(1) nc this, of p]
    show ?thesis
      unfolding Tick_def l option.case using t
      by (cases b) (auto simp: Let_def l intro: exI [of _ "\<lparr>Count = 0, Payload = p, activeLoopID = []\<rparr>"])
  qed
  note l = claimed_life [OF assms(1,2) t, of p]
  have "\<exists>e s'. Tick slept k (snd (run (OTrack k p # xs) s)) = ((Some e, False), s') \<and>
      Payload e = p \<and> entries s' k = None \<and> snd (fst (Track k q s'))"
    unfolding Tick_def l option.case using assms(3) by (simp add: Let_def l Track_def)
  with grant show ?thesis by blast
qed

theorem retry_exhaustion_witness:
  "\<exists>e s'. Tick True ''p1'' (snd (run [OTrack ''p1'' (7::nat), OTick ''p1'' True,
              OTrack ''p1'' 8, OClear ''p2'', OTick ''p1'' False]
            (New \<lparr>MaxRetries = 2, BackoffMs = 0\<rparr>)))
        = ((Some e, False), s') \<and> Payload e = 7 \<and> entries s' ''p1'' = None"
  using retry_exhaustion [of "New \<lparr>MaxRetries = 2, BackoffMs = 0\<rparr>" "''p1''"
      "[OTick ''p1'' True, OTrack ''p1'' (8::nat), OClear ''p2'', OTick ''p1'' False]" True 7 9]
  by (auto simp: New_def count_defs)

text \<open>Discarding of superseded loops.  After a claim and any uncleared use of the key within
  its retry budget, a completed loop is stale exactly when some loop has been registered for the
  key and the last one registered is a different one; so the current dispatch is never
  discarded and every superseded one is.\<close>

theorem stale_loop_exact:
  assumes "entries s k = None" and "\<not> clears k xs"
    and "int (ticks k xs) \<le> MaxRetries (cfg s)"
  shows "IsStaleLoop k l (snd (run (OTrack k p # xs) s))
     \<longleftrightarrow> last_loop k xs [] \<noteq> [] \<and> last_loop k xs [] \<noteq> l"
  unfolding IsStaleLoop_def claimed_life(1) [OF assms] by simp

theorem stale_loop_exact_witness:
  "IsStaleLoop ''p1'' ''l1'' (snd (run [OTrack ''p1'' (7::nat), OSetActiveLoop ''p1'' ''l1'',
        OTick ''p1'' True, OSetActiveLoop ''p1'' ''l2''] (New \<lparr>MaxRetries = 2, BackoffMs = 0\<rparr>)))
   \<and> \<not> IsStaleLoop ''p1'' ''l2'' (snd (run [OTrack ''p1'' (7::nat), OSetActiveLoop ''p1'' ''l1'',
        OTick ''p1'' True, OSetActiveLoop ''p1'' ''l2''] (New \<lparr>MaxRetries = 2, BackoffMs = 0\<rparr>)))"
  using stale_loop_exact [of "New \<lparr>MaxRetries = 2, BackoffMs = 0\<rparr>" "''p1''"
      "[OSetActiveLoop ''p1'' ''l1'', OTick ''p1'' True, OSetActiveLoop ''p1'' ''l2'']" "''l1''" "7::nat"]
    stale_loop_exact [of "New \<lparr>MaxRetries = 2, BackoffMs = 0\<rparr>" "''p1''"
      "[OSetActiveLoop ''p1'' ''l1'', OTick ''p1'' True, OSetActiveLoop ''p1'' ''l2'']" "''l2''" "7::nat"]
  by (simp add: New_def count_defs)

end
