(* ===== verification/Plan_Store.thy ===== *)
theory Plan_Store
  imports Validators
begin

text \<open>
  The plan store of \<^verbatim>\<open>src/processor/plan-manager/plan_store.go\<close>: a TTL cache in front of the
  PLAN_STATES bucket.  A store is its cache and, when NATS is configured, its bucket; the bucket
  holds plans, the JSON encoding of a plan being read back as the plan.  What the outside world
  decides during a call is an argument: whether the context is still live, whether marshalling, the
  bucket put and the graph write succeed, whether the bucket can be read, and the time.  The cache
  forgets entries when their TTL expires (\<^verbatim>\<open>evict\<close>).  The graph is written and never read here.
  The locale \<^verbatim>\<open>keyed_store\<close> states what the mutation handlers rely on.  The contract packet of
  \<^verbatim>\<open>src/workflow/plan_contract.go\<close> and the entity IDs of \<^verbatim>\<open>entity_id.go\<close> are here too, since
  creation builds them.
\<close>

section \<open>Entity IDs and the contract packet\<close>

text \<open>The configured prefix and the SHA-256 digest.\<close>

record Ids =
  EntityPrefix :: bytes
  sha256 :: "bytes \<Rightarrow> bytes"

definition hex_digit :: "nat \<Rightarrow> char" where
  "hex_digit n = (if n < 10 then char_of (48 + n) else char_of (87 + n))"

definition hex_encode :: "bytes \<Rightarrow> bytes" where
  "hex_encode s = concat (map (\<lambda>c. let n = (of_char c :: nat) in
     [hex_digit (n div 16), hex_digit (n mod 16)]) s)"

definition HashInstanceID :: "Ids \<Rightarrow> bytes list \<Rightarrow> bytes" where
  "HashInstanceID ids parts = hex_encode (take 8 (sha256 ids (Join [CHR 0x00] parts)))"

definition PlanEntityID :: "Ids \<Rightarrow> bytes \<Rightarrow> bytes" where
  "PlanEntityID ids slug = EntityPrefix ids @ ''.wf.plan.plan.'' @ HashInstanceID ids [slug]"

definition ProjectEntityID :: "Ids \<Rightarrow> bytes \<Rightarrow> bytes" where
  "ProjectEntityID ids slug = EntityPrefix ids @ ''.wf.project.project.'' @ HashInstanceID ids [slug]"

definition PlanContractID :: "Ids \<Rightarrow> bytes \<Rightarrow> bytes" where
  "PlanContractID ids slug = EntityPrefix ids @ ''.wf.plan.contract.'' @ HashInstanceID ids [slug, ''root'']"

definition NewContractScopeSnapshot :: "Scope \<Rightarrow> ContractScopeSnapshot" where
  "NewContractScopeSnapshot scope =
     \<lparr>cs_Include = scope_Include scope, cs_Exclude = scope_Exclude scope,
      cs_DoNotTouch = scope_DoNotTouch scope, cs_Create = scope_Create scope\<rparr>"

text \<open>Times are numbers, the zero time being 0; \<open>clock\<close> is time.Now.\<close>

definition NewContractPacket :: "Ids \<Rightarrow> nat \<Rightarrow> bytes \<Rightarrow> bytes \<Rightarrow> Scope \<Rightarrow> bytes list \<Rightarrow> nat \<Rightarrow> ContractPacket" where
  "NewContractPacket ids clock slug brief scope constraints now =
     ContractPacket_zero\<lparr>cp_ID := PlanContractID ids slug, cp_Version := 1, cp_Brief := brief,
       cp_SourceRefs := [\<lparr>csr_Kind = ''user_brief'', csr_Ref = slug, csr_Digest = []\<rparr>],
       cp_Constraints := constraints, cp_Scope := NewContractScopeSnapshot scope,
       cp_CreatedAt := (if now = 0 then clock else now)\<rparr>"

definition EnsureContractPacket :: "Ids \<Rightarrow> nat \<Rightarrow> bytes \<Rightarrow> nat \<Rightarrow> Plan \<Rightarrow> Plan" where
  "EnsureContractPacket ids clock brief now p =
     (if p_Contract p \<noteq> None then p
      else p\<lparr>p_Contract := Some (NewContractPacket ids clock (p_Slug p) brief (p_Scope p)
               (p_Constraints p) now)\<rparr>)"

section \<open>The store\<close>

record Store =
  st_cache :: "bytes \<rightharpoonup> Plan"
  st_kv :: "(bytes \<rightharpoonup> Plan) option"

record SaveIO =
  sv_ctx :: bool
  sv_marshal :: bool
  sv_put :: bool
  sv_graph :: bool

datatype store_error = SlugInvalid slug_error | CtxDone | MarshalFailed | GraphFailed
  | TitleRequired | PlanExists bytes | PlanNotFound bytes | AlreadyApproved bytes
  | InvalidTransition Status Status

definition plan_get :: "bool \<Rightarrow> bytes \<Rightarrow> Store \<Rightarrow> Plan option \<times> Store" where
  "plan_get readable slug st =
     (case st_cache st slug of
        Some p \<Rightarrow> (Some p, st)
      | None \<Rightarrow>
          (case st_kv st of
             None \<Rightarrow> (None, st)
           | Some m \<Rightarrow>
               (case (if readable then m slug else None) of
                  None \<Rightarrow> (None, st)
                | Some p \<Rightarrow> (Some p, st\<lparr>st_cache := (st_cache st)(p_Slug p \<mapsto> p)\<rparr>))))"

definition plan_exists :: "bytes \<Rightarrow> Store \<Rightarrow> bool" where
  "plan_exists slug st \<longleftrightarrow> st_cache st slug \<noteq> None"

text \<open>The cache is updated first; a failed put is logged and ignored, a failed marshal or graph write
  is returned after the update.\<close>

definition plan_save :: "SaveIO \<Rightarrow> Plan \<Rightarrow> Store \<Rightarrow> store_error option \<times> Store" where
  "plan_save io p st =
     (case ValidateSlug (p_Slug p) of
        Some e \<Rightarrow> (Some (SlugInvalid e), st)
      | None \<Rightarrow>
          if \<not> sv_ctx io then (Some CtxDone, st)
          else let st1 = st\<lparr>st_cache := (st_cache st)(p_Slug p \<mapsto> p)\<rparr> in
            if st_kv st \<noteq> None \<and> \<not> sv_marshal io then (Some MarshalFailed, st1)
            else let st2 = (case st_kv st of
                              None \<Rightarrow> st1
                            | Some m \<Rightarrow> if sv_put io then st1\<lparr>st_kv := Some (m(p_Slug p \<mapsto> p))\<rparr> else st1)
                 in if \<not> sv_graph io then (Some GraphFailed, st2) else (None, st2))"

text \<open>\<open>detected\<close> is what topology detection reports for the repository, empty when there is none
  or it fails.\<close>

definition ensureRuntimeContractFacts :: "TopologyFact list \<Rightarrow> Plan \<Rightarrow> Plan" where
  "ensureRuntimeContractFacts detected p =
     (case p_Contract p of
        None \<Rightarrow> p
      | Some c \<Rightarrow> if cp_TopologyFacts c \<noteq> [] \<or> detected = [] then p
                 else p\<lparr>p_Contract := Some (c\<lparr>cp_TopologyFacts := detected\<rparr>)\<rparr>)"

definition plan_create :: "Ids \<Rightarrow> TopologyFact list \<Rightarrow> SaveIO \<Rightarrow> nat \<Rightarrow> bytes \<Rightarrow> bytes \<Rightarrow> bytes \<Rightarrow>
    QALevel \<Rightarrow> bool option \<Rightarrow> Store \<Rightarrow> (store_error + Plan) \<times> Store" where
  "plan_create ids detected io now slug title brief qa override st =
     (case ValidateSlug slug of
        Some e \<Rightarrow> (Inl (SlugInvalid e), st)
      | None \<Rightarrow>
          if title = [] then (Inl TitleRequired, st)
          else if plan_exists slug st then (Inl (PlanExists slug), st)
          else let p0 = Plan_zero\<lparr>p_ID := PlanEntityID ids slug, p_Slug := slug, p_Title := title,
                          p_ProjectID := ProjectEntityID ids ''default'', p_CreatedAt := now,
                          p_QALevel := (if qa = QALevelOther [] then QALevelSynthesis else qa),
                          p_AutoRejectOnExhaustion := override\<rparr>;
                   p1 = EnsureContractPacket ids now (if brief = [] then title else brief) now p0;
                   p2 = ensureRuntimeContractFacts detected p1
               in (case plan_save io p2 st of
                     (Some e, st') \<Rightarrow> (Inl e, st')
                   | (None, st') \<Rightarrow> (Inr p2, st')))"

definition plan_createImported :: "Ids \<Rightarrow> TopologyFact list \<Rightarrow> SaveIO \<Rightarrow> nat \<Rightarrow> Plan \<Rightarrow> QALevel \<Rightarrow>
    bool option \<Rightarrow> Store \<Rightarrow> store_error option \<times> Store" where
  "plan_createImported ids detected io now plan qa override st =
     (case ValidateSlug (p_Slug plan) of
        Some e \<Rightarrow> (Some (SlugInvalid e), st)
      | None \<Rightarrow>
          if p_Title plan = [] then (Some TitleRequired, st)
          else if plan_exists (p_Slug plan) st then (Some (PlanExists (p_Slug plan)), st)
          else let p1 = plan\<lparr>p_ID := (if p_ID plan = [] then PlanEntityID ids (p_Slug plan) else p_ID plan),
                          p_ProjectID := (if p_ProjectID plan = [] then ProjectEntityID ids ''default''
                                          else p_ProjectID plan),
                          p_CreatedAt := (if p_CreatedAt plan = 0 then now else p_CreatedAt plan)\<rparr>;
                   p2 = (if p_Contract p1 = None
                         then EnsureContractPacket ids now
                                (if p_Context p1 = [] then p_Title p1 else p_Context p1) now p1
                         else p1);
                   p3 = ensureRuntimeContractFacts detected p2
               in plan_save io (p3\<lparr>p_QALevel := (if qa = QALevelOther [] then QALevelSynthesis else qa),
                                  p_AutoRejectOnExhaustion := override, p_Approved := False\<rparr>) st)"

definition plan_approve :: "SaveIO \<Rightarrow> nat \<Rightarrow> Plan \<Rightarrow> Store \<Rightarrow> store_error option \<times> Store" where
  "plan_approve io now plan st =
     (let current = EffectiveStatus plan in
      if \<not> Status_CanTransitionTo current StatusApproved
      then (Some (if p_Approved plan then AlreadyApproved (p_Slug plan)
                  else InvalidTransition current StatusApproved), st)
      else plan_save io (plan\<lparr>p_Approved := True, p_ApprovedAt := Some now,
                              p_Status := StatusApproved\<rparr>) st)"

text \<open>A delete tombstones the graph, then removes the plan from the cache and, if the bucket
  answers (\<open>deleted\<close>), from the bucket.\<close>

definition plan_delete :: "bool \<Rightarrow> bool \<Rightarrow> bool \<Rightarrow> bytes \<Rightarrow> Store \<Rightarrow> store_error option \<times> Store" where
  "plan_delete readable graph_ok deleted slug st =
     (case plan_get readable slug st of
        (None, st1) \<Rightarrow> (Some (PlanNotFound slug), st1)
      | (Some p, st1) \<Rightarrow>
          if \<not> graph_ok then (Some GraphFailed, st1)
          else (None, st1\<lparr>st_cache := (st_cache st1)(slug := None),
                         st_kv := map_option (\<lambda>m. if deleted then m(slug := None) else m) (st_kv st1)\<rparr>))"

definition evict :: "bytes \<Rightarrow> Store \<Rightarrow> Store" where
  "evict slug st = st\<lparr>st_cache := (st_cache st)(slug := None)\<rparr>"

text \<open>\<^verbatim>\<open>setPlanStatusCached\<close> of \<^verbatim>\<open>component.go\<close>; the caller's plan is updated in place.\<close>

definition setPlanStatusCached :: "SaveIO \<Rightarrow> Plan \<Rightarrow> Status \<Rightarrow> Store \<Rightarrow> store_error option \<times> Plan \<times> Store" where
  "setPlanStatusCached io plan target st =
     (let current = EffectiveStatus plan in
      if \<not> Status_CanTransitionTo current target
      then (Some (InvalidTransition current target), plan, st)
      else let plan = plan\<lparr>p_Status := target\<rparr>; (e, st') = plan_save io plan st in (e, plan, st'))"

section \<open>What is visible through the store\<close>

definition visible :: "Store \<Rightarrow> bytes \<rightharpoonup> Plan" where
  "visible st slug = (case st_cache st slug of Some p \<Rightarrow> Some p
                      | None \<Rightarrow> (case st_kv st of None \<Rightarrow> None | Some m \<Rightarrow> m slug))"

text \<open>Every stored plan is stored under its own, valid slug.\<close>

definition store_inv :: "Store \<Rightarrow> bool" where
  "store_inv st \<longleftrightarrow>
     (\<forall>s p. st_cache st s = Some p \<longrightarrow> p_Slug p = s \<and> ValidateSlug s = None) \<and>
     (\<forall>m s p. st_kv st = Some m \<longrightarrow> m s = Some p \<longrightarrow> p_Slug p = s \<and> ValidateSlug s = None)"

text \<open>The bucket holds every cached plan: what puts that succeed maintain.\<close>

definition synced :: "Store \<Rightarrow> bool" where
  "synced st \<longleftrightarrow> (\<exists>m. st_kv st = Some m \<and> (\<forall>s p. st_cache st s = Some p \<longrightarrow> m s = Some p))"

lemma plan_get_result: "fst (plan_get True slug st) = visible st slug"
  by (simp add: plan_get_def visible_def split: option.splits)

lemma plan_get_SomeD: "plan_get r slug st = (Some p, st') \<Longrightarrow> visible st slug = Some p"
  by (auto simp: plan_get_def visible_def split: option.splits if_splits)

lemma plan_get_visible:
  assumes "store_inv st" "plan_get r slug st = (x, st')"
  shows "visible st' = visible st" and "store_inv st'" and "st_kv st' = st_kv st"
  using assms
  by (auto simp: plan_get_def visible_def store_inv_def fun_eq_iff split: option.splits if_splits)

lemma visible_slug: "store_inv st \<Longrightarrow> visible st slug = Some p \<Longrightarrow> p_Slug p = slug \<and> ValidateSlug slug = None"
  by (auto simp: visible_def store_inv_def split: option.splits)

lemma plan_save_cases:
  assumes "plan_save io p st = (e, st')"
  obtains (refused) "st' = st" "e \<noteq> None"
    | (stored) "visible st' = (visible st)(p_Slug p \<mapsto> p)" "ValidateSlug (p_Slug p) = None"
        "st_cache st' = (st_cache st)(p_Slug p \<mapsto> p)"
        "st_kv st' = st_kv st \<or> st_kv st' = map_option (\<lambda>m. m(p_Slug p \<mapsto> p)) (st_kv st)"
  using assms
  by (auto simp: plan_save_def Let_def visible_def fun_eq_iff split: option.splits if_splits)

lemma plan_save_inv:
  assumes "plan_save io p st = (e, st')" "store_inv st"
  shows "store_inv st'"
  using assms(1)
proof (cases rule: plan_save_cases)
  case stored
  then show ?thesis using assms(2) by (auto simp: store_inv_def split: if_splits)
qed (use assms in simp)

lemma plan_save_ok:
  assumes "plan_save io p st = (None, st')"
  shows "visible st' = (visible st)(p_Slug p \<mapsto> p)"
  using assms by (cases rule: plan_save_cases) auto

lemma plan_save_visible:
  assumes "plan_save io p st = (e, st')"
  shows "visible st' = visible st \<or> visible st' = (visible st)(p_Slug p \<mapsto> p)"
  using assms by (cases rule: plan_save_cases) auto

lemma plan_save_synced:
  assumes "plan_save io p st = (None, st')" "synced st" "sv_put io"
  shows "synced st'"
  using assms by (auto simp: plan_save_def synced_def Let_def split: option.splits if_splits)

lemma evict_visible: "synced st \<Longrightarrow> visible (evict slug st) = visible st"
  by (auto simp: synced_def evict_def visible_def fun_eq_iff split: option.splits)

lemma evict_inv: "store_inv st \<Longrightarrow> store_inv (evict slug st)"
  by (simp add: evict_def store_inv_def)

section \<open>The contract of a store towards read-modify-write clients\<close>

text \<open>
  What a mutation handler relies on: reading does not change what is readable, a read returns the
  current value, a write that reports success makes the written value readable under its key and
  leaves every other key alone, and a write that reports failure has done that or nothing.
\<close>

locale keyed_store =
  fixes fetch :: "'k \<Rightarrow> 'st \<Rightarrow> 'v option \<times> 'st"
    and store :: "'io \<Rightarrow> 'v \<Rightarrow> 'st \<Rightarrow> 'e option \<times> 'st"
    and key :: "'v \<Rightarrow> 'k"
    and view :: "'st \<Rightarrow> 'k \<rightharpoonup> 'v"
    and inv :: "'st \<Rightarrow> bool"
  assumes fetch_value: "inv st \<Longrightarrow> fetch k st = (Some v, st') \<Longrightarrow> view st k = Some v"
    and fetch_view: "inv st \<Longrightarrow> fetch k st = (x, st') \<Longrightarrow> view st' = view st \<and> inv st'"
    and store_ok: "store io v st = (None, st') \<Longrightarrow> view st' = (view st)(key v \<mapsto> v)"
    and store_any: "store io v st = (e, st') \<Longrightarrow> view st' = view st \<or> view st' = (view st)(key v \<mapsto> v)"
    and store_inv: "inv st \<Longrightarrow> store io v st = (e, st') \<Longrightarrow> inv st'"
begin

text \<open>A handler that gives up after reading has changed nothing.\<close>

lemma abort: "inv st \<Longrightarrow> fetch k st = (x, st1) \<Longrightarrow> inv st1 \<and> view st1 = view st"
  using fetch_view by blast

text \<open>A handler that reads a value and writes a replacement under the same key has done so, or
  nothing; on success it has done so.\<close>

lemma commit:
  assumes "inv st" "fetch k st = (Some v, st1)" "store io w st1 = (e, st2)" "key w = k"
  shows "inv st2" and "view st k = Some v"
    and "view st2 = view st \<or> view st2 = (view st)(k \<mapsto> w)"
    and "e = None \<Longrightarrow> view st2 = (view st)(k \<mapsto> w)"
proof -
  note r = fetch_view [OF assms(1,2)]
  show "inv st2" using store_inv [OF _ assms(3)] r by blast
  show "view st k = Some v" using fetch_value [OF assms(1,2)] .
  show "view st2 = view st \<or> view st2 = (view st)(k \<mapsto> w)"
    using store_any [OF assms(3)] r assms(4) by auto
  show "e = None \<Longrightarrow> view st2 = (view st)(k \<mapsto> w)"
    using store_ok [of io w st1 st2] assms(3,4) r by auto
qed

text \<open>Two such handlers in a row on the same key: the second reads what the first wrote.\<close>

lemma commit_fetch:
  assumes "inv st" "fetch k st = (Some v, st1)" "store io w st1 = (None, st2)" "key w = k"
    and "fetch k st2 = (Some u, st3)"
  shows "u = w"
  using commit(4) [OF assms(1-4) refl] fetch_value [OF commit(1) [OF assms(1-4)] assms(5)] by simp

end

interpretation plan_store: keyed_store "plan_get readable" plan_save p_Slug visible store_inv
  for readable
proof
  show "store_inv st \<Longrightarrow> plan_get readable k st = (Some v, st') \<Longrightarrow> visible st k = Some v" for st k v st'
    by (rule plan_get_SomeD)
  show "store_inv st \<Longrightarrow> plan_get readable k st = (x, st') \<Longrightarrow> visible st' = visible st \<and> store_inv st'"
    for st k x st' using plan_get_visible by blast
  show "store_inv st \<Longrightarrow> plan_save io v st = (e, st') \<Longrightarrow> store_inv st'" for st io v e st'
    using plan_save_inv by blast
qed (fact plan_save_ok plan_save_visible)+

section \<open>Properties\<close>

lemma create_visible:
  assumes "plan_create ids detected io now slug title brief qa ov st = (Inr p, st')"
  shows "p_Slug p = slug" and "visible st' = (visible st)(slug \<mapsto> p)"
    and "EffectiveStatus p = StatusCreated" and "ValidateSlug slug = None"
proof -
  obtain e where *: "plan_save io p st = (None, st')" "p_Slug p = slug" "ValidateSlug slug = None"
    "EffectiveStatus p = StatusCreated"
    using assms
    by (auto simp: plan_create_def Let_def EnsureContractPacket_def ensureRuntimeContractFacts_def
        EffectiveStatus_def Plan_zero_def split: option.splits if_splits prod.splits)
  then show "p_Slug p = slug" "visible st' = (visible st)(slug \<mapsto> p)" "ValidateSlug slug = None"
    "EffectiveStatus p = StatusCreated"
    using plan_save_ok by blast+
qed


definition ex_slug_plan :: "bytes \<Rightarrow> Status \<Rightarrow> Plan" where
  "ex_slug_plan slug status = Plan_zero\<lparr>p_Slug := slug, p_Title := ''t'', p_Status := status\<rparr>"

abbreviation io_ok :: SaveIO where
  "io_ok \<equiv> \<lparr>sv_ctx = True, sv_marshal = True, sv_put = True, sv_graph = True\<rparr>"


text \<open>creating a plan does not always detect that it exists.  The duplicate check looks at the
  cache only, whose entries expire, so creating a slug whose plan is in the bucket but no longer
  cached succeeds and replaces the plan, here one that awaits review, by a fresh one.\<close>

theorem create_overwrites_expired:
  "case plan_create \<lparr>EntityPrefix = ''semspec.local'', sha256 = id\<rparr> [] io_ok 7 ''a'' ''New'' [] (QALevelOther []) None
       (evict ''a'' (snd (plan_save io_ok (ex_slug_plan ''a'' StatusAwaitingReview)
          \<lparr>st_cache = Map.empty, st_kv = Some Map.empty\<rparr>))) of
     (Inl e, st') \<Rightarrow> False
   | (Inr p, st') \<Rightarrow> EffectiveStatus p = StatusCreated
       \<and> map_option EffectiveStatus (fst (plan_get True ''a'' st')) = Some StatusCreated
       \<and> map_option EffectiveStatus (fst (plan_get True ''a'' (evict ''a'' st'))) = Some StatusCreated"
  by code_simp

end
