(* ===== verification/Scheduling.thy ===== *)
theory Scheduling
  imports Validators
begin

text \<open>
  \<^verbatim>\<open>src/workflow/derive_story_scheduling.go\<close>: the edges between stories.  Pass 1 adds the
  semantic edges (a story waits for every story covering a prerequisite requirement it does not
  cover itself), pass 2 the resource edges (stories sharing a file run in the order of their IDs),
  pass 3 rejects a cyclic result.  The Go code updates the slice in place, so the model returns the
  updated stories beside the error.  Go iterates over the map \<^verbatim>\<open>allPrereqs\<close> in an unspecified
  order: the model takes the order as a parameter \<open>perm\<close>, one permutation per story.
\<close>

section \<open>Definitions\<close>

datatype schedule_error =
    ErrSameComponentFileConflict bytes bytes bytes "bytes list"
  | ErrCoveragePartitionCyclic "bytes list"

definition appendUnique :: "bytes list \<Rightarrow> bytes \<Rightarrow> bytes list" where
  "appendUnique xs x = (if x \<in> set xs then xs else xs @ [x])"

definition req_edges :: "Requirement list \<Rightarrow> (bytes \<times> bytes list) list" where
  "req_edges reqs = rev (map (\<lambda>r. (r_ID r, r_DependsOn r)) reqs)"

definition buildReqClosure :: "Requirement list \<Rightarrow> bytes \<Rightarrow> bytes list" where
  "buildReqClosure reqs =
     slice_at (fill_map r_ID (\<lambda>r. bfs (req_edges reqs) (succs (req_edges reqs) (r_ID r)) []) reqs)"

definition buildStoryClosure :: "Story list \<Rightarrow> bytes \<Rightarrow> bytes list" where
  "buildStoryClosure stories =
     slice_at (fill_map s_ID (\<lambda>s. bfs (story_edges stories) (succs (story_edges stories) (s_ID s)) []) stories)"

definition alreadyOrdered :: "bytes \<Rightarrow> bytes \<Rightarrow> (bytes \<Rightarrow> bytes list) \<Rightarrow> bool" where
  "alreadyOrdered aID bID closure \<longleftrightarrow> bID \<in> set (closure aID) \<or> aID \<in> set (closure bID)"

text \<open>The map \<^verbatim>\<open>coverers\<close>: the stories covering a requirement, in order, each once.\<close>

definition coverers :: "Story list \<Rightarrow> bytes \<Rightarrow> bytes list" where
  "coverers stories rid =
     foldl appendUnique [] (map s_ID (filter (\<lambda>s. rid \<in> set (s_RequirementIDs s)) stories))"

definition add_coverers :: "Story \<Rightarrow> (bytes \<Rightarrow> bytes list) \<Rightarrow> bytes list \<Rightarrow> bytes \<Rightarrow> bytes list" where
  "add_coverers s cov ds prereq =
     (if prereq \<in> set (s_RequirementIDs s) then ds
      else foldl (\<lambda>ds c. if c \<noteq> s_ID s then appendUnique ds c else ds) ds (cov prereq))"

definition allPrereqs :: "Requirement list \<Rightarrow> Story \<Rightarrow> bytes list" where
  "allPrereqs reqs s = remdups (concat (map (buildReqClosure reqs) (s_RequirementIDs s)))"

definition semantic_edges :: "(nat \<Rightarrow> bytes list \<Rightarrow> bytes list) \<Rightarrow> Requirement list \<Rightarrow> Story list \<Rightarrow> Story list" where
  "semantic_edges perm reqs stories =
     map (\<lambda>(i, s). s\<lparr>s_DependsOn :=
            foldl (add_coverers s (coverers stories)) (s_DependsOn s) (perm i (allPrereqs reqs s))\<rparr>)
       (enumerate 0 stories)"

definition index_pairs :: "nat \<Rightarrow> (nat \<times> nat) list" where
  "index_pairs n = concat (map (\<lambda>i. map (\<lambda>j. (i, j)) [Suc i..<n]) [0..<n])"

definition add_edge :: "Story list \<Rightarrow> nat \<Rightarrow> nat \<Rightarrow> Story list" where
  "add_edge st higher lower = st[higher := (st ! higher)\<lparr>s_DependsOn :=
     appendUnique (s_DependsOn (st ! higher)) (s_ID (st ! lower))\<rparr>]"

fun resource_loop :: "(bytes \<Rightarrow> bytes list) \<Rightarrow> (bytes \<Rightarrow> bytes list) \<Rightarrow> (nat \<times> nat) list \<Rightarrow> Story list \<Rightarrow>
    schedule_error option \<times> Story list" where
  "resource_loop closure files [] st = (None, st)"
| "resource_loop closure files ((i, j) # ps) st =
     (let a = st ! i; b = st ! j in
      if alreadyOrdered (s_ID a) (s_ID b) closure then resource_loop closure files ps st
      else let overlap = sharedFiles (files (s_ID a)) (files (s_ID b)) in
        if overlap = [] then resource_loop closure files ps st
        else if s_ComponentName a = s_ComponentName b
        then (Some (ErrSameComponentFileConflict (s_ID a) (s_ID b) (s_ComponentName a) overlap), st)
        else let (lower, higher) =
                   (if hd (sort [s_ID a, s_ID b]) = s_ID b then (j, i) else (i, j)) in
          resource_loop closure files ps (add_edge st higher lower))"

definition applyResourceEdges :: "Story list \<Rightarrow> schedule_error option \<times> Story list" where
  "applyResourceEdges stories =
     resource_loop (buildStoryClosure stories) (normalized_files stories)
       (index_pairs (length stories)) stories"

text \<open>The reported cycle is the stack from the first occurrence of the repeated story.\<close>

definition detectSchedulerCycle :: "Story list \<Rightarrow> bytes list option" where
  "detectSchedulerCycle stories =
     (case dfs_cycle (dag_adj s_ID s_DependsOn stories) (map s_ID stories) of
        None \<Rightarrow> None
      | Some (_, d, stack) \<Rightarrow> Some (dropWhile (\<lambda>n. n \<noteq> d) stack))"

definition DeriveStoryScheduling :: "(nat \<Rightarrow> bytes list \<Rightarrow> bytes list) \<Rightarrow> Story list \<Rightarrow> Requirement list \<Rightarrow>
    schedule_error option \<times> Story list" where
  "DeriveStoryScheduling perm stories reqs =
     (if stories = [] then (None, stories)
      else case applyResourceEdges (semantic_edges perm reqs stories) of
        (Some e, st) \<Rightarrow> (Some e, st)
      | (None, st) \<Rightarrow>
          (case detectSchedulerCycle st of
             Some cycle \<Rightarrow> (Some (ErrCoveragePartitionCyclic cycle), st)
           | None \<Rightarrow> (None, st)))"

section \<open>Adding edges\<close>

text \<open>One list of stories extends another: only dependency lists differ, and they grow at the end.\<close>

definition extends :: "Story list \<Rightarrow> Story list \<Rightarrow> bool" where
  "extends st st' \<longleftrightarrow> list_all2 (\<lambda>s s'. s'\<lparr>s_DependsOn := s_DependsOn s\<rparr> = s
     \<and> prefix (s_DependsOn s) (s_DependsOn s')) st st'"

lemma extends_refl [simp]: "extends st st"
  by (simp add: extends_def list_all2_same)

lemma extends_trans: "extends a b \<Longrightarrow> extends b c \<Longrightarrow> extends a c"
  unfolding extends_def
proof (rule list_all2_trans)
  fix s t u :: Story
  assume "t\<lparr>s_DependsOn := s_DependsOn s\<rparr> = s \<and> prefix (s_DependsOn s) (s_DependsOn t)"
    "u\<lparr>s_DependsOn := s_DependsOn t\<rparr> = t \<and> prefix (s_DependsOn t) (s_DependsOn u)"
  then show "u\<lparr>s_DependsOn := s_DependsOn s\<rparr> = s \<and> prefix (s_DependsOn s) (s_DependsOn u)"
    by (cases s; cases t; cases u) (auto intro: prefix_order.trans)
qed auto

lemma extends_length: "extends st st' \<Longrightarrow> length st' = length st"
  by (auto simp: extends_def dest: list_all2_lengthD)

lemma extends_nth:
  assumes "extends st st'" "i < length st"
  shows "s_ID (st' ! i) = s_ID (st ! i)" "s_FilesOwned (st' ! i) = s_FilesOwned (st ! i)"
    "s_RequirementIDs (st' ! i) = s_RequirementIDs (st ! i)"
    "s_ComponentName (st' ! i) = s_ComponentName (st ! i)"
    "prefix (s_DependsOn (st ! i)) (s_DependsOn (st' ! i))"
proof -
  have *: "(st' ! i)\<lparr>s_DependsOn := s_DependsOn (st ! i)\<rparr> = st ! i
      \<and> prefix (s_DependsOn (st ! i)) (s_DependsOn (st' ! i))"
    using assms by (auto simp: extends_def list_all2_conv_all_nth)
  then show "prefix (s_DependsOn (st ! i)) (s_DependsOn (st' ! i))" by simp
  from * show "s_ID (st' ! i) = s_ID (st ! i)" "s_FilesOwned (st' ! i) = s_FilesOwned (st ! i)"
    "s_RequirementIDs (st' ! i) = s_RequirementIDs (st ! i)"
    "s_ComponentName (st' ! i) = s_ComponentName (st ! i)"
    by (cases "st ! i"; cases "st' ! i"; auto)+
qed

lemma extends_ids: "extends st st' \<Longrightarrow> map s_ID st' = map s_ID st"
  by (rule nth_equalityI) (auto simp: extends_length extends_nth)

lemma extends_member:
  assumes "extends st st'" "s \<in> set st"
  shows "\<exists>s' \<in> set st'. s_ID s' = s_ID s \<and> s_FilesOwned s' = s_FilesOwned s
    \<and> s_RequirementIDs s' = s_RequirementIDs s \<and> set (s_DependsOn s) \<subseteq> set (s_DependsOn s')"
proof -
  obtain i where i: "i < length st" "s = st ! i" using assms(2) by (auto simp: in_set_conv_nth)
  then have "st' ! i \<in> set st'" using extends_length [OF assms(1)] by simp
  then show ?thesis using extends_nth [OF assms(1) i(1)] i(2)
    by (intro bexI [of _ "st' ! i"]) (auto simp: set_mono_prefix)
qed

lemma extends_rel:
  assumes "extends st st'" "distinct (map s_ID st)"
  shows "story_rel st \<subseteq> story_rel st'"
proof
  fix p assume "p \<in> story_rel st"
  then obtain x y where p: "p = (x, y)" "y \<in> set (dag_adj s_ID s_DependsOn st x)"
    by (cases p) auto
  then obtain s where s: "s \<in> set st" "s_ID s = x" "s_DependsOn s = dag_adj s_ID s_DependsOn st x"
    using dag_adj_nonempty [of s_ID s_DependsOn st x] by fastforce
  from extends_member [OF assms(1) s(1)] obtain s' where s': "s' \<in> set st'" "s_ID s' = s_ID s"
    "set (s_DependsOn s) \<subseteq> set (s_DependsOn s')" by blast
  have "distinct (map s_ID st')" using assms extends_ids by metis
  then have "dag_adj s_ID s_DependsOn st' x = s_DependsOn s'"
    using dag_adj_distinct [of s_ID st' s' s_DependsOn] s' s(2) by simp
  then show "p \<in> story_rel st'" using p s s' by auto
qed

subsection \<open>Pass 1\<close>

lemma set_appendUnique [simp]: "set (appendUnique xs x) = insert x (set xs)"
  by (auto simp: appendUnique_def)

lemma prefix_appendUnique: "prefix xs (appendUnique xs x)"
  by (simp add: appendUnique_def)

lemma set_foldl_appendUnique: "set (foldl appendUnique xs ys) = set xs \<union> set ys"
  by (induction ys arbitrary: xs) auto

lemma set_coverers: "set (coverers stories rid) =
    {s_ID s | s. s \<in> set stories \<and> rid \<in> set (s_RequirementIDs s)}"
  by (auto simp: coverers_def set_foldl_appendUnique)

lemma foldl_unless_set:
  "set (foldl (\<lambda>ds c. if c \<noteq> me then appendUnique ds c else ds) ds cs) = set ds \<union> (set cs - {me})"
  by (induction cs arbitrary: ds) auto

lemma foldl_unless_prefix:
  "prefix ds (foldl (\<lambda>ds c. if c \<noteq> me then appendUnique ds c else ds) ds cs)"
proof (induction cs arbitrary: ds)
  case (Cons c cs)
  have "prefix ds (if c \<noteq> me then appendUnique ds c else ds)" by (simp add: prefix_appendUnique)
  from prefix_order.trans [OF this Cons] show ?case by simp
qed simp

lemma foldl_unless_noop:
  "set cs - {me} \<subseteq> set ds \<Longrightarrow> foldl (\<lambda>ds c. if c \<noteq> me then appendUnique ds c else ds) ds cs = ds"
  by (induction cs) (auto simp: appendUnique_def)

lemma set_foldl_add_coverers:
  "set (foldl (add_coverers s cov) ds ps) =
     set ds \<union> (\<Union>p \<in> set ps - set (s_RequirementIDs s). set (cov p) - {s_ID s})"
  by (induction ps arbitrary: ds) (auto simp: add_coverers_def foldl_unless_set)

lemma prefix_foldl_add_coverers: "prefix ds (foldl (add_coverers s cov) ds ps)"
proof (induction ps arbitrary: ds)
  case (Cons p ps)
  have "prefix ds (add_coverers s cov ds p)" by (simp add: add_coverers_def foldl_unless_prefix)
  from prefix_order.trans [OF this Cons] show ?case by simp
qed simp

lemma foldl_add_coverers_noop:
  "(\<Union>p \<in> set ps - set (s_RequirementIDs s). set (cov p) - {s_ID s}) \<subseteq> set ds \<Longrightarrow>
   foldl (add_coverers s cov) ds ps = ds"
proof (induction ps)
  case (Cons p ps)
  have "add_coverers s cov ds p = ds"
    using Cons.prems by (auto simp: add_coverers_def intro!: foldl_unless_noop)
  moreover have "foldl (add_coverers s cov) ds ps = ds"
    using Cons.prems by (intro Cons.IH) auto
  ultimately show ?case by simp
qed simp

lemma length_semantic_edges [simp]: "length (semantic_edges perm reqs stories) = length stories"
  by (simp add: semantic_edges_def)

lemma semantic_edges_nth: "i < length stories \<Longrightarrow> semantic_edges perm reqs stories ! i =
    (stories ! i)\<lparr>s_DependsOn := foldl (add_coverers (stories ! i) (coverers stories))
       (s_DependsOn (stories ! i)) (perm i (allPrereqs reqs (stories ! i)))\<rparr>"
  by (simp add: semantic_edges_def nth_enumerate_eq)

lemma semantic_edges_extends: "extends stories (semantic_edges perm reqs stories)"
  unfolding extends_def list_all2_conv_all_nth
  by (auto simp: semantic_edges_nth prefix_foldl_add_coverers)

abbreviation req_rel :: "Requirement list \<Rightarrow> (bytes \<times> bytes) set" where
  "req_rel reqs \<equiv> dep_rel (dag_adj r_ID r_DependsOn reqs)"

lemma set_buildReqClosure:
  "set (buildReqClosure reqs rid) = {q. (rid, q) \<in> (req_rel reqs)\<^sup>+}"
  unfolding buildReqClosure_def req_edges_def by (rule set_closure_map)

lemma set_buildStoryClosure:
  "set (buildStoryClosure stories sid) = {q. (sid, q) \<in> (story_rel stories)\<^sup>+}"
  unfolding buildStoryClosure_def story_edges_def by (rule set_closure_map)

lemma set_allPrereqs: "set (allPrereqs reqs s) =
    {q. \<exists>r \<in> set (s_RequirementIDs s). (r, q) \<in> (req_rel reqs)\<^sup>+}"
  by (auto simp: allPrereqs_def set_buildReqClosure)

text \<open>The semantic edges a story owes: everyone covering an outstanding prerequisite.\<close>

definition owed :: "Requirement list \<Rightarrow> Story list \<Rightarrow> Story \<Rightarrow> bytes set" where
  "owed reqs stories s = {s_ID t | t r q. t \<in> set stories \<and> r \<in> set (s_RequirementIDs s) \<and>
     (r, q) \<in> (req_rel reqs)\<^sup>+ \<and> q \<notin> set (s_RequirementIDs s) \<and> q \<in> set (s_RequirementIDs t)
     \<and> s_ID t \<noteq> s_ID s}"

lemma semantic_edges_deps:
  assumes "i < length stories" "mset (perm i (allPrereqs reqs (stories ! i))) = mset (allPrereqs reqs (stories ! i))"
  shows "set (s_DependsOn (semantic_edges perm reqs stories ! i)) =
    set (s_DependsOn (stories ! i)) \<union> owed reqs stories (stories ! i)"
proof -
  have "set (perm i (allPrereqs reqs (stories ! i))) = set (allPrereqs reqs (stories ! i))"
    using assms(2) by (rule mset_eq_setD)
  then show ?thesis
    using assms(1)
    by (auto simp: semantic_edges_nth set_foldl_add_coverers set_allPrereqs set_coverers owed_def)
qed

subsection \<open>Pass 2\<close>

lemma extends_add_edge: "h < length st \<Longrightarrow> extends st (add_edge st h l)"
  unfolding extends_def list_all2_conv_all_nth add_edge_def
  by (auto simp: nth_list_update prefix_appendUnique)

text \<open>What every added edge preserves, the loop preserves.\<close>

lemma resource_loop_invariant:
  assumes "\<And>st h l. I st \<Longrightarrow> length st = n \<Longrightarrow> h < n \<Longrightarrow> l < n \<Longrightarrow> I (add_edge st h l)"
    and "I st" "length st = n" "\<forall>(i, j) \<in> set ps. i < n \<and> j < n"
  shows "I (snd (resource_loop closure files ps st))"
  using assms(2-4)
proof (induction ps arbitrary: st)
  case (Cons p ps)
  obtain i j where p: "p = (i, j)" by (cases p)
  have ij: "i < n" "j < n" using Cons.prems(3) p by auto
  have next_st: "I (snd (resource_loop closure files ps st))" by (rule Cons.IH) (use Cons.prems in auto)
  have next_add: "I (snd (resource_loop closure files ps (add_edge st h l)))" if "h < n" "l < n" for h l
    by (rule Cons.IH) (use Cons.prems assms(1) that in \<open>auto simp: add_edge_def\<close>)
  show ?case
    using next_st next_add [OF ij] next_add [OF ij(2,1)] Cons.prems(1) p by (simp add: Let_def)
qed simp

lemma resource_loop_extends:
  assumes "\<forall>(i, j) \<in> set ps. i < length st \<and> j < length st"
  shows "extends st (snd (resource_loop closure files ps st))"
  by (rule resource_loop_invariant [where n = "length st"])
     (use assms extends_add_edge extends_trans in auto)

definition pair_settled :: "(bytes \<Rightarrow> bytes list) \<Rightarrow> (bytes \<Rightarrow> bytes list) \<Rightarrow> Story list \<Rightarrow> nat \<Rightarrow> nat \<Rightarrow> bool" where
  "pair_settled closure files st i j \<longleftrightarrow>
     alreadyOrdered (s_ID (st ! i)) (s_ID (st ! j)) closure
     \<or> set (files (s_ID (st ! i))) \<inter> set (files (s_ID (st ! j))) = {}
     \<or> s_ID (st ! i) \<in> set (s_DependsOn (st ! j)) \<or> s_ID (st ! j) \<in> set (s_DependsOn (st ! i))"

lemma pair_settled_extends:
  assumes "extends st st'" "i < length st" "j < length st" "pair_settled closure files st i j"
  shows "pair_settled closure files st' i j"
  using assms(4) extends_nth [OF assms(1,2)] extends_nth [OF assms(1,3)]
  unfolding pair_settled_def by (auto dest: set_mono_prefix)

lemma resource_loop_settled:
  "resource_loop closure files ps st = (None, st') \<Longrightarrow>
   \<forall>(i, j) \<in> set ps. i < length st \<and> j < length st \<Longrightarrow>
   \<forall>(i, j) \<in> set ps. pair_settled closure files st' i j"
proof (induction closure files ps st rule: resource_loop.induct)
  case (2 closure files i j ps st)
  have ij: "i < length st" "j < length st" "\<forall>(i, j) \<in> set ps. i < length st \<and> j < length st"
    using "2.prems"(2) by auto
  let ?a = "st ! i" and ?b = "st ! j"
  let ?over = "sharedFiles (files (s_ID ?a)) (files (s_ID ?b))"
  show ?case
  proof (cases "alreadyOrdered (s_ID ?a) (s_ID ?b) closure \<or> ?over = []")
    case True
    then have r: "resource_loop closure files ps st = (None, st')"
      using "2.prems"(1) by (auto simp: Let_def split: if_splits)
    have e: "extends st st'" using resource_loop_extends [OF ij(3), of closure files] r by simp
    have "pair_settled closure files st i j"
      using True by (auto simp: pair_settled_def sharedFiles_Nil)
    then have "pair_settled closure files st' i j" using pair_settled_extends [OF e ij(1,2)] by simp
    moreover have "\<forall>(i, j) \<in> set ps. pair_settled closure files st' i j"
      using "2.IH"(1,2) [OF refl refl] r True ij(3) by (cases "alreadyOrdered (s_ID ?a) (s_ID ?b) closure") auto
    ultimately show ?thesis by auto
  next
    case False
    obtain l h where lh: "(l, h) = (if hd (sort [s_ID ?a, s_ID ?b]) = s_ID ?b then (j, i) else (i, j))"
      by (metis surj_pair)
    then have lh': "(l = i \<and> h = j) \<or> (l = j \<and> h = i)" by (auto split: if_splits)
    let ?st1 = "add_edge st h l"
    have nc: "s_ComponentName ?a \<noteq> s_ComponentName ?b"
      using "2.prems"(1) False by (auto simp: Let_def split: if_splits)
    have r: "resource_loop closure files ps ?st1 = (None, st')"
      using "2.prems"(1) False nc lh by (auto simp: Let_def split: if_splits)
    have len: "length ?st1 = length st" by (simp add: add_edge_def)
    have e: "extends ?st1 st'" using resource_loop_extends [of ps ?st1 closure files] ij(3) r len by simp
    have "pair_settled closure files ?st1 i j"
      using lh' ij(1,2) by (cases "i = j") (auto simp: pair_settled_def nth_list_update add_edge_def)
    then have s1: "pair_settled closure files st' i j"
      using pair_settled_extends [OF e] ij(1,2) len by simp
    have "\<forall>(i, j) \<in> set ps. pair_settled closure files st' i j"
      using "2.IH"(3) [OF refl refl _ refl _ nc refl lh r] False ij(3) len by auto
    then show ?thesis using s1 by auto
  qed
qed simp

lemma resource_loop_noop:
  "\<forall>(i, j) \<in> set ps. alreadyOrdered (s_ID (st ! i)) (s_ID (st ! j)) closure
     \<or> sharedFiles (files (s_ID (st ! i))) (files (s_ID (st ! j))) = [] \<Longrightarrow>
   resource_loop closure files ps st = (None, st)"
  by (induction ps) (auto simp: Let_def)

lemma set_index_pairs: "set (index_pairs n) = {(i, j). i < j \<and> j < n}"
proof -
  have "(i, j) \<in> set (index_pairs n)" if "i < j" "j < n" for i j
    using that by (auto simp: index_pairs_def intro!: bexI [of _ i])
  then show ?thesis by (auto simp: index_pairs_def)
qed

subsection \<open>The three passes together\<close>

definition perm_ok :: "(nat \<Rightarrow> bytes list \<Rightarrow> bytes list) \<Rightarrow> bool" where
  "perm_ok perm \<longleftrightarrow> (\<forall>i xs. mset (perm i xs) = mset xs)"

lemma applyResourceEdges_extends: "extends st (snd (applyResourceEdges st))"
  unfolding applyResourceEdges_def
  by (rule resource_loop_extends) (auto simp: set_index_pairs)

lemma detectSchedulerCycle_None: "detectSchedulerCycle st = None \<longleftrightarrow> acyclic (story_rel st)"
  using dfs_cycle_None [OF dag_adj_rooted [of s_ID s_DependsOn st]]
  by (auto simp: detectSchedulerCycle_def split: option.splits)

lemma derive_cases:
  assumes "DeriveStoryScheduling perm stories reqs = (None, st)" "stories \<noteq> []"
  shows "applyResourceEdges (semantic_edges perm reqs stories) = (None, st)" "acyclic (story_rel st)"
  using assms detectSchedulerCycle_None [of st]
  by (auto simp: DeriveStoryScheduling_def split: prod.splits option.splits)

lemma derive_extends: "extends stories (snd (DeriveStoryScheduling perm stories reqs))"
proof -
  let ?p1 = "semantic_edges perm reqs stories"
  have "extends stories (snd (applyResourceEdges ?p1))"
    by (rule extends_trans [OF semantic_edges_extends applyResourceEdges_extends])
  then show ?thesis
    by (auto simp: DeriveStoryScheduling_def split: prod.splits option.splits)
qed

lemma derive_files_ordered:
  assumes d: "DeriveStoryScheduling perm stories reqs = (None, st)"
    and dist: "distinct (map s_ID stories)" and ne: "stories \<noteq> []"
  shows "files_ordered st"
  unfolding files_ordered_def
proof (intro ballI impI)
  let ?p1 = "semantic_edges perm reqs stories"
  note ap = derive_cases(1) [OF d ne]
  have e1: "extends ?p1 st" using applyResourceEdges_extends [of ?p1] ap by simp
  have dist1: "distinct (map s_ID ?p1)"
    using extends_ids [OF semantic_edges_extends] dist by metis
  have dist': "distinct (map s_ID st)" using extends_ids [OF e1] dist1 by simp
  have settled: "pair_settled (buildStoryClosure ?p1) (normalized_files ?p1) st i j"
    if "i < j" "j < length st" for i j
    using resource_loop_settled [OF ap [unfolded applyResourceEdges_def]] that extends_length [OF e1]
    by (auto simp: set_index_pairs)
  have files: "set (normalized_files ?p1 (s_ID (st ! i))) = story_files (st ! i)"
    if "i < length st" for i
  proof -
    have i: "i < length ?p1" using that extends_length [OF e1] by simp
    then have "set (normalized_files ?p1 (s_ID (?p1 ! i))) = story_files (?p1 ! i)"
      by (intro normalized_files_set [OF dist1]) simp
    then show ?thesis using extends_nth [OF e1 i] by (simp add: story_files_def)
  qed
  have edge: "(s_ID (st ! i), d) \<in> story_rel st" if "i < length st" "d \<in> set (s_DependsOn (st ! i))" for i d
    using that dag_adj_distinct [OF dist', of "st ! i" s_DependsOn] by simp
  have main: "(s_ID (st ! i), s_ID (st ! j)) \<in> (story_rel st)\<^sup>+ \<or> (s_ID (st ! j), s_ID (st ! i)) \<in> (story_rel st)\<^sup>+"
    if ij: "i < j" "j < length st" "story_files (st ! i) \<inter> story_files (st ! j) \<noteq> {}" for i j
  proof -
    have sub: "(story_rel ?p1)\<^sup>+ \<subseteq> (story_rel st)\<^sup>+"
      using extends_rel [OF e1 dist1] by (auto intro: trancl_mono)
    have i: "i < length st" using ij by simp
    show ?thesis
      using settled [OF ij(1,2)] files [OF i] files [OF ij(2)] ij(3) edge [OF i] edge [OF ij(2)] sub
      unfolding pair_settled_def alreadyOrdered_def set_buildStoryClosure by blast
  qed
  fix a b assume ab: "a \<in> set st" "b \<in> set st" "s_ID a \<noteq> s_ID b" "story_files a \<inter> story_files b \<noteq> {}"
  then obtain i j where ij: "i < length st" "j < length st" "a = st ! i" "b = st ! j"
    by (auto simp: in_set_conv_nth)
  then have "i < j \<or> j < i" using ab(3) by (metis nat_neq_iff)
  then show "(s_ID a, s_ID b) \<in> (story_rel st)\<^sup>+ \<or> (s_ID b, s_ID a) \<in> (story_rel st)\<^sup>+"
    using main [of i j] main [of j i] ij ab(4) by (auto simp: Int_commute)
qed

lemma derive_owed:
  assumes d: "DeriveStoryScheduling perm stories reqs = (None, st)" and p: "perm_ok perm"
    and i: "i < length stories"
  shows "owed reqs stories (stories ! i) \<subseteq> set (s_DependsOn (st ! i))"
proof -
  let ?p1 = "semantic_edges perm reqs stories"
  have ne: "stories \<noteq> []" using i by auto
  have e1: "extends ?p1 st"
    using applyResourceEdges_extends [of ?p1] derive_cases(1) [OF d ne] by simp
  have "owed reqs stories (stories ! i) \<subseteq> set (s_DependsOn (?p1 ! i))"
    using semantic_edges_deps [OF i] p by (auto simp: perm_ok_def)
  also have "\<dots> \<subseteq> set (s_DependsOn (st ! i))"
    using extends_nth(5) [OF e1] i by (simp add: set_mono_prefix)
  finally show ?thesis .
qed

text \<open>No reference leaves the set of stories.\<close>

lemma add_edge_deps:
  assumes "h < length st" "l < length st" "s_ID ` set st = I" "\<forall>s \<in> set st. set (s_DependsOn s) \<subseteq> I"
  shows "s_ID ` set (add_edge st h l) = I \<and> (\<forall>s \<in> set (add_edge st h l). set (s_DependsOn s) \<subseteq> I)"
proof
  show "s_ID ` set (add_edge st h l) = I"
    using extends_ids [OF extends_add_edge [OF assms(1)]] assms(3) by (metis list.set_map)
  have h: "set (s_DependsOn (st ! h)) \<subseteq> I" "s_ID (st ! l) \<in> I" using assms by auto
  show "\<forall>s \<in> set (add_edge st h l). set (s_DependsOn s) \<subseteq> I"
  proof
    fix s assume "s \<in> set (add_edge st h l)"
    then have "s \<in> set st \<or> s = (st ! h)\<lparr>s_DependsOn := appendUnique (s_DependsOn (st ! h)) (s_ID (st ! l))\<rparr>"
      unfolding add_edge_def using set_update_subset_insert by fastforce
    then show "set (s_DependsOn s) \<subseteq> I" using assms(4) h by auto
  qed
qed

lemma resource_loop_deps:
  assumes "\<forall>(i, j) \<in> set ps. i < length st \<and> j < length st"
    and "\<forall>s \<in> set st. set (s_DependsOn s) \<subseteq> s_ID ` set st"
  shows "\<forall>s \<in> set (snd (resource_loop closure files ps st)). set (s_DependsOn s) \<subseteq> s_ID ` set st"
proof -
  let ?I = "\<lambda>st'. s_ID ` set st' = s_ID ` set st \<and> (\<forall>s \<in> set st'. set (s_DependsOn s) \<subseteq> s_ID ` set st)"
  have "?I (snd (resource_loop closure files ps st))"
  proof (rule resource_loop_invariant [where n = "length st"])
    show "?I (add_edge st' h l)" if "?I st'" "length st' = length st" "h < length st" "l < length st" for st' h l
      using add_edge_deps [of h st' l "s_ID ` set st"] that by simp
  qed (use assms in auto)
  then show ?thesis by blast
qed

lemma derive_deps:
  assumes d: "DeriveStoryScheduling perm stories reqs = (None, st)" and p: "perm_ok perm"
    and ids: "\<forall>s \<in> set stories. set (s_DependsOn s) \<subseteq> s_ID ` set stories" and ne: "stories \<noteq> []"
  shows "\<forall>s \<in> set st. set (s_DependsOn s) \<subseteq> s_ID ` set st"
proof -
  let ?p1 = "semantic_edges perm reqs stories"
  have id1: "s_ID ` set ?p1 = s_ID ` set stories"
    using extends_ids [OF semantic_edges_extends] by (metis list.set_map)
  have "\<forall>s \<in> set ?p1. set (s_DependsOn s) \<subseteq> s_ID ` set ?p1"
  proof
    fix s assume "s \<in> set ?p1"
    then obtain i where i: "i < length stories" "s = ?p1 ! i" by (auto simp: in_set_conv_nth)
    have "set (s_DependsOn s) = set (s_DependsOn (stories ! i)) \<union> owed reqs stories (stories ! i)"
      using semantic_edges_deps [OF i(1)] p i(2) by (auto simp: perm_ok_def)
    then show "set (s_DependsOn s) \<subseteq> s_ID ` set ?p1"
      using ids i(1) id1 by (auto simp: owed_def)
  qed
  moreover have "extends ?p1 st" "st = snd (applyResourceEdges ?p1)"
    using applyResourceEdges_extends [of ?p1] derive_cases(1) [OF d ne] by simp_all
  moreover have "\<forall>(i, j) \<in> set (index_pairs (length ?p1)). i < length ?p1 \<and> j < length ?p1"
    by (auto simp: set_index_pairs)
  moreover have "s_ID ` set st = s_ID ` set ?p1"
    using extends_ids [OF calculation(2)] by (metis list.set_map)
  ultimately show ?thesis
    using resource_loop_deps [of "index_pairs (length ?p1)" ?p1] by (simp add: applyResourceEdges_def)
qed

lemma resource_noop:
  assumes "files_ordered st" "distinct (map s_ID st)"
  shows "applyResourceEdges st = (None, st)"
  unfolding applyResourceEdges_def
proof (rule resource_loop_noop, clarify)
  fix i j assume "(i, j) \<in> set (index_pairs (length st))"
    "sharedFiles (normalized_files st (s_ID (st ! i))) (normalized_files st (s_ID (st ! j))) \<noteq> []"
  then have ij: "i < length st" "j < length st" "i \<noteq> j" "story_files (st ! i) \<inter> story_files (st ! j) \<noteq> {}"
    by (auto simp: set_index_pairs sharedFiles_Nil normalized_files_set [OF assms(2)])
  then have "s_ID (st ! i) \<noteq> s_ID (st ! j)"
    using assms(2) by (auto simp: distinct_conv_nth)
  then show "alreadyOrdered (s_ID (st ! i)) (s_ID (st ! j)) (buildStoryClosure st)"
    using assms(1) ij by (auto simp: alreadyOrdered_def set_buildStoryClosure files_ordered_def)
qed

lemma extends_owed:
  assumes "extends stories st" "i < length stories"
  shows "owed reqs st (st ! i) = owed reqs stories (stories ! i)"
proof -
  let ?k = "\<lambda>s :: Story. (s_ID s, s_RequirementIDs s)"
  have "map ?k st = map ?k stories"
    by (rule nth_equalityI) (auto simp: extends_length [OF assms(1)] extends_nth [OF assms(1)])
  then have k: "?k ` set st = ?k ` set stories" by (metis list.set_map)
  have owed_k: "owed reqs ss s = {x. \<exists>rs r q. (x, rs) \<in> ?k ` set ss \<and> r \<in> set (s_RequirementIDs s) \<and>
     (r, q) \<in> (req_rel reqs)\<^sup>+ \<and> q \<notin> set (s_RequirementIDs s) \<and> q \<in> set rs \<and> x \<noteq> s_ID s}" for ss s
    unfolding owed_def by blast
  show ?thesis unfolding owed_k k using extends_nth [OF assms] by simp
qed

lemma semantic_noop:
  assumes "perm_ok perm" "\<And>i. i < length st \<Longrightarrow> owed reqs st (st ! i) \<subseteq> set (s_DependsOn (st ! i))"
  shows "semantic_edges perm reqs st = st"
proof (rule nth_equalityI)
  fix i assume "i < length (semantic_edges perm reqs st)"
  then have i: "i < length st" by simp
  have "set (perm i (allPrereqs reqs (st ! i))) = set (allPrereqs reqs (st ! i))"
    using assms(1) by (intro mset_eq_setD) (simp add: perm_ok_def)
  then have "(\<Union>p \<in> set (perm i (allPrereqs reqs (st ! i))) - set (s_RequirementIDs (st ! i)).
      set (coverers st p) - {s_ID (st ! i)}) \<subseteq> owed reqs st (st ! i)"
    unfolding owed_def by (auto simp: set_allPrereqs set_coverers)
  then have "(\<Union>p \<in> set (perm i (allPrereqs reqs (st ! i))) - set (s_RequirementIDs (st ! i)).
      set (coverers st p) - {s_ID (st ! i)}) \<subseteq> set (s_DependsOn (st ! i))"
    using assms(2) [OF i] by (rule subset_trans)
  from foldl_add_coverers_noop [OF this] show "semantic_edges perm reqs st ! i = st ! i"
    using i by (simp add: semantic_edges_nth)
qed simp

section \<open>Properties\<close>

text \<open>Concrete data: two layered requirements, each covered by a story, the stories sharing a build
  file with a third story; and three stories whose file overlaps close a cycle.\<close>

definition layered_reqs :: "Requirement list" where
  "layered_reqs = [ex_req ''r1'' [], ex_req ''r2'' [''r1''], ex_req ''r3'' []]"

definition layered_stories :: "Story list" where
  "layered_stories = [ex_story ''s1'' ''core'' [''r1''] [''core.go'', ''./build.gradle''],
     ex_story ''s2'' ''api'' [''r2''] [''api.go''],
     ex_story ''s3'' ''ui'' [''r3''] [''ui.go'', ''build.gradle'']]"

definition crossed_reqs :: "Requirement list" where
  "crossed_reqs = [ex_req ''r1'' [''r3''], ex_req ''r2'' [], ex_req ''r3'' []]"

definition crossed_stories :: "Story list" where
  "crossed_stories = [ex_story ''a'' ''A'' [''r1''] [''f.go''],
     ex_story ''b'' ''B'' [''r2''] [''f.go'', ''g.go''], ex_story ''c'' ''C'' [''r3''] [''g.go'']]"

definition in_order :: "nat \<Rightarrow> bytes list \<Rightarrow> bytes list" where
  "in_order i xs = xs"

lemma perm_ok_in_order: "perm_ok in_order"
  by (simp add: perm_ok_def in_order_def)

definition layered_result :: "Story list" where
  "layered_result = snd (DeriveStoryScheduling in_order layered_stories layered_reqs)"

lemma layered_derived: "DeriveStoryScheduling in_order layered_stories layered_reqs = (None, layered_result)"
proof -
  have "fst (DeriveStoryScheduling in_order layered_stories layered_reqs) = None" by code_simp
  then show ?thesis unfolding layered_result_def by (metis prod.collapse)
qed

lemma layered_distinct: "distinct (map s_ID layered_stories)"
  by (simp add: layered_stories_def ex_story_def zero_defs)

text \<open>C25. A story set for which scheduling is derived without error passes the story DAG validator
  and the file-ownership validator: the derived dependencies are acyclic and resolve, and any two
  stories that write a common file are ordered, so parallel dispatch cannot race on it.  The input
  is only extended: no story is dropped, and declared dependencies are kept.\<close>

theorem derive_scheduling_sound:
  assumes "DeriveStoryScheduling perm stories reqs = (None, st)"
    and "perm_ok perm" and "distinct (map s_ID stories)"
    and "\<forall>s \<in> set stories. set (s_DependsOn s) \<subseteq> s_ID ` set stories"
  shows "ValidateStoryDAG st = None \<and> ValidateStoryFileOwnership st = None \<and> extends stories st"
proof (cases "stories = []")
  case True
  then have "st = []" using assms(1) by (simp add: DeriveStoryScheduling_def)
  then show ?thesis using True story_dag.ordered_accepted [of "[]"]
    by (simp add: ValidateStoryFileOwnership_def)
next
  case False
  have e: "extends stories st" using derive_extends [of stories perm reqs] assms(1) by simp
  have d: "distinct (map s_ID st)" using extends_ids [OF e] assms(3) by simp
  have ac: "acyclic (story_rel st)" by (rule derive_cases(2) [OF assms(1) False])
  have "refs_resolve s_ID s_DependsOn st"
    unfolding refs_resolve_def
  proof (intro ballI subsetI DiffI)
    fix s t assume st: "s \<in> set st" "t \<in> set (s_DependsOn s)"
    then show "t \<in> s_ID ` set st" using derive_deps [OF assms(1,2,4) False] by blast
    have "(s_ID s, t) \<in> story_rel st" using st d by (simp add: dag_adj_distinct)
    then show "t \<notin> {s_ID s}" using ac unfolding acyclic_def by blast
  qed
  then have "ValidateStoryDAG st = None" using story_dag.complete ac by blast
  moreover have "ValidateStoryFileOwnership st = None"
    using ownership_None [OF d] derive_files_ordered [OF assms(1,3) False] by simp
  ultimately show ?thesis using e by simp
qed

theorem derive_scheduling_sound_witness:
  "ValidateStoryDAG layered_result = None \<and> ValidateStoryFileOwnership layered_result = None
     \<and> extends layered_stories layered_result"
  by (rule derive_scheduling_sound [OF layered_derived perm_ok_in_order layered_distinct])
     (simp add: layered_stories_def ex_story_def zero_defs)

text \<open>Semantic edges use all-coverers wait semantics: a story depends on every other story that
  covers a transitive prerequisite it does not cover itself.\<close>

theorem derive_scheduling_waits:
  assumes "DeriveStoryScheduling perm stories reqs = (None, st)" and "perm_ok perm"
    and "s \<in> set stories" "t \<in> set stories" "s_ID t \<noteq> s_ID s"
    and "r \<in> set (s_RequirementIDs s)" "(r, q) \<in> (req_rel reqs)\<^sup>+"
    and "q \<notin> set (s_RequirementIDs s)" "q \<in> set (s_RequirementIDs t)"
  shows "\<exists>s' \<in> set st. s_ID s' = s_ID s \<and> s_ID t \<in> set (s_DependsOn s')"
proof -
  obtain i where i: "i < length stories" "s = stories ! i"
    using assms(3) by (auto simp: in_set_conv_nth)
  have "s_ID t \<in> owed reqs stories s" using assms(4-9) unfolding owed_def by blast
  then have "s_ID t \<in> set (s_DependsOn (st ! i))" using derive_owed [OF assms(1,2) i(1)] i(2) by blast
  moreover have e: "extends stories st" using derive_extends [of stories perm reqs] assms(1) by simp
  ultimately show ?thesis
    using extends_nth(1) [OF e i(1)] extends_length [OF e] i by (intro bexI [of _ "st ! i"]) auto
qed

theorem derive_scheduling_waits_witness:
  "\<exists>s' \<in> set layered_result. s_ID s' = ''s2'' \<and> ''s1'' \<in> set (s_DependsOn s')"
proof -
  have "''r1'' \<in> set (buildReqClosure layered_reqs ''r2'')" by code_simp
  then have r: "(''r2'', ''r1'') \<in> (req_rel layered_reqs)\<^sup>+" by (simp add: set_buildReqClosure)
  show ?thesis
    using derive_scheduling_waits [OF layered_derived perm_ok_in_order, of "layered_stories ! 1"
        "layered_stories ! 0" "''r2''" "''r1''"] r
    by (simp add: layered_stories_def ex_story_def zero_defs)
qed

text \<open>Re-deriving the scheduling of its own result changes nothing and succeeds, whatever
  orders the two runs iterate their maps in.\<close>

theorem derive_scheduling_idempotent:
  assumes "DeriveStoryScheduling perm stories reqs = (None, st)"
    and "perm_ok perm" "perm_ok perm'" "distinct (map s_ID stories)"
  shows "DeriveStoryScheduling perm' st reqs = (None, st)"
proof (cases "stories = []")
  case True
  then show ?thesis using assms(1) by (auto simp: DeriveStoryScheduling_def)
next
  case False
  have e: "extends stories st" using derive_extends [of stories perm reqs] assms(1) by simp
  have d: "distinct (map s_ID st)" using extends_ids [OF e] assms(4) by simp
  have "semantic_edges perm' reqs st = st"
  proof (rule semantic_noop [OF assms(3)])
    fix i assume "i < length st"
    then have i: "i < length stories" using extends_length [OF e] by simp
    show "owed reqs st (st ! i) \<subseteq> set (s_DependsOn (st ! i))"
      using derive_owed [OF assms(1,2) i] extends_owed [OF e i] by simp
  qed
  moreover have "applyResourceEdges st = (None, st)"
    by (rule resource_noop [OF derive_files_ordered [OF assms(1,4) False] d])
  moreover have "detectSchedulerCycle st = None"
    using detectSchedulerCycle_None derive_cases(2) [OF assms(1) False] by simp
  ultimately show ?thesis by (simp add: DeriveStoryScheduling_def)
qed

theorem derive_scheduling_idempotent_witness:
  "DeriveStoryScheduling (\<lambda>_. rev) layered_result layered_reqs = (None, layered_result)"
  by (rule derive_scheduling_idempotent [OF layered_derived perm_ok_in_order _ layered_distinct])
     (simp add: perm_ok_def)

text \<open>Pass 2 looks only at the order pass 1 established, so the edges it adds can close a cycle
  on their own: three stories that each cover a single requirement of a valid requirement DAG, with
  acyclic semantic edges, are rejected as an invalid coverage partition.\<close>

theorem derive_scheduling_overlap_cycle:
  "ValidateRequirementDAG crossed_reqs = None
   \<and> list_all (\<lambda>s. length (s_RequirementIDs s) = 1) crossed_stories
   \<and> detectSchedulerCycle (semantic_edges in_order crossed_reqs crossed_stories) = None
   \<and> fst (DeriveStoryScheduling in_order crossed_stories crossed_reqs)
       = Some (ErrCoveragePartitionCyclic [''a'', ''c'', ''b''])"
  by (intro conjI; code_simp)

end
