(* ===== verification/Handler.thy ===== *)
theory Handler
  imports Plan_Store Scheduling
begin

text \<open>
  What the handlers of \<^verbatim>\<open>src/processor/plan-manager/mutations.go\<close> share: the component they run
  in, the outcomes of their external calls (\<open>Env\<close>), the errors of their replies, the lookup and
  save steps, and their contract.  A handler takes the decoded request (\<open>None\<close> when the payload
  does not unmarshal), the environment and the component, and returns the error of the reply
  (\<open>None\<close> for success) with the new component.  The request records leave out trace
  identifiers and fields no handler reads.  Every handler runs under the mutex of its
  slug, so a concurrent use is a sequence of whole handlers.  The locale \<^verbatim>\<open>plan_handler\<close> is the
  contract all of them meet: a clean rejection changes nothing, and otherwise at most the addressed
  plan changes, along the transition table and keeping its structural invariant; its lemmas lift
  this to sequences of requests.
\<close>

section \<open>Component, environment, errors\<close>

record ScenarioOrchestrationTrigger =
  so_PlanSlug :: bytes
  so_Requirements :: "Requirement list"
  so_Scenarios :: "Scenario list"
  so_Stories :: "Story list"
  so_PlanBranch :: bytes
  so_ForceRequirementIDs :: "bytes list"

record RecoveryRequested =
  rr_Slug :: bytes
  rr_EscalationReason :: bytes
  rr_LastFailureFeedback :: bytes
  rr_AffectedRequirementIDs :: "bytes list"

datatype effect = Orchestrate ScenarioOrchestrationTrigger | RequestRecovery RecoveryRequested
  | ResetExecutions bytes bytes "bytes list" | CascadeRequest bytes bytes
  | EnsureQAWorktree bytes | DeleteQAWorktree bytes | StageQAWorktree bytes bytes
  | QARequest bytes bytes QALevel bytes

record PMConfig =
  MaxReviewIterations :: int
  AutoApproveReview :: "bool option"
  AutoRejectOnExhaustion :: bool
  natsConfigured :: bool

record Comp =
  co_config :: PMConfig
  co_plans :: Store
  co_outbox :: "effect list"

text \<open>The outcomes of one request: the time, whether the bucket can be read, the outcome of the
  n-th save, whether the orchestrator trigger and the cascade request are published and whether
  execution rows are reset (and how many).\<close>

record Env =
  en_now :: nat
  en_read :: bool
  en_save :: "nat \<Rightarrow> SaveIO"
  en_publish :: bool
  en_cascade :: bool
  en_reset :: "nat option"

datatype merr = Unmarshal | Required | PlanMissing | BadTransition Status Status
  | InvalidPlan validation_error | NoCapabilities | NotInProgress Status
  | ScopedNoScope | ScopedDerive schedule_error | ScopedMerge validation_error | ScopedNoStories "bytes list" | ScopedOutside bytes "bytes list"
  | ScopeShrinkage "bytes list" | StoryMissing bytes | BadStoryTarget StoryStatus
  | BadStoryTransition StoryStatus StoryStatus | WrongRound nat Status Status | NotNeedsChanges
  | QANotReady Status | BadVerdict | ReviewNotAwaiting Status | MergeFailure
  | DecisionMissing | BadDecisionKind | BadImpactKind | BadDecisionStatus PlanDecisionStatus
  | ContractImpactRequired | ScopeIncompleteNoReqs | ScopeIncompleteStatus Status
  | ResetNeedsEvidence bytes | ResetFailed | NotFromGitHub | NothingReset
  | SaveError store_error | StartNoRequirements | StartNoScenarios | StartSave store_error | TriggerFailed

text \<open>A rejection is clean when the handler gave up before its first write.  The others come from a
  save, from what follows a save, from a merge failure that is recorded on the plan, or from a
  reset of execution rows that stopped half way.\<close>

fun clean :: "merr \<Rightarrow> bool" where
  "clean (SaveError _) = False"
| "clean StartNoRequirements = False"
| "clean StartNoScenarios = False"
| "clean (StartSave _) = False"
| "clean TriggerFailed = False"
| "clean MergeFailure = False"
| "clean ResetFailed = False"
| "clean NothingReset = False"
| "clean _ = True"

type_synonym handler = "Env \<Rightarrow> Comp \<Rightarrow> merr option \<times> Comp"

text \<open>The common first steps: look the plan up under the slug lock, or reply that it is missing.\<close>

definition with_plan :: "Env \<Rightarrow> bytes \<Rightarrow> (Plan \<Rightarrow> Comp \<Rightarrow> merr option \<times> Comp) \<Rightarrow> Comp \<Rightarrow> merr option \<times> Comp" where
  "with_plan env slug k c =
     (case plan_get (en_read env) slug (co_plans c) of
        (None, st) \<Rightarrow> (Some PlanMissing, c\<lparr>co_plans := st\<rparr>)
      | (Some p, st) \<Rightarrow> k p (c\<lparr>co_plans := st\<rparr>))"

definition save_reply :: "SaveIO \<Rightarrow> Plan \<Rightarrow> Comp \<Rightarrow> merr option \<times> Comp" where
  "save_reply io p c =
     (case plan_save io p (co_plans c) of (e, st) \<Rightarrow> (map_option SaveError e, c\<lparr>co_plans := st\<rparr>))"

definition publish :: "effect \<Rightarrow> Comp \<Rightarrow> Comp" where
  "publish e c = c\<lparr>co_outbox := co_outbox c @ [e]\<rparr>"

text \<open>A sequence of requests with their environments.\<close>

fun run_requests :: "('r \<Rightarrow> handler) \<Rightarrow> ('r \<times> Env) list \<Rightarrow> Comp \<Rightarrow> Comp" where
  "run_requests h [] c = c"
| "run_requests h (x # xs) c = run_requests h xs (snd (h (fst x) (snd x) c))"

section \<open>Projections the structural validators look at\<close>

lemma first_error_map: "first_error f (map g xs) = first_error (\<lambda>x. f (g x)) xs"
  by (induction xs) (auto split: option.split)

lemma pairs_error_map: "pairs_error f (map g xs) = pairs_error (\<lambda>a b. f (g a) (g b)) xs"
  by (induction xs) (simp_all add: first_error_map)

lemma fill_map_map: "fill_map key val (map g xs) = fill_map (\<lambda>x. key (g x)) (\<lambda>x. val (g x)) xs"
  by (simp add: fill_map_def rev_map comp_def)

lemma validate_dag_map:
  "validate_dag ident deps self unknown cyc (map g xs)
     = validate_dag (\<lambda>x. ident (g x)) (\<lambda>x. deps (g x)) self unknown cyc xs"
  by (simp add: validate_dag_def ref_check_def dag_adj_def first_error_map fill_map_map comp_def
      cong: if_cong)

text \<open>A story reduced to its identity, dependencies and files; a requirement to its identity and
  dependencies.\<close>

definition story_core :: "Story \<Rightarrow> Story" where
  "story_core s = Story_zero\<lparr>s_ID := s_ID s, s_DependsOn := s_DependsOn s, s_FilesOwned := s_FilesOwned s\<rparr>"

definition req_core :: "Requirement \<Rightarrow> Requirement" where
  "req_core r = Requirement_zero\<lparr>r_ID := r_ID r, r_DependsOn := r_DependsOn r\<rparr>"

lemma story_core_simps [simp]:
  "s_ID (story_core s) = s_ID s" "s_DependsOn (story_core s) = s_DependsOn s"
  "s_FilesOwned (story_core s) = s_FilesOwned s"
  by (simp_all add: story_core_def)

lemma req_core_simps [simp]: "r_ID (req_core r) = r_ID r" "r_DependsOn (req_core r) = r_DependsOn r"
  by (simp_all add: req_core_def)

lemma ValidateStoryDAG_core: "ValidateStoryDAG (map story_core ss) = ValidateStoryDAG ss"
  by (simp add: ValidateStoryDAG_def validate_dag_map)

lemma ValidateStoryFileOwnership_core:
  "ValidateStoryFileOwnership (map story_core ss) = ValidateStoryFileOwnership ss"
  by (simp add: ValidateStoryFileOwnership_def ownership_closure_def normalized_files_def
      story_edges_def fill_map_map pairs_error_map comp_def Let_def cong: if_cong)

lemma ValidateRequirementDAG_core: "ValidateRequirementDAG (map req_core rs) = ValidateRequirementDAG rs"
  by (simp add: ValidateRequirementDAG_def validate_dag_map)

section \<open>How a plan may change\<close>

text \<open>The structural invariant of a stored plan.\<close>

definition plan_ok :: "Plan \<Rightarrow> bool" where
  "plan_ok p \<longleftrightarrow> ValidateRequirementDAG (p_Requirements p) = None
     \<and> ValidateStoryDAG (p_Stories p) = None \<and> ValidateStoryFileOwnership (p_Stories p) = None"

lemma plan_ok_core:
  assumes "plan_ok p" "map req_core (p_Requirements q) = map req_core (p_Requirements p)"
    and "map story_core (p_Stories q) = map story_core (p_Stories p)"
  shows "plan_ok q"
  using assms ValidateRequirementDAG_core ValidateStoryDAG_core ValidateStoryFileOwnership_core
  unfolding plan_ok_def by metis

text \<open>What any handler may do to a plan: keep the slug, move the status along the table, keep the
  structural invariant, never lower the revision count.\<close>

definition evolves :: "Plan \<Rightarrow> Plan \<Rightarrow> bool" where
  "evolves p q \<longleftrightarrow> p_Slug q = p_Slug p
     \<and> Status_CanTransitionTo\<^sup>*\<^sup>* (EffectiveStatus p) (EffectiveStatus q)
     \<and> (plan_ok p \<longrightarrow> plan_ok q) \<and> p_ReviewIteration p \<le> p_ReviewIteration q"

lemma evolves_refl [simp]: "evolves p p"
  by (simp add: evolves_def)

lemma evolves_trans: "evolves p q \<Longrightarrow> evolves q r \<Longrightarrow> evolves p r"
  by (auto simp: evolves_def)

lemma EffectiveStatus_target: "Status_CanTransitionTo s (p_Status q) \<Longrightarrow> EffectiveStatus q = p_Status q"
  by (drule plan_sm.can_target) (auto simp: EffectiveStatus_def)

lemma evolves_move:
  assumes "Status_CanTransitionTo (EffectiveStatus p) (p_Status q)" "p_Slug q = p_Slug p"
    "p_ReviewIteration p \<le> p_ReviewIteration q" "plan_ok p \<Longrightarrow> plan_ok q"
  shows "evolves p q"
  using assms EffectiveStatus_target [OF assms(1)] by (auto simp: evolves_def)

lemma evolves_stay:
  assumes "EffectiveStatus q = EffectiveStatus p" "p_Slug q = p_Slug p"
    "p_ReviewIteration p \<le> p_ReviewIteration q" "plan_ok p \<Longrightarrow> plan_ok q"
  shows "evolves p q"
  using assms by (auto simp: evolves_def)

section \<open>The contract of a handler\<close>

abbreviation vis :: "Comp \<Rightarrow> bytes \<rightharpoonup> Plan" where
  "vis c \<equiv> visible (co_plans c)"

abbreviation comp_inv :: "Comp \<Rightarrow> bool" where
  "comp_inv c \<equiv> store_inv (co_plans c)"

text \<open>At most the addressed plan changes, and only as it may.\<close>

definition touches :: "bytes \<Rightarrow> Comp \<Rightarrow> Comp \<Rightarrow> bool" where
  "touches slug c c' \<longleftrightarrow> co_config c' = co_config c \<and> comp_inv c' \<and>
     (vis c' = vis c \<or> (\<exists>p q. vis c slug = Some p \<and> vis c' = (vis c)(slug \<mapsto> q) \<and> evolves p q))"

definition fulfils :: "bytes \<Rightarrow> Comp \<Rightarrow> merr option \<times> Comp \<Rightarrow> bool" where
  "fulfils slug c r \<longleftrightarrow> touches slug c (snd r) \<and>
     (\<forall>e. fst r = Some e \<longrightarrow> clean e \<longrightarrow> vis (snd r) = vis c \<and> co_outbox (snd r) = co_outbox c)"

lemma touches_refl: "comp_inv c \<Longrightarrow> touches slug c c"
  by (simp add: touches_def)

lemma touches_trans:
  assumes "touches slug a b" "touches slug b c"
  shows "touches slug a c"
proof -
  have conf: "co_config c = co_config a" "comp_inv c" using assms by (simp_all add: touches_def)
  consider "vis b = vis a" | p q where "vis a slug = Some p" "vis b = (vis a)(slug \<mapsto> q)" "evolves p q"
    using assms(1) by (auto simp: touches_def)
  then show ?thesis
  proof cases
    case 1
    then show ?thesis using assms(2) conf by (simp add: touches_def)
  next
    case 2
    consider "vis c = vis b" | p' q' where "vis b slug = Some p'" "vis c = (vis b)(slug \<mapsto> q')" "evolves p' q'"
      using assms(2) by (auto simp: touches_def)
    then show ?thesis
    proof cases
      case 1
      then show ?thesis using 2 conf by (auto simp: touches_def)
    next
      case (2 p' q')
      then have "p' = q" "vis c = (vis a)(slug \<mapsto> q')" using \<open>vis b = (vis a)(slug \<mapsto> q)\<close> by auto
      then show ?thesis
        using \<open>vis a slug = Some p\<close> evolves_trans [OF \<open>evolves p q\<close>] \<open>evolves p' q'\<close> conf
        by (auto simp: touches_def)
    qed
  qed
qed

lemma contract_reject: "comp_inv c \<Longrightarrow> fulfils slug c (Some e, c)"
  by (simp add: fulfils_def touches_refl)

lemma fulfils_if:
  "(b \<Longrightarrow> fulfils slug c x) \<Longrightarrow> (\<not> b \<Longrightarrow> fulfils slug c y) \<Longrightarrow> fulfils slug c (if b then x else y)"
  by simp

lemma contract_same_view:
  assumes "fulfils slug c1 r" "vis c1 = vis c" "co_config c1 = co_config c" "co_outbox c1 = co_outbox c"
  shows "fulfils slug c r"
  using assms by (auto simp: fulfils_def touches_def)

lemma with_plan_cases:
  assumes "comp_inv c"
  obtains (missing) c1 where "with_plan env slug k c = (Some PlanMissing, c1)" "vis c1 = vis c" "comp_inv c1"
      "co_config c1 = co_config c" "co_outbox c1 = co_outbox c"
    | (found) p c1 where "with_plan env slug k c = k p c1" "vis c1 = vis c" "comp_inv c1"
      "co_config c1 = co_config c" "co_outbox c1 = co_outbox c" "vis c slug = Some p" "p_Slug p = slug"
proof -
  obtain x st where g: "plan_get (en_read env) slug (co_plans c) = (x, st)" by (cases "plan_get (en_read env) slug (co_plans c)")
  note v = plan_store.abort [OF assms g]
  show ?thesis
  proof (cases x)
    case None
    show ?thesis by (rule missing [of "c\<lparr>co_plans := st\<rparr>"]) (use g v None in \<open>simp_all add: with_plan_def\<close>)
  next
    case (Some p)
    have p: "vis c slug = Some p" using plan_get_SomeD g Some by blast
    show ?thesis
      by (rule found [of p "c\<lparr>co_plans := st\<rparr>"])
         (use g v Some p visible_slug [OF assms p] in \<open>simp_all add: with_plan_def\<close>)
  qed
qed

lemma contract_with_plan:
  assumes inv: "comp_inv c"
    and k: "\<And>p c1. comp_inv c1 \<Longrightarrow> vis c1 slug = Some p \<Longrightarrow> p_Slug p = slug \<Longrightarrow> fulfils slug c1 (k p c1)"
  shows "fulfils slug c (with_plan env slug k c)"
  using inv
proof (cases rule: with_plan_cases [where env = env and slug = slug and k = k])
  case (missing c1)
  then show ?thesis
    using contract_same_view [OF contract_reject [OF missing(3), of slug PlanMissing]] by simp
next
  case (found p c1)
  then show ?thesis
    using contract_same_view [OF k [OF found(3) _ found(7)]] by simp
qed

lemma touches_save:
  assumes "comp_inv c" "vis c slug = Some p" "p_Slug p = slug" "evolves p q"
    and "plan_save io q (co_plans c) = (e, st)"
  shows "touches slug c (c\<lparr>co_plans := st\<rparr>)"
proof -
  have s: "p_Slug q = slug" using assms(3,4) by (simp add: evolves_def)
  have "store_inv st" using plan_save_inv [OF assms(5,1)] .
  moreover have "visible st = vis c \<or> visible st = (vis c)(slug \<mapsto> q)"
    using plan_save_visible [OF assms(5)] s by simp
  ultimately show ?thesis using assms(2,4) by (auto simp: touches_def)
qed

lemma contract_save:
  assumes "comp_inv c" "vis c slug = Some p" "p_Slug p = slug" "evolves p q"
  shows "fulfils slug c (save_reply io q c)"
proof -
  obtain e st where s: "plan_save io q (co_plans c) = (e, st)" by (cases "plan_save io q (co_plans c)")
  then show ?thesis
    using touches_save [OF assms s] by (auto simp: fulfils_def save_reply_def)
qed

lemma save_reply_ok:
  assumes "save_reply io q c = (None, c')"
  shows "vis c' = (vis c)(p_Slug q \<mapsto> q)" "co_outbox c' = co_outbox c" "co_config c' = co_config c"
  using assms plan_save_ok by (auto simp: save_reply_def split: prod.splits)

locale plan_handler =
  fixes handle :: "'r \<Rightarrow> handler"
    and slug_of :: "'r \<Rightarrow> bytes"
  assumes meets: "comp_inv c \<Longrightarrow> fulfils (slug_of r) c (handle r env c)"
begin

lemma keeps_inv: "comp_inv c \<Longrightarrow> comp_inv (snd (handle r env c))"
  using meets by (auto simp: fulfils_def touches_def)

lemma keeps_config: "comp_inv c \<Longrightarrow> co_config (snd (handle r env c)) = co_config c"
  using meets by (auto simp: fulfils_def touches_def)

lemma rejected_unchanged:
  assumes "comp_inv c" "fst (handle r env c) = Some e" "clean e"
  shows "vis (snd (handle r env c)) = vis c" "co_outbox (snd (handle r env c)) = co_outbox c"
  using meets [OF assms(1), of r env] assms(2,3) by (auto simp: fulfils_def)

lemma other_plans: "comp_inv c \<Longrightarrow> slug \<noteq> slug_of r \<Longrightarrow> vis (snd (handle r env c)) slug = vis c slug"
  using meets [of c r env] by (auto simp: fulfils_def touches_def)

lemma plans_evolve:
  assumes "comp_inv c"
  shows "rel_option evolves (vis c slug) (vis (snd (handle r env c)) slug)"
  using meets [OF assms, of r env]
  by (auto simp: fulfils_def touches_def option.rel_refl)

text \<open>Sequences of requests, each with its own environment.\<close>

lemma requests_inv: "comp_inv c \<Longrightarrow> comp_inv (run_requests handle xs c)"
  by (induction xs arbitrary: c) (auto intro: keeps_inv)

lemma run_config: "comp_inv c \<Longrightarrow> co_config (run_requests handle xs c) = co_config c"
  by (induction xs arbitrary: c) (auto simp: keeps_config keeps_inv)

lemma run_evolves: "comp_inv c \<Longrightarrow> rel_option evolves (vis c slug) (vis (run_requests handle xs c) slug)"
proof (induction xs arbitrary: c)
  case (Cons x xs)
  let ?c1 = "snd (handle (fst x) (snd x) c)"
  have "rel_option evolves (vis c slug) (vis ?c1 slug)" by (rule plans_evolve [OF Cons.prems])
  moreover have "rel_option evolves (vis ?c1 slug) (vis (run_requests handle xs ?c1) slug)"
    by (rule Cons.IH [OF keeps_inv [OF Cons.prems]])
  ultimately show ?case
    by (auto simp: option_rel_Some1 option_rel_Some2 intro: evolves_trans elim!: option.rel_cases)
qed (simp add: option.rel_refl)

lemma run_dom:
  assumes "comp_inv c"
  shows "dom (vis (run_requests handle xs c)) = dom (vis c)"
proof (intro set_eqI)
  fix slug
  show "slug \<in> dom (vis (run_requests handle xs c)) \<longleftrightarrow> slug \<in> dom (vis c)"
    using run_evolves [OF assms, of slug xs] by (auto simp: domIff rel_option_iff split: option.splits)
qed

end

section \<open>Components of the examples\<close>

abbreviation status_of :: "Comp \<Rightarrow> bytes \<Rightarrow> Status option" where
  "status_of c slug \<equiv> map_option EffectiveStatus (vis c slug)"

definition ex_comp :: "Plan \<Rightarrow> Comp" where
  "ex_comp plan = \<lparr>co_config = \<lparr>MaxReviewIterations = 3, AutoApproveReview = None, AutoRejectOnExhaustion = True,
       natsConfigured = True\<rparr>,
     co_plans = \<lparr>st_cache = [p_Slug plan \<mapsto> plan], st_kv = Some [p_Slug plan \<mapsto> plan]\<rparr>, co_outbox = []\<rparr>"

definition ex_env :: Env where
  "ex_env = \<lparr>en_now = 7, en_read = True, en_save = (\<lambda>_. io_ok), en_publish = True, en_cascade = True, en_reset = Some 0\<rparr>"

definition ex_ids :: Ids where
  "ex_ids = \<lparr>EntityPrefix = ''semspec.local'', sha256 = id\<rparr>"

lemma ex_comp_inv: "ValidateSlug (p_Slug p) = None \<Longrightarrow> comp_inv (ex_comp p)"
  by (auto simp: store_inv_def ex_comp_def split: if_splits)

end
