(* ===== verification/Mutations.thy ===== *)
theory Mutations
  imports Handler
begin

text \<open>
  The generation and status handlers of \<^verbatim>\<open>src/processor/plan-manager/mutations.go\<close>: what the
  generators send (exploration, draft, requirements, architecture, stories, scenarios, failure),
  and claims, approvals, story status and the start of execution.  Each is shown to meet the
  contract of theory \<open>Handler\<close>.
\<close>

section \<open>Requirements, architecture\<close>

record RequirementsMutationRequest =
  rm_Slug :: bytes
  rm_Requirements :: "Requirement list"

definition handleRequirementsMutation :: "Ids \<Rightarrow> RequirementsMutationRequest option \<Rightarrow> handler" where
  "handleRequirementsMutation ids data env c =
     (case data of
        None \<Rightarrow> (Some Unmarshal, c)
      | Some req \<Rightarrow>
          if rm_Slug req = [] \<or> rm_Requirements req = [] then (Some Required, c)
          else case ValidateRequirementDAG (rm_Requirements req) of
            Some e \<Rightarrow> (Some (InvalidPlan e), c)
          | None \<Rightarrow>
              (case ValidateFileOwnershipPartition (rm_Requirements req) of
                 Some e \<Rightarrow> (Some (InvalidPlan e), c)
               | None \<Rightarrow>
                   with_plan env (rm_Slug req) (\<lambda>plan c.
                     let reqs = map (\<lambda>r. if r_PlanID r = []
                                         then r\<lparr>r_PlanID := PlanEntityID ids (rm_Slug req)\<rparr> else r)
                                  (rm_Requirements req);
                         current = EffectiveStatus plan
                     in if \<not> Status_CanTransitionTo current StatusRequirementsGenerated
                        then (Some (BadTransition current StatusRequirementsGenerated), c)
                        else case ValidateRequirementCapabilityCoverage (p_Exploration plan) reqs of
                          Some e \<Rightarrow> (Some (InvalidPlan e), c)
                        | None \<Rightarrow> save_reply (en_save env 0)
                            (plan\<lparr>p_Requirements := reqs, p_Status := StatusRequirementsGenerated\<rparr>) c) c))"

record architectureMutationRequest =
  ar_Slug :: bytes
  ar_Architecture :: "ArchitectureDocument option"

definition handleArchitectureMutation :: "architectureMutationRequest option \<Rightarrow> handler" where
  "handleArchitectureMutation data env c =
     (case data of
        None \<Rightarrow> (Some Unmarshal, c)
      | Some req \<Rightarrow>
          if ar_Slug req = [] then (Some Required, c)
          else with_plan env (ar_Slug req) (\<lambda>plan c.
            let current = EffectiveStatus plan in
            if \<not> Status_CanTransitionTo current StatusArchitectureGenerated
            then (Some (BadTransition current StatusArchitectureGenerated), c)
            else save_reply (en_save env 0)
                   (plan\<lparr>p_Architecture := (if ar_Architecture req \<noteq> None then ar_Architecture req
                                            else p_Architecture plan),
                         p_PreviousArchitectureJSON := None,
                         p_Status := StatusArchitectureGenerated\<rparr>) c) c)"

section \<open>Stories\<close>

definition stringSet :: "bytes list \<Rightarrow> bytes set" where
  "stringSet ids = set (filter (\<lambda>i. i \<noteq> []) ids)"

definition dropOrphanScenarios :: "Scenario list \<Rightarrow> Story list \<Rightarrow> Scenario list" where
  "dropOrphanScenarios scenarios stories =
     (if scenarios = [] then scenarios
      else let valid = set (filter (\<lambda>i. i \<noteq> []) (map s_ID stories)) in
        filter (\<lambda>sc. sc_StoryID sc = [] \<or> sc_StoryID sc \<in> valid) scenarios)"

definition storyTouchesRequirements :: "Story \<Rightarrow> bytes set \<Rightarrow> bool" where
  "storyTouchesRequirements story reqSet = list_ex (\<lambda>i. i \<in> reqSet) (s_RequirementIDs story)"

definition storyRequirementsOutsideScope :: "Story \<Rightarrow> bytes set \<Rightarrow> bytes list" where
  "storyRequirementsOutsideScope story reqSet =
     sort (filter (\<lambda>i. \<not> (i = [] \<or> i \<in> reqSet)) (s_RequirementIDs story))"

text \<open>The loop over the emitted stories of a scoped merge.\<close>

fun accept_emitted :: "bytes set \<Rightarrow> Story list \<Rightarrow> merr + Story list" where
  "accept_emitted reqSet [] = Inr []"
| "accept_emitted reqSet (s # ss) =
     (if \<not> storyTouchesRequirements s reqSet then accept_emitted reqSet ss
      else if storyRequirementsOutsideScope s reqSet \<noteq> []
      then Inl (ScopedOutside (s_ID s) (storyRequirementsOutsideScope s reqSet))
      else (case accept_emitted reqSet ss of Inl e \<Rightarrow> Inl e | Inr acc \<Rightarrow> Inr (s # acc)))"

text \<open>The merged stories and the removed IDs; \<open>perm\<close> is the iteration order of the maps in the
  scheduling derivation.\<close>

definition mergeStoriesForScopedArchitectureRevision ::
    "(nat \<Rightarrow> bytes list \<Rightarrow> bytes list) \<Rightarrow> Plan \<Rightarrow> ArchitectureRevisionScope \<Rightarrow> Story list \<Rightarrow>
     merr + Story list \<times> bytes list" where
  "mergeStoriesForScopedArchitectureRevision perm plan scope emitted =
     (let reqSet = stringSet (ars_RequirementIDs scope); storySet = stringSet (ars_StoryIDs scope);
          dirty = (\<lambda>story. s_ID story \<in> storySet \<or> storyTouchesRequirements story reqSet)
      in if reqSet = {} then Inl ScopedNoScope
         else case accept_emitted reqSet emitted of
                Inl e \<Rightarrow> Inl e
              | Inr accepted \<Rightarrow>
                  if accepted = [] then Inl (ScopedNoStories (ars_RequirementIDs scope))
                  else (case DeriveStoryScheduling perm
                               (filter (\<lambda>story. \<not> dirty story) (p_Stories plan) @ accepted)
                               (p_Requirements plan) of
                          (Some e, _) \<Rightarrow> Inl (ScopedDerive e)
                        | (None, merged) \<Rightarrow>
                            (case ValidateStories merged of
                               Some e \<Rightarrow> Inl (ScopedMerge e)
                             | None \<Rightarrow> Inr (merged, sort (map s_ID (filter dirty (p_Stories plan)))))))"

definition removeScenariosForScopedArchitectureRevision ::
    "Scenario list \<Rightarrow> ArchitectureRevisionScope option \<Rightarrow> bytes list \<Rightarrow> Scenario list" where
  "removeScenariosForScopedArchitectureRevision scenarios scope storyIDs =
     (case scope of
        None \<Rightarrow> scenarios
      | Some sc \<Rightarrow>
          let reqSet = stringSet (ars_RequirementIDs sc);
              storySet = stringSet storyIDs \<union> stringSet (ars_StoryIDs sc)
          in filter (\<lambda>x. sc_StoryID x \<notin> storySet \<and> sc_RequirementID x \<notin> reqSet) scenarios)"

text \<open>The loop appends each uncovered path once; the result is sorted only when something was
  added.\<close>

definition ensureScopeCreateCoversStories :: "Scope \<Rightarrow> Story list \<Rightarrow> Scope" where
  "ensureScopeCreateCoversStories scope stories =
     (let paths = filter (\<lambda>p. p \<noteq> []) (concat (map s_FilesOwned stories));
          create' = foldl (\<lambda>cr p. if p \<in> set (scope_Include scope) \<or> p \<in> set cr then cr else cr @ [p])
                      (scope_Create scope) paths
      in if create' = scope_Create scope then scope else scope\<lparr>scope_Create := sort create'\<rparr>)"

record storiesMutationRequest =
  sm_Slug :: bytes
  sm_Stories :: "Story list"

definition scoped_stories :: "(nat \<Rightarrow> bytes list \<Rightarrow> bytes list) \<Rightarrow> Plan \<Rightarrow> Story list \<Rightarrow> merr + Plan" where
  "scoped_stories perm plan emitted =
     (case p_PendingArchitectureRevision plan of
        Some scope \<Rightarrow>
          if ars_RequirementIDs scope \<noteq> [] then
            (case mergeStoriesForScopedArchitectureRevision perm plan scope emitted of
               Inl e \<Rightarrow> Inl e
             | Inr (merged, removed) \<Rightarrow>
                 Inr (plan\<lparr>p_Scenarios := removeScenariosForScopedArchitectureRevision (p_Scenarios plan)
                              (p_PendingArchitectureRevision plan) removed,
                           p_Stories := merged\<rparr>))
          else Inr (plan\<lparr>p_Stories := emitted\<rparr>)
      | None \<Rightarrow> Inr (plan\<lparr>p_Stories := emitted,
                        p_Scenarios := dropOrphanScenarios (p_Scenarios plan) emitted\<rparr>))"

definition handleStoriesMutation :: "(nat \<Rightarrow> bytes list \<Rightarrow> bytes list) \<Rightarrow> storiesMutationRequest option \<Rightarrow> handler" where
  "handleStoriesMutation perm data env c =
     (case data of
        None \<Rightarrow> (Some Unmarshal, c)
      | Some req \<Rightarrow>
          if sm_Slug req = [] then (Some Required, c)
          else case ValidateStories (sm_Stories req) of
            Some e \<Rightarrow> (Some (InvalidPlan e), c)
          | None \<Rightarrow>
              with_plan env (sm_Slug req) (\<lambda>plan c.
                let current = EffectiveStatus plan in
                if \<not> Status_CanTransitionTo current StatusStoriesGenerated
                then (Some (BadTransition current StatusStoriesGenerated), c)
                else case scoped_stories perm plan (sm_Stories req) of
                  Inl e \<Rightarrow> (Some e, c)
                | Inr plan' \<Rightarrow> save_reply (en_save env 0)
                    (plan'\<lparr>p_Status := StatusStoriesGenerated,
                           p_Scope := ensureScopeCreateCoversStories (p_Scope plan') (p_Stories plan')\<rparr>) c) c)"

section \<open>Scenarios\<close>

record ScenariosMutationRequest =
  scm_Slug :: bytes
  scm_RequirementID :: bytes
  scm_StoryID :: bytes
  scm_Scenarios :: "Scenario list"

definition scenarioMatchesMutationScope :: "Scenario \<Rightarrow> ScenariosMutationRequest \<Rightarrow> bool" where
  "scenarioMatchesMutationScope existing req =
     (if sc_RequirementID existing \<noteq> scm_RequirementID req then False
      else if scm_StoryID req = [] then True
      else sc_StoryID existing = scm_StoryID req)"

definition all_covered :: "Plan \<Rightarrow> bool" where
  "all_covered plan = list_all (\<lambda>r. list_ex (\<lambda>s. sc_RequirementID s = r_ID r) (p_Scenarios plan))
     (p_Requirements plan)"

definition merge_scenarios :: "ScenariosMutationRequest \<Rightarrow> Plan \<Rightarrow> Plan" where
  "merge_scenarios req plan =
     (if scm_Scenarios req \<noteq> []
      then plan\<lparr>p_Scenarios := filter (\<lambda>s. \<not> scenarioMatchesMutationScope s req) (p_Scenarios plan) @ scm_Scenarios req\<rparr>
      else plan)"

definition store_scenarios :: "Env \<Rightarrow> Plan \<Rightarrow> Comp \<Rightarrow> merr option \<times> Comp" where
  "store_scenarios env plan c =
     (if p_Requirements plan = [] then save_reply (en_save env 0) plan c
      else if all_covered plan then
        (let current = EffectiveStatus plan in
         if \<not> Status_CanTransitionTo current StatusScenariosGenerated
         then (Some (BadTransition current StatusScenariosGenerated), c)
         else save_reply (en_save env 0)
                (plan\<lparr>p_PendingArchitectureRevision := None, p_Status := StatusScenariosGenerated\<rparr>) c)
      else save_reply (en_save env 0) plan c)"

definition handleScenariosMutation :: "ScenariosMutationRequest option \<Rightarrow> handler" where
  "handleScenariosMutation data env c =
     (case data of
        None \<Rightarrow> (Some Unmarshal, c)
      | Some req \<Rightarrow>
          if scm_Slug req = [] \<or> scm_RequirementID req = [] then (Some Required, c)
          else with_plan env (scm_Slug req) (\<lambda>plan. store_scenarios env (merge_scenarios req plan)) c)"

section \<open>Failure, exploration, draft\<close>

record GenerationFailedRequest =
  gf_Slug :: bytes
  gf_Error :: bytes

definition handleGenerationFailedMutation :: "GenerationFailedRequest option \<Rightarrow> handler" where
  "handleGenerationFailedMutation data env c =
     (case data of
        None \<Rightarrow> (Some Unmarshal, c)
      | Some req \<Rightarrow>
          with_plan env (gf_Slug req) (\<lambda>plan c.
            let current = EffectiveStatus plan in
            if \<not> Status_CanTransitionTo current StatusRejected
            then (Some (BadTransition current StatusRejected), c)
            else save_reply (en_save env 0)
                   (plan\<lparr>p_LastError := gf_Error req, p_LastErrorAt := Some (en_now env),
                         p_Status := StatusRejected\<rparr>) c) c)"

record ExploredMutationRequest =
  em_Slug :: bytes
  em_Exploration :: Exploration

definition handleExploredMutation :: "ExploredMutationRequest option \<Rightarrow> handler" where
  "handleExploredMutation data env c =
     (case data of
        None \<Rightarrow> (Some Unmarshal, c)
      | Some req \<Rightarrow>
          if em_Slug req = [] then (Some Required, c)
          else if e_Capabilities (em_Exploration req) = [] then (Some NoCapabilities, c)
          else case ValidateCapabilitySet (e_Capabilities (em_Exploration req)) of
            Some e \<Rightarrow> (Some (InvalidPlan e), c)
          | None \<Rightarrow>
              with_plan env (em_Slug req) (\<lambda>plan c.
                let current = EffectiveStatus plan in
                if \<not> Status_CanTransitionTo current StatusExplored
                then (Some (BadTransition current StatusExplored), c)
                else save_reply (en_save env 0)
                       (plan\<lparr>p_Exploration := Some (em_Exploration req), p_Status := StatusExplored\<rparr>) c) c)"

definition contractScopeSnapshotEmpty :: "ContractScopeSnapshot \<Rightarrow> bool" where
  "contractScopeSnapshotEmpty s \<longleftrightarrow>
     cs_Include s = [] \<and> cs_Exclude s = [] \<and> cs_DoNotTouch s = [] \<and> cs_Create s = []"

text \<open>The obligations of a contract scope, in order, each origin and path once.\<close>

definition contractScopeDropObligations :: "ContractScopeSnapshot \<Rightarrow> (bytes \<times> bytes) list" where
  "contractScopeDropObligations s =
     foldl (\<lambda>out (origin, raw). let p = NormalizeFilePath raw in
              if p = [] \<or> (origin, p) \<in> set out then out else out @ [(origin, p)]) []
       (map (Pair ''create'') (cs_Create s) @ map (Pair ''include'') (cs_Include s)
        @ map (Pair ''do_not_touch'') (cs_DoNotTouch s))"

definition scopePathSet :: "bytes list \<Rightarrow> bytes set" where
  "scopePathSet paths = set (NormalizeFilePaths paths)"

definition scopeActiveSet :: "bytes list \<Rightarrow> bytes list \<Rightarrow> bytes set" where
  "scopeActiveSet create include = set (NormalizeFilePaths (create @ include))"

definition scope_id_prefixes :: "bytes list" where
  "scope_id_prefixes = [''scope:'', ''scope.create:'', ''scope.include:'', ''scope.do_not_touch:'',
     ''contract.scope:'', ''contract.scope.create:'', ''contract.scope.include:'',
     ''contract.scope.do_not_touch:'']"

definition addChangedScopeID :: "bytes set \<Rightarrow> bytes \<Rightarrow> bytes set" where
  "addChangedScopeID out raw =
     (let i = TrimSpace raw in
      if i = [] then out
      else insert i (out \<union> set (filter (\<lambda>p. p \<noteq> []) (NormalizeFilePath i #
             map (\<lambda>pre. NormalizeFilePath (TrimPrefix i pre)) (filter (HasPrefix i) scope_id_prefixes)))))"

definition contractChangedScopeIDs :: "ContractPacket \<Rightarrow> bytes set" where
  "contractChangedScopeIDs contract =
     foldl (\<lambda>out am. if ci_Kind (am_Impact am) \<noteq> ContractImpactChange then out
                      else foldl addChangedScopeID out (ci_AffectedIDs (am_Impact am)))
       {} (cp_Amendments contract)"

definition contractScopeDropAmended :: "bytes \<Rightarrow> bytes \<Rightarrow> bytes set \<Rightarrow> bool" where
  "contractScopeDropAmended origin p amended =
     list_ex (\<lambda>x. x \<in> amended)
       [p, ''scope:'' @ p, ''scope.'' @ origin @ '':'' @ p, ''contract.scope:'' @ p,
        ''contract.scope.'' @ origin @ '':'' @ p]"

definition unauthorizedContractScopeDrops :: "ContractPacket option \<Rightarrow> Scope \<Rightarrow> bytes list" where
  "unauthorizedContractScopeDrops contract next =
     (case contract of
        None \<Rightarrow> []
      | Some ct \<Rightarrow>
          let amended = contractChangedScopeIDs ct;
              active = scopeActiveSet (scope_Create next) (scope_Include next);
              protected = scopePathSet (scope_DoNotTouch next)
          in sort (map (\<lambda>(origin, p). ''contract.scope.'' @ origin @ '':'' @ p)
               (filter (\<lambda>(origin, p). \<not> contractScopeDropAmended origin p amended \<and>
                          (if origin = ''do_not_touch'' then p \<notin> protected else p \<notin> active))
                  (contractScopeDropObligations (cp_Scope ct)))))"

record DraftedMutationRequest =
  dm_Slug :: bytes
  dm_Title :: bytes
  dm_Goal :: bytes
  dm_Context :: bytes
  dm_Constraints :: "bytes list"
  dm_Scope :: "Scope option"
  dm_SkipArchitecture :: bool

text \<open>The plan with the drafted fields and its contract completed.\<close>

definition draft_plan :: "Ids \<Rightarrow> nat \<Rightarrow> DraftedMutationRequest \<Rightarrow> Plan \<Rightarrow> Plan" where
  "draft_plan ids now req plan =
     (let p1 = plan\<lparr>p_Title := (if dm_Title req \<noteq> [] then dm_Title req else p_Title plan),
                     p_Goal := dm_Goal req, p_Context := dm_Context req,
                     p_Constraints := dm_Constraints req\<rparr>;
          p2 = (if p_Contract p1 = None
                then EnsureContractPacket ids now
                       (if dm_Context req = [] then dm_Goal req else dm_Context req) now p1
                else p1)
      in (case p_Contract p2 of
            Some ct \<Rightarrow> if cp_Constraints ct = [] \<and> dm_Constraints req \<noteq> []
                       then p2\<lparr>p_Contract := Some (ct\<lparr>cp_Constraints := dm_Constraints req\<rparr>)\<rparr> else p2
          | None \<Rightarrow> p2))"

text \<open>The new scope: the first one becomes the contract's, a later one may not drop its
  obligations.\<close>

definition draft_scope :: "DraftedMutationRequest \<Rightarrow> Plan \<Rightarrow> merr + Plan" where
  "draft_scope req plan =
     (case dm_Scope req of
        None \<Rightarrow> Inr plan
      | Some scope \<Rightarrow>
          (case p_Contract plan of
             Some ct \<Rightarrow>
               if contractScopeSnapshotEmpty (cp_Scope ct)
               then Inr (plan\<lparr>p_Contract := Some (ct\<lparr>cp_Scope := NewContractScopeSnapshot scope\<rparr>),
                              p_Scope := scope\<rparr>)
               else let missing = unauthorizedContractScopeDrops (p_Contract plan) scope in
                 if missing \<noteq> [] then Inl (ScopeShrinkage missing) else Inr (plan\<lparr>p_Scope := scope\<rparr>)
           | None \<Rightarrow> Inr (plan\<lparr>p_Scope := scope\<rparr>)))"

definition handleDraftedMutation :: "Ids \<Rightarrow> DraftedMutationRequest option \<Rightarrow> handler" where
  "handleDraftedMutation ids data env c =
     (case data of
        None \<Rightarrow> (Some Unmarshal, c)
      | Some req \<Rightarrow>
          if dm_Slug req = [] \<or> dm_Goal req = [] then (Some Required, c)
          else with_plan env (dm_Slug req) (\<lambda>plan c.
            let current = EffectiveStatus plan in
            if \<not> Status_CanTransitionTo current StatusDrafted
            then (Some (BadTransition current StatusDrafted), c)
            else case draft_scope req (draft_plan ids (en_now env) req plan) of
              Inl e \<Rightarrow> (Some e, c)
            | Inr plan' \<Rightarrow> save_reply (en_save env 0)
                (plan'\<lparr>p_SkipArchitecture := dm_SkipArchitecture req, p_Status := StatusDrafted\<rparr>) c) c)"

section \<open>Approval, claims, story status\<close>

record ApprovedMutationRequest =
  ap_Slug :: bytes

definition handleApprovedMutation :: "ApprovedMutationRequest option \<Rightarrow> handler" where
  "handleApprovedMutation data env c =
     (case data of
        None \<Rightarrow> (Some Unmarshal, c)
      | Some req \<Rightarrow>
          if ap_Slug req = [] then (Some Required, c)
          else with_plan env (ap_Slug req) (\<lambda>plan c.
            let current = EffectiveStatus plan in
            if \<not> Status_CanTransitionTo current StatusApproved
            then (Some (BadTransition current StatusApproved), c)
            else save_reply (en_save env 0)
                   (plan\<lparr>p_Approved := True, p_ApprovedAt := Some (en_now env),
                         p_Status := StatusApproved\<rparr>) c) c)"

record ClaimMutationRequest =
  cl_Slug :: bytes
  cl_Status :: Status

definition handleClaimMutation :: "ClaimMutationRequest option \<Rightarrow> handler" where
  "handleClaimMutation data env c =
     (case data of
        None \<Rightarrow> (Some Unmarshal, c)
      | Some req \<Rightarrow>
          if cl_Slug req = [] \<or> cl_Status req = StatusEmpty then (Some Required, c)
          else if \<not> Status_IsInProgress (cl_Status req) then (Some (NotInProgress (cl_Status req)), c)
          else with_plan env (cl_Slug req) (\<lambda>plan c.
            let current = EffectiveStatus plan in
            if \<not> Status_CanTransitionTo current (cl_Status req)
            then (Some (BadTransition current (cl_Status req)), c)
            else save_reply (en_save env 0) (plan\<lparr>p_Status := cl_Status req\<rparr>) c) c)"

definition uniqueSortedStrings :: "bytes list \<Rightarrow> bytes list" where
  "uniqueSortedStrings values = sort (remdups (filter (\<lambda>v. v \<noteq> []) values))"

definition scenarioOrchestrationTriggerForPlan :: "Plan \<Rightarrow> bytes list \<Rightarrow> ScenarioOrchestrationTrigger" where
  "scenarioOrchestrationTriggerForPlan plan force =
     \<lparr>so_PlanSlug = p_Slug plan, so_Requirements = p_Requirements plan, so_Scenarios = p_Scenarios plan,
      so_Stories = p_Stories plan,
      so_PlanBranch = (case p_GitHub plan of Some g \<Rightarrow> gh_PlanBranch g | None \<Rightarrow> []),
      so_ForceRequirementIDs = uniqueSortedStrings force\<rparr>"

text \<open>Publishes the trigger; reports whether it was published.\<close>

definition publishScenarioOrchestrator :: "Env \<Rightarrow> Plan \<Rightarrow> bytes list \<Rightarrow> Comp \<Rightarrow> bool \<times> Comp" where
  "publishScenarioOrchestrator env plan force c =
     (if en_publish env
      then (True, publish (Orchestrate (scenarioOrchestrationTriggerForPlan plan force)) c)
      else (False, c))"

text \<open>The end of the story-status handler: save, then wake the orchestrator when the story became
  terminal while the plan is implementing; a failed publication is only logged.\<close>

definition save_and_wake :: "Env \<Rightarrow> StoryStatus \<Rightarrow> Plan \<Rightarrow> Comp \<Rightarrow> merr option \<times> Comp" where
  "save_and_wake env target plan c =
     (case save_reply (en_save env 0) plan c of
        (Some e, c1) \<Rightarrow> (Some e, c1)
      | (None, c1) \<Rightarrow>
          if (target = StoryStatusComplete \<or> target = StoryStatusFailed)
             \<and> EffectiveStatus plan = StatusImplementing
          then (None, snd (publishScenarioOrchestrator env plan [] c1))
          else (None, c1))"

record StoryStatusMutationRequest =
  ss_Slug :: bytes
  ss_StoryID :: bytes
  ss_Target :: StoryStatus

definition handleStoryStatusMutation :: "StoryStatusMutationRequest option \<Rightarrow> handler" where
  "handleStoryStatusMutation data env c =
     (case data of
        None \<Rightarrow> (Some Unmarshal, c)
      | Some req \<Rightarrow>
          if ss_Slug req = [] \<or> ss_StoryID req = [] \<or> ss_Target req = StoryStatusOther []
          then (Some Required, c)
          else if \<not> StoryStatus_IsValid (ss_Target req) then (Some (BadStoryTarget (ss_Target req)), c)
          else with_plan env (ss_Slug req) (\<lambda>plan c.
            case FindStory plan (ss_StoryID req) of
              None \<Rightarrow> (Some (StoryMissing (ss_StoryID req)), c)
            | Some (story, i) \<Rightarrow>
                (let current = (if s_Status story = StoryStatusOther [] then StoryStatusReady
                                else s_Status story) in
                 if \<not> StoryStatus_CanTransitionTo current (ss_Target req)
                 then (Some (BadStoryTransition current (ss_Target req)), c)
                 else save_and_wake env (ss_Target req) (plan\<lparr>p_Stories := (p_Stories plan)[i :=
                        story\<lparr>s_Status := ss_Target req, s_UpdatedAt := en_now env\<rparr>]\<rparr>) c)) c)"

section \<open>Start of execution\<close>

text \<open>\<open>n\<close> counts the saves made before.  A failed trigger is followed by an attempt to set the
  status back, whose outcome is ignored.\<close>

definition set_status :: "SaveIO \<Rightarrow> Plan \<Rightarrow> Status \<Rightarrow> Comp \<Rightarrow> store_error option \<times> Plan \<times> Comp" where
  "set_status io plan target c =
     (case setPlanStatusCached io plan target (co_plans c) of (e, plan', st) \<Rightarrow> (e, plan', c\<lparr>co_plans := st\<rparr>))"

definition startExecutionFromReady :: "Env \<Rightarrow> nat \<Rightarrow> Plan \<Rightarrow> bytes list \<Rightarrow> Comp \<Rightarrow> merr option \<times> Comp" where
  "startExecutionFromReady env n plan force c =
     (if p_Requirements plan = [] then (Some StartNoRequirements, c)
      else if p_Scenarios plan = [] then (Some StartNoScenarios, c)
      else case set_status (en_save env n) plan StatusImplementing c of
        (Some e, _, c1) \<Rightarrow> (Some (StartSave e), c1)
      | (None, plan1, c1) \<Rightarrow>
          (case publishScenarioOrchestrator env plan1 force c1 of
             (True, c2) \<Rightarrow> (None, c2)
           | (False, c2) \<Rightarrow>
               (case set_status (en_save env (n + 1)) plan1 StatusReadyForExecution c2 of
                  (_, _, c3) \<Rightarrow> (Some TriggerFailed, c3))))"

definition shouldAutoStartExecution :: "Comp \<Rightarrow> bool" where
  "shouldAutoStartExecution c = natsConfigured (co_config c)"

definition transitionToReadyForExecution :: "Env \<Rightarrow> nat \<Rightarrow> Plan \<Rightarrow> bytes list \<Rightarrow> Comp \<Rightarrow> merr option \<times> Comp" where
  "transitionToReadyForExecution env n plan force c =
     (case set_status (en_save env n) plan StatusReadyForExecution c of
        (Some e, _, c1) \<Rightarrow> (Some (SaveError e), c1)
      | (None, plan1, c1) \<Rightarrow>
          if shouldAutoStartExecution c then startExecutionFromReady env (n + 1) plan1 force c1
          else (None, c1))"

section \<open>The handlers meet the contract\<close>

lemma find_at_update:
  "find_at P n xs = Some (x, k) \<Longrightarrow> P y \<Longrightarrow> find_at P n (xs[k - n := y]) = Some (y, k)"
proof (induction xs arbitrary: n)
  case (Cons a xs)
  show ?case
  proof (cases "P a")
    case False
    then have at: "find_at P (Suc n) xs = Some (x, k)" using Cons.prems(1) by simp
    from find_at_SomeD [OF this] obtain m where "k = n + Suc m"
      by (metis add_Suc_shift le_iff_add)
    then show ?thesis using Cons.IH [OF at Cons.prems(2)] False by simp
  qed (use Cons.prems in simp)
qed simp

lemmas handler_simps = Let_def

text \<open>Closing steps of the handler proofs: a move or a stay that keeps requirements and stories.\<close>

lemma evolves_update:
  assumes "Status_CanTransitionTo (EffectiveStatus p) (p_Status q)" "p_Slug q = p_Slug p"
    "p_ReviewIteration q = p_ReviewIteration p" "p_Requirements q = p_Requirements p" "p_Stories q = p_Stories p"
  shows "evolves p q"
  using assms by (intro evolves_move) (auto simp: plan_ok_def)

lemma evolves_keep:
  assumes "EffectiveStatus q = EffectiveStatus p" "p_Slug q = p_Slug p"
    "p_ReviewIteration q = p_ReviewIteration p"
    "map req_core (p_Requirements q) = map req_core (p_Requirements p)"
    "map story_core (p_Stories q) = map story_core (p_Stories p)"
  shows "evolves p q"
  using assms by (intro evolves_stay) (auto intro: plan_ok_core)

lemma approved_meets:
  "comp_inv c \<Longrightarrow> fulfils (case data of Some r \<Rightarrow> ap_Slug r | None \<Rightarrow> []) c (handleApprovedMutation data env c)"
  by (auto simp: handleApprovedMutation_def Let_def split: option.split
      intro!: contract_reject contract_with_plan contract_save evolves_update)

lemma claim_meets:
  "comp_inv c \<Longrightarrow> fulfils (case data of Some r \<Rightarrow> cl_Slug r | None \<Rightarrow> []) c (handleClaimMutation data env c)"
  by (auto simp: handleClaimMutation_def Let_def split: option.split
      intro!: contract_reject contract_with_plan contract_save evolves_update)

lemma generation_failed_meets:
  "comp_inv c \<Longrightarrow> fulfils (case data of Some r \<Rightarrow> gf_Slug r | None \<Rightarrow> []) c (handleGenerationFailedMutation data env c)"
  by (auto simp: handleGenerationFailedMutation_def Let_def split: option.split
      intro!: contract_reject contract_with_plan contract_save evolves_update)

lemma explored_meets:
  "comp_inv c \<Longrightarrow> fulfils (case data of Some r \<Rightarrow> em_Slug r | None \<Rightarrow> []) c (handleExploredMutation data env c)"
  by (auto simp: handleExploredMutation_def Let_def split: option.split
      intro!: contract_reject contract_with_plan contract_save evolves_update)

lemma architecture_meets:
  "comp_inv c \<Longrightarrow> fulfils (case data of Some r \<Rightarrow> ar_Slug r | None \<Rightarrow> []) c (handleArchitectureMutation data env c)"
  by (auto simp: handleArchitectureMutation_def Let_def split: option.split
      intro!: contract_reject contract_with_plan contract_save evolves_update)

lemma requirements_with_plan_ids:
  "ValidateRequirementDAG (map (\<lambda>r. if r_PlanID r = [] then r\<lparr>r_PlanID := i\<rparr> else r) rs) = ValidateRequirementDAG rs"
proof -
  have "map req_core (map (\<lambda>r. if r_PlanID r = [] then r\<lparr>r_PlanID := i\<rparr> else r) rs) = map req_core rs"
    by (simp add: req_core_def)
  then show ?thesis using ValidateRequirementDAG_core by metis
qed

lemma requirements_meets:
  "comp_inv c \<Longrightarrow> fulfils (case data of Some r \<Rightarrow> rm_Slug r | None \<Rightarrow> []) c (handleRequirementsMutation ids data env c)"
  by (auto simp: handleRequirementsMutation_def Let_def plan_ok_def requirements_with_plan_ids split: option.split
      intro!: contract_reject contract_with_plan contract_save evolves_move)

lemma ValidateStories_ok: "ValidateStories ss = None \<Longrightarrow> ValidateStoryDAG ss = None \<and> ValidateStoryFileOwnership ss = None"
  by (simp add: ValidateStories_def)

lemma merge_ok:
  assumes "mergeStoriesForScopedArchitectureRevision perm plan scope emitted = Inr (merged, removed)"
  shows "ValidateStories merged = None"
  using assms
  by (auto simp: mergeStoriesForScopedArchitectureRevision_def Let_def split: if_splits sum.splits option.splits prod.splits)

lemma scoped_stories_frame:
  assumes "scoped_stories perm plan emitted = Inr plan'" "ValidateStories emitted = None"
  shows "p_Slug plan' = p_Slug plan" "p_ReviewIteration plan' = p_ReviewIteration plan"
    "p_Requirements plan' = p_Requirements plan" "ValidateStories (p_Stories plan') = None"
  using assms merge_ok
  by (auto simp: scoped_stories_def split: if_splits sum.splits option.splits prod.splits)

lemma stories_evolve:
  assumes "scoped_stories perm p emitted = Inr q" "ValidateStories emitted = None"
    and "Status_CanTransitionTo (EffectiveStatus p) StatusStoriesGenerated"
  shows "evolves p (q\<lparr>p_Status := StatusStoriesGenerated, p_Scope := scope\<rparr>)"
  using assms(3) scoped_stories_frame [OF assms(1,2)] ValidateStories_ok [of "p_Stories q"]
  by (intro evolves_move) (auto simp: plan_ok_def)

lemma stories_meets:
  "comp_inv c \<Longrightarrow> fulfils (case data of Some r \<Rightarrow> sm_Slug r | None \<Rightarrow> []) c (handleStoriesMutation perm data env c)"
  by (auto simp: handleStoriesMutation_def Let_def split: option.split sum.split
      intro!: contract_reject contract_with_plan)
     (rule contract_save, assumption+, rule stories_evolve, assumption+)

lemma EffectiveStatus_scenarios [simp]: "EffectiveStatus (p\<lparr>p_Scenarios := x\<rparr>) = EffectiveStatus p"
  by (simp add: EffectiveStatus_def)

lemma merge_scenarios_frame [simp]:
  "p_Slug (merge_scenarios r p) = p_Slug p" "EffectiveStatus (merge_scenarios r p) = EffectiveStatus p"
  "p_Requirements (merge_scenarios r p) = p_Requirements p" "evolves p (merge_scenarios r p)"
  by (auto simp: merge_scenarios_def EffectiveStatus_def intro!: evolves_keep)

lemma store_scenarios_fulfils:
  assumes c: "comp_inv c" "vis c slug = Some p" "p_Slug p = slug" "evolves p q"
  shows "fulfils slug c (store_scenarios env q c)"
proof -
  have "evolves p (q\<lparr>p_PendingArchitectureRevision := None, p_Status := StatusScenariosGenerated\<rparr>)"
    if "Status_CanTransitionTo (EffectiveStatus q) StatusScenariosGenerated"
    using evolves_trans [OF c(4) evolves_update] that by simp
  then show ?thesis
    using c unfolding store_scenarios_def Let_def
    by (intro fulfils_if contract_reject contract_save) auto
qed

lemma scenarios_meets:
  "comp_inv c \<Longrightarrow> fulfils (case data of Some r \<Rightarrow> scm_Slug r | None \<Rightarrow> []) c (handleScenariosMutation data env c)"
  by (auto simp: handleScenariosMutation_def split: option.split
      intro!: contract_reject contract_with_plan store_scenarios_fulfils)

lemma draft_plan_frame:
  "p_Slug (draft_plan ids now req p) = p_Slug p" "p_ReviewIteration (draft_plan ids now req p) = p_ReviewIteration p"
  "p_Requirements (draft_plan ids now req p) = p_Requirements p" "p_Stories (draft_plan ids now req p) = p_Stories p"
  by (auto simp: draft_plan_def EnsureContractPacket_def Let_def split: option.split)

lemma draft_scope_frame:
  assumes "draft_scope req p = Inr q"
  shows "p_Slug q = p_Slug p" "p_ReviewIteration q = p_ReviewIteration p"
    "p_Requirements q = p_Requirements p" "p_Stories q = p_Stories p"
  using assms by (auto simp: draft_scope_def Let_def split: option.splits if_splits)

lemma drafted_meets:
  "comp_inv c \<Longrightarrow> fulfils (case data of Some r \<Rightarrow> dm_Slug r | None \<Rightarrow> []) c (handleDraftedMutation ids data env c)"
  by (auto simp: handleDraftedMutation_def Let_def draft_plan_frame draft_scope_frame split: option.split sum.split
      intro!: contract_reject contract_with_plan contract_save evolves_update)

text \<open>Publishing changes the outbox only.\<close>

lemma publish_frame [simp]: "co_plans (publish e c) = co_plans c" "co_config (publish e c) = co_config c"
  by (simp_all add: publish_def)

lemma publishScenarioOrchestrator_frame [simp]:
  "co_plans (snd (publishScenarioOrchestrator env p f c)) = co_plans c"
  "co_config (snd (publishScenarioOrchestrator env p f c)) = co_config c"
  by (simp_all add: publishScenarioOrchestrator_def)

lemma touches_plans_eq:
  "touches slug c c1 \<Longrightarrow> co_plans c2 = co_plans c1 \<Longrightarrow> co_config c2 = co_config c1 \<Longrightarrow> touches slug c c2"
  by (simp add: touches_def)

lemma fulfils_ok: "touches slug c c' \<Longrightarrow> fulfils slug c (None, c')"
  by (simp add: fulfils_def)

lemma fulfils_partial: "touches slug c c' \<Longrightarrow> \<not> clean e \<Longrightarrow> fulfils slug c (Some e, c')"
  by (simp add: fulfils_def)

lemma story_update_evolves:
  assumes "FindStory p i = Some (story, n)" "story_core story' = story_core story"
  shows "evolves p (p\<lparr>p_Stories := (p_Stories p)[n := story']\<rparr>)"
proof (rule evolves_keep)
  have n: "n < length (p_Stories p)" "p_Stories p ! n = story"
    using find_at_0_SomeD [OF assms(1) [unfolded FindStory_def]] by simp_all
  have "story_core story' = map story_core (p_Stories p) ! n" using n assms(2) by simp
  then have "(map story_core (p_Stories p))[n := story_core story'] = map story_core (p_Stories p)"
    by (simp only: list_update_id)
  then show "map story_core (p_Stories (p\<lparr>p_Stories := (p_Stories p)[n := story']\<rparr>)) = map story_core (p_Stories p)"
    by (simp add: map_update)
qed (simp_all add: EffectiveStatus_def)

lemma save_and_wake_fulfils:
  assumes "comp_inv c" "vis c slug = Some p" "p_Slug p = slug" "evolves p q"
  shows "fulfils slug c (save_and_wake env target q c)"
proof -
  obtain e c2 where s: "save_reply (en_save env 0) q c = (e, c2)" by (cases "save_reply (en_save env 0) q c")
  have f: "fulfils slug c (e, c2)" using contract_save [OF assms, of "en_save env 0"] s by simp
  show ?thesis
    using s f by (cases e) (auto simp: save_and_wake_def fulfils_def intro: touches_plans_eq)
qed

lemma story_status_meets:
  assumes "comp_inv c"
  shows "fulfils (case data of Some r \<Rightarrow> ss_Slug r | None \<Rightarrow> []) c (handleStoryStatusMutation data env c)"
proof -
  have up: "evolves p (p\<lparr>p_Stories := (p_Stories p)[n := st\<lparr>s_Status := x, s_UpdatedAt := y\<rparr>]\<rparr>)"
    if "FindStory p i = Some (st, n)" for p i st n x y
    using that by (rule story_update_evolves) (simp add: story_core_def)
  show ?thesis
    using assms unfolding handleStoryStatusMutation_def Let_def
    by (auto split: option.split intro!: contract_reject contract_with_plan)
       (rule save_and_wake_fulfils, assumption+, rule up, assumption)+
qed

text \<open>Setting the status of the plan that is stored, as the last thing written.\<close>

lemma set_status_touches:
  assumes "comp_inv c" "vis c slug = Some p" "p_Slug p = slug" "evolves p q"
    and "set_status io q target c = (e, q', c')"
  shows "touches slug c c'" and "evolves q q'" and "e = None \<Longrightarrow> vis c' slug = Some q'"
    and "co_outbox c' = co_outbox c" and "e = None \<Longrightarrow> p_Status q' = target \<and> q' = q\<lparr>p_Status := target\<rparr>"
proof -
  have s: "p_Slug q = slug" using assms(3,4) by (simp add: evolves_def)
  let ?q = "q\<lparr>p_Status := target\<rparr>"
  consider (bad) "\<not> Status_CanTransitionTo (EffectiveStatus q) target" "e \<noteq> None" "q' = q" "c' = c"
    | (ok) st where "Status_CanTransitionTo (EffectiveStatus q) target" "plan_save io ?q (co_plans c) = (e, st)"
        "q' = ?q" "c' = c\<lparr>co_plans := st\<rparr>"
    using assms(5) by (auto simp: set_status_def setPlanStatusCached_def Let_def split: if_splits prod.splits)
  then have "touches slug c c' \<and> evolves q q' \<and> (e = None \<longrightarrow> vis c' slug = Some q') \<and> co_outbox c' = co_outbox c
      \<and> (e = None \<longrightarrow> p_Status q' = target \<and> q' = ?q)"
  proof cases
    case bad
    then show ?thesis using assms(1) by (auto simp: touches_refl)
  next
    case (ok st)
    have ev: "evolves q ?q" using ok(1) by (intro evolves_update) simp_all
    then have "touches slug c (c\<lparr>co_plans := st\<rparr>)"
      using touches_save [OF assms(1-3) evolves_trans [OF assms(4) ev] ok(2)] by blast
    moreover have "e = None \<Longrightarrow> visible st slug = Some ?q" using plan_save_ok ok(2) s by auto
    ultimately show ?thesis using ev ok by simp
  qed
  then show "touches slug c c'" "evolves q q'" "e = None \<Longrightarrow> vis c' slug = Some q'" "co_outbox c' = co_outbox c"
    "e = None \<Longrightarrow> p_Status q' = target \<and> q' = q\<lparr>p_Status := target\<rparr>" by auto
qed

lemma touches_inv: "touches slug c c' \<Longrightarrow> comp_inv c'"
  by (simp add: touches_def)

lemma startExecution_touches:
  assumes "comp_inv c" "vis c slug = Some p" "p_Slug p = slug" "evolves p q"
  shows "touches slug c (snd (startExecutionFromReady env n q force c))"
    and "fst (startExecutionFromReady env n q force c) = Some e \<Longrightarrow> \<not> clean e"
proof -
  obtain e1 q1 c1 where s1: "set_status (en_save env n) q StatusImplementing c = (e1, q1, c1)"
    by (cases "set_status (en_save env n) q StatusImplementing c") auto
  obtain b c2 where p2: "publishScenarioOrchestrator env q1 force c1 = (b, c2)"
    by (cases "publishScenarioOrchestrator env q1 force c1")
  obtain e3 q3 c3 where s3: "set_status (en_save env (n + 1)) q1 StatusReadyForExecution c2 = (e3, q3, c3)"
    by (cases "set_status (en_save env (n + 1)) q1 StatusReadyForExecution c2") auto
  note t1 = set_status_touches [OF assms s1]
  have c2: "co_plans c2 = co_plans c1" "co_config c2 = co_config c1"
    using publishScenarioOrchestrator_frame [of env q1 force c1] p2 by simp_all
  have t2: "touches slug c c2" using touches_plans_eq [OF t1(1) c2] .
  have t3: "touches slug c c3" if "e1 = None"
  proof -
    have v: "vis c2 slug = Some q1" using t1(3) [OF that] c2 by simp
    have "p_Slug q1 = slug" using t1(2) assms(3,4) by (simp add: evolves_def)
    from set_status_touches(1) [OF touches_inv [OF t2] v this evolves_refl s3] t2
    show ?thesis by (blast intro: touches_trans)
  qed
  show "touches slug c (snd (startExecutionFromReady env n q force c))"
    using t1(1) t2 t3 s1 p2 s3 assms(1)
    by (auto simp: startExecutionFromReady_def touches_refl split: option.split bool.split)
  show "fst (startExecutionFromReady env n q force c) = Some e \<Longrightarrow> \<not> clean e"
    using s1 p2 s3 by (auto simp: startExecutionFromReady_def split: option.splits bool.splits if_splits)
qed

lemma transitionToReady_touches:
  assumes "comp_inv c" "vis c slug = Some p" "p_Slug p = slug" "evolves p q"
  shows "touches slug c (snd (transitionToReadyForExecution env n q force c))"
    and "fst (transitionToReadyForExecution env n q force c) = Some e \<Longrightarrow> \<not> clean e"
proof -
  obtain e1 q1 c1 where s1: "set_status (en_save env n) q StatusReadyForExecution c = (e1, q1, c1)"
    by (cases "set_status (en_save env n) q StatusReadyForExecution c") auto
  note t1 = set_status_touches [OF assms s1]
  have nxt: "touches slug c (snd (startExecutionFromReady env (n + 1) q1 force c1))"
    "fst (startExecutionFromReady env (n + 1) q1 force c1) = Some e' \<Longrightarrow> \<not> clean e'"
    if "e1 = None" for e'
  proof -
    have "p_Slug q1 = slug" using t1(2) assms(3,4) by (simp add: evolves_def)
    note s = startExecution_touches [OF touches_inv [OF t1(1)] t1(3) [OF that] this evolves_refl]
    show "touches slug c (snd (startExecutionFromReady env (n + 1) q1 force c1))"
      using touches_trans [OF t1(1) s(1)] .
    show "fst (startExecutionFromReady env (n + 1) q1 force c1) = Some e' \<Longrightarrow> \<not> clean e'" using s(2) .
  qed
  show "touches slug c (snd (transitionToReadyForExecution env n q force c))"
    using t1(1) nxt(1) s1 by (auto simp: transitionToReadyForExecution_def split: option.split)
  show "fst (transitionToReadyForExecution env n q force c) = Some e \<Longrightarrow> \<not> clean e"
    using nxt(2) s1 by (auto simp: transitionToReadyForExecution_def split: option.splits if_splits)
qed

section \<open>A batch of scenarios after the first\<close>

lemma batch_keeps_cover:
  assumes "all_covered p" "\<forall>s \<in> set (scm_Scenarios r). sc_RequirementID s = scm_RequirementID r"
  shows "all_covered (merge_scenarios r p)"
proof -
  have "\<exists>s \<in> set (p_Scenarios (merge_scenarios r p)). sc_RequirementID s = i"
    if "s \<in> set (p_Scenarios p)" "sc_RequirementID s = i" for s i
  proof (cases "i = scm_RequirementID r")
    case True
    then show ?thesis using assms(2) that by (cases "scm_Scenarios r") (auto simp: merge_scenarios_def)
  next
    case False
    then have "\<not> scenarioMatchesMutationScope s r" using that(2) by (simp add: scenarioMatchesMutationScope_def)
    then show ?thesis using that by (auto simp: merge_scenarios_def)
  qed
  then show ?thesis using assms(1) by (fastforce simp: all_covered_def list_all_iff list_ex_iff)
qed

definition ex_scenario :: "bytes \<Rightarrow> bytes \<Rightarrow> bytes \<Rightarrow> Scenario" where
  "ex_scenario i req story = Scenario_zero\<lparr>sc_ID := i, sc_RequirementID := req, sc_StoryID := story\<rparr>"

definition ex_batch :: "bytes \<Rightarrow> bytes \<Rightarrow> ScenariosMutationRequest" where
  "ex_batch story i = \<lparr>scm_Slug = ''a'', scm_RequirementID = ''A'', scm_StoryID = story, scm_Scenarios = [ex_scenario i ''A'' story]\<rparr>"

definition ex_two_stories :: Plan where
  "ex_two_stories = (ex_slug_plan ''a'' StatusGeneratingScenarios)\<lparr>p_Requirements := [ex_req ''A'' []],
     p_Stories := [Story_zero\<lparr>s_ID := ''S1'', s_RequirementIDs := [''A'']\<rparr>, Story_zero\<lparr>s_ID := ''S2'', s_RequirementIDs := [''A'']\<rparr>]\<rparr>"

text \<open>C35: scenarios are complete per requirement, not per story.  Once every requirement of a plan has a
  scenario and the plan has moved to scenarios_generated, each further batch for one of its
  requirements, such as that of a second story of the requirement, is refused, and the scenarios
  of the batch are not stored.\<close>

theorem later_batch_refused:
  assumes c: "comp_inv c" "vis c (scm_Slug r) = Some p"
    and p: "p_Requirements p \<noteq> []" "all_covered p" "EffectiveStatus p = StatusScenariosGenerated"
    and r: "\<forall>s \<in> set (scm_Scenarios r). sc_RequirementID s = scm_RequirementID r"
  shows "fst (handleScenariosMutation (Some r) env c) \<noteq> None
    \<and> vis (snd (handleScenariosMutation (Some r) env c)) = vis c"
proof (cases "scm_Slug r = [] \<or> scm_RequirementID r = []")
  case False
  let ?k = "\<lambda>plan. store_scenarios env (merge_scenarios r plan)"
  have h: "handleScenariosMutation (Some r) env c = with_plan env (scm_Slug r) ?k c"
    using False by (simp add: handleScenariosMutation_def)
  have "\<not> Status_CanTransitionTo StatusScenariosGenerated StatusScenariosGenerated" by code_simp
  then have k: "?k p c1 = (Some (BadTransition StatusScenariosGenerated StatusScenariosGenerated), c1)" for c1
    using batch_keeps_cover [OF p(2) r] p(1,3) by (simp add: store_scenarios_def)
  from c(1) show ?thesis
    by (cases rule: with_plan_cases [where env = env and slug = "scm_Slug r" and k = ?k]) (use c(2) h k in auto)
qed (auto simp: handleScenariosMutation_def)

theorem later_batch_refused_witness:
  "case handleScenariosMutation (Some (ex_batch ''S1'' ''x'')) ex_env (ex_comp ex_two_stories) of
     (e, c1) \<Rightarrow> e = None \<and> status_of c1 ''a'' = Some StatusScenariosGenerated
       \<and> fst (handleScenariosMutation (Some (ex_batch ''S2'' ''y'')) ex_env c1) \<noteq> None
       \<and> vis (snd (handleScenariosMutation (Some (ex_batch ''S2'' ''y'')) ex_env c1)) = vis c1
       \<and> map_option (map sc_ID \<circ> p_Scenarios) (vis c1 ''a'') = Some [''x'']"
proof -
  let ?c = "snd (handleScenariosMutation (Some (ex_batch ''S1'' ''x'')) ex_env (ex_comp ex_two_stories))"
  have i: "comp_inv (ex_comp ex_two_stories)" by (rule ex_comp_inv) code_simp
  have c: "comp_inv ?c"
    using scenarios_meets [OF i, of "Some (ex_batch ''S1'' ''x'')" ex_env] by (simp add: fulfils_def touches_def)
  have e: "fst (handleScenariosMutation (Some (ex_batch ''S1'' ''x'')) ex_env (ex_comp ex_two_stories)) = None"
    and s: "status_of ?c ''a'' = Some StatusScenariosGenerated"
    and x: "map_option (map sc_ID \<circ> p_Scenarios) (vis ?c ''a'') = Some [''x'']"
    and p: "map_option (\<lambda>p. p_Requirements p \<noteq> [] \<and> all_covered p) (vis ?c ''a'') = Some True"
    by code_simp+
  obtain q where q: "vis ?c ''a'' = Some q" using s by auto
  have sl: "scm_Slug (ex_batch ''S2'' ''y'') = ''a''" by (simp add: ex_batch_def)
  have "vis ?c (scm_Slug (ex_batch ''S2'' ''y'')) = Some q" using q sl by simp
  moreover have "p_Requirements q \<noteq> []" "all_covered q" "EffectiveStatus q = StatusScenariosGenerated" using p s q by simp_all
  moreover have "\<forall>s \<in> set (scm_Scenarios (ex_batch ''S2'' ''y'')). sc_RequirementID s = scm_RequirementID (ex_batch ''S2'' ''y'')"
    by (simp add: ex_batch_def ex_scenario_def)
  ultimately have "fst (handleScenariosMutation (Some (ex_batch ''S2'' ''y'')) ex_env ?c) \<noteq> None
    \<and> vis (snd (handleScenariosMutation (Some (ex_batch ''S2'' ''y'')) ex_env ?c)) = vis ?c"
    by (rule later_batch_refused [OF c])
  then show ?thesis using e s x by (simp add: case_prod_beta)
qed

end
