(* ===== verification/Orchestrator.thy ===== *)
theory Orchestrator
  imports Scheduling Execution_Types
begin

text \<open>
  Which requirements may run, and from which branch.
  \<^verbatim>\<open>src/workflow/resolve_branch_prereqs.go\<close> maps the dependencies of a requirement to the owner
  branches it forks from; \<^verbatim>\<open>src/processor/scenario-orchestrator\<close> gates dispatch on them
  (\<^verbatim>\<open>dag.go\<close>), selects the scenarios of a dispatch, resolves its base branch
  (\<^verbatim>\<open>resolve_base.go\<close>) and keeps the cache of completed requirements in step with
  EXECUTION_STATES (\<^verbatim>\<open>reconcileCompletedRequirements\<close>).  A Go set of IDs built by a map and
  then sorted is a sorted list without duplicates; the maps \<^verbatim>\<open>map[string]bool\<close> of completed
  requirements are sets.  The sandbox merge and the re-read of the KV store are parameters.
\<close>

section \<open>Branch prerequisites\<close>

definition storyCoversReq :: "Story \<Rightarrow> bytes \<Rightarrow> bool" where
  "storyCoversReq s reqID = list_ex (\<lambda>rid. rid = reqID) (s_RequirementIDs s)"

fun ownerRequirementFor :: "bytes \<Rightarrow> Story list \<Rightarrow> bytes" where
  "ownerRequirementFor reqID [] = reqID"
| "ownerRequirementFor reqID (s # ss) =
     (if storyCoversReq s reqID \<and> DeterministicStoryOwner s \<noteq> [] then DeterministicStoryOwner s
      else ownerRequirementFor reqID ss)"

definition prereqs_from_deps :: "Requirement \<Rightarrow> Story list \<Rightarrow> bytes list" where
  "prereqs_from_deps req stories =
     filter (\<lambda>owner. owner \<noteq> r_ID req) (map (\<lambda>d. ownerRequirementFor d stories) (r_DependsOn req))"

definition prereqs_from_stories :: "Requirement \<Rightarrow> Story list \<Rightarrow> bytes list" where
  "prereqs_from_stories req stories =
     concat (map (\<lambda>s. concat (map (\<lambda>d.
         case fill_map s_ID id stories d of
           None \<Rightarrow> []
         | Some depStory \<Rightarrow>
             (let owner = DeterministicStoryOwner depStory in
              if owner \<noteq> [] \<and> owner \<noteq> r_ID req then [owner] else []))
         (s_DependsOn s)))
       (filter (\<lambda>s. storyCoversReq s (r_ID req)) stories))"

definition ResolveRequirementBranchPrereqs :: "Requirement \<Rightarrow> Story list \<Rightarrow> bytes list" where
  "ResolveRequirementBranchPrereqs req stories =
     sort (remdups (prereqs_from_deps req stories @ prereqs_from_stories req stories))"

text \<open>The reverse adjacency \<^verbatim>\<open>dependentsOf\<close>, as the entries of the map.\<close>

definition dependents_of :: "Requirement list \<Rightarrow> Story list \<Rightarrow> (bytes \<times> bytes list) list" where
  "dependents_of reqs stories =
     map (\<lambda>p. (p, map r_ID (filter (\<lambda>r. p \<in> set (ResolveRequirementBranchPrereqs r stories)) reqs)))
       (remdups (concat (map (\<lambda>r. ResolveRequirementBranchPrereqs r stories) reqs)))"

text \<open>The queue loop skips the reopened requirement exactly as it skips a visited one.\<close>

definition DependentBranchSubtree :: "bytes \<Rightarrow> Requirement list \<Rightarrow> Story list \<Rightarrow> bytes list" where
  "DependentBranchSubtree reopenedID reqs stories =
     (let m = dependents_of reqs stories in
      sort (filter (\<lambda>x. x \<noteq> reopenedID) (bfs m (succs m reopenedID) [reopenedID])))"

section \<open>Dispatch gates\<close>

definition requirementComplete :: "bytes \<Rightarrow> bytes set \<Rightarrow> bool" where
  "requirementComplete reqID completed \<longleftrightarrow> reqID \<in> completed"

definition depsComplete :: "Requirement \<Rightarrow> bytes set \<Rightarrow> bool" where
  "depsComplete req complete = list_all (\<lambda>d. d \<in> complete) (r_DependsOn req)"

definition filterReadyRequirements :: "Requirement list \<Rightarrow> bytes set \<Rightarrow> Requirement list" where
  "filterReadyRequirements requirements completed =
     (let complete = set (filter (\<lambda>i. requirementComplete i completed) (map r_ID requirements)) in
      filter (\<lambda>req. r_ID req \<notin> complete \<and> depsComplete req complete) requirements)"

definition gated :: "Requirement \<Rightarrow> Story list \<Rightarrow> bool" where
  "gated req stories =
     list_ex (\<lambda>s. storyCoversReq s (r_ID req) \<and> DeterministicStoryOwner s \<noteq> r_ID req
                  \<and> s_Status s \<noteq> StoryStatusComplete) stories"

definition filterByM2NStoryReservations :: "Requirement list \<Rightarrow> Story list \<Rightarrow> Requirement list" where
  "filterByM2NStoryReservations ready stories =
     (if ready = [] \<or> stories = [] then ready else filter (\<lambda>req. \<not> gated req stories) ready)"

definition branchPrereqsComplete :: "Requirement \<Rightarrow> Story list \<Rightarrow> bytes set \<Rightarrow> bool" where
  "branchPrereqsComplete req stories completed =
     list_all (\<lambda>owner. owner \<in> completed) (ResolveRequirementBranchPrereqs req stories)"

definition filterByBranchPrereqCompletion ::
    "Requirement list \<Rightarrow> Story list \<Rightarrow> bytes set \<Rightarrow> Requirement list" where
  "filterByBranchPrereqCompletion ready stories completed =
     (if ready = [] \<or> stories = [] then ready
      else filter (\<lambda>req. branchPrereqsComplete req stories completed) ready)"

definition forceRequirementSet :: "bytes list \<Rightarrow> bytes set" where
  "forceRequirementSet ids = set (filter (\<lambda>i. i \<noteq> []) ids)"

definition completedRequirementIDs :: "bytes set \<Rightarrow> Requirement list \<Rightarrow> bytes set \<Rightarrow> bytes set" where
  "completedRequirementIDs cached requirements force =
     set (filter (\<lambda>i. i \<in> cached) (map r_ID requirements)) - force"

text \<open>The requirements one sweep of \<^verbatim>\<open>dispatchRequirements\<close> dispatches.\<close>

datatype orchestrator_error = NoRequirements bytes | NoScenarios bytes

definition toDispatch :: "Requirement list \<Rightarrow> Story list \<Rightarrow> bytes set \<Rightarrow> Requirement list" where
  "toDispatch requirements stories completed =
     filterByBranchPrereqCompletion
       (filterByM2NStoryReservations (filterReadyRequirements requirements completed) stories)
       stories completed"

text \<open>The scenarios handed to an execution: those of the requirement and, for an owner, those of the
  stories it owns, each once.  The key of a scenario without an ID is its encoding.\<close>

definition scenario_key :: "(Scenario \<Rightarrow> bytes) \<Rightarrow> Scenario \<Rightarrow> bytes" where
  "scenario_key marshal sc = (if sc_ID sc = [] then marshal sc else sc_ID sc)"

definition appendScenarioDedup :: "(Scenario \<Rightarrow> bytes) \<Rightarrow> Scenario list \<Rightarrow> Scenario \<Rightarrow> Scenario list" where
  "appendScenarioDedup marshal out sc =
     (if scenario_key marshal sc \<in> scenario_key marshal ` set out then out else out @ [sc])"

definition scenariosForRequirementExecution ::
    "(Scenario \<Rightarrow> bytes) \<Rightarrow> bytes \<Rightarrow> Scenario list \<Rightarrow> Story list \<Rightarrow> Scenario list" where
  "scenariosForRequirementExecution marshal reqID scenarios stories =
     foldl (appendScenarioDedup marshal) []
       (filter (\<lambda>sc. sc_RequirementID sc = reqID) scenarios @
        concat (map (\<lambda>story. concat (map (\<lambda>covered.
            filter (\<lambda>sc. sc_RequirementID sc = covered \<and> (sc_StoryID sc = [] \<or> sc_StoryID sc = s_ID story))
              scenarios) (s_RequirementIDs story)))
          (filter (\<lambda>story. DeterministicStoryOwner story = reqID) stories)))"

definition dispatchRequirements :: "(Scenario \<Rightarrow> bytes) \<Rightarrow> bytes \<Rightarrow> Requirement list \<Rightarrow> Scenario list \<Rightarrow>
    Story list \<Rightarrow> bytes list \<Rightarrow> bytes set \<Rightarrow>
    orchestrator_error + (Requirement \<times> Scenario list \<times> bool) list" where
  "dispatchRequirements marshal slug requirements scenarios stories forceIDs cached =
     (if requirements = [] then Inl (NoRequirements slug)
      else if scenarios = [] then Inl (NoScenarios slug)
      else let force = forceRequirementSet forceIDs;
               completed = completedRequirementIDs cached requirements force
           in Inr (map (\<lambda>req. (req, scenariosForRequirementExecution marshal (r_ID req) scenarios stories,
                               r_ID req \<in> force))
                     (toDispatch requirements stories completed)))"

section \<open>Base branch\<close>

datatype base_error = NoSandbox bytes nat | MergeFailed bytes bytes

definition requirementBranch :: "bytes \<Rightarrow> bytes" where
  "requirementBranch reqID = ''semspec/requirement-'' @ reqID"

text \<open>\<open>merge\<close> is the sandbox call, absent when no sandbox is configured: target, base and
  branches give the merged branch or a failure.\<close>

definition resolveRequirementBase :: "(bytes \<Rightarrow> bytes \<Rightarrow> bytes list \<Rightarrow> bytes option) option \<Rightarrow>
    Requirement \<Rightarrow> Story list \<Rightarrow> bytes \<Rightarrow> base_error + bytes" where
  "resolveRequirementBase merge req stories planBranch =
     (let owners = ResolveRequirementBranchPrereqs req stories in
      case owners of
        [] \<Rightarrow> Inr planBranch
      | [owner] \<Rightarrow> Inr (requirementBranch owner)
      | _ \<Rightarrow>
          (case merge of
             None \<Rightarrow> Inl (NoSandbox (r_ID req) (length owners))
           | Some f \<Rightarrow>
               (let reqBase = ''semspec/reqbase-'' @ r_ID req in
                case f reqBase planBranch (sort (map requirementBranch owners)) of
                  None \<Rightarrow> Inl (MergeFailed (r_ID req) reqBase)
                | Some target \<Rightarrow> Inr target)))"

section \<open>The cache of completed requirements\<close>

datatype scan_entry = ScanFailed | Scanned RequirementExecution

text \<open>One pass over the \<^verbatim>\<open>req.\<close> keys: the IDs found completed, in order, and whether every
  entry was read (\<^verbatim>\<open>scanClean\<close>).\<close>

definition completed_ids :: "(bytes \<times> scan_entry) list \<Rightarrow> bytes list" where
  "completed_ids entries = concat (map (\<lambda>(key, e).
     if \<not> HasPrefix key ''req.'' then []
     else case e of
       ScanFailed \<Rightarrow> []
     | Scanned re \<Rightarrow> if re_Stage re \<noteq> ''completed'' then [] else [re_RequirementID re]) entries)"

definition scan_clean :: "(bytes \<times> scan_entry) list \<Rightarrow> bool" where
  "scan_clean entries = list_all (\<lambda>(key, e). HasPrefix key ''req.'' \<longrightarrow> e \<noteq> ScanFailed) entries"

definition staleCompletions :: "bytes list \<Rightarrow> bytes set \<Rightarrow> bytes list" where
  "staleCompletions cachedKeys completedNow = filter (\<lambda>i. i \<notin> completedNow) cachedKeys"

text \<open>\<open>listed\<close> is the key listing of the bucket (absent when it failed), \<open>still\<close> the live re-read of
  \<^verbatim>\<open>requirementStillCompleted\<close> and \<open>ctx_ok\<close> whether the scan ended within its deadline.\<close>

definition reconcileCompletedRequirements :: "(bytes \<times> scan_entry) list option \<Rightarrow> (bytes \<Rightarrow> bool) \<Rightarrow> bool \<Rightarrow>
    bytes list \<Rightarrow> bytes list" where
  "reconcileCompletedRequirements listed still ctx_ok cached =
     (case listed of
        None \<Rightarrow> cached
      | Some entries \<Rightarrow>
          if entries = [] then cached
          else let now = set (completed_ids entries);
                   cached' = foldl appendUnique cached (completed_ids entries)
               in if scan_clean entries \<and> ctx_ok
                  then filter (\<lambda>i. i \<in> set (staleCompletions cached' now) \<longrightarrow> still i) cached'
                  else cached')"

section \<open>Lemmas on prerequisites and gates\<close>

lemma storyCoversReq_iff [simp]: "storyCoversReq s r \<longleftrightarrow> r \<in> set (s_RequirementIDs s)"
  by (auto simp: storyCoversReq_def list_ex_iff)

lemma set_ResolveRequirementBranchPrereqs: "set (ResolveRequirementBranchPrereqs req stories) =
    set (prereqs_from_deps req stories) \<union> set (prereqs_from_stories req stories)"
  by (simp add: ResolveRequirementBranchPrereqs_def)

lemma prereqs_not_self: "r_ID req \<notin> set (ResolveRequirementBranchPrereqs req stories)"
  by (auto simp: set_ResolveRequirementBranchPrereqs prereqs_from_deps_def prereqs_from_stories_def
      Let_def split: option.splits if_splits)

lemma ownerRequirementFor_no_stories [simp]: "ownerRequirementFor r [] = r"
  by simp

lemma prereqs_no_stories: "set (ResolveRequirementBranchPrereqs req []) = set (r_DependsOn req) - {r_ID req}"
  by (auto simp: set_ResolveRequirementBranchPrereqs prereqs_from_deps_def prereqs_from_stories_def)

text \<open>The derivation relation: \<open>(p, r)\<close> when the branch of \<open>r\<close> forks from the branch of \<open>p\<close>.\<close>

definition derives :: "Requirement list \<Rightarrow> Story list \<Rightarrow> (bytes \<times> bytes) set" where
  "derives reqs stories = {(p, r_ID r) | p r. r \<in> set reqs \<and> p \<in> set (ResolveRequirementBranchPrereqs r stories)}"

lemma map_of_map_keys: "map_of (map (\<lambda>p. (p, f p)) ps) k = (if k \<in> set ps then Some (f k) else None)"
  by (induction ps) auto

lemma dependents_rel: "dep_rel (succs (dependents_of reqs stories)) = derives reqs stories"
proof -
  have "set (succs (dependents_of reqs stories) p) = {r_ID r | r. r \<in> set reqs \<and>
      p \<in> set (ResolveRequirementBranchPrereqs r stories)}" for p
    by (auto simp: succs_def slice_at_def dependents_of_def map_of_map_keys)
  then show ?thesis by (auto simp: derives_def dep_rel_def)
qed

lemma bfs_from_seen:
  "set (bfs m (succs m x) [x]) = insert x {y. (x, y) \<in> (dep_rel (succs m))\<^sup>+}"
proof (intro equalityI subsetI)
  fix y assume "y \<in> set (bfs m (succs m x) [x])"
  from bfs_sound [OF this] show "y \<in> insert x {y. (x, y) \<in> (dep_rel (succs m))\<^sup>+}"
    by (auto intro: rtrancl_into_trancl2)
next
  have c: "x \<in> set (bfs m (succs m x) [x])"
    "\<forall>z \<in> set (bfs m (succs m x) [x]). set (succs m z) \<subseteq> set (bfs m (succs m x) [x])"
    using bfs_closed [of "[x]" m "succs m x"] by auto
  fix y assume "y \<in> insert x {y. (x, y) \<in> (dep_rel (succs m))\<^sup>+}"
  then have "(x, y) \<in> (dep_rel (succs m))\<^sup>*" by auto
  then show "y \<in> set (bfs m (succs m x) [x])"
    by (induction rule: rtrancl_induct) (use c in auto)
qed

lemma set_DependentBranchSubtree:
  "set (DependentBranchSubtree o' reqs stories) = {r. (o', r) \<in> (derives reqs stories)\<^sup>+ \<and> r \<noteq> o'}"
  by (auto simp: DependentBranchSubtree_def Let_def bfs_from_seen dependents_rel)

lemma toDispatch_iff:
  "r \<in> set (toDispatch reqs stories completed) \<longleftrightarrow>
     r \<in> set reqs \<and> r_ID r \<notin> completed \<and> set (r_DependsOn r) \<subseteq> completed \<inter> r_ID ` set reqs
     \<and> \<not> gated r stories
     \<and> (stories \<noteq> [] \<longrightarrow> set (ResolveRequirementBranchPrereqs r stories) \<subseteq> completed)"
proof -
  let ?ready = "filterReadyRequirements reqs completed"
  have r: "r \<in> set ?ready \<longleftrightarrow> r \<in> set reqs \<and> r_ID r \<notin> completed
      \<and> set (r_DependsOn r) \<subseteq> completed \<inter> r_ID ` set reqs" for r
    by (auto simp: filterReadyRequirements_def requirementComplete_def depsComplete_def list_all_iff Let_def)
  have m: "r \<in> set (filterByM2NStoryReservations ?ready stories) \<longleftrightarrow> r \<in> set ?ready \<and> \<not> gated r stories" for r
    by (cases "?ready = [] \<or> stories = []") (auto simp: filterByM2NStoryReservations_def gated_def)
  have "r \<in> set (filterByBranchPrereqCompletion xs stories completed) \<longleftrightarrow> r \<in> set xs \<and>
      (stories \<noteq> [] \<longrightarrow> set (ResolveRequirementBranchPrereqs r stories) \<subseteq> completed)" for xs r
    by (cases "xs = [] \<or> stories = []")
       (auto simp: filterByBranchPrereqCompletion_def branchPrereqsComplete_def list_all_iff)
  then show ?thesis unfolding toDispatch_def using m r by blast
qed

text \<open>What a requirement waits for, across the three gates.\<close>

definition waits :: "Requirement list \<Rightarrow> Story list \<Rightarrow> (bytes \<times> bytes) set" where
  "waits reqs stories = {(r_ID r, q) | r q. r \<in> set reqs \<and>
     (q \<in> set (r_DependsOn r) \<or> q \<in> set (ResolveRequirementBranchPrereqs r stories)
      \<or> (\<exists>s \<in> set stories. r_ID r \<in> set (s_RequirementIDs s) \<and> q = DeterministicStoryOwner s \<and> q \<noteq> r_ID r))}"

lemma waits_no_stories: "waits reqs [] = (\<Union>r \<in> set reqs. {r_ID r} \<times> set (r_DependsOn r))"
  unfolding waits_def by (auto simp: prereqs_no_stories)

lemma progress:
  assumes acyc: "acyclic (waits reqs stories)"
    and known: "Range (waits reqs stories) \<subseteq> r_ID ` set reqs"
    and shipped: "\<And>s. s \<in> set stories \<Longrightarrow> DeterministicStoryOwner s \<in> completed \<Longrightarrow>
        s_Status s = StoryStatusComplete"
    and left: "r0 \<in> set reqs" "r_ID r0 \<notin> completed"
    and dist: "distinct (map r_ID reqs)"
  shows "toDispatch reqs stories completed \<noteq> []"
proof -
  let ?W = "waits reqs stories" and ?ids = "r_ID ` set reqs"
  have "Domain ?W \<subseteq> ?ids" by (auto simp: waits_def)
  then have "?W \<subseteq> ?ids \<times> ?ids" using known by auto
  then have "finite ?W" by (rule finite_subset) simp
  then have "wf (?W\<inverse>)" using acyc by (rule finite_acyclic_wf_converse)
  moreover have "r_ID r0 \<in> ?ids - completed" using left by simp
  ultimately obtain k where k: "k \<in> ?ids - completed" "\<And>q. (k, q) \<in> ?W \<Longrightarrow> q \<notin> ?ids - completed"
    by (metis wfE_min converse_iff)
  then obtain r where r: "r \<in> set reqs" "r_ID r = k" by auto
  have w: "q \<in> completed" if "(k, q) \<in> ?W" for q
    using k(2) [OF that] known that by auto
  have "r \<in> set (toDispatch reqs stories completed)"
    unfolding toDispatch_iff
  proof (intro conjI impI)
    show "set (r_DependsOn r) \<subseteq> completed \<inter> ?ids"
    proof
      fix q assume "q \<in> set (r_DependsOn r)"
      then have "(k, q) \<in> ?W" using r by (auto simp: waits_def)
      then show "q \<in> completed \<inter> ?ids" using w known by auto
    qed
    show "set (ResolveRequirementBranchPrereqs r stories) \<subseteq> completed"
      using w r by (auto simp: waits_def)
    show "\<not> gated r stories"
    proof
      assume "gated r stories"
      then obtain s where s: "s \<in> set stories" "r_ID r \<in> set (s_RequirementIDs s)"
        "DeterministicStoryOwner s \<noteq> r_ID r" "s_Status s \<noteq> StoryStatusComplete"
        by (auto simp: gated_def list_ex_iff)
      then have "(k, DeterministicStoryOwner s) \<in> ?W" using r unfolding waits_def by blast
      then show False using w shipped [OF s(1)] s(4) by blast
    qed
  qed (use r k in auto)
  then show ?thesis by auto
qed

lemma reconcile_clean:
  assumes "scan_clean entries" "entries \<noteq> []"
  shows "set (reconcileCompletedRequirements (Some entries) still True cached) =
    set (completed_ids entries) \<union> {i \<in> set cached. still i}"
  using assms by (auto simp: reconcileCompletedRequirements_def staleCompletions_def Let_def
      set_foldl_appendUnique)

lemma reconcile_partial:
  assumes "\<not> (scan_clean entries \<and> ctx_ok)"
  shows "set (reconcileCompletedRequirements (Some entries) still ctx_ok cached) =
    set (completed_ids entries) \<union> set cached"
  using assms by (auto simp: reconcileCompletedRequirements_def Let_def set_foldl_appendUnique
      completed_ids_def)

section \<open>Properties\<close>

text \<open>Concrete data: the requirement \<^verbatim>\<open>q.2\<close> and \<^verbatim>\<open>q.10\<close>, which depends on it, covered by one
  story; its owner is \<^verbatim>\<open>q.10\<close>, the smaller of the two IDs in byte order.\<close>

definition shared_reqs :: "Requirement list" where
  "shared_reqs = [ex_req ''q.2'' [], ex_req ''q.10'' [''q.2'']]"

definition shared_stories :: "Story list" where
  "shared_stories = [ex_story ''s1'' ''core'' [''q.2'', ''q.10''] [''core.go'']]"

text \<open>C26. A dispatched requirement is a requirement of the plan that is not complete; everything it
  depends on is complete, every owner branch it forks from is complete, and every story that covers
  it but belongs to another owner has shipped.\<close>

theorem dispatch_safe:
  assumes "r \<in> set (toDispatch reqs stories completed)"
  shows "r \<in> set reqs \<and> r_ID r \<notin> completed \<and> set (r_DependsOn r) \<subseteq> completed
    \<and> set (ResolveRequirementBranchPrereqs r stories) \<subseteq> completed
    \<and> (\<forall>s \<in> set stories. r_ID r \<in> set (s_RequirementIDs s) \<longrightarrow>
         DeterministicStoryOwner s = r_ID r \<or> s_Status s = StoryStatusComplete)"
proof -
  have d: "r \<in> set reqs" "r_ID r \<notin> completed" "set (r_DependsOn r) \<subseteq> completed" "\<not> gated r stories"
    "stories \<noteq> [] \<longrightarrow> set (ResolveRequirementBranchPrereqs r stories) \<subseteq> completed"
    using assms by (auto simp: toDispatch_iff)
  have "set (ResolveRequirementBranchPrereqs r stories) \<subseteq> completed"
    using d(3,5) prereqs_no_stories [of r] by (cases "stories = []") auto
  then show ?thesis using d by (auto simp: gated_def list_ex_iff)
qed

theorem dispatch_safe_witness:
  "let r = ex_req ''q.2'' [] in
     r \<in> set shared_reqs \<and> r_ID r \<notin> {} \<and> set (r_DependsOn r) \<subseteq> {}
     \<and> set (ResolveRequirementBranchPrereqs r []) \<subseteq> {}"
proof -
  have "ex_req ''q.2'' [] \<in> set (toDispatch shared_reqs [] {})"
    by (simp add: toDispatch_iff shared_reqs_def ex_req_def zero_defs gated_def)
  from dispatch_safe [OF this] show ?thesis by (simp add: Let_def)
qed

text \<open>One development loop per story: of all requirements dispatched in a sweep, at most one
  covers a given story that has not shipped, and it is the owner of the story.\<close>

theorem one_dev_loop_per_story:
  assumes "r \<in> set (toDispatch reqs stories completed)" "r' \<in> set (toDispatch reqs stories completed)"
    and "s \<in> set stories" "s_Status s \<noteq> StoryStatusComplete"
    and "r_ID r \<in> set (s_RequirementIDs s)" "r_ID r' \<in> set (s_RequirementIDs s)"
  shows "r_ID r = DeterministicStoryOwner s \<and> r_ID r' = r_ID r"
proof -
  have "\<not> gated r stories" "\<not> gated r' stories" using assms(1,2) by (auto simp: toDispatch_iff)
  then have "DeterministicStoryOwner s = r_ID r" "DeterministicStoryOwner s = r_ID r'"
    using assms(3-6) by (auto simp: gated_def list_ex_iff)
  then show ?thesis by simp
qed

theorem one_dev_loop_per_story_witness:
  "r_ID (ex_req ''q.10'' []) = DeterministicStoryOwner (ex_story ''s1'' ''core'' [''q.2'', ''q.10''] [''core.go''])
     \<and> r_ID (ex_req ''q.10'' []) = r_ID (ex_req ''q.10'' [])"
proof -
  let ?reqs = "[ex_req ''q.2'' [], ex_req ''q.10'' []]"
  have d: "toDispatch ?reqs shared_stories {} = [ex_req ''q.10'' []]" by code_simp
  then have "ex_req ''q.10'' [] \<in> set (toDispatch ?reqs shared_stories {})" by simp
  from one_dev_loop_per_story [OF this this, of "hd shared_stories"] show ?thesis
    by (simp add: shared_stories_def ex_story_def ex_req_def zero_defs)
qed




text \<open>The set to re-derive after a requirement is reopened is exactly the set of requirements
  whose branch derives from it, transitively, without the requirement itself; it is sorted and free
  of duplicates.\<close>

theorem dependent_subtree_exact:
  "set (DependentBranchSubtree r reqs stories) = {q. (r, q) \<in> (derives reqs stories)\<^sup>+ \<and> q \<noteq> r}
   \<and> sorted (DependentBranchSubtree r reqs stories) \<and> distinct (DependentBranchSubtree r reqs stories)"
  by (auto simp: set_DependentBranchSubtree)
     (simp_all add: DependentBranchSubtree_def Let_def bfs_distinct)

text \<open>After a complete scan the cache holds exactly the requirements the store has as completed,
  plus those a live re-read confirms; a partial scan never evicts.\<close>

theorem reconcile_cache:
  "set (reconcileCompletedRequirements (Some entries) still ctx_ok cached) =
     (if entries \<noteq> [] \<and> scan_clean entries \<and> ctx_ok
      then set (completed_ids entries) \<union> {i \<in> set cached. still i}
      else set (completed_ids entries) \<union> set cached)"
  using reconcile_clean [of entries still cached] reconcile_partial [of entries ctx_ok still cached]
  by (cases "entries = []") (auto simp: reconcileCompletedRequirements_def completed_ids_def)

end
