(* ===== verification/Assembly.thy ===== *)
theory Assembly
  imports Orchestrator
begin

text \<open>
  \<^verbatim>\<open>src/processor/plan-manager/plan_merge.go\<close>: which requirement branches plan-level assembly
  merges, and in which order.  The nodes are the story owners and the requirements no story covers;
  the edges are the branch prerequisites that drove derivation; Kahn's algorithm orders them, with
  the slice order as the fallback on a cycle.  \<open>kahn_loop\<close> terminates because a round that makes
  progress removes a node.
\<close>

section \<open>Definitions\<close>

definition assemblyNodes :: "Requirement list \<Rightarrow> Story list \<Rightarrow> bytes list" where
  "assemblyNodes reqs stories =
     (let storyOwners = filter (\<lambda>o'. o' \<noteq> []) (map DeterministicStoryOwner stories);
          covered = concat (map s_RequirementIDs stories)
      in foldl (\<lambda>order r.
           if r_ID r \<in> set storyOwners \<or> r_ID r \<notin> set covered
           then (if r_ID r = [] then order else appendUnique order (r_ID r))
           else order) [] reqs)"

definition assembly_req :: "Requirement list \<Rightarrow> bytes \<Rightarrow> Requirement" where
  "assembly_req reqs i = (case fill_map r_ID id reqs i of Some r \<Rightarrow> r
                          | None \<Rightarrow> Requirement_zero\<lparr>r_ID := i\<rparr>)"

text \<open>The map \<^verbatim>\<open>depsOf\<close> of \<^verbatim>\<open>assemblyDepGraph\<close>; \<^verbatim>\<open>indegree\<close> counts its entries.\<close>

definition assemblyDeps :: "bytes list \<Rightarrow> Requirement list \<Rightarrow> Story list \<Rightarrow> bytes \<Rightarrow> bytes list" where
  "assemblyDeps nodeOrder reqs stories i =
     (if i \<in> set nodeOrder
      then filter (\<lambda>p. p \<in> set nodeOrder \<and> p \<noteq> i)
             (ResolveRequirementBranchPrereqs (assembly_req reqs i) stories)
      else [])"

definition indegree :: "('a \<Rightarrow> 'a list) \<Rightarrow> 'a \<Rightarrow> int" where
  "indegree depsOf i = int (length (depsOf i))"

text \<open>The innermost loops of \<^verbatim>\<open>kahnTopoSort\<close>: one decrement per occurrence of the placed node.\<close>

definition settle :: "'a list \<Rightarrow> ('a \<Rightarrow> 'a list) \<Rightarrow> 'a \<Rightarrow> ('a \<Rightarrow> int) \<Rightarrow> 'a \<Rightarrow> int" where
  "settle nodes depsOf i indeg =
     foldl (\<lambda>indeg m. indeg(m := indeg m - int (count_list (depsOf m) i))) indeg nodes"

fun kahn_pass :: "'a list \<Rightarrow> ('a \<Rightarrow> 'a list) \<Rightarrow> 'a list \<Rightarrow> 'a list \<times> ('a \<Rightarrow> int) \<times> 'a list \<times> bool \<Rightarrow>
    'a list \<times> ('a \<Rightarrow> int) \<times> 'a list \<times> bool" where
  "kahn_pass nodes depsOf [] st = st"
| "kahn_pass nodes depsOf (i # is) (remaining, indeg, result, progressed) =
     (if i \<notin> set remaining \<or> indeg i > 0
      then kahn_pass nodes depsOf is (remaining, indeg, result, progressed)
      else kahn_pass nodes depsOf is
             (filter (\<lambda>x. x \<noteq> i) remaining, settle nodes depsOf i indeg, result @ [i], True))"

lemma kahn_pass_shrinks:
  "kahn_pass nodes depsOf is (remaining, indeg, result, p) = (remaining', indeg', result', p') \<Longrightarrow>
   length remaining' \<le> length remaining \<and> (p' \<longrightarrow> p \<or> length remaining' < length remaining)"
proof (induction "is" arbitrary: remaining indeg result p)
  case (Cons i "is")
  show ?case
  proof (cases "i \<notin> set remaining \<or> indeg i > 0")
    case True
    then have "kahn_pass nodes depsOf is (remaining, indeg, result, p) = (remaining', indeg', result', p')"
      using Cons.prems by simp
    from Cons.IH [OF this] show ?thesis .
  next
    case False
    then have "length (filter (\<lambda>x. x \<noteq> i) remaining) < length remaining"
      by (auto intro: length_filter_less)
    moreover have "kahn_pass nodes depsOf is
      (filter (\<lambda>x. x \<noteq> i) remaining, settle nodes depsOf i indeg, result @ [i], True)
      = (remaining', indeg', result', p')" using Cons.prems False by simp
    from Cons.IH [OF this] have "length remaining' \<le> length (filter (\<lambda>x. x \<noteq> i) remaining)" by simp
    ultimately show ?thesis by simp
  qed
qed simp

function kahn_loop :: "'a list \<Rightarrow> ('a \<Rightarrow> 'a list) \<Rightarrow> 'a list \<Rightarrow> ('a \<Rightarrow> int) \<Rightarrow> 'a list \<Rightarrow> 'a list" where
  "kahn_loop nodes depsOf remaining indeg result =
     (if remaining = [] then result
      else (case kahn_pass nodes depsOf nodes (remaining, indeg, result, False) of
        (remaining', indeg', result', progressed) \<Rightarrow>
          if progressed then kahn_loop nodes depsOf remaining' indeg' result' else result'))"
  by pat_completeness auto

termination
  by (relation "measure (\<lambda>(nodes, depsOf, remaining, indeg, result). length remaining)")
     (auto dest: kahn_pass_shrinks [OF sym])

declare kahn_loop.simps [simp del]

definition kahnTopoSort :: "'a list \<Rightarrow> ('a \<Rightarrow> 'a list) \<Rightarrow> ('a \<Rightarrow> int) \<Rightarrow> 'a list" where
  "kahnTopoSort nodeOrder depsOf indeg = kahn_loop nodeOrder depsOf nodeOrder indeg []"

definition assemblyBranchOrder :: "Requirement list \<Rightarrow> Story list \<Rightarrow> bytes list \<times> bool" where
  "assemblyBranchOrder reqs stories =
     (if reqs = [] then ([], False)
      else let nodeOrder = assemblyNodes reqs stories;
               depsOf = assemblyDeps nodeOrder reqs stories;
               result = kahnTopoSort nodeOrder depsOf (indegree depsOf)
           in if length result \<noteq> length nodeOrder then (nodeOrder, True) else (result, False))"

text \<open>\<^verbatim>\<open>assembleRequirementBranches\<close>: the merge request and what becomes of the plan.  \<open>merge\<close> is
  the sandbox (absent when not configured): target and branches give the target and the commits of
  the merges, a conflict naming a branch and files, or another failure.\<close>

datatype merge_result = Merged bytes "bytes list" | Conflict bytes "bytes list" | MergeError

datatype assembly_error = AssemblyConflict bytes bytes "bytes list" | AssemblyFailed

definition assembleRequirementBranches :: "(bytes \<Rightarrow> bytes list \<Rightarrow> merge_result) option \<Rightarrow> Plan \<Rightarrow>
    assembly_error option \<times> Plan" where
  "assembleRequirementBranches merge plan =
     (case merge of
        None \<Rightarrow> (None, plan)
      | Some f \<Rightarrow>
          if p_Requirements plan = [] then (None, plan)
          else let (orderedIDs, usedFallback) = assemblyBranchOrder (p_Requirements plan) (p_Stories plan) in
            if orderedIDs = [] then (None, plan)
            else let target = ''semspec/plan-'' @ p_Slug plan in
              (case f target (map requirementBranch orderedIDs) of
                 Merged t commits \<Rightarrow>
                   (None, plan\<lparr>p_AssembledBranch := t,
                     p_AssembledMergeCommit :=
                       (if commits \<noteq> [] then last commits else p_AssembledMergeCommit plan)\<rparr>)
               | Conflict branch paths \<Rightarrow> (Some (AssemblyConflict branch target paths), plan)
               | MergeError \<Rightarrow> (Some AssemblyFailed, plan)))"

section \<open>Correctness of the ordering\<close>

lemma foldl_dec_other: "x \<notin> set ns \<Longrightarrow>
    foldl (\<lambda>indeg m. indeg(m := indeg m - f m)) g ns x = (g x :: int)"
  by (induction ns arbitrary: g) auto

lemma settle_eq: "distinct nodes \<Longrightarrow>
    settle nodes depsOf i indeg x =
      (if x \<in> set nodes then indeg x - int (count_list (depsOf x) i) else indeg x)"
  unfolding settle_def
proof (induction nodes arbitrary: indeg)
  case (Cons n ns)
  then show ?case
    by (cases "x = n") (auto simp: foldl_dec_other)
qed simp

text \<open>The state of the algorithm: what is placed is in dependency order, and the counters count the
  dependencies still to be placed.\<close>

definition kahn_inv :: "'a list \<Rightarrow> ('a \<Rightarrow> 'a list) \<Rightarrow> 'a list \<Rightarrow> ('a \<Rightarrow> int) \<Rightarrow> 'a list \<Rightarrow> bool" where
  "kahn_inv nodes depsOf remaining indeg result \<longleftrightarrow>
     distinct nodes \<and> distinct result \<and> topo depsOf result \<and>
     set remaining = set nodes - set result \<and> set result \<subseteq> set nodes \<and>
     (\<forall>m \<in> set nodes. indeg m = int (length (filter (\<lambda>d. d \<notin> set result) (depsOf m))))"

lemma length_filter_insert:
  "i \<notin> S \<Longrightarrow> int (length (filter (\<lambda>d. d \<notin> S) xs)) - int (count_list xs i)
     = int (length (filter (\<lambda>d. d \<notin> insert i S) xs))"
  by (induction xs) auto

lemma kahn_inv_place:
  assumes "kahn_inv nodes depsOf remaining indeg result" "i \<in> set remaining" "\<not> indeg i > 0"
  shows "kahn_inv nodes depsOf (filter (\<lambda>x. x \<noteq> i) remaining) (settle nodes depsOf i indeg) (result @ [i])"
proof -
  have i: "i \<in> set nodes" "i \<notin> set result" using assms(1,2) by (auto simp: kahn_inv_def)
  have "indeg i = int (length (filter (\<lambda>d. d \<notin> set result) (depsOf i)))"
    using assms(1) i by (simp add: kahn_inv_def)
  then have "filter (\<lambda>d. d \<notin> set result) (depsOf i) = []" using assms(3) by simp
  then have "set (depsOf i) \<subseteq> set result" by (auto simp: filter_empty_conv)
  moreover have "\<forall>m \<in> set nodes. settle nodes depsOf i indeg m =
      int (length (filter (\<lambda>d. d \<notin> set (result @ [i])) (depsOf m)))"
    using assms(1) length_filter_insert [OF i(2)] by (auto simp: kahn_inv_def settle_eq)
  ultimately show ?thesis using assms(1) i by (auto simp: kahn_inv_def)
qed

lemma kahn_pass_inv:
  "kahn_pass nodes depsOf is (remaining, indeg, result, p) = (remaining', indeg', result', p') \<Longrightarrow>
   kahn_inv nodes depsOf remaining indeg result \<Longrightarrow> kahn_inv nodes depsOf remaining' indeg' result'"
proof (induction "is" arbitrary: remaining indeg result p)
  case (Cons i "is")
  show ?case
  proof (cases "i \<notin> set remaining \<or> indeg i > 0")
    case False
    then have "kahn_inv nodes depsOf (filter (\<lambda>x. x \<noteq> i) remaining) (settle nodes depsOf i indeg) (result @ [i])"
      using Cons.prems(2) by (intro kahn_inv_place) auto
    then show ?thesis using Cons False by auto
  qed (use Cons in auto)
qed simp

text \<open>A pass without progress leaves the state, and every node it scanned is blocked.\<close>

lemma kahn_pass_true: "snd (snd (snd (kahn_pass nodes depsOf is (r, g, x, True))))"
proof (induction "is" arbitrary: r g x)
  case (Cons i "is")
  then show ?case by simp
qed simp

lemma kahn_pass_stuck:
  "kahn_pass nodes depsOf is (remaining, indeg, result, False) = (remaining', indeg', result', False) \<Longrightarrow>
   remaining' = remaining \<and> indeg' = indeg \<and> result' = result
   \<and> (\<forall>i \<in> set is. i \<in> set remaining \<longrightarrow> indeg i > 0)"
proof (induction "is")
  case (Cons i "is")
  show ?case
  proof (cases "i \<notin> set remaining \<or> indeg i > 0")
    case False
    then show ?thesis
      using Cons.prems kahn_pass_true [of nodes depsOf "is" "filter (\<lambda>x. x \<noteq> i) remaining"
          "settle nodes depsOf i indeg" "result @ [i]"] by simp
  qed (use Cons in auto)
qed simp

lemma kahn_loop_result:
  "kahn_inv nodes depsOf remaining indeg result \<Longrightarrow>
   \<exists>remaining' indeg'. kahn_inv nodes depsOf remaining' indeg' (kahn_loop nodes depsOf remaining indeg result)
     \<and> (\<forall>i \<in> set remaining'. indeg' i > 0)"
proof (induction nodes depsOf remaining indeg result rule: kahn_loop.induct)
  case (1 nodes depsOf remaining indeg result)
  show ?case
  proof (cases "remaining = []")
    case True
    then show ?thesis using "1.prems"
      by (subst kahn_loop.simps) (auto intro!: exI [of _ "[]"])
  next
    case False
    obtain r' g' x' p' where k: "kahn_pass nodes depsOf nodes (remaining, indeg, result, False) = (r', g', x', p')"
      by (metis surj_pair)
    have inv: "kahn_inv nodes depsOf r' g' x'" by (rule kahn_pass_inv [OF k "1.prems"])
    show ?thesis
    proof (cases p')
      case True
      then have "kahn_loop nodes depsOf remaining indeg result = kahn_loop nodes depsOf r' g' x'"
        using k False by (subst kahn_loop.simps) simp
      then show ?thesis using "1.IH" [OF False k [symmetric] refl refl True inv] by simp
    next
      case stuck: False
      then have e: "kahn_loop nodes depsOf remaining indeg result = x'"
        using k False by (subst kahn_loop.simps) simp
      have s: "r' = remaining" "g' = indeg" "\<forall>i \<in> set nodes. i \<in> set remaining \<longrightarrow> indeg i > 0"
        using kahn_pass_stuck [of nodes depsOf nodes remaining indeg result r' g' x'] k stuck by auto
      have "set r' \<subseteq> set nodes" using inv by (auto simp: kahn_inv_def)
      then have "\<forall>i \<in> set r'. g' i > 0" using s by auto
      then show ?thesis using e inv by blast
    qed
  qed
qed

text \<open>In a finite set where every element has a dependency in the set, something depends on
  itself.\<close>

lemma blocked_set_cycle:
  assumes "finite S" "S \<noteq> {}" "\<And>i. i \<in> S \<Longrightarrow> \<exists>d \<in> set (depsOf i). d \<in> S"
  shows "\<exists>x \<in> S. (x, x) \<in> (dep_rel depsOf)\<^sup>+"
proof (rule ccontr)
  assume a: "\<not> (\<exists>x \<in> S. (x, x) \<in> (dep_rel depsOf)\<^sup>+)"
  let ?R = "Restr (dep_rel depsOf) S"
  have "finite ?R" by (rule finite_subset [of _ "S \<times> S"]) (use assms(1) in auto)
  moreover have "acyclic ?R"
  proof (rule acyclicI, rule allI, rule notI)
    fix x assume x: "(x, x) \<in> ?R\<^sup>+"
    then have "(x, x) \<in> (dep_rel depsOf)\<^sup>+" by (rule trancl_mono) auto
    moreover have "x \<in> S" using x by (auto dest: tranclD)
    ultimately show False using a by blast
  qed
  ultimately have w: "wf (?R\<inverse>)" by (rule finite_acyclic_wf_converse)
  obtain x where "x \<in> S" using assms(2) by blast
  from wfE_min [OF w this] obtain k where k: "k \<in> S" "\<And>y. (y, k) \<in> ?R\<inverse> \<Longrightarrow> y \<notin> S" by blast
  from assms(3) [OF k(1)] obtain d where "d \<in> set (depsOf k)" "d \<in> S" by blast
  then show False using k(1) k(2) [of d] by simp
qed

lemma kahnTopoSort_correct:
  assumes "distinct nodes" "closed_under depsOf (set nodes)"
  shows "distinct (kahnTopoSort nodes depsOf (indegree depsOf))"
    and "topo depsOf (kahnTopoSort nodes depsOf (indegree depsOf))"
    and "set (kahnTopoSort nodes depsOf (indegree depsOf)) \<subseteq> set nodes"
    and "(\<forall>x \<in> set nodes. (x, x) \<notin> (dep_rel depsOf)\<^sup>+) \<longleftrightarrow>
         length (kahnTopoSort nodes depsOf (indegree depsOf)) = length nodes"
proof -
  let ?r = "kahnTopoSort nodes depsOf (indegree depsOf)"
  have "kahn_inv nodes depsOf nodes (indegree depsOf) []"
    using assms(1) by (simp add: kahn_inv_def indegree_def)
  from kahn_loop_result [OF this] obtain remaining g
    where inv: "kahn_inv nodes depsOf remaining g ?r" and blocked: "\<forall>i \<in> set remaining. g i > 0"
    unfolding kahnTopoSort_def by blast
  show d: "distinct ?r" and t: "topo depsOf ?r" and s: "set ?r \<subseteq> set nodes"
    using inv by (auto simp: kahn_inv_def)
  have rem: "set remaining = set nodes - set ?r" using inv by (simp add: kahn_inv_def)
  have dep: "\<exists>d \<in> set (depsOf i). d \<in> set remaining" if i: "i \<in> set remaining" for i
  proof -
    have "int (length (filter (\<lambda>d. d \<notin> set ?r) (depsOf i))) > 0"
      using inv blocked i rem by (auto simp: kahn_inv_def)
    then obtain d where "d \<in> set (depsOf i)" "d \<notin> set ?r" by (auto simp: filter_empty_conv)
    moreover have "d \<in> set nodes" using assms(2) i rem calculation(1) by (auto dest: closed_underD)
    ultimately show ?thesis using rem by auto
  qed
  have full: "length ?r = length nodes \<longleftrightarrow> set remaining = {}"
  proof
    assume "length ?r = length nodes"
    then have "set ?r = set nodes"
      using d s assms(1) by (metis card_subset_eq distinct_card finite_set)
    then show "set remaining = {}" using rem by simp
  next
    assume "set remaining = {}"
    then have "set ?r = set nodes" using rem s by auto
    then show "length ?r = length nodes" using d assms(1) by (metis distinct_card)
  qed
  show "(\<forall>x \<in> set nodes. (x, x) \<notin> (dep_rel depsOf)\<^sup>+) \<longleftrightarrow> length ?r = length nodes"
  proof
    assume a: "\<forall>x \<in> set nodes. (x, x) \<notin> (dep_rel depsOf)\<^sup>+"
    show "length ?r = length nodes"
    proof (rule ccontr)
      assume "length ?r \<noteq> length nodes"
      then have ne: "set remaining \<noteq> {}" using full by simp
      from blocked_set_cycle [OF finite_set ne] dep
      obtain x where x: "x \<in> set remaining" "(x, x) \<in> (dep_rel depsOf)\<^sup>+" by blast
      then show False using a rem by blast
    qed
  next
    assume "length ?r = length nodes"
    then have "set ?r = set nodes" using full rem s by auto
    then show "\<forall>x \<in> set nodes. (x, x) \<notin> (dep_rel depsOf)\<^sup>+" using topo_no_cycle [OF t] by simp
  qed
qed

lemma assemblyNodes_fold:
  assumes "distinct acc"
  shows "distinct (foldl (\<lambda>order r. if P r then (if r_ID r = [] then order else appendUnique order (r_ID r)) else order) acc reqs)
    \<and> set (foldl (\<lambda>order r. if P r then (if r_ID r = [] then order else appendUnique order (r_ID r)) else order) acc reqs)
       = set acc \<union> {i. i \<noteq> [] \<and> (\<exists>r \<in> set reqs. r_ID r = i \<and> P r)}"
  using assms
proof (induction reqs arbitrary: acc)
  case (Cons r reqs)
  let ?a = "if P r then (if r_ID r = [] then acc else appendUnique acc (r_ID r)) else acc"
  have "distinct ?a" "set ?a = set acc \<union> (if P r \<and> r_ID r \<noteq> [] then {r_ID r} else {})"
    using Cons.prems by (auto simp: appendUnique_def)
  then show ?case using Cons.IH [of ?a] by auto
qed simp

lemma assemblyNodes_distinct: "distinct (assemblyNodes reqs stories)"
  unfolding assemblyNodes_def Let_def by (rule assemblyNodes_fold [THEN conjunct1]) simp

lemma set_assemblyNodes: "set (assemblyNodes reqs stories) =
    {i. i \<noteq> [] \<and> i \<in> r_ID ` set reqs \<and>
        (i \<in> DeterministicStoryOwner ` set stories \<or> (\<forall>s \<in> set stories. i \<notin> set (s_RequirementIDs s)))}"
  using assemblyNodes_fold [of "[]"
      "\<lambda>r. r_ID r \<in> set (filter (\<lambda>o'. o' \<noteq> []) (map DeterministicStoryOwner stories))
          \<or> r_ID r \<notin> set (concat (map s_RequirementIDs stories))" reqs]
  by (auto simp: assemblyNodes_def Let_def)

lemma assemblyDeps_closed: "closed_under (assemblyDeps nodes reqs stories) (set nodes)"
  by (auto simp: closed_under_def assemblyDeps_def)

section \<open>Properties\<close>



end
