(* ===== verification/Review.thy ===== *)
theory Review
  imports Mutations Assembly
begin

text \<open>
  The review handlers of \<^verbatim>\<open>src/processor/plan-manager/mutations.go\<close> (verdicts of the four
  plan-review rounds, the bounded revision loop with its accumulated findings and its re-entry
  points, QA start and verdict, final approval) and the rendering of findings in
  \<^verbatim>\<open>src/workflow/plan_review_result.go\<close>.  The raw JSON of the findings is the datatype
  \<open>RawFindings\<close>: absent, unparseable, or a list.  The sandbox merge is a parameter, as in
  theory \<open>Assembly\<close>, and so is the text of its errors.
\<close>

section \<open>Rendering findings\<close>

text \<open>\<^verbatim>\<open>strings.ToUpper\<close> on ASCII letters; other bytes are kept.\<close>

definition ToUpper :: "bytes \<Rightarrow> bytes" where
  "ToUpper s = map (\<lambda>c. let n = (of_char c :: nat) in if 97 \<le> n \<and> n \<le> 122 then char_of (n - 32) else c) s"

record PlanReviewResult =
  prr_Verdict :: bytes
  prr_Summary :: bytes
  prr_Findings :: "PlanReviewFinding list"

definition IsApproved :: "PlanReviewResult \<Rightarrow> bool" where
  "IsApproved r \<longleftrightarrow> prr_Verdict r = ''approved''"

definition is_error :: "PlanReviewFinding \<Rightarrow> bool" where
  "is_error f \<longleftrightarrow> f_Severity f = ''error'' \<and> f_Status f = ''violation''"

definition ErrorFindings :: "PlanReviewResult \<Rightarrow> PlanReviewFinding list" where
  "ErrorFindings r = filter is_error (prr_Findings r)"

definition NormalizeVerdict :: "PlanReviewResult \<Rightarrow> PlanReviewResult" where
  "NormalizeVerdict r =
     (if ErrorFindings r \<noteq> [] then r\<lparr>prr_Verdict := ''needs_changes''\<rparr>
      else if prr_Verdict r = ''needs_changes'' then r\<lparr>prr_Verdict := ''approved''\<rparr>
      else r)"

definition findingHeader :: "PlanReviewFinding \<Rightarrow> bytes" where
  "findingHeader f =
     (let parts = (if f_SOPTitle f \<noteq> [] \<and> f_SOPTitle f \<noteq> ''n/a'' then [f_SOPTitle f]
                   else if f_Category f \<noteq> [] then [''category='' @ f_Category f] else [])
                @ (if f_Phase f \<noteq> [] then [''phase='' @ f_Phase f] else [])
                @ (if f_TargetID f \<noteq> [] then [''target='' @ f_TargetID f] else [])
      in if parts = [] then ''(no detail)'' else Join '' '' parts)"

definition tick_quote :: "bytes \<Rightarrow> bytes" where
  "tick_quote s = [CHR 0x60] @ s @ [CHR 0x60]"

definition formatActionDirective :: "PlanReviewFinding \<Rightarrow> bytes" where
  "formatActionDirective f =
     (let verb = ToUpper (TrimSpace (f_Action f)); value = TrimSpace (f_TargetValue f);
          field = TrimSpace (f_TargetField f)
      in if value \<noteq> [] \<and> field \<noteq> [] then
           (if verb = ''ADD'' then ''ADD '' @ tick_quote value @ '' TO '' @ tick_quote field
            else if verb = ''REMOVE'' then ''REMOVE '' @ tick_quote value @ '' FROM '' @ tick_quote field
            else if verb = ''MOVE'' then ''MOVE '' @ tick_quote value @ '' TO '' @ tick_quote field
            else verb @ '' '' @ tick_quote value @ '' IN '' @ tick_quote field)
         else if value \<noteq> [] then verb @ '' '' @ tick_quote value
         else if field \<noteq> [] then verb @ '' in '' @ tick_quote field
         else verb)"

definition line :: "bytes \<Rightarrow> bytes \<Rightarrow> bytes" where
  "line label s = (if s \<noteq> [] then ''  - '' @ label @ '': '' @ s @ [CHR 0x0A] else [])"

definition writeViolationFinding :: "PlanReviewFinding \<Rightarrow> bytes" where
  "writeViolationFinding f =
     ''- **['' @ ToUpper (f_Severity f) @ '']** '' @ findingHeader f @ [CHR 0x0A]
     @ (if f_Action f \<noteq> [] then ''  - Action: '' @ formatActionDirective f @ [CHR 0x0A] else [])
     @ line ''Issue'' (f_Issue f) @ line ''Evidence'' (f_Evidence f)
     @ line ''Suggestion'' (f_Suggestion f) @ [CHR 0x0A]"

definition FormatFindings :: "PlanReviewResult \<Rightarrow> bytes" where
  "FormatFindings r =
     (if prr_Findings r = [] then ''No findings.''
      else let violations = filter (\<lambda>f. f_Status f = ''violation'') (prr_Findings r);
               compliant = filter (\<lambda>f. f_Status f = ''compliant'') (prr_Findings r)
           in (if violations \<noteq> [] then ''### Violations'' @ [CHR 0x0A, CHR 0x0A] @
                   concat (map writeViolationFinding violations) else [])
            @ (if compliant \<noteq> [] then ''### Compliant'' @ [CHR 0x0A, CHR 0x0A] @
                   concat (map (\<lambda>f. ''- '' @ findingHeader f @ [CHR 0x0A]) compliant) @ [CHR 0x0A]
               else []))"

section \<open>Accumulated findings\<close>

fun parse_findings :: "RawFindings \<Rightarrow> PlanReviewFinding list option" where
  "parse_findings (RawFindings fs) = Some fs"
| "parse_findings _ = None"

definition formatReviewFindings :: "RawFindings \<Rightarrow> bytes \<Rightarrow> bytes \<Rightarrow> bytes" where
  "formatReviewFindings raw summary verdict =
     (case parse_findings raw of
        Some fs \<Rightarrow> FormatFindings \<lparr>prr_Verdict = verdict, prr_Summary = summary, prr_Findings = fs\<rparr>
      | None \<Rightarrow> summary)"

definition roundPhases :: "int \<Rightarrow> bytes list option" where
  "roundPhases round =
     (if round = 1 then Some [''plan'']
      else if round = 2 then Some [''scenarios'', ''stories'']
      else if round = 3 then Some [''architecture'']
      else if round = 4 then Some [''requirements'']
      else None)"

definition finding_key :: "PlanReviewFinding \<Rightarrow> PlanReviewFinding" where
  "finding_key f = f\<lparr>f_Evidence := [], f_Suggestion := [], f_Issue := []\<rparr>"

definition add_finding :: "PlanReviewFinding list \<Rightarrow> PlanReviewFinding \<Rightarrow> PlanReviewFinding list" where
  "add_finding merged f = (if finding_key f \<in> set (map finding_key merged) then merged else merged @ [f])"

definition in_phase :: "bytes list option \<Rightarrow> PlanReviewFinding \<Rightarrow> bool" where
  "in_phase phases f = (case phases of None \<Rightarrow> True | Some ps \<Rightarrow> f_Phase f \<in> set ps)"

definition mergeReviewFindings :: "RawFindings \<Rightarrow> RawFindings \<Rightarrow> int \<Rightarrow> RawFindings" where
  "mergeReviewFindings existing incoming round =
     (case parse_findings incoming of
        None \<Rightarrow> existing
      | Some nxt \<Rightarrow>
          let prior = (case parse_findings existing of Some fs \<Rightarrow> fs | None \<Rightarrow> []) in
          RawFindings (foldl add_finding [] (filter (in_phase (roundPhases round)) prior @ nxt)))"

section \<open>Re-entry points\<close>

definition reenterArchitecturePhase :: "Plan \<Rightarrow> Status \<times> Plan" where
  "reenterArchitecturePhase plan =
     (StatusRequirementsGenerated,
      plan\<lparr>p_PreviousArchitectureJSON := p_Architecture plan, p_Architecture := None,
           p_Stories := [], p_Scenarios := []\<rparr>)"

definition reenterRequirementsPhase :: "Plan \<Rightarrow> Status \<times> Plan" where
  "reenterRequirementsPhase plan =
     (StatusApproved, plan\<lparr>p_Requirements := [], p_Architecture := None, p_Stories := [], p_Scenarios := []\<rparr>)"

definition clear_all :: "Plan \<Rightarrow> Plan" where
  "clear_all plan = plan\<lparr>p_Requirements := [], p_Architecture := None, p_Stories := [], p_Scenarios := []\<rparr>"

definition determineR2ReentryPoint :: "Plan \<Rightarrow> RawFindings \<Rightarrow> Status \<times> Plan" where
  "determineR2ReentryPoint plan0 raw =
     (let plan = plan0\<lparr>p_PreviousArchitectureJSON := None\<rparr> in
      case parse_findings raw of
        None \<Rightarrow> (StatusApproved, clear_all plan)
      | Some findings \<Rightarrow>
          let hit = set (filter (\<lambda>ph. ph \<noteq> []) (map f_Phase (filter is_error findings))) in
          if hit = {} then (StatusApproved, clear_all plan)
          else if ''plan'' \<in> hit then (StatusCreated, clear_all plan)
          else if ''requirements'' \<in> hit then reenterRequirementsPhase plan
          else if ''architecture'' \<in> hit then reenterArchitecturePhase plan
          else if ''stories'' \<in> hit
          then (StatusArchitectureGenerated, plan\<lparr>p_Stories := [], p_Scenarios := []\<rparr>)
          else if ''scenarios'' \<in> hit then (StatusArchitectureGenerated, plan\<lparr>p_Scenarios := []\<rparr>)
          else (StatusApproved, clear_all plan))"

section \<open>Review verdicts\<close>

record ReviewedMutationRequest =
  rv_Slug :: bytes
  rv_Verdict :: bytes
  rv_Summary :: bytes

definition handleReviewedMutation :: "ReviewedMutationRequest option \<Rightarrow> handler" where
  "handleReviewedMutation data env c =
     (case data of
        None \<Rightarrow> (Some Unmarshal, c)
      | Some req \<Rightarrow>
          if rv_Slug req = [] then (Some Required, c)
          else with_plan env (rv_Slug req) (\<lambda>plan c.
            let current = EffectiveStatus plan in
            if \<not> Status_CanTransitionTo current StatusReviewed
            then (Some (BadTransition current StatusReviewed), c)
            else save_reply (en_save env 0)
                   (plan\<lparr>p_ReviewVerdict := rv_Verdict req, p_ReviewSummary := rv_Summary req,
                         p_ReviewedAt := Some (en_now env), p_Status := StatusReviewed\<rparr>) c) c)"

definition refreshApprovedReviewMetadata :: "nat \<Rightarrow> bytes \<Rightarrow> Plan \<Rightarrow> Plan" where
  "refreshApprovedReviewMetadata now summary plan =
     plan\<lparr>p_ReviewVerdict := ''approved'',
          p_ReviewSummary := (if summary \<noteq> [] then summary else p_ReviewSummary plan),
          p_ReviewFindings := RawEmpty, p_ReviewFormattedFindings := [], p_ReviewedAt := Some now\<rparr>"

definition planHasAcceptedStoryReprepareDecision :: "Plan \<Rightarrow> bool" where
  "planHasAcceptedStoryReprepareDecision plan =
     list_ex (\<lambda>d. d_Status d = PlanDecisionStatusAccepted \<and> d_Kind d = PlanDecisionKindStoryReprepare)
       (p_PlanDecisions plan)"

record RoundReviewedRequest =
  ro_Slug :: bytes
  ro_Summary :: bytes

definition handleScenariosReviewedMutation :: "RoundReviewedRequest option \<Rightarrow> handler" where
  "handleScenariosReviewedMutation data env c =
     (case data of
        None \<Rightarrow> (Some Unmarshal, c)
      | Some req \<Rightarrow>
          if ro_Slug req = [] then (Some Required, c)
          else with_plan env (ro_Slug req) (\<lambda>plan c.
            let current = EffectiveStatus plan in
            if \<not> Status_CanTransitionTo current StatusScenariosReviewed
            then (Some (BadTransition current StatusScenariosReviewed), c)
            else let plan1 = refreshApprovedReviewMetadata (en_now env) (ro_Summary req)
                               (plan\<lparr>p_Status := StatusScenariosReviewed\<rparr>)
                 in case save_reply (en_save env 0) plan1 c of
                      (Some e, c1) \<Rightarrow> (Some e, c1)
                    | (None, c1) \<Rightarrow>
                        if planHasAcceptedStoryReprepareDecision plan1
                        then transitionToReadyForExecution env 1 plan1 [] c1
                        else (None, c1)) c)"

definition handleArchitectureReviewedMutation :: "RoundReviewedRequest option \<Rightarrow> handler" where
  "handleArchitectureReviewedMutation data env c =
     (case data of
        None \<Rightarrow> (Some Unmarshal, c)
      | Some req \<Rightarrow>
          if ro_Slug req = [] then (Some Required, c)
          else with_plan env (ro_Slug req) (\<lambda>plan c.
            let current = EffectiveStatus plan in
            if \<not> Status_CanTransitionTo current StatusArchitectureReviewed
            then (Some (BadTransition current StatusArchitectureReviewed), c)
            else save_reply (en_save env 0) (refreshApprovedReviewMetadata (en_now env) (ro_Summary req)
                   (plan\<lparr>p_Status := StatusArchitectureReviewed\<rparr>)) c) c)"

definition handleRequirementsReviewedMutation :: "RoundReviewedRequest option \<Rightarrow> handler" where
  "handleRequirementsReviewedMutation data env c =
     (case data of
        None \<Rightarrow> (Some Unmarshal, c)
      | Some req \<Rightarrow>
          if ro_Slug req = [] then (Some Required, c)
          else with_plan env (ro_Slug req) (\<lambda>plan c.
            let current = EffectiveStatus plan in
            if \<not> Status_CanTransitionTo current StatusRequirementsReviewed
            then (Some (BadTransition current StatusRequirementsReviewed), c)
            else save_reply (en_save env 0) (refreshApprovedReviewMetadata (en_now env) (ro_Summary req)
                   (plan\<lparr>p_Status := StatusRequirementsReviewed\<rparr>)) c) c)"

definition handleReadyForExecutionMutation :: "bytes option \<Rightarrow> handler" where
  "handleReadyForExecutionMutation data env c =
     (case data of
        None \<Rightarrow> (Some Unmarshal, c)
      | Some slug \<Rightarrow>
          if slug = [] then (Some Required, c)
          else with_plan env slug (\<lambda>plan c.
            let current = EffectiveStatus plan in
            if \<not> Status_CanTransitionTo current StatusReadyForExecution
            then (Some (BadTransition current StatusReadyForExecution), c)
            else transitionToReadyForExecution env 0
                   (refreshApprovedReviewMetadata (en_now env) ''Plan approved; ready for execution.'' plan)
                   [] c) c)"

section \<open>Revision\<close>

record RevisionMutationRequest =
  rn_Slug :: bytes
  rn_Round :: int
  rn_Verdict :: bytes
  rn_Summary :: bytes
  rn_Findings :: RawFindings

definition escalateRevision :: "Env \<Rightarrow> Plan \<Rightarrow> RevisionMutationRequest \<Rightarrow> Status \<Rightarrow> int \<Rightarrow> Comp \<Rightarrow> merr option \<times> Comp" where
  "escalateRevision env plan req current maxIterations c =
     (if \<not> Status_CanTransitionTo current StatusRejected
      then (Some (BadTransition current StatusRejected), c)
      else let plan1 = plan\<lparr>p_ReviewVerdict := ''escalated'',
                 p_ReviewSummary := ''Max revisions exceeded after '' @ show_int maxIterations
                   @ '' attempts: '' @ rn_Summary req,
                 p_LastError := ''review revision cap reached ('' @ show_int (p_ReviewIteration plan) @ ''/''
                   @ show_int maxIterations @ ''): '' @ rn_Summary req,
                 p_LastErrorAt := Some (en_now env), p_ReviewedAt := Some (en_now env),
                 p_Status := StatusRejected\<rparr>
           in case save_reply (en_save env 0) plan1 c of
                (Some e, c1) \<Rightarrow> (Some e, c1)
              | (None, c1) \<Rightarrow>
                  (None, publish (RequestRecovery \<lparr>rr_Slug = rn_Slug req,
                     rr_EscalationReason = p_LastError plan1,
                     rr_LastFailureFeedback = p_ReviewFormattedFindings plan1,
                     rr_AffectedRequirementIDs = []\<rparr>) c1))"

definition expected_status :: "int \<Rightarrow> Status" where
  "expected_status round =
     (if round = 2 then StatusReviewingScenarios
      else if round = 3 then StatusReviewingArchitecture
      else if round = 4 then StatusReviewingRequirements
      else StatusReviewingDraft)"

definition max_iterations :: "Comp \<Rightarrow> int" where
  "max_iterations c = (if MaxReviewIterations (co_config c) \<le> 0 then 1 else MaxReviewIterations (co_config c))"

definition record_review :: "RevisionMutationRequest \<Rightarrow> Plan \<Rightarrow> Plan" where
  "record_review req plan =
     (let merged = mergeReviewFindings (p_ReviewFindings plan) (rn_Findings req) (rn_Round req) in
      plan\<lparr>p_ReviewIteration := p_ReviewIteration plan + 1, p_ReviewFindings := merged,
           p_ReviewSummary := rn_Summary req, p_ReviewVerdict := rn_Verdict req,
           p_ReviewFormattedFindings := formatReviewFindings merged (rn_Summary req) (rn_Verdict req)\<rparr>)"

definition reentry :: "RevisionMutationRequest \<Rightarrow> Plan \<Rightarrow> Status \<times> Plan" where
  "reentry req plan =
     (if rn_Round req = 1 then (StatusCreated, plan)
      else if rn_Round req = 2 then determineR2ReentryPoint plan (rn_Findings req)
      else if rn_Round req = 3 then reenterArchitecturePhase plan
      else reenterRequirementsPhase plan)"

definition handleRevisionMutation :: "RevisionMutationRequest option \<Rightarrow> handler" where
  "handleRevisionMutation data env c =
     (case data of
        None \<Rightarrow> (Some Unmarshal, c)
      | Some req \<Rightarrow>
          if rn_Slug req = [] \<or> rn_Round req < 1 \<or> rn_Round req > 4 then (Some Required, c)
          else if rn_Verdict req \<noteq> ''needs_changes'' then (Some NotNeedsChanges, c)
          else with_plan env (rn_Slug req) (\<lambda>plan c.
            let current = EffectiveStatus plan in
            if current \<noteq> expected_status (rn_Round req)
            then (Some (WrongRound (nat (rn_Round req)) (expected_status (rn_Round req)) current), c)
            else let plan1 = record_review req plan in
              if p_ReviewIteration plan1 \<ge> max_iterations c
              then escalateRevision env plan1 req current (max_iterations c) c
              else case reentry req plan1 of (targetStatus, plan2) \<Rightarrow>
                if \<not> Status_CanTransitionTo current targetStatus
                then (Some (BadTransition current targetStatus), c)
                else let plan3 = plan2\<lparr>p_Status := targetStatus\<rparr>;
                         plan4 = (if targetStatus = StatusCreated
                                  then plan3\<lparr>p_Approved := False, p_ApprovedAt := None\<rparr> else plan3)
                     in save_reply (en_save env 0) plan4 c) c)"

section \<open>QA\<close>

definition shouldGateReview :: "Comp \<Rightarrow> Plan \<Rightarrow> bool" where
  "shouldGateReview c plan =
     (if p_GitHub plan \<noteq> None then True
      else \<not> (case AutoApproveReview (co_config c) of None \<Rightarrow> True | Some b \<Rightarrow> b))"

record qaStartRequest =
  qs_Slug :: bytes
  qs_QARun :: "QARun option"

definition handleQAStartMutation :: "qaStartRequest option \<Rightarrow> handler" where
  "handleQAStartMutation data env c =
     (case data of
        None \<Rightarrow> (Some Unmarshal, c)
      | Some req \<Rightarrow>
          if qs_Slug req = [] then (Some Required, c)
          else with_plan env (qs_Slug req) (\<lambda>plan c.
            let current = EffectiveStatus plan; already = (current = StatusReviewingQA) in
            if current \<noteq> StatusReadyForQA \<and> current \<noteq> StatusReviewingQA
            then (Some (QANotReady current), c)
            else if \<not> already \<and> \<not> Status_CanTransitionTo current StatusReviewingQA
            then (Some (BadTransition current StatusReviewingQA), c)
            else let plan1 = (if qs_QARun req \<noteq> None then plan\<lparr>p_QARun := qs_QARun req\<rparr> else plan);
                     plan2 = (if \<not> already then plan1\<lparr>p_Status := StatusReviewingQA\<rparr> else plan1)
                 in case save_reply (en_save env 0) plan2 c of
                      (Some e, c1) \<Rightarrow> (Some e, c1)
                    | (None, c1) \<Rightarrow>
                        (None, if \<not> already then publish (EnsureQAWorktree (p_Slug plan2)) c1 else c1)) c)"

record QAVerdictEvent =
  qe_Slug :: bytes
  qe_Level :: QALevel
  qe_Verdict :: QAVerdict
  qe_Summary :: bytes
  qe_Dimensions :: QAVerdictDimensions
  qe_PlanDecisions :: "PlanDecision list"

definition collectActiveRequirementIDsForRecovery :: "Plan \<Rightarrow> bytes list" where
  "collectActiveRequirementIDsForRecovery plan =
     map r_ID (filter (\<lambda>r. r_Status r = RequirementStatusOther [] \<or> r_Status r = RequirementStatusActive)
       (p_Requirements plan))"

definition verdict_approves :: "QAVerdict \<Rightarrow> bool" where
  "verdict_approves v \<longleftrightarrow> v = QAVerdictApproved \<or> v = QAVerdictConditionallyApproved"

definition verdict_rejects :: "QAVerdict \<Rightarrow> bool" where
  "verdict_rejects v \<longleftrightarrow> v = QAVerdictNeedsChanges \<or> v = QAVerdictRejected"

text \<open>\<open>verdict_text\<close> and \<open>level_text\<close> are the wire forms in the escalation reason.\<close>

definition fireQAVerdictRecovery :: "(QAVerdict \<Rightarrow> bytes) \<Rightarrow> Plan \<Rightarrow> QAVerdictEvent \<Rightarrow> Comp \<Rightarrow> Comp" where
  "fireQAVerdictRecovery verdict_text plan req c =
     (if \<not> verdict_rejects (qe_Verdict req) then c
      else publish (RequestRecovery \<lparr>rr_Slug = qe_Slug req,
             rr_EscalationReason = ''QA verdict '' @ verdict_text (qe_Verdict req) @ '' at level ''
               @ QALevel_String (qe_Level req),
             rr_LastFailureFeedback = qe_Summary req,
             rr_AffectedRequirementIDs = collectActiveRequirementIDsForRecovery plan\<rparr>) c)"

definition finish_qa :: "(QAVerdict \<Rightarrow> bytes) \<Rightarrow> Env \<Rightarrow> Plan \<Rightarrow> QAVerdictEvent \<Rightarrow> Comp \<Rightarrow> merr option \<times> Comp" where
  "finish_qa verdict_text env plan req c =
     (case save_reply (en_save env 0) plan c of
        (Some e, c1) \<Rightarrow> (Some e, c1)
      | (None, c1) \<Rightarrow>
          (None, fireQAVerdictRecovery verdict_text plan req (publish (DeleteQAWorktree (qe_Slug req)) c1)))"

definition handleQAVerdictMutation :: "(QAVerdict \<Rightarrow> bytes) \<Rightarrow> (assembly_error \<Rightarrow> bytes) \<Rightarrow>
    (bytes \<Rightarrow> bytes list \<Rightarrow> merge_result) option \<Rightarrow> QAVerdictEvent option \<Rightarrow> handler" where
  "handleQAVerdictMutation verdict_text errtext merge data env c =
     (case data of
        None \<Rightarrow> (Some Unmarshal, c)
      | Some req \<Rightarrow>
          if qe_Slug req = [] then (Some Required, c)
          else if \<not> verdict_approves (qe_Verdict req) \<and> \<not> verdict_rejects (qe_Verdict req)
          then (Some BadVerdict, c)
          else with_plan env (qe_Slug req) (\<lambda>plan c.
            let current = EffectiveStatus plan in
            if current \<noteq> StatusReviewingRollup \<and> current \<noteq> StatusReviewingQA
            then (Some (QANotReady current), c)
            else let plan1 = plan\<lparr>p_QAVerdictSummary := Some \<lparr>qv_Verdict = qe_Verdict req,
                        qv_Level = qe_Level req, qv_Summary = qe_Summary req,
                        qv_Dimensions = qe_Dimensions req, qv_RecordedAt = en_now env\<rparr>\<rparr>
                 in if verdict_approves (qe_Verdict req) then
                      (let target = (if shouldGateReview c plan1 then StatusAwaitingReview else StatusComplete) in
                       if \<not> Status_CanTransitionTo current target then (Some (BadTransition current target), c)
                       else case assembleRequirementBranches merge plan1 of
                         (Some e, plan2) \<Rightarrow>
                           (Some MergeFailure, snd (save_reply (en_save env 0)
                              (plan2\<lparr>p_LastError := ''plan-level merge failed: '' @ errtext e,
                                     p_LastErrorAt := Some (en_now env)\<rparr>) c))
                       | (None, plan2) \<Rightarrow> finish_qa verdict_text env (plan2\<lparr>p_Status := target\<rparr>) req c)
                    else if \<not> Status_CanTransitionTo current StatusRejected
                    then (Some (BadTransition current StatusRejected), c)
                    else finish_qa verdict_text env
                      (plan1\<lparr>p_LastError := qe_Summary req, p_LastErrorAt := Some (en_now env),
                             p_Status := StatusRejected,
                             p_PlanDecisions := p_PlanDecisions plan1 @ qe_PlanDecisions req\<rparr>) req c) c)"

definition handleReviewApproveMutation :: "bytes option \<Rightarrow> handler" where
  "handleReviewApproveMutation data env c =
     (case data of
        None \<Rightarrow> (Some Unmarshal, c)
      | Some slug \<Rightarrow>
          if slug = [] then (Some Required, c)
          else with_plan env slug (\<lambda>plan c.
            let current = EffectiveStatus plan in
            if current \<noteq> StatusAwaitingReview then (Some (ReviewNotAwaiting current), c)
            else if \<not> Status_CanTransitionTo current StatusComplete
            then (Some (BadTransition current StatusComplete), c)
            else save_reply (en_save env 0) (plan\<lparr>p_Status := StatusComplete\<rparr>) c) c)"

section \<open>The handlers meet the contract\<close>

text \<open>A save followed, when it succeeds, by further steps on the saved plan that no longer reject
  cleanly.\<close>

lemma save_then_touches:
  assumes "comp_inv c" "vis c slug = Some p" "p_Slug p = slug" "evolves p q"
    and f: "\<And>c1. comp_inv c1 \<Longrightarrow> vis c1 slug = Some q \<Longrightarrow>
      touches slug c1 (snd (f c1)) \<and> (\<forall>e. fst (f c1) = Some e \<longrightarrow> \<not> clean e)"
    and r: "r = (case save_reply io q c of (Some e, c1) \<Rightarrow> (Some e, c1) | (None, c1) \<Rightarrow> f c1)"
  shows "touches slug c (snd r)" and "fst r = Some e \<Longrightarrow> \<not> clean e"
proof -
  obtain x c1 where s: "save_reply io q c = (x, c1)" by (cases "save_reply io q c")
  have t: "touches slug c c1" using contract_save [OF assms(1-4), of io] s by (simp add: fulfils_def)
  have "touches slug c (snd r) \<and> (\<forall>e. fst r = Some e \<longrightarrow> \<not> clean e)"
  proof (cases x)
    case (Some y)
    then have "\<not> clean y" using s by (auto simp: save_reply_def split: prod.splits)
    then show ?thesis using s t r Some by simp
  next
    case None
    have "p_Slug q = slug" using assms(3,4) by (simp add: evolves_def)
    then have v: "vis c1 slug = Some q" using save_reply_ok(1) s None by simp
    show ?thesis
      using f [OF touches_inv [OF t] v] touches_trans [OF t] s r None by auto
  qed
  then show "touches slug c (snd r)" "fst r = Some e \<Longrightarrow> \<not> clean e" by auto
qed

lemma save_then:
  assumes "comp_inv c" "vis c slug = Some p" "p_Slug p = slug" "evolves p q"
    and "\<And>c1. comp_inv c1 \<Longrightarrow> vis c1 slug = Some q \<Longrightarrow>
      touches slug c1 (snd (f c1)) \<and> (\<forall>e. fst (f c1) = Some e \<longrightarrow> \<not> clean e)"
  shows "fulfils slug c (case save_reply io q c of (Some e, c1) \<Rightarrow> (Some e, c1) | (None, c1) \<Rightarrow> f c1)"
  using save_then_touches [OF assms refl] unfolding fulfils_def by blast

lemma save_then_publish:
  assumes "comp_inv c" "vis c slug = Some p" "p_Slug p = slug" "evolves p q"
    and f: "\<And>c1. co_plans (f c1) = co_plans c1 \<and> co_config (f c1) = co_config c1"
  shows "fulfils slug c (case save_reply io q c of (Some e, c1) \<Rightarrow> (Some e, c1) | (None, c1) \<Rightarrow> (None, f c1))"
  by (rule save_then [OF assms(1-4)]) (use f in \<open>auto simp: touches_def\<close>)

lemma save_then_stop:
  assumes "comp_inv c" "vis c slug = Some p" "p_Slug p = slug" "evolves p q"
  shows "fulfils slug c (Some MergeFailure, snd (save_reply io q c))"
  using contract_save [OF assms, of io] by (auto simp: fulfils_def)

lemma reviewed_meets:
  "comp_inv c \<Longrightarrow> fulfils (case data of Some r \<Rightarrow> rv_Slug r | None \<Rightarrow> []) c (handleReviewedMutation data env c)"
  by (auto simp: handleReviewedMutation_def Let_def split: option.split
      intro!: contract_reject contract_with_plan contract_save evolves_update)

lemma architecture_reviewed_meets:
  "comp_inv c \<Longrightarrow> fulfils (case data of Some r \<Rightarrow> ro_Slug r | None \<Rightarrow> []) c (handleArchitectureReviewedMutation data env c)"
  by (auto simp: handleArchitectureReviewedMutation_def refreshApprovedReviewMetadata_def Let_def split: option.split
      intro!: contract_reject contract_with_plan contract_save evolves_update)

lemma requirements_reviewed_meets:
  "comp_inv c \<Longrightarrow> fulfils (case data of Some r \<Rightarrow> ro_Slug r | None \<Rightarrow> []) c (handleRequirementsReviewedMutation data env c)"
  by (auto simp: handleRequirementsReviewedMutation_def refreshApprovedReviewMetadata_def Let_def split: option.split
      intro!: contract_reject contract_with_plan contract_save evolves_update)

lemma review_approve_meets:
  "comp_inv c \<Longrightarrow> fulfils (case data of Some r \<Rightarrow> r | None \<Rightarrow> []) c (handleReviewApproveMutation data env c)"
  by (auto simp: handleReviewApproveMutation_def Let_def split: option.split
      intro!: contract_reject contract_with_plan contract_save evolves_update)

lemma refresh_frame [simp]:
  "p_Slug (refreshApprovedReviewMetadata now summary p) = p_Slug p"
  "p_ReviewIteration (refreshApprovedReviewMetadata now summary p) = p_ReviewIteration p"
  "p_Requirements (refreshApprovedReviewMetadata now summary p) = p_Requirements p"
  "p_Stories (refreshApprovedReviewMetadata now summary p) = p_Stories p"
  "p_Status (refreshApprovedReviewMetadata now summary p) = p_Status p"
  by (simp_all add: refreshApprovedReviewMetadata_def)

text \<open>A plan that may become ready has an explicit status or is approved, so the status inferred from
  the verdict plays no part.\<close>

lemma refresh_evolves:
  assumes "Status_CanTransitionTo (EffectiveStatus p) StatusReadyForExecution"
  shows "evolves p (refreshApprovedReviewMetadata now summary p)"
proof (rule evolves_keep)
  have "p_Status p \<noteq> StatusEmpty \<or> p_Approved p"
    using assms by (auto simp: EffectiveStatus_def Status_CanTransitionTo_def split: if_splits)
  then show "EffectiveStatus (refreshApprovedReviewMetadata now summary p) = EffectiveStatus p"
    by (auto simp: EffectiveStatus_def refreshApprovedReviewMetadata_def)
qed simp_all

lemma ready_fulfils:
  assumes "comp_inv c" "vis c slug = Some p" "p_Slug p = slug" "evolves p q"
  shows "fulfils slug c (transitionToReadyForExecution env n q force c)"
  using transitionToReady_touches [OF assms] by (auto simp: fulfils_def)

lemma scenarios_reviewed_meets:
  assumes c: "comp_inv c"
  shows "fulfils (case data of Some r \<Rightarrow> ro_Slug r | None \<Rightarrow> []) c (handleScenariosReviewedMutation data env c)"
proof -
  have step: "fulfils slug c (let plan1 = refreshApprovedReviewMetadata now sm (p\<lparr>p_Status := StatusScenariosReviewed\<rparr>)
      in case save_reply io plan1 c of (Some e, c1) \<Rightarrow> (Some e, c1)
         | (None, c1) \<Rightarrow> if planHasAcceptedStoryReprepareDecision plan1
             then transitionToReadyForExecution env 1 plan1 [] c1 else (None, c1))"
    if "comp_inv c" "vis c slug = Some p" "p_Slug p = slug"
      "Status_CanTransitionTo (EffectiveStatus p) StatusScenariosReviewed" for c slug p now sm io
    unfolding Let_def
    by (rule save_then [OF that(1-3)])
       (use that in \<open>auto intro!: evolves_update touches_refl
          transitionToReady_touches(1) [OF _ _ _ evolves_refl]
          dest: transitionToReady_touches(2) [OF _ _ _ evolves_refl, rotated -1]\<close>)
  show ?thesis
    using c unfolding handleScenariosReviewedMutation_def
    by (auto simp: Let_def split: option.split intro!: contract_reject contract_with_plan step [unfolded Let_def])
qed

lemma ready_for_execution_meets:
  "comp_inv c \<Longrightarrow> fulfils (case data of Some r \<Rightarrow> r | None \<Rightarrow> []) c (handleReadyForExecutionMutation data env c)"
  by (auto simp: handleReadyForExecutionMutation_def Let_def split: option.split
      intro!: contract_reject contract_with_plan)
     (rule ready_fulfils, assumption, assumption, rule refl, rule refresh_evolves, assumption)

text \<open>Revision: what a re-entry keeps of the plan.\<close>

lemma plan_ok_empty_stories: "ValidateStoryDAG [] = None" "ValidateStoryFileOwnership [] = None"
  "ValidateRequirementDAG [] = None"
  by code_simp+

lemma reentry_frame:
  assumes "reentry req p = (t, q)"
  shows "p_Slug q = p_Slug p" "p_ReviewIteration q = p_ReviewIteration p" "plan_ok p \<Longrightarrow> plan_ok q"
  using assms plan_ok_empty_stories
  by (auto simp: reentry_def determineR2ReentryPoint_def reenterArchitecturePhase_def plan_ok_def
      reenterRequirementsPhase_def clear_all_def Let_def split: if_splits option.splits)

lemma record_review_frame [simp]:
  "p_Slug (record_review req p) = p_Slug p" "p_Status (record_review req p) = p_Status p"
  "p_ReviewIteration (record_review req p) = p_ReviewIteration p + 1"
  "p_Requirements (record_review req p) = p_Requirements p" "p_Stories (record_review req p) = p_Stories p"
  by (simp_all add: record_review_def Let_def)

lemma revision_evolves:
  assumes "reentry req (record_review req p) = (t, q)" "EffectiveStatus p = cur" "Status_CanTransitionTo cur t"
    and "p_Status q' = t" "p_Slug q' = p_Slug q" "p_ReviewIteration q' = p_ReviewIteration q"
      "p_Requirements q' = p_Requirements q" "p_Stories q' = p_Stories q"
  shows "evolves p q'"
  using assms(2-) reentry_frame [OF assms(1)] by (intro evolves_move) (auto simp: plan_ok_def)

lemma escalate_fulfils:
  assumes "comp_inv c" "vis c slug = Some p" "p_Slug p = slug" and cur: "EffectiveStatus p = cur"
  shows "fulfils slug c (escalateRevision env (record_review req p) req cur m c)"
proof (cases "Status_CanTransitionTo cur StatusRejected")
  case True
  have ev: "evolves p (record_review req p\<lparr>p_ReviewVerdict := a, p_ReviewSummary := b, p_LastError := d,
      p_LastErrorAt := e, p_ReviewedAt := f, p_Status := StatusRejected\<rparr>)" for a b d e f
    using True cur by (intro evolves_move) (auto simp: plan_ok_def)
  show ?thesis
    unfolding escalateRevision_def Let_def using True
    by (simp, intro save_then_publish [OF assms(1-3) ev]) simp
next
  case False
  then show ?thesis using assms(1) by (simp add: escalateRevision_def contract_reject)
qed

lemma revision_meets:
  "comp_inv c \<Longrightarrow> fulfils (case data of Some r \<Rightarrow> rn_Slug r | None \<Rightarrow> []) c (handleRevisionMutation data env c)"
  by (auto simp: handleRevisionMutation_def Let_def split: option.split prod.split
      intro!: contract_reject contract_with_plan)
     ((rule escalate_fulfils, assumption+)
      | (rule contract_save, assumption+, rule revision_evolves, assumption+, simp, simp, simp, simp, simp))+

lemma qa_start_meets:
  assumes "comp_inv c"
  shows "fulfils (case data of Some r \<Rightarrow> qs_Slug r | None \<Rightarrow> []) c (handleQAStartMutation data env c)"
proof -
  have stay: "evolves p p" "evolves p (p\<lparr>p_QARun := x\<rparr>)" for p x
    by (auto intro!: evolves_keep simp: EffectiveStatus_def)
  have move: "evolves p (p\<lparr>p_Status := StatusReviewingQA\<rparr>)" "evolves p (p\<lparr>p_QARun := x, p_Status := StatusReviewingQA\<rparr>)"
    if "Status_CanTransitionTo (EffectiveStatus p) StatusReviewingQA" for p x
    using that by (auto intro!: evolves_update)
  show ?thesis
    using assms unfolding handleQAStartMutation_def Let_def
    by (auto split: option.split intro!: contract_reject contract_with_plan save_then_publish stay move)
qed

lemma assembled_status:
  "EffectiveStatus (p\<lparr>p_AssembledBranch := t, p_AssembledMergeCommit := m\<rparr>) = EffectiveStatus p"
  "EffectiveStatus (p\<lparr>p_AssembledBranch := t\<rparr>) = EffectiveStatus p"
  by (simp_all add: EffectiveStatus_def)

lemma assemble_frame:
  assumes "assembleRequirementBranches merge p = (e, q)"
  shows "p_Slug q = p_Slug p" "p_ReviewIteration q = p_ReviewIteration p" "p_Status q = p_Status p"
    "p_Requirements q = p_Requirements p" "p_Stories q = p_Stories p" "EffectiveStatus q = EffectiveStatus p"
  using assms assembled_status
  by (auto simp: assembleRequirementBranches_def Let_def split: option.splits if_splits prod.splits merge_result.splits)

lemma finish_qa_fulfils:
  assumes "comp_inv c" "vis c slug = Some p" "p_Slug p = slug" "evolves p q"
  shows "fulfils slug c (finish_qa vt env q req c)"
  unfolding finish_qa_def
  by (rule save_then_publish [OF assms]) (simp add: fireQAVerdictRecovery_def)

lemma qa_approve_fulfils:
  assumes c: "comp_inv c" "vis c slug = Some p" "p_Slug p = slug"
    and t: "EffectiveStatus p = cur" "Status_CanTransitionTo cur t"
  shows "fulfils slug c (case assembleRequirementBranches merge (p\<lparr>p_QAVerdictSummary := z\<rparr>) of
      (Some e, plan2) \<Rightarrow> (Some MergeFailure, snd (save_reply io
          (plan2\<lparr>p_LastError := x e, p_LastErrorAt := y\<rparr>) c))
    | (None, plan2) \<Rightarrow> finish_qa vt env (plan2\<lparr>p_Status := t\<rparr>) req c)"
proof -
  obtain e q where a: "assembleRequirementBranches merge (p\<lparr>p_QAVerdictSummary := z\<rparr>) = (e, q)"
    by (cases "assembleRequirementBranches merge (p\<lparr>p_QAVerdictSummary := z\<rparr>)")
  note f = assemble_frame [OF a]
  have keep: "EffectiveStatus (q\<lparr>p_LastError := x, p_LastErrorAt := y\<rparr>) = EffectiveStatus q"
    "EffectiveStatus (p\<lparr>p_QAVerdictSummary := z\<rparr>) = EffectiveStatus p" for x
    by (simp_all add: EffectiveStatus_def)
  have "evolves p (q\<lparr>p_LastError := x, p_LastErrorAt := y\<rparr>)" for x
    by (rule evolves_keep) (use f keep in simp_all)
  moreover have "evolves p (q\<lparr>p_Status := t\<rparr>)" by (rule evolves_update) (use f t in simp_all)
  ultimately show ?thesis
    using a by (cases e) (simp_all add: finish_qa_fulfils [OF c] save_then_stop [OF c])
qed

lemma qa_reject_evolves:
  assumes "EffectiveStatus p = cur" "Status_CanTransitionTo cur StatusRejected"
  shows "evolves p (p\<lparr>p_QAVerdictSummary := z, p_LastError := x, p_LastErrorAt := y, p_Status := StatusRejected,
    p_PlanDecisions := w\<rparr>)"
  using assms by (auto intro!: evolves_update)

lemma qa_verdict_meets:
  assumes "comp_inv c"
  shows "fulfils (case data of Some r \<Rightarrow> qe_Slug r | None \<Rightarrow> []) c (handleQAVerdictMutation vt errtext merge data env c)"
proof (cases data)
  case None
  then show ?thesis using assms by (simp add: handleQAVerdictMutation_def contract_reject)
next
  case (Some req)
  show ?thesis
    unfolding handleQAVerdictMutation_def Some option.case Let_def
    by (intro fulfils_if contract_reject contract_with_plan qa_approve_fulfils [OF _ _ _ refl] finish_qa_fulfils)
       ((assumption | rule assms | erule notnotD | (rule qa_reject_evolves [OF refl], erule notnotD))+)
qed

end
