(* ===== verification/Cascade.thy ===== *)
theory Cascade
  imports Orchestrator
begin

text \<open>
  \<^verbatim>\<open>src/workflow/cascade/cascade.go\<close>: what an accepted plan decision makes dirty, and the two
  closures of a set of requirements.  A Go set of IDs is a list without duplicates in the order of
  insertion, so \<^verbatim>\<open>changed\<close> is a longer list; both fixed-point loops terminate because a round
  that changes something selects a new ID of the plan.
\<close>

section \<open>Dirty marks\<close>

record Result =
  cr_Kind :: PlanDecisionKind
  cr_AffectedRequirementIDs :: "bytes list"
  cr_AffectedStoryIDs :: "bytes list"
  cr_AffectedScenarioIDs :: "bytes list"

definition storiesForReprepare :: "PlanDecision \<Rightarrow> Story list \<Rightarrow> bytes list \<Rightarrow> bytes list" where
  "storiesForReprepare proposal stories affectedReqs =
     (if d_AffectedStoryIDs proposal \<noteq> [] then d_AffectedStoryIDs proposal
      else if affectedReqs = [] then []
      else map s_ID (filter (\<lambda>s. list_ex (\<lambda>rid. rid \<in> set affectedReqs) (s_RequirementIDs s)) stories))"

text \<open>The requirements of the dirty stories, appended when new.  \<open>listed\<close> is the growing slice
  \<^verbatim>\<open>AffectedRequirementIDs\<close>, whose elements are exactly the keys of \<^verbatim>\<open>affectedReqs\<close>.\<close>

definition widen_requirements :: "Story list \<Rightarrow> bytes list \<Rightarrow> bytes list \<Rightarrow> bytes list" where
  "widen_requirements stories affectedStories listed =
     foldl (\<lambda>out i. if i = [] then out else appendUnique out i) listed
       (concat (map s_RequirementIDs (filter (\<lambda>s. s_ID s \<in> set affectedStories) stories)))"

definition cascade_PlanDecision :: "PlanDecision \<Rightarrow> Story list \<Rightarrow> Scenario list \<Rightarrow> Result" where
  "cascade_PlanDecision proposal stories scenarios =
     (let base = \<lparr>cr_Kind = d_Kind proposal, cr_AffectedRequirementIDs = d_AffectedReqIDs proposal,
                  cr_AffectedStoryIDs = [], cr_AffectedScenarioIDs = []\<rparr>
      in case d_Kind proposal of
        PlanDecisionKindStoryReprepare \<Rightarrow>
          (let affected = storiesForReprepare proposal stories (d_AffectedReqIDs proposal);
               reqs = widen_requirements stories affected (d_AffectedReqIDs proposal)
           in base\<lparr>cr_AffectedRequirementIDs := reqs, cr_AffectedStoryIDs := affected,
                cr_AffectedScenarioIDs := map sc_ID (filter (\<lambda>sc.
                  if affected \<noteq> [] then sc_StoryID sc \<in> set affected
                  else sc_RequirementID sc \<in> set reqs) scenarios)\<rparr>)
      | PlanDecisionKindExecutionExhausted \<Rightarrow> base
      | PlanDecisionKindAssemblyConflict \<Rightarrow> base
      | PlanDecisionKindArchitectureRevise \<Rightarrow> base
      | PlanDecisionKindScopeIncomplete \<Rightarrow> base
      | _ \<Rightarrow>
          if d_AffectedReqIDs proposal = [] then base
          else base\<lparr>cr_AffectedScenarioIDs := map sc_ID (filter (\<lambda>sc.
                 sc_RequirementID sc \<in> set (d_AffectedReqIDs proposal)) scenarios)\<rparr>)"

section \<open>Requirement closures\<close>

fun closure_pass :: "Requirement list \<Rightarrow> bytes list \<Rightarrow> bytes list" where
  "closure_pass [] selected = selected"
| "closure_pass (req # rs) selected =
     (if r_ID req \<noteq> [] \<and> r_ID req \<notin> set selected \<and> list_ex (\<lambda>d. d \<in> set selected) (r_DependsOn req)
      then closure_pass rs (selected @ [r_ID req])
      else closure_pass rs selected)"

lemma closure_pass_grows:
  "\<exists>new. closure_pass reqs selected = selected @ new \<and> set new \<subseteq> r_ID ` set reqs
     \<and> set new \<inter> set selected = {} \<and> distinct new"
proof (induction reqs selected rule: closure_pass.induct)
  case (2 req rs selected)
  show ?case
  proof (cases "r_ID req \<noteq> [] \<and> r_ID req \<notin> set selected \<and> list_ex (\<lambda>d. d \<in> set selected) (r_DependsOn req)")
    case True
    then obtain new where "closure_pass rs (selected @ [r_ID req]) = selected @ [r_ID req] @ new"
      "set new \<subseteq> r_ID ` set rs" "set new \<inter> set (selected @ [r_ID req]) = {}" "distinct new"
      using "2.IH"(1) by auto
    then show ?thesis using True by (intro exI [of _ "r_ID req # new"]) auto
  next
    case False
    then show ?thesis using "2.IH"(2) by auto
  qed
qed simp

lemma closure_pass_measure:
  assumes "length (closure_pass reqs selected) \<noteq> length selected"
  shows "card (r_ID ` set reqs - set (closure_pass reqs selected)) < card (r_ID ` set reqs - set selected)"
proof -
  obtain new where n: "closure_pass reqs selected = selected @ new" "set new \<subseteq> r_ID ` set reqs"
    "set new \<inter> set selected = {}" using closure_pass_grows by blast
  then have "new \<noteq> []" using assms by auto
  then show ?thesis using n by (intro psubset_card_mono) (auto simp: psubset_eq neq_Nil_conv)
qed

function closure_loop :: "Requirement list \<Rightarrow> bytes list \<Rightarrow> bytes list" where
  "closure_loop reqs selected =
     (let selected' = closure_pass reqs selected in
      if length selected' = length selected then selected' else closure_loop reqs selected')"
  by pat_completeness auto

termination
  by (relation "measure (\<lambda>(reqs, selected). card (r_ID ` set reqs - set selected))")
     (auto intro: closure_pass_measure)

declare closure_loop.simps [simp del]

definition seeds_of :: "bytes list \<Rightarrow> bytes list" where
  "seeds_of seeds = remdups (filter (\<lambda>i. i \<noteq> []) seeds)"

definition ExpandRequirementClosure :: "Requirement list \<Rightarrow> bytes list \<Rightarrow> bytes list" where
  "ExpandRequirementClosure reqs seeds =
     (if seeds_of seeds = [] then [] else sort (closure_loop reqs (seeds_of seeds)))"

definition storyIntersectsRequirements :: "Story \<Rightarrow> bytes list \<Rightarrow> bool" where
  "storyIntersectsRequirements story reqIDs = list_ex (\<lambda>i. i \<in> set reqIDs) (s_RequirementIDs story)"

fun story_pass :: "Story list \<Rightarrow> bytes list \<Rightarrow> bytes list" where
  "story_pass [] selected = selected"
| "story_pass (story # ss) selected =
     (if storyIntersectsRequirements story selected
      then story_pass ss (foldl (\<lambda>out i. if i = [] then out else appendUnique out i) selected (s_RequirementIDs story))
      else story_pass ss selected)"

definition story_round :: "Requirement list \<Rightarrow> Story list \<Rightarrow> bytes list \<Rightarrow> bytes list" where
  "story_round reqs stories selected =
     story_pass stories (foldl appendUnique selected (ExpandRequirementClosure reqs selected))"

definition plan_req_ids :: "Requirement list \<Rightarrow> Story list \<Rightarrow> bytes set" where
  "plan_req_ids reqs stories = r_ID ` set reqs \<union> (\<Union>s \<in> set stories. set (s_RequirementIDs s))"

lemma finite_plan_req_ids [simp]: "finite (plan_req_ids reqs stories)"
  by (simp add: plan_req_ids_def)

lemma foldl_nonempty_unique:
  "\<exists>new. foldl (\<lambda>out i. if i = [] then out else appendUnique out i) acc is = acc @ new
     \<and> set new \<subseteq> set is - set acc \<and> distinct new \<and> [] \<notin> set new
     \<and> set (acc @ new) = set acc \<union> (set is - {[]})"
proof (induction "is" arbitrary: acc)
  case (Cons i "is")
  let ?a = "if i = [] then acc else appendUnique acc i"
  obtain new where n: "foldl (\<lambda>out i. if i = [] then out else appendUnique out i) ?a is = ?a @ new"
    "set new \<subseteq> set is - set ?a" "distinct new" "[] \<notin> set new" "set (?a @ new) = set ?a \<union> (set is - {[]})"
    using Cons.IH [of ?a] by blast
  show ?case
  proof (cases "i = [] \<or> i \<in> set acc")
    case True
    then have "?a = acc" by (auto simp: appendUnique_def)
    then show ?thesis using n True by (intro exI [of _ new]) auto
  next
    case False
    then have "?a = acc @ [i]" by (auto simp: appendUnique_def)
    then show ?thesis using n False by (intro exI [of _ "i # new"]) auto
  qed
qed simp

text \<open>A list grows: the old list stays in front, and what is appended is new and drawn from a set.\<close>

definition grows :: "'a set \<Rightarrow> 'a list \<Rightarrow> 'a list \<Rightarrow> bool" where
  "grows U xs ys \<longleftrightarrow> (\<exists>new. ys = xs @ new \<and> set new \<subseteq> U - set xs \<and> distinct new)"

lemma grows_refl [simp]: "grows U xs xs"
  by (simp add: grows_def)

lemma grows_trans: "grows U xs ys \<Longrightarrow> grows U ys zs \<Longrightarrow> grows U xs zs"
  unfolding grows_def by (elim exE conjE, rule_tac x = "new @ newa" in exI) auto

lemma grows_mono: "grows U xs ys \<Longrightarrow> U \<subseteq> V \<Longrightarrow> grows V xs ys"
  unfolding grows_def by blast

lemma grows_measure:
  assumes "grows U xs ys" "finite U" "length ys \<noteq> length xs"
  shows "card (U - set ys) < card (U - set xs)"
proof -
  obtain new where n: "ys = xs @ new" "set new \<subseteq> U - set xs" using assms(1) by (auto simp: grows_def)
  then have "new \<noteq> []" using assms(3) by auto
  then obtain x where "x \<in> set new" by (cases new) auto
  then have "U - set ys \<subset> U - set xs" using n by auto
  then show ?thesis using assms(2) by (intro psubset_card_mono) auto
qed

lemma grows_appendUnique: "set is \<subseteq> U \<union> set acc \<Longrightarrow> grows U acc (foldl appendUnique acc is)"
proof (induction "is" arbitrary: acc)
  case (Cons i "is")
  have "grows U acc (appendUnique acc i)"
    using Cons.prems by (auto simp: grows_def appendUnique_def)
  moreover have "grows U (appendUnique acc i) (foldl appendUnique (appendUnique acc i) is)"
    using Cons.prems by (intro Cons.IH) auto
  ultimately show ?case using grows_trans by auto
qed simp

lemma grows_story_pass: "grows (\<Union>s \<in> set stories. set (s_RequirementIDs s)) selected (story_pass stories selected)"
proof (induction stories selected rule: story_pass.induct)
  case (2 story ss selected)
  let ?f = "foldl (\<lambda>out i. if i = [] then out else appendUnique out i) selected (s_RequirementIDs story)"
  have "grows (set (s_RequirementIDs story)) selected ?f"
    using foldl_nonempty_unique [of selected "s_RequirementIDs story"] by (auto simp: grows_def)
  then have g: "grows (\<Union>s \<in> set (story # ss). set (s_RequirementIDs s)) selected ?f"
    by (rule grows_mono) auto
  show ?case
  proof (cases "storyIntersectsRequirements story selected")
    case True
    have "grows (\<Union>s \<in> set (story # ss). set (s_RequirementIDs s)) ?f (story_pass ss ?f)"
      using "2.IH"(1) [OF True] by (rule grows_mono) auto
    then show ?thesis using True grows_trans [OF g] by simp
  next
    case False
    then show ?thesis using "2.IH"(2) [OF False] grows_mono by fastforce
  qed
qed simp

lemma closure_loop_grows: "grows (r_ID ` set reqs) selected (closure_loop reqs selected)"
proof (induction reqs selected rule: closure_loop.induct)
  case (1 reqs selected)
  have g: "grows (r_ID ` set reqs) selected (closure_pass reqs selected)"
    using closure_pass_grows [of reqs selected] by (auto simp: grows_def)
  show ?case
    using g "1.IH" [OF refl] grows_trans [OF g]
    by (subst closure_loop.simps) (auto simp: Let_def)
qed

lemma ExpandRequirementClosure_range: "set (ExpandRequirementClosure reqs seeds) \<subseteq> set seeds \<union> r_ID ` set reqs"
  using closure_loop_grows [of reqs "seeds_of seeds"]
  by (auto simp: ExpandRequirementClosure_def grows_def seeds_of_def)

lemma story_round_grows: "grows (plan_req_ids reqs stories) selected (story_round reqs stories selected)"
  unfolding story_round_def
proof (rule grows_trans)
  show "grows (plan_req_ids reqs stories) selected (foldl appendUnique selected (ExpandRequirementClosure reqs selected))"
    using ExpandRequirementClosure_range [of reqs selected]
    by (intro grows_appendUnique) (auto simp: plan_req_ids_def)
  show "grows (plan_req_ids reqs stories) (foldl appendUnique selected (ExpandRequirementClosure reqs selected))
     (story_pass stories (foldl appendUnique selected (ExpandRequirementClosure reqs selected)))"
    by (rule grows_mono [OF grows_story_pass]) (auto simp: plan_req_ids_def)
qed

function story_closure_loop :: "Requirement list \<Rightarrow> Story list \<Rightarrow> bytes list \<Rightarrow> bytes list" where
  "story_closure_loop reqs stories selected =
     (let selected' = story_round reqs stories selected in
      if length selected' = length selected then selected'
      else story_closure_loop reqs stories selected')"
  by pat_completeness auto

termination
  by (relation "measure (\<lambda>(reqs, stories, selected). card (plan_req_ids reqs stories - set selected))")
     (auto intro: grows_measure [OF story_round_grows])

declare story_closure_loop.simps [simp del]

definition ExpandRequirementStoryClosure :: "Requirement list \<Rightarrow> Story list \<Rightarrow> bytes list \<Rightarrow> bytes list" where
  "ExpandRequirementStoryClosure reqs stories seeds =
     (if seeds_of seeds = [] then [] else sort (story_closure_loop reqs stories (seeds_of seeds)))"

section \<open>The closures are least closed sets\<close>

text \<open>Downstream: from a requirement to those that depend on it.\<close>

definition downstream :: "Requirement list \<Rightarrow> (bytes \<times> bytes) set" where
  "downstream reqs = {(d, r_ID r) | d r. r \<in> set reqs \<and> r_ID r \<noteq> [] \<and> d \<in> set (r_DependsOn r)}"

text \<open>Joined: two requirements covered by one story.\<close>

definition joined :: "Story list \<Rightarrow> (bytes \<times> bytes) set" where
  "joined stories = {(a, b) | a b s. s \<in> set stories \<and> a \<in> set (s_RequirementIDs s)
     \<and> b \<in> set (s_RequirementIDs s) \<and> b \<noteq> []}"

lemma closure_pass_sound:
  "y \<in> set (closure_pass rs sel) \<Longrightarrow> set rs \<subseteq> set reqs \<Longrightarrow> \<exists>x \<in> set sel. (x, y) \<in> (downstream reqs)\<^sup>*"
proof (induction rs sel rule: closure_pass.induct)
  case (2 req rs sel)
  show ?case
  proof (cases "r_ID req \<noteq> [] \<and> r_ID req \<notin> set sel \<and> list_ex (\<lambda>d. d \<in> set sel) (r_DependsOn req)")
    case True
    then obtain d where d: "d \<in> set sel" "d \<in> set (r_DependsOn req)" by (auto simp: list_ex_iff)
    then have "(d, r_ID req) \<in> downstream reqs" using True "2.prems"(2) by (auto simp: downstream_def)
    moreover obtain x where "x \<in> set (sel @ [r_ID req])" "(x, y) \<in> (downstream reqs)\<^sup>*"
      using "2.IH"(1) [OF True] "2.prems" True by auto
    ultimately show ?thesis using d(1) by (auto intro: converse_rtrancl_into_rtrancl)
  next
    case False
    then show ?thesis using "2.IH"(2) [OF False] "2.prems" by auto
  qed
qed auto

lemma closure_pass_stable:
  "closure_pass rs sel = sel \<Longrightarrow> r \<in> set rs \<Longrightarrow> r_ID r \<noteq> [] \<Longrightarrow> d \<in> set (r_DependsOn r) \<Longrightarrow> d \<in> set sel \<Longrightarrow>
   r_ID r \<in> set sel"
proof (induction rs sel rule: closure_pass.induct)
  case (2 req rs sel)
  show ?case
  proof (cases "r_ID req \<noteq> [] \<and> r_ID req \<notin> set sel \<and> list_ex (\<lambda>d. d \<in> set sel) (r_DependsOn req)")
    case True
    then have "closure_pass rs (sel @ [r_ID req]) = sel" using "2.prems"(1) by simp
    moreover obtain new where "closure_pass rs (sel @ [r_ID req]) = (sel @ [r_ID req]) @ new"
      using closure_pass_grows by blast
    ultimately show ?thesis by simp
  next
    case False
    then show ?thesis using 2 by (auto simp: list_ex_iff)
  qed
qed simp

lemma closure_loop_spec:
  "set (closure_loop reqs sel) = (downstream reqs)\<^sup>* `` set sel"
proof (induction reqs sel rule: closure_loop.induct)
  case (1 reqs sel)
  let ?s = "closure_pass reqs sel"
  have sub: "set sel \<subseteq> set ?s" using closure_pass_grows [of reqs sel] by auto
  have snd: "set ?s \<subseteq> (downstream reqs)\<^sup>* `` set sel"
    using closure_pass_sound [of _ reqs sel reqs] by blast
  show ?case
  proof (cases "length ?s = length sel")
    case True
    then have st: "?s = sel" using closure_pass_grows [of reqs sel] by auto
    have "y \<in> set sel" if "(x, y) \<in> (downstream reqs)\<^sup>*" "x \<in> set sel" for x y
      using that
    proof (induction rule: rtrancl_induct)
      case (step y z)
      then obtain r where "r \<in> set reqs" "z = r_ID r" "r_ID r \<noteq> []" "y \<in> set (r_DependsOn r)" "y \<in> set sel"
        by (auto simp: downstream_def)
      then show ?case using closure_pass_stable [OF st] by blast
    qed
    moreover have "closure_loop reqs sel = sel" using True st by (subst closure_loop.simps) simp
    ultimately show ?thesis by auto
  next
    case False
    then have "set (closure_loop reqs sel) = (downstream reqs)\<^sup>* `` set ?s"
      using "1.IH" [OF refl False] by (subst closure_loop.simps) simp
    also have "\<dots> = (downstream reqs)\<^sup>* `` set sel"
    proof
      show "(downstream reqs)\<^sup>* `` set ?s \<subseteq> (downstream reqs)\<^sup>* `` set sel"
        using snd by (auto intro: rtrancl_trans dest: subsetD)
    qed (use sub in blast)
    finally show ?thesis .
  qed
qed

lemma set_ExpandRequirementClosure:
  "set (ExpandRequirementClosure reqs seeds) = (downstream reqs)\<^sup>* `` (set seeds - {[]})"
  by (auto simp: ExpandRequirementClosure_def closure_loop_spec seeds_of_def filter_empty_conv)

lemma set_skip_fold: "set (foldl (\<lambda>out i. if i = [] then out else appendUnique out i) acc is) = set acc \<union> (set is - {[]})"
  using foldl_nonempty_unique [of acc "is"] by auto

lemma story_pass_sound:
  "y \<in> set (story_pass ss sel) \<Longrightarrow> set ss \<subseteq> set stories \<Longrightarrow> \<exists>x \<in> set sel. (x, y) \<in> (joined stories)\<^sup>*"
proof (induction ss sel rule: story_pass.induct)
  case (2 s ss sel)
  let ?f = "foldl (\<lambda>out i. if i = [] then out else appendUnique out i) sel (s_RequirementIDs s)"
  show ?case
  proof (cases "storyIntersectsRequirements s sel")
    case True
    then obtain a where a: "a \<in> set sel" "a \<in> set (s_RequirementIDs s)"
      by (auto simp: storyIntersectsRequirements_def list_ex_iff)
    obtain x where x: "x \<in> set ?f" "(x, y) \<in> (joined stories)\<^sup>*"
      using "2.IH"(1) [OF True] "2.prems" True by auto
    then consider "x \<in> set sel" | "x \<in> set (s_RequirementIDs s)" "x \<noteq> []" by (auto simp: set_skip_fold)
    then show ?thesis
    proof cases
      case 2
      then have "(a, x) \<in> joined stories" using a(2) "2.prems"(2) by (auto simp: joined_def)
      then show ?thesis using a(1) x(2) by (auto intro: converse_rtrancl_into_rtrancl)
    qed (use x in blast)
  next
    case False
    then show ?thesis using "2.IH"(2) [OF False] "2.prems" by auto
  qed
qed auto

lemma story_pass_mono: "set sel \<subseteq> set (story_pass ss sel)"
  using grows_story_pass [of ss sel] by (auto simp: grows_def)

lemma story_pass_stable:
  "set (story_pass ss sel) \<subseteq> set sel \<Longrightarrow> s \<in> set ss \<Longrightarrow> a \<in> set (s_RequirementIDs s) \<Longrightarrow> a \<in> set sel \<Longrightarrow>
   b \<in> set (s_RequirementIDs s) \<Longrightarrow> b \<noteq> [] \<Longrightarrow> b \<in> set sel"
proof (induction ss sel rule: story_pass.induct)
  case (2 t ss sel)
  let ?f = "foldl (\<lambda>out i. if i = [] then out else appendUnique out i) sel (s_RequirementIDs t)"
  show ?case
  proof (cases "storyIntersectsRequirements t sel")
    case True
    then have p: "set (story_pass ss ?f) \<subseteq> set sel" using "2.prems"(1) by simp
    then have f: "set ?f \<subseteq> set sel" using story_pass_mono [of ?f ss] by blast
    show ?thesis
    proof (cases "s = t")
      case True
      then show ?thesis using f "2.prems"(5,6) by (auto simp: set_skip_fold)
    next
      case False
      have "set (story_pass ss ?f) \<subseteq> set ?f" using p by (auto simp: set_skip_fold)
      then have "b \<in> set ?f"
        using "2.IH"(1) [OF True] "2.prems"(2-6) False by (auto simp: set_skip_fold)
      then show ?thesis using f by blast
    qed
  next
    case False
    then have "s \<noteq> t" using "2.prems"(3,4) by (auto simp: storyIntersectsRequirements_def list_ex_iff)
    then show ?thesis using "2.IH"(2) [OF False] "2.prems" False by auto
  qed
qed simp

lemma story_closure_spec:
  "[] \<notin> set sel \<Longrightarrow> set (story_closure_loop reqs stories sel) = (downstream reqs \<union> joined stories)\<^sup>* `` set sel"
proof (induction reqs stories sel rule: story_closure_loop.induct)
  case (1 reqs stories sel)
  let ?R = "downstream reqs \<union> joined stories" and ?s = "story_round reqs stories sel"
  let ?m = "foldl appendUnique sel (ExpandRequirementClosure reqs sel)"
  have m: "set ?m = (downstream reqs)\<^sup>* `` set sel"
    using 1(2) by (auto simp: set_foldl_appendUnique set_ExpandRequirementClosure)
  have sub: "set sel \<subseteq> set ?s" using story_round_grows [of reqs stories sel] by (auto simp: grows_def)
  have snd: "set ?s \<subseteq> ?R\<^sup>* `` set sel"
  proof
    fix y assume "y \<in> set ?s"
    then obtain x where x: "x \<in> set ?m" "(x, y) \<in> (joined stories)\<^sup>*"
      using story_pass_sound [of y stories ?m stories] unfolding story_round_def by blast
    from x(1) obtain z where z: "z \<in> set sel" "(z, x) \<in> (downstream reqs)\<^sup>*" using m by auto
    have "(z, x) \<in> ?R\<^sup>*" "(x, y) \<in> ?R\<^sup>*"
      using z(2) x(2) rtrancl_mono [of "downstream reqs" ?R] rtrancl_mono [of "joined stories" ?R] by auto
    then show "y \<in> ?R\<^sup>* `` set sel" using z(1) by (auto intro: rtrancl_trans)
  qed
  have ne: "[] \<notin> set ?s"
  proof
    assume "[] \<in> set ?s"
    then obtain x where "x \<in> set sel" "(x, []) \<in> ?R\<^sup>*" using snd by auto
    from this(2,1) show False
      by (cases rule: rtranclE) (use 1(2) in \<open>auto simp: downstream_def joined_def\<close>)
  qed
  show ?case
  proof (cases "length ?s = length sel")
    case True
    then have st: "?s = sel" using story_round_grows [of reqs stories sel] by (auto simp: grows_def)
    have ms: "set ?m \<subseteq> set sel" using st story_pass_mono [of ?m stories] unfolding story_round_def by simp
    then have sp: "set (story_pass stories ?m) \<subseteq> set ?m"
      using st unfolding story_round_def by (auto simp: set_foldl_appendUnique)
    have "y \<in> set sel" if "(x, y) \<in> ?R\<^sup>*" "x \<in> set sel" for x y
      using that
    proof (induction rule: rtrancl_induct)
      case (step y z)
      then have y: "y \<in> set sel" by simp
      from step(2) consider "(y, z) \<in> downstream reqs" | "(y, z) \<in> joined stories" by blast
      then show ?case
      proof cases
        case 1
        then show ?thesis using y m ms by auto
      next
        case 2
        then obtain s where s: "s \<in> set stories" "y \<in> set (s_RequirementIDs s)" "z \<in> set (s_RequirementIDs s)" "z \<noteq> []"
          by (auto simp: joined_def)
        have "y \<in> set ?m" using y by (simp add: set_foldl_appendUnique)
        then show ?thesis using story_pass_stable [OF sp s(1,2) _ s(3,4)] ms by blast
      qed
    qed
    moreover have "story_closure_loop reqs stories sel = sel"
      using True st by (subst story_closure_loop.simps) simp
    ultimately show ?thesis by auto
  next
    case False
    then have "set (story_closure_loop reqs stories sel) = ?R\<^sup>* `` set ?s"
      using 1(1) [OF refl False ne] by (subst story_closure_loop.simps) simp
    also have "\<dots> = ?R\<^sup>* `` set sel"
    proof
      show "?R\<^sup>* `` set ?s \<subseteq> ?R\<^sup>* `` set sel" using snd by (auto intro: rtrancl_trans dest: subsetD)
    qed (use sub in blast)
    finally show ?thesis .
  qed
qed

lemma set_ExpandRequirementStoryClosure:
  "set (ExpandRequirementStoryClosure reqs stories seeds) =
     (downstream reqs \<union> joined stories)\<^sup>* `` (set seeds - {[]})"
proof -
  have "[] \<notin> set (seeds_of seeds)" by (simp add: seeds_of_def)
  then show ?thesis
    by (auto simp: ExpandRequirementStoryClosure_def story_closure_spec seeds_of_def filter_empty_conv)
qed

section \<open>Properties\<close>

text \<open>C30. The requirement closure of a set of seeds is exactly the seeds and everything downstream of
  them; a prerequisite of a seed is never in it unless it is downstream itself.  The story closure
  is the closure under downstream dependency and shared story coverage.\<close>

theorem requirement_closures_exact:
  "set (ExpandRequirementClosure reqs seeds) = (downstream reqs)\<^sup>* `` (set seeds - {[]})
   \<and> set (ExpandRequirementStoryClosure reqs stories seeds) =
       (downstream reqs \<union> joined stories)\<^sup>* `` (set seeds - {[]})
   \<and> set (ExpandRequirementClosure reqs seeds) \<subseteq> set (ExpandRequirementStoryClosure reqs stories seeds)"
proof -
  have "(downstream reqs)\<^sup>* \<subseteq> (downstream reqs \<union> joined stories)\<^sup>*" by (rule rtrancl_mono) simp
  then show ?thesis
    unfolding set_ExpandRequirementClosure set_ExpandRequirementStoryClosure by blast
qed

text \<open>Accepting a story re-preparation marks exactly the scenarios of the affected stories, and
  its requirements include every requirement those stories cover; the execution-level kinds touch
  neither stories nor scenarios.\<close>

theorem cascade_marks:
  fixes scenarios :: "Scenario list"
  assumes "d_Kind proposal = PlanDecisionKindStoryReprepare"
    and "storiesForReprepare proposal stories (d_AffectedReqIDs proposal) \<noteq> []"
  defines "res \<equiv> cascade_PlanDecision proposal stories scenarios"
  shows "cr_AffectedScenarioIDs res =
      map sc_ID (filter (\<lambda>sc. sc_StoryID sc \<in> set (cr_AffectedStoryIDs res)) scenarios)
    \<and> (\<forall>s \<in> set stories. s_ID s \<in> set (cr_AffectedStoryIDs res) \<longrightarrow>
         set (s_RequirementIDs s) - {[]} \<subseteq> set (cr_AffectedRequirementIDs res))
    \<and> set (d_AffectedReqIDs proposal) \<subseteq> set (cr_AffectedRequirementIDs res)"
  using assms(1,2) unfolding res_def
  by (auto simp: cascade_PlanDecision_def Let_def widen_requirements_def set_skip_fold)

theorem cascade_marks_witness:
  "cr_AffectedScenarioIDs (cascade_PlanDecision
      (PlanDecision_zero\<lparr>d_Kind := PlanDecisionKindStoryReprepare, d_AffectedReqIDs := [''r1'']\<rparr>)
      [ex_story ''s1'' ''core'' [''r1'', ''r2''] []]
      [Scenario_zero\<lparr>sc_ID := ''x'', sc_StoryID := ''s1''\<rparr>, Scenario_zero\<lparr>sc_ID := ''y''\<rparr>]) = [''x'']"
proof -
  let ?p = "PlanDecision_zero\<lparr>d_Kind := PlanDecisionKindStoryReprepare, d_AffectedReqIDs := [''r1'']\<rparr>"
  let ?st = "[ex_story ''s1'' ''core'' [''r1'', ''r2''] []]"
  let ?sc = "[Scenario_zero\<lparr>sc_ID := ''x'', sc_StoryID := ''s1''\<rparr>, Scenario_zero\<lparr>sc_ID := ''y''\<rparr>]"
  have k: "d_Kind ?p = PlanDecisionKindStoryReprepare" by simp
  have s: "storiesForReprepare ?p ?st (d_AffectedReqIDs ?p) = [''s1'']" by code_simp
  then have "cr_AffectedStoryIDs (cascade_PlanDecision ?p ?st ?sc) = [''s1'']"
    by (simp add: cascade_PlanDecision_def Let_def)
  then show ?thesis
    using cascade_marks [OF k, of ?st ?sc] s by (simp add: Scenario_zero_def)
qed

end
