(* ===== verification/Decisions.thy ===== *)
theory Decisions
  imports Review Cascade
begin

text \<open>
  Plan decisions in \<^verbatim>\<open>src/processor/plan-manager/mutations.go\<close>: adding one, accepting one, and the
  effects of an acceptance by kind (architecture revision, scope recovery, recovery hints, story
  re-preparation) with the contract amendment it records.  The helpers of
  \<^verbatim>\<open>http_plan_decision.go\<close> and \<^verbatim>\<open>http.go\<close> it calls are here too.  A proposal is a pointer
  into the plan's decisions; the model updates the plan at its index before the effects.  The
  deletion of execution rows in another component is the effect \<open>ResetExecutions\<close>, and its outcome
  is \<open>en_reset\<close>.
\<close>

section \<open>Contract impact\<close>

definition planDecisionMentionsRecoveryAction :: "PlanDecision \<Rightarrow> bytes \<Rightarrow> bool" where
  "planDecisionMentionsRecoveryAction proposal action0 =
     (let haystack = ToLower (d_Title proposal @ [CHR 0x0A] @ d_Rationale proposal);
          action = ToLower (TrimSpace action0)
      in if action = [] then False
         else Contains haystack action
           \<or> Contains haystack (map (\<lambda>c. if c = CHR ''_'' then CHR '' '' else c) action))"

definition planDecisionRequiresContractChange :: "PlanDecision \<Rightarrow> bool" where
  "planDecisionRequiresContractChange proposal =
     (case d_Kind proposal of
        PlanDecisionKindArchitectureRevise \<Rightarrow> True
      | PlanDecisionKindRequirementChange \<Rightarrow> planDecisionMentionsRecoveryAction proposal ''narrow_scope''
      | _ \<Rightarrow> False)"

definition changes_contract :: "PlanDecision \<Rightarrow> bool" where
  "changes_contract proposal =
     (case d_ContractImpact proposal of None \<Rightarrow> False | Some i \<Rightarrow> ci_Kind i = ContractImpactChange)"

definition validatePlanDecisionAcceptContractImpact :: "PlanDecision \<Rightarrow> merr option" where
  "validatePlanDecisionAcceptContractImpact proposal =
     (if \<not> planDecisionRequiresContractChange proposal then None
      else if \<not> changes_contract proposal then Some ContractImpactRequired
      else None)"

definition add_amendment :: "Ids \<Rightarrow> nat \<Rightarrow> PlanDecision \<Rightarrow> ContractImpact \<Rightarrow> Plan \<Rightarrow> Plan" where
  "add_amendment ids now proposal impact plan =
     (case p_Contract plan of
        None \<Rightarrow> plan
      | Some contract \<Rightarrow>
          if list_ex (\<lambda>a. am_PlanDecisionID a = d_ID proposal) (cp_Amendments contract) then plan
          else plan\<lparr>p_Contract := Some (contract\<lparr>cp_Amendments := cp_Amendments contract @
                 [\<lparr>am_ID = ''contract-amendment.'' @ HashInstanceID ids [p_Slug plan, d_ID proposal],
                   am_PlanDecisionID = d_ID proposal, am_Impact = impact, am_CreatedAt = now\<rparr>]\<rparr>)\<rparr>)"

definition applyAcceptedContractAmendment :: "Ids \<Rightarrow> nat \<Rightarrow> PlanDecision \<Rightarrow> Plan \<Rightarrow> Plan" where
  "applyAcceptedContractAmendment ids clock proposal plan =
     (case d_ContractImpact proposal of
        None \<Rightarrow> plan
      | Some impact \<Rightarrow>
          if ci_Kind impact \<noteq> ContractImpactChange then plan
          else let now = (case d_DecidedAt proposal of Some t \<Rightarrow> t | None \<Rightarrow> clock) in
            add_amendment ids now proposal impact
              (EnsureContractPacket ids clock
                 (if p_Context plan = [] then p_Goal plan else p_Context plan) now plan))"

section \<open>Recovery hints and retries\<close>

definition applyRecoveryHintToStories :: "nat \<Rightarrow> PlanDecision \<Rightarrow> Plan \<Rightarrow> Plan" where
  "applyRecoveryHintToStories now proposal plan =
     plan\<lparr>p_Stories := map (\<lambda>s.
       if (if d_AffectedStoryIDs proposal = []
           then list_ex (\<lambda>rid. rid \<in> set (d_AffectedReqIDs proposal)) (s_RequirementIDs s)
           else s_ID s \<in> set (d_AffectedStoryIDs proposal))
       then s\<lparr>s_RecoveryHint := d_Rationale proposal, s_UpdatedAt := now\<rparr> else s) (p_Stories plan)\<rparr>"

definition applyRecoveryHint :: "nat \<Rightarrow> PlanDecision \<Rightarrow> Plan \<Rightarrow> Plan" where
  "applyRecoveryHint now proposal plan =
     (if d_Rationale proposal = [] then plan
      else if d_Kind proposal = PlanDecisionKindStoryReprepare
      then applyRecoveryHintToStories now proposal plan
      else plan\<lparr>p_Requirements := map (\<lambda>r.
             if r_ID r \<in> set (d_AffectedReqIDs proposal)
             then r\<lparr>r_RecoveryHint := d_Rationale proposal, r_UpdatedAt := now\<rparr> else r) (p_Requirements plan)\<rparr>)"

definition storyCoversAnyRequirement :: "Story \<Rightarrow> bytes set \<Rightarrow> bool" where
  "storyCoversAnyRequirement story reqSet = list_ex (\<lambda>i. i \<in> reqSet) (s_RequirementIDs story)"

definition retry_story :: "nat \<Rightarrow> bytes set \<Rightarrow> Story \<Rightarrow> Story" where
  "retry_story now reqSet s =
     (if storyCoversAnyRequirement s reqSet
         \<and> (s_Status s = StoryStatusExecuting \<or> s_Status s = StoryStatusComplete \<or> s_Status s = StoryStatusFailed)
      then s\<lparr>s_Status := StoryStatusReady, s_UpdatedAt := now\<rparr> else s)"

definition resetStoriesForRetry :: "nat \<Rightarrow> bytes list \<Rightarrow> Plan \<Rightarrow> Plan" where
  "resetStoriesForRetry now requirementIDs plan =
     (if requirementIDs = [] then plan
      else plan\<lparr>p_Stories := map (retry_story now (stringSet requirementIDs)) (p_Stories plan)\<rparr>)"

text \<open>\<^verbatim>\<open>resetRequirementExecutions\<close>: the request and whether it went through.  A failed one may have
  deleted some rows, so the request is recorded either way.\<close>

definition resetRequirementExecutions :: "Env \<Rightarrow> bytes \<Rightarrow> bytes \<Rightarrow> bytes list \<Rightarrow> Comp \<Rightarrow> bool \<times> Comp" where
  "resetRequirementExecutions env slug scope reqIDs c =
     (en_reset env \<noteq> None,
      publish (ResetExecutions slug scope
        (if scope = ''requirements'' then uniqueSortedStrings reqIDs else [])) c)"

section \<open>Scope of a reset\<close>

definition affectedRequirementIDsForStoryReprepare :: "Plan \<Rightarrow> PlanDecision \<Rightarrow> bytes list" where
  "affectedRequirementIDsForStoryReprepare plan proposal =
     sort (remdups (filter (\<lambda>i. i \<noteq> []) (d_AffectedReqIDs proposal @
       concat (map s_RequirementIDs (filter (\<lambda>s. s_ID s \<in> set (d_AffectedStoryIDs proposal)) (p_Stories plan))))))"

definition reset_markers :: "bytes list" where
  "reset_markers = [''phase:*'', ''phase:all'', ''contract.phase:*'', ''contract.phase:all'', ''reset:*'', ''reset:all'']"

definition contractImpactAllowsWholePhaseReset :: "PlanDecision \<Rightarrow> bytes \<Rightarrow> bool" where
  "contractImpactAllowsWholePhaseReset proposal phase0 =
     (case d_ContractImpact proposal of
        None \<Rightarrow> False
      | Some impact \<Rightarrow>
          if ci_Kind impact \<noteq> ContractImpactChange then False
          else let phase = ToLower (TrimSpace phase0) in
            list_ex (\<lambda>raw. let i = ToLower (TrimSpace raw) in
                i \<in> set reset_markers \<or>
                (phase \<noteq> [] \<and> i \<in> {''phase:'' @ phase, ''contract.phase:'' @ phase, ''reset:'' @ phase}))
              (ci_AffectedIDs impact))"

definition resetScopeFromRequirements :: "Plan \<Rightarrow> bytes list \<Rightarrow> PlanDecision \<Rightarrow> bytes \<Rightarrow> merr + (bytes \<times> bytes list)" where
  "resetScopeFromRequirements plan affectedReqIDs proposal phase =
     (let closure = ExpandRequirementStoryClosure (p_Requirements plan) (p_Stories plan) affectedReqIDs in
      if closure = [] then
        (if contractImpactAllowsWholePhaseReset proposal phase then Inr (''all'', [])
         else Inl (ResetNeedsEvidence phase))
      else Inr (''requirements'', closure))"

definition planDecisionResetScope :: "Plan \<Rightarrow> PlanDecision \<Rightarrow> merr + (bytes \<times> bytes list)" where
  "planDecisionResetScope plan proposal =
     resetScopeFromRequirements plan (affectedRequirementIDsForStoryReprepare plan proposal) proposal ''architecture''"

section \<open>Architecture revision\<close>

text \<open>\<open>p_PreviousArchitectureJSON\<close> is the marshalled architecture.\<close>

definition prepareArchitectureRevisionBase :: "PlanDecision \<Rightarrow> Plan \<Rightarrow> Plan" where
  "prepareArchitectureRevisionBase proposal plan =
     plan\<lparr>p_ReviewFormattedFindings := (if d_Rationale proposal \<noteq> [] then d_Rationale proposal
                                       else p_ReviewFormattedFindings plan),
          p_PreviousArchitectureJSON := p_Architecture plan, p_Architecture := None\<rparr>"

definition storyIDsForRequirements :: "Story list \<Rightarrow> bytes list \<Rightarrow> bytes list" where
  "storyIDsForRequirements stories reqIDs =
     sort (map s_ID (filter (\<lambda>s. s_ID s \<noteq> [] \<and> storyTouchesRequirements s (stringSet reqIDs)) stories))"

definition applyArchitectureRevisionHintToStories :: "nat \<Rightarrow> bytes list \<Rightarrow> bytes \<Rightarrow> Plan \<Rightarrow> Plan" where
  "applyArchitectureRevisionHintToStories now storyIDs hint plan =
     (if hint = [] \<or> storyIDs = [] then plan
      else plan\<lparr>p_Stories := map (\<lambda>s. if s_ID s \<in> stringSet storyIDs
             then s\<lparr>s_RecoveryHint := hint, s_UpdatedAt := now\<rparr> else s) (p_Stories plan)\<rparr>)"

definition reviseScopedArchitectureState :: "nat \<Rightarrow> PlanDecision \<Rightarrow> bytes list \<Rightarrow> Plan \<Rightarrow> Plan" where
  "reviseScopedArchitectureState now proposal affected plan =
     (if \<not> Status_CanTransitionTo (EffectiveStatus plan) StatusRequirementsGenerated then plan
      else let plan1 = prepareArchitectureRevisionBase proposal plan;
               storyIDs = storyIDsForRequirements (p_Stories plan1) affected
           in (applyArchitectureRevisionHintToStories now storyIDs (d_Rationale proposal) plan1)
                \<lparr>p_PendingArchitectureRevision := Some \<lparr>ars_ProposalID = d_ID proposal,
                   ars_RequirementIDs = affected, ars_StoryIDs = storyIDs\<rparr>,
                 p_Status := StatusRequirementsGenerated\<rparr>)"

definition reviseArchitectureState :: "PlanDecision \<Rightarrow> Plan \<Rightarrow> Plan" where
  "reviseArchitectureState proposal plan =
     (if \<not> Status_CanTransitionTo (EffectiveStatus plan) StatusRequirementsGenerated then plan
      else (prepareArchitectureRevisionBase proposal plan)
             \<lparr>p_Stories := [], p_Scenarios := [], p_PendingArchitectureRevision := None,
              p_Status := StatusRequirementsGenerated\<rparr>)"

text \<open>An effect returns its error, the plan and the component.\<close>

type_synonym effect_result = "merr option \<times> Plan \<times> Comp"

definition applyArchitectureRevise :: "Env \<Rightarrow> PlanDecision \<Rightarrow> Plan \<Rightarrow> Comp \<Rightarrow> effect_result" where
  "applyArchitectureRevise env proposal plan c =
     (if \<not> Status_CanTransitionTo (EffectiveStatus plan) StatusRequirementsGenerated then (None, plan, c)
      else case planDecisionResetScope plan proposal of
        Inl e \<Rightarrow> (Some e, plan, c)
      | Inr (scope, reqIDs) \<Rightarrow>
          (case resetRequirementExecutions env (p_Slug plan) scope reqIDs c of
             (False, c1) \<Rightarrow> (Some ResetFailed, plan, c1)
           | (True, c1) \<Rightarrow>
               (None, if scope = ''all'' then reviseArchitectureState proposal plan
                      else reviseScopedArchitectureState (en_now env) proposal reqIDs plan, c1)))"

section \<open>Scope recovery\<close>

definition affectedRequirementIDsForScopeIncomplete :: "Plan \<Rightarrow> PlanDecision \<Rightarrow> bytes list" where
  "affectedRequirementIDsForScopeIncomplete plan proposal =
     (if d_AffectedReqIDs proposal \<noteq> [] then d_AffectedReqIDs proposal
      else filter (\<lambda>i. i \<noteq> []) (map r_ID (p_Requirements plan)))"

definition scopeIncompleteRecoveryGuidance :: "PlanDecision \<Rightarrow> bytes" where
  "scopeIncompleteRecoveryGuidance proposal =
     (let rationale = TrimSpace (d_Rationale proposal) in
      if rationale = [] then []
      else ''Scope completeness recovery:'' @ [CHR 0x0A] @ rationale @ [CHR 0x0A, CHR 0x0A] @
        ''The declared scope.create files above remain required deliverables. Deliver the missing files in the existing project topology, or propose an explicit scope/architecture recovery if the declared scope is wrong. Do not silently omit them.'')"

definition applyScopeIncompleteRecovery :: "Env \<Rightarrow> PlanDecision \<Rightarrow> bytes \<Rightarrow> Plan \<Rightarrow> Comp \<Rightarrow> effect_result" where
  "applyScopeIncompleteRecovery env proposal slug plan c =
     (let reqIDs = affectedRequirementIDsForScopeIncomplete plan proposal;
          current = EffectiveStatus plan
      in if reqIDs = [] then (Some ScopeIncompleteNoReqs, plan, c)
         else if current \<noteq> StatusImplementing \<and> \<not> Status_CanTransitionTo current StatusReadyForExecution
         then (Some (ScopeIncompleteStatus current), plan, c)
         else case resetRequirementExecutions env slug ''requirements'' reqIDs c of
           (False, c1) \<Rightarrow> (Some ResetFailed, plan, c1)
         | (True, c1) \<Rightarrow>
             let plan1 = resetStoriesForRetry (en_now env) reqIDs plan;
                 plan2 = (if d_Rationale proposal \<noteq> []
                          then applyRecoveryHint (en_now env)
                                 (proposal\<lparr>d_Rationale := scopeIncompleteRecoveryGuidance proposal\<rparr>) plan1
                          else plan1)
             in (None, if current = StatusImplementing then plan2
                       else plan2\<lparr>p_Status := StatusReadyForExecution\<rparr>, c1))"

section \<open>Story re-preparation\<close>

definition removeScenariosForStoryReprepare :: "Scenario list \<Rightarrow> PlanDecision \<Rightarrow> bytes list \<Rightarrow> Scenario list" where
  "removeScenariosForStoryReprepare scenarios proposal affectedReqIDs =
     (let storySet = set (filter (\<lambda>i. i \<noteq> []) (d_AffectedStoryIDs proposal)) in
      filter (\<lambda>s. \<not> (if storySet \<noteq> {} then sc_StoryID s \<in> storySet
                     else sc_RequirementID s \<in> set affectedReqIDs)) scenarios)"

definition applyStoryReprepare :: "Env \<Rightarrow> PlanDecision \<Rightarrow> bytes \<Rightarrow> Plan \<Rightarrow> Comp \<Rightarrow> effect_result" where
  "applyStoryReprepare env proposal slug plan c =
     (let current = EffectiveStatus plan in
      if \<not> Status_CanTransitionTo current StatusPreparingStories then (None, plan, c)
      else case resetScopeFromRequirements plan (affectedRequirementIDsForStoryReprepare plan proposal)
                  proposal ''stories'' of
        Inl e \<Rightarrow> (Some e, plan, c)
      | Inr (scope, reqIDs) \<Rightarrow>
          (case (if current = StatusImplementing then resetRequirementExecutions env slug scope reqIDs c
                 else (True, c)) of
             (False, c1) \<Rightarrow> (Some ResetFailed, plan, c1)
           | (True, c1) \<Rightarrow>
               (None, plan\<lparr>p_Scenarios := (if scope = ''all'' then []
                               else removeScenariosForStoryReprepare (p_Scenarios plan) proposal reqIDs),
                          p_Status := StatusPreparingStories\<rparr>, c1)))"

section \<open>Accepting\<close>

definition applyPlanDecisionAcceptEffects :: "Ids \<Rightarrow> Env \<Rightarrow> PlanDecision \<Rightarrow> bytes \<Rightarrow> Plan \<Rightarrow> Comp \<Rightarrow> effect_result" where
  "applyPlanDecisionAcceptEffects ids env proposal slug plan c =
     (case validatePlanDecisionAcceptContractImpact proposal of
        Some e \<Rightarrow> (Some e, plan, c)
      | None \<Rightarrow>
          let plan1 = applyAcceptedContractAmendment ids (en_now env) proposal plan in
          if d_Kind proposal = PlanDecisionKindArchitectureRevise
          then applyArchitectureRevise env proposal plan1 c
          else if d_Kind proposal = PlanDecisionKindScopeIncomplete
          then applyScopeIncompleteRecovery env proposal slug plan1 c
          else let plan2 = (if d_ProposedBy proposal = ''recovery-agent'' \<and> d_Rationale proposal \<noteq> []
                            then applyRecoveryHint (en_now env) proposal plan1 else plan1)
               in if d_Kind proposal = PlanDecisionKindStoryReprepare
                  then applyStoryReprepare env proposal slug plan2 c
                  else (None, plan2, c))"

definition startAcceptedPlanDecisionRetry :: "Env \<Rightarrow> PlanDecision \<Rightarrow> Plan \<Rightarrow> Comp \<Rightarrow> merr option \<times> Comp" where
  "startAcceptedPlanDecisionRetry env proposal plan c =
     (if d_Kind proposal \<noteq> PlanDecisionKindScopeIncomplete then (None, c)
      else if \<not> shouldAutoStartExecution c then (None, c)
      else if EffectiveStatus plan = StatusReadyForExecution
      then startExecutionFromReady env 1 plan (d_AffectedReqIDs proposal) c
      else if EffectiveStatus plan = StatusImplementing
      then (case publishScenarioOrchestrator env plan (d_AffectedReqIDs proposal) c of
              (True, c1) \<Rightarrow> (None, c1) | (False, c1) \<Rightarrow> (Some TriggerFailed, c1))
      else (None, c))"

record planDecisionAcceptRequest =
  pa_Slug :: bytes
  pa_ProposalID :: bytes
  pa_AcceptedBy :: bytes

text \<open>Storing an accepted decision: save, start the retry, ask for the cascade.\<close>

definition store_accepted :: "Env \<Rightarrow> PlanDecision \<Rightarrow> bytes \<Rightarrow> Plan \<Rightarrow> Comp \<Rightarrow> merr option \<times> Comp" where
  "store_accepted env proposal slug plan c =
     (case save_reply (en_save env 0) plan c of
        (Some e, c1) \<Rightarrow> (Some e, c1)
      | (None, c1) \<Rightarrow>
          (case startAcceptedPlanDecisionRetry env proposal plan c1 of
             (Some e, c2) \<Rightarrow> (Some e, c2)
           | (None, c2) \<Rightarrow>
               (None, if natsConfigured (co_config c2) \<and> en_cascade env
                      then publish (CascadeRequest slug (d_ID proposal)) c2 else c2)))"

text \<open>The body of the accept handler, run under the slug lock on the plan it looked up.\<close>

definition accept_locked :: "Ids \<Rightarrow> planDecisionAcceptRequest \<Rightarrow> Env \<Rightarrow> Plan \<Rightarrow> Comp \<Rightarrow> merr option \<times> Comp" where
  "accept_locked ids req env plan c =
     (case FindPlanDecision plan (pa_ProposalID req) of
        None \<Rightarrow> (Some DecisionMissing, c)
      | Some (d, i) \<Rightarrow>
          if \<not> PlanDecisionStatus_CanTransitionTo (d_Status d) PlanDecisionStatusAccepted
          then (Some (BadDecisionStatus (d_Status d)), c)
          else (case validatePlanDecisionAcceptContractImpact d of
            Some e \<Rightarrow> (Some e, c)
          | None \<Rightarrow>
              (let proposal = d\<lparr>d_Status := PlanDecisionStatusAccepted, d_DecidedAt := Some (en_now env)\<rparr>;
                   plan1 = plan\<lparr>p_PlanDecisions := (p_PlanDecisions plan)[i := proposal]\<rparr>
               in case applyPlanDecisionAcceptEffects ids env proposal (pa_Slug req) plan1 c of
                    (Some e, _, c1) \<Rightarrow> (Some e, c1)
                  | (None, plan2, c1) \<Rightarrow> store_accepted env proposal (pa_Slug req) plan2 c1)))"

definition handlePlanDecisionAcceptMutation :: "Ids \<Rightarrow> planDecisionAcceptRequest option \<Rightarrow> handler" where
  "handlePlanDecisionAcceptMutation ids data env c =
     (case data of
        None \<Rightarrow> (Some Unmarshal, c)
      | Some req \<Rightarrow>
          if pa_Slug req = [] \<or> pa_ProposalID req = [] then (Some Required, c)
          else with_plan env (pa_Slug req) (accept_locked ids req env) c)"

section \<open>Adding\<close>

definition superseded :: "bytes list \<Rightarrow> PlanDecision \<Rightarrow> bool" where
  "superseded reqIDs d \<longleftrightarrow> d_Kind d = PlanDecisionKindExecutionExhausted
     \<and> (d_Status d = PlanDecisionStatusProposed \<or> d_Status d = PlanDecisionStatusUnderReview)
     \<and> list_ex (\<lambda>i. i \<in> set reqIDs) (d_AffectedReqIDs d)"

definition archiveOpenExhaustionDecisionsLocked :: "nat \<Rightarrow> bytes list \<Rightarrow> Plan \<Rightarrow> Plan" where
  "archiveOpenExhaustionDecisionsLocked now reqIDs plan =
     (if reqIDs = [] then plan
      else plan\<lparr>p_PlanDecisions := map (\<lambda>d. if superseded reqIDs d
             then d\<lparr>d_Status := PlanDecisionStatusArchived, d_DecidedAt := Some now\<rparr> else d) (p_PlanDecisions plan)\<rparr>)"

record planDecisionAddRequest =
  pd_Slug :: bytes
  pd_Decision :: PlanDecision

definition default_decision :: "nat \<Rightarrow> PlanDecision \<Rightarrow> PlanDecision" where
  "default_decision now d =
     d\<lparr>d_Status := (if d_Status d = PlanDecisionStatusOther [] then PlanDecisionStatusProposed else d_Status d),
       d_CreatedAt := (if d_CreatedAt d = 0 then now else d_CreatedAt d)\<rparr>"

definition handlePlanDecisionAddMutation :: "planDecisionAddRequest option \<Rightarrow> handler" where
  "handlePlanDecisionAddMutation data env c =
     (case data of
        None \<Rightarrow> (Some Unmarshal, c)
      | Some req \<Rightarrow>
          let d = pd_Decision req in
          if pd_Slug req = [] \<or> d_ID d = [] \<or> d_PlanID d = [] then (Some Required, c)
          else let d1 = (if d_Kind d = PlanDecisionKindOther [] then d\<lparr>d_Kind := PlanDecisionKindRequirementChange\<rparr> else d) in
            if \<not> PlanDecisionKind_IsValid (d_Kind d1) then (Some BadDecisionKind, c)
            else if (case d_ContractImpact d1 of None \<Rightarrow> False | Some i \<Rightarrow> \<not> ContractImpactKind_IsValid (ci_Kind i))
            then (Some BadImpactKind, c)
            else let d2 = default_decision (en_now env) d1 in
              with_plan env (pd_Slug req) (\<lambda>plan c.
                let plan1 = (if d_Kind d2 = PlanDecisionKindExecutionExhausted
                             then archiveOpenExhaustionDecisionsLocked (en_now env) (d_AffectedReqIDs d2) plan
                             else plan)
                in save_reply (en_save env 0) (plan1\<lparr>p_PlanDecisions := p_PlanDecisions plan1 @ [d2]\<rparr>) c) c)"

section \<open>The handlers meet the contract\<close>

text \<open>What the effects do to a plan: the status moves at most along the table, and requirements and
  stories keep their cores or the stories are dropped.\<close>

lemma stories_map_evolves:
  assumes "\<And>s. story_core (f s) = story_core s"
  shows "evolves p (p\<lparr>p_Stories := map f (p_Stories p)\<rparr>)"
  by (rule evolves_keep) (simp_all add: EffectiveStatus_def assms)

lemma reqs_map_evolves:
  assumes "\<And>r. req_core (f r) = req_core r"
  shows "evolves p (p\<lparr>p_Requirements := map f (p_Requirements p)\<rparr>)"
  by (rule evolves_keep) (simp_all add: EffectiveStatus_def assms)

lemma decisions_evolve [simp]: "evolves p (p\<lparr>p_PlanDecisions := ds\<rparr>)"
  by (rule evolves_keep) (simp_all add: EffectiveStatus_def)

lemma status_evolves: "Status_CanTransitionTo (EffectiveStatus p) t \<Longrightarrow> evolves p (p\<lparr>p_Status := t\<rparr>)"
  by (rule evolves_update) simp_all

lemma EffectiveStatus_fields [simp]:
  "EffectiveStatus (p\<lparr>p_Stories := a\<rparr>) = EffectiveStatus p"
  "EffectiveStatus (p\<lparr>p_Requirements := b\<rparr>) = EffectiveStatus p"
  "EffectiveStatus (p\<lparr>p_PlanDecisions := d\<rparr>) = EffectiveStatus p"
  "EffectiveStatus (p\<lparr>p_Contract := e\<rparr>) = EffectiveStatus p"
  by (simp_all add: EffectiveStatus_def)

lemma hint_status [simp]: "EffectiveStatus (applyRecoveryHint now d p) = EffectiveStatus p"
  by (simp add: applyRecoveryHint_def applyRecoveryHintToStories_def)

lemma retry_status [simp]: "EffectiveStatus (resetStoriesForRetry now ids p) = EffectiveStatus p"
  by (simp add: resetStoriesForRetry_def)

lemma hint_evolves [simp]: "evolves p (applyRecoveryHint now d p)"
  unfolding applyRecoveryHint_def applyRecoveryHintToStories_def
  by (auto intro!: stories_map_evolves reqs_map_evolves simp: story_core_def req_core_def)

lemma retry_evolves [simp]: "evolves p (resetStoriesForRetry now ids p)"
  unfolding resetStoriesForRetry_def
  by (auto intro!: stories_map_evolves simp: story_core_def retry_story_def)

lemma amendment_evolves [simp]: "evolves p (applyAcceptedContractAmendment ids now d p)"
  unfolding applyAcceptedContractAmendment_def add_amendment_def EnsureContractPacket_def Let_def
  by (auto intro!: evolves_keep split: option.split)

lemma scoped_revision_evolves: "evolves p (reviseScopedArchitectureState now d ids p)"
proof (cases "Status_CanTransitionTo (EffectiveStatus p) StatusRequirementsGenerated")
  case True
  let ?h = "\<lambda>s. if s_ID s \<in> A then s\<lparr>s_RecoveryHint := h, s_UpdatedAt := now\<rparr> else s"
  have core: "story_core (if s_ID s \<in> A then s\<lparr>s_RecoveryHint := h, s_UpdatedAt := now\<rparr> else s) = story_core s"
    for s A h by (simp add: story_core_def)
  show ?thesis
    unfolding reviseScopedArchitectureState_def Let_def if_not_P [OF notI, OF notE, OF _ True]
    using True
    by (auto intro!: evolves_move plan_ok_core [of p] simp: core applyArchitectureRevisionHintToStories_def
        prepareArchitectureRevisionBase_def)
qed (simp add: reviseScopedArchitectureState_def)

lemma revision_evolves_all: "evolves p (reviseArchitectureState d p)"
  unfolding reviseArchitectureState_def prepareArchitectureRevisionBase_def
  using plan_ok_empty_stories by (auto intro!: evolves_move simp: plan_ok_def)

text \<open>The contract of an effect: the component's plans are untouched, the plan evolves, and an error
  that is clean has published nothing.\<close>

definition effect_ok :: "Plan \<Rightarrow> Comp \<Rightarrow> effect_result \<Rightarrow> bool" where
  "effect_ok p c r \<longleftrightarrow> (case r of (e, q, c1) \<Rightarrow>
     evolves p q \<and> co_plans c1 = co_plans c \<and> co_config c1 = co_config c
     \<and> (\<forall>x. e = Some x \<longrightarrow> clean x \<longrightarrow> co_outbox c1 = co_outbox c))"

lemma effect_ok_trans: "evolves p q \<Longrightarrow> effect_ok q c r \<Longrightarrow> effect_ok p c r"
  by (auto simp: effect_ok_def intro: evolves_trans)

lemma effect_ok_results:
  "effect_ok p c (Some x, p, c)" "effect_ok p c (Some ResetFailed, p, publish f c)"
  "evolves p q \<Longrightarrow> effect_ok p c (None, q, c)" "evolves p q \<Longrightarrow> effect_ok p c (None, q, publish f c)"
  by (simp_all add: effect_ok_def)

lemma architecture_revise_ok: "effect_ok p c (applyArchitectureRevise env d p c)"
  unfolding applyArchitectureRevise_def resetRequirementExecutions_def
  by (auto intro!: effect_ok_results scoped_revision_evolves revision_evolves_all split: sum.split bool.split)

lemma scope_incomplete_ok: "effect_ok p c (applyScopeIncompleteRecovery env d slug p c)"
proof -
  have ev: "evolves p (applyRecoveryHint now d' (resetStoriesForRetry now ids p))" for now d' ids
    by (rule evolves_trans [OF retry_evolves hint_evolves])
  have move: "evolves p (q\<lparr>p_Status := StatusReadyForExecution\<rparr>)"
    if "Status_CanTransitionTo (EffectiveStatus p) StatusReadyForExecution" "evolves p q"
      "EffectiveStatus q = EffectiveStatus p" for q
    using that by (auto intro: evolves_trans [OF _ status_evolves])
  show ?thesis
    unfolding applyScopeIncompleteRecovery_def resetRequirementExecutions_def Let_def
    by (auto simp: ev intro!: effect_ok_results move split: bool.split)
qed

lemma story_reprepare_ok: "effect_ok p c (applyStoryReprepare env d slug p c)"
proof (cases "Status_CanTransitionTo (EffectiveStatus p) StatusPreparingStories")
  case True
  have ev: "evolves p (p\<lparr>p_Scenarios := x, p_Status := StatusPreparingStories\<rparr>)" for x
    by (rule evolves_update) (use True in simp_all)
  show ?thesis
    unfolding applyStoryReprepare_def resetRequirementExecutions_def Let_def
    by (simp add: True effect_ok_results(1,2) effect_ok_results(3,4) [OF ev] split: sum.split bool.split)
qed (simp add: applyStoryReprepare_def effect_ok_results)

lemma effect_ok_if:
  "(b \<Longrightarrow> effect_ok p c x) \<Longrightarrow> (\<not> b \<Longrightarrow> effect_ok p c y) \<Longrightarrow> effect_ok p c (if b then x else y)"
  by simp

lemma accept_effects_ok: "effect_ok p c (applyPlanDecisionAcceptEffects ids env d slug p c)"
proof (cases "validatePlanDecisionAcceptContractImpact d")
  case None
  let ?p1 = "applyAcceptedContractAmendment ids (en_now env) d p"
  have a: "evolves p ?p1" by simp
  have b: "evolves p (if B then applyRecoveryHint (en_now env) d ?p1 else ?p1)" for B
    using evolves_trans [OF a hint_evolves] by simp
  show ?thesis
    unfolding applyPlanDecisionAcceptEffects_def Let_def None option.case
    by (intro effect_ok_if effect_ok_trans [OF a architecture_revise_ok] effect_ok_trans [OF a scope_incomplete_ok]
        effect_ok_trans [OF b story_reprepare_ok] effect_ok_results(3) b)
qed (simp add: applyPlanDecisionAcceptEffects_def effect_ok_results)

lemma start_retry_touches:
  assumes "comp_inv c" "vis c slug = Some p" "p_Slug p = slug"
  shows "touches slug c (snd (startAcceptedPlanDecisionRetry env d p c))
    \<and> (\<forall>e. fst (startAcceptedPlanDecisionRetry env d p c) = Some e \<longrightarrow> \<not> clean e)"
proof -
  have t: "touches slug c c" using assms(1) by (rule touches_refl)
  obtain b c1 where p: "publishScenarioOrchestrator env p (d_AffectedReqIDs d) c = (b, c1)"
    by (cases "publishScenarioOrchestrator env p (d_AffectedReqIDs d) c")
  have "touches slug c c1"
    using touches_plans_eq [OF t, of c1] publishScenarioOrchestrator_frame [of env p "d_AffectedReqIDs d" c] p
    by simp
  then show ?thesis
    using startExecution_touches [OF assms evolves_refl, of env 1 "d_AffectedReqIDs d"] t p
    by (auto simp: startAcceptedPlanDecisionRetry_def split: bool.split)
qed

lemma store_accepted_touches:
  assumes "comp_inv c" "vis c slug = Some p" "p_Slug p = slug" "evolves p q"
  shows "touches slug c (snd (store_accepted env d slug q c))"
    and "fst (store_accepted env d slug q c) = Some e \<Longrightarrow> \<not> clean e"
proof -
  have s: "p_Slug q = slug" using assms(3,4) by (simp add: evolves_def)
  have f: "touches slug c1 (snd (case startAcceptedPlanDecisionRetry env d q c1 of (Some e, c2) \<Rightarrow> (Some e, c2)
        | (None, c2) \<Rightarrow> (None, if natsConfigured (co_config c2) \<and> en_cascade env
              then publish (CascadeRequest slug (d_ID d)) c2 else c2)))
      \<and> (\<forall>e. fst (case startAcceptedPlanDecisionRetry env d q c1 of (Some e, c2) \<Rightarrow> (Some e, c2)
        | (None, c2) \<Rightarrow> (None, if natsConfigured (co_config c2) \<and> en_cascade env
              then publish (CascadeRequest slug (d_ID d)) c2 else c2)) = Some e \<longrightarrow> \<not> clean e)"
    if "comp_inv c1" "vis c1 slug = Some q" for c1
    using start_retry_touches [OF that s, of env d]
    by (cases "startAcceptedPlanDecisionRetry env d q c1") (auto split: option.split intro: touches_plans_eq)
  note r = save_then_touches [OF assms f store_accepted_def]
  show "touches slug c (snd (store_accepted env d slug q c))"
    "fst (store_accepted env d slug q c) = Some e \<Longrightarrow> \<not> clean e" using r by blast+
qed

lemma accepting_fulfils:
  assumes a: "comp_inv c" "vis c slug = Some p" "p_Slug p = slug"
  shows "fulfils slug c (case applyPlanDecisionAcceptEffects ids env d slug (p\<lparr>p_PlanDecisions := ds\<rparr>) c of
    (Some e, _, c1) \<Rightarrow> (Some e, c1) | (None, plan2, c1) \<Rightarrow> store_accepted env d slug plan2 c1)"
proof -
  obtain e q c1 where r: "applyPlanDecisionAcceptEffects ids env d slug (p\<lparr>p_PlanDecisions := ds\<rparr>) c = (e, q, c1)"
    by (cases "applyPlanDecisionAcceptEffects ids env d slug (p\<lparr>p_PlanDecisions := ds\<rparr>) c") auto
  have ok: "effect_ok p c (e, q, c1)" using effect_ok_trans [OF decisions_evolve accept_effects_ok] r by metis
  then have f: "co_plans c1 = co_plans c" "co_config c1 = co_config c" "evolves p q"
    by (simp_all add: effect_ok_def)
  have c1: "comp_inv c1" "vis c1 slug = Some p" using a f by simp_all
  note t = store_accepted_touches [OF c1 a(3) f(3), of env d]
  have "touches slug c c1" using a(1) f by (simp add: touches_def)
  then have "touches slug c (snd (store_accepted env d slug q c1))" using touches_trans t(1) by blast
  then show ?thesis
    using r ok t(2) \<open>touches slug c c1\<close> f by (cases e) (auto simp: fulfils_def effect_ok_def)
qed

lemma decision_accept_meets:
  "comp_inv c \<Longrightarrow> fulfils (case data of Some r \<Rightarrow> pa_Slug r | None \<Rightarrow> []) c (handlePlanDecisionAcceptMutation ids data env c)"
  unfolding handlePlanDecisionAcceptMutation_def accept_locked_def Let_def
  by (auto split: option.split intro!: contract_reject contract_with_plan accepting_fulfils)

lemma decision_add_meets:
  assumes "comp_inv c"
  shows "fulfils (case data of Some r \<Rightarrow> pd_Slug r | None \<Rightarrow> []) c (handlePlanDecisionAddMutation data env c)"
proof -
  have "evolves p (archiveOpenExhaustionDecisionsLocked now ids p\<lparr>p_PlanDecisions := ds\<rparr>)" for p now ids ds
    by (simp add: archiveOpenExhaustionDecisionsLocked_def)
  then show ?thesis
    using assms unfolding handlePlanDecisionAddMutation_def Let_def
    by (auto split: option.split intro!: contract_reject contract_with_plan contract_save)
qed

section \<open>What an acceptance keeps\<close>

text \<open>Stories and requirements up to their cores, and the scenarios outside a set.\<close>

definition keeps_outside :: "Plan \<Rightarrow> Plan \<Rightarrow> (Scenario \<Rightarrow> bool) \<Rightarrow> bool" where
  "keeps_outside p q hit \<longleftrightarrow> map story_core (p_Stories q) = map story_core (p_Stories p)
     \<and> map req_core (p_Requirements q) = map req_core (p_Requirements p)
     \<and> p_Scenarios q = filter (\<lambda>s. s \<in> set (p_Scenarios q)) (p_Scenarios p)
     \<and> (\<forall>s \<in> set (p_Scenarios p). \<not> hit s \<longrightarrow> s \<in> set (p_Scenarios q))"

lemma keeps_same:
  assumes "map story_core (p_Stories q) = map story_core (p_Stories p)"
    "map req_core (p_Requirements q) = map req_core (p_Requirements p)" "p_Scenarios q = p_Scenarios p"
  shows "keeps_outside p q hit"
  using assms by (simp add: keeps_outside_def)

lemma hint_cores:
  "map story_core (p_Stories (applyRecoveryHint now d p)) = map story_core (p_Stories p)"
  "map req_core (p_Requirements (applyRecoveryHint now d p)) = map req_core (p_Requirements p)"
  "p_Scenarios (applyRecoveryHint now d p) = p_Scenarios p"
  by (simp_all add: applyRecoveryHint_def applyRecoveryHintToStories_def story_core_def req_core_def)

lemma retry_cores:
  "map story_core (p_Stories (resetStoriesForRetry now ids p)) = map story_core (p_Stories p)"
  "p_Requirements (resetStoriesForRetry now ids p) = p_Requirements p"
  "p_Scenarios (resetStoriesForRetry now ids p) = p_Scenarios p"
  by (simp_all add: resetStoriesForRetry_def retry_story_def story_core_def)

lemma scoped_cores:
  "map story_core (p_Stories (reviseScopedArchitectureState now d ids p)) = map story_core (p_Stories p)"
  "p_Requirements (reviseScopedArchitectureState now d ids p) = p_Requirements p"
  "p_Scenarios (reviseScopedArchitectureState now d ids p) = p_Scenarios p"
  by (simp_all add: reviseScopedArchitectureState_def Let_def applyArchitectureRevisionHintToStories_def
      prepareArchitectureRevisionBase_def story_core_def)

lemma amendment_frame:
  "p_Stories (applyAcceptedContractAmendment ids now d p) = p_Stories p"
  "p_Requirements (applyAcceptedContractAmendment ids now d p) = p_Requirements p"
  "p_Scenarios (applyAcceptedContractAmendment ids now d p) = p_Scenarios p"
  "p_PlanDecisions (applyAcceptedContractAmendment ids now d p) = p_PlanDecisions p"
  by (simp_all add: applyAcceptedContractAmendment_def add_amendment_def EnsureContractPacket_def Let_def
      split: option.split)

text \<open>The scenarios an acceptance may drop.\<close>

definition affected_scenario :: "Plan \<Rightarrow> PlanDecision \<Rightarrow> Scenario \<Rightarrow> bool" where
  "affected_scenario p d s \<longleftrightarrow> sc_StoryID s \<in> set (d_AffectedStoryIDs d)
     \<or> sc_RequirementID s \<in> set (ExpandRequirementStoryClosure (p_Requirements p) (p_Stories p)
         (affectedRequirementIDsForStoryReprepare p d))"

lemma closure_maps:
  assumes "\<And>r. r_ID (g r) = r_ID r \<and> r_DependsOn (g r) = r_DependsOn r" "\<And>s. s_RequirementIDs (f s) = s_RequirementIDs s"
  shows "set (ExpandRequirementStoryClosure (map g rs) (map f ss) seeds) = set (ExpandRequirementStoryClosure rs ss seeds)"
proof -
  have d: "(x, y) \<in> downstream rs \<longleftrightarrow> (\<exists>r \<in> set rs. y = r_ID r \<and> r_ID r \<noteq> [] \<and> x \<in> set (r_DependsOn r))" for x y rs
    by (auto simp: downstream_def)
  have j: "(x, y) \<in> joined ss \<longleftrightarrow> (\<exists>s \<in> set ss. x \<in> set (s_RequirementIDs s) \<and> y \<in> set (s_RequirementIDs s) \<and> y \<noteq> [])" for x y ss
    by (auto simp: joined_def)
  have "downstream (map g rs) = downstream rs" "joined (map f ss) = joined ss"
    by (simp_all add: set_eq_iff d j assms)
  then show ?thesis by (simp add: set_ExpandRequirementStoryClosure)
qed

lemma affected_map:
  assumes "\<And>s. s_ID (f s) = s_ID s \<and> s_RequirementIDs (f s) = s_RequirementIDs s" "p_Stories q = map f (p_Stories p)"
  shows "affectedRequirementIDsForStoryReprepare q d = affectedRequirementIDsForStoryReprepare p d"
proof -
  have "concat (map s_RequirementIDs (filter (\<lambda>s. s_ID s \<in> A) (map f ss)))
      = concat (map s_RequirementIDs (filter (\<lambda>s. s_ID s \<in> A) ss))" for A ss
    using assms(1) by (induction ss) auto
  then show ?thesis by (simp only: affectedRequirementIDsForStoryReprepare_def assms(2))
qed

lemma hint_maps:
  obtains f g where "p_Stories (applyRecoveryHint now d p) = map f (p_Stories p)"
    "\<And>s. s_ID (f s) = s_ID s \<and> s_RequirementIDs (f s) = s_RequirementIDs s"
    "p_Requirements (applyRecoveryHint now d p) = map g (p_Requirements p)"
    "\<And>r. r_ID (g r) = r_ID r \<and> r_DependsOn (g r) = r_DependsOn r"
proof -
  let ?f = "\<lambda>s. if (if d_AffectedStoryIDs d = [] then list_ex (\<lambda>rid. rid \<in> set (d_AffectedReqIDs d)) (s_RequirementIDs s)
      else s_ID s \<in> set (d_AffectedStoryIDs d)) then s\<lparr>s_RecoveryHint := d_Rationale d, s_UpdatedAt := now\<rparr> else s"
  let ?g = "\<lambda>r. if r_ID r \<in> set (d_AffectedReqIDs d) then r\<lparr>r_RecoveryHint := d_Rationale d, r_UpdatedAt := now\<rparr> else r"
  note d = applyRecoveryHint_def applyRecoveryHintToStories_def
  show ?thesis
  proof (cases "d_Rationale d = []")
    case True
    show ?thesis by (rule that [of id id]) (simp_all add: True d)
  next
    case False
    show ?thesis
    proof (cases "d_Kind d = PlanDecisionKindStoryReprepare")
      case True
      show ?thesis by (rule that [of ?f id]) (simp_all add: True False d)
    next
      case k: False
      show ?thesis by (rule that [of id ?g]) (simp_all add: k False d)
    qed
  qed
qed

lemma hint_affected_scenario: "affected_scenario (applyRecoveryHint now d' p) d = affected_scenario p d"
proof -
  obtain f g where m: "p_Stories (applyRecoveryHint now d' p) = map f (p_Stories p)"
    "\<And>s. s_ID (f s) = s_ID s \<and> s_RequirementIDs (f s) = s_RequirementIDs s"
    "p_Requirements (applyRecoveryHint now d' p) = map g (p_Requirements p)"
    "\<And>r. r_ID (g r) = r_ID r \<and> r_DependsOn (g r) = r_DependsOn r" by (rule hint_maps [of now d' p]) blast
  show ?thesis
    unfolding affected_scenario_def fun_eq_iff m(1,3) affected_map [OF m(2,1)]
    using closure_maps [OF m(4)] m(2) by simp
qed

lemma amendment_affected_scenario: "affected_scenario (applyAcceptedContractAmendment ids now d' p) d = affected_scenario p d"
  by (simp add: affected_scenario_def affectedRequirementIDsForStoryReprepare_def amendment_frame fun_eq_iff)

lemma reprepare_keeps:
  assumes "applyStoryReprepare env d slug p c = (None, q, c1)" "\<not> contractImpactAllowsWholePhaseReset d ''stories''"
  shows "keeps_outside p q (affected_scenario p d)"
proof (cases "Status_CanTransitionTo (EffectiveStatus p) StatusPreparingStories")
  case False
  then show ?thesis using assms(1) by (simp add: applyStoryReprepare_def keeps_same)
next
  case True
  let ?cl = "ExpandRequirementStoryClosure (p_Requirements p) (p_Stories p) (affectedRequirementIDsForStoryReprepare p d)"
  have ne: "?cl \<noteq> []" using assms True
    by (auto simp: applyStoryReprepare_def resetScopeFromRequirements_def Let_def split: if_splits)
  have q: "q = p\<lparr>p_Scenarios := removeScenariosForStoryReprepare (p_Scenarios p) d ?cl, p_Status := StatusPreparingStories\<rparr>"
    using assms(1) True ne
    by (auto simp: applyStoryReprepare_def resetScopeFromRequirements_def Let_def split: if_splits prod.splits bool.splits)
  show ?thesis
    unfolding q keeps_outside_def removeScenariosForStoryReprepare_def affected_scenario_def Let_def
    by (auto intro: filter_cong)
qed

lemma revise_keeps:
  assumes "applyArchitectureRevise env d p c = (None, q, c1)" "\<not> contractImpactAllowsWholePhaseReset d ''architecture''"
  shows "keeps_outside p q hit"
proof (cases "Status_CanTransitionTo (EffectiveStatus p) StatusRequirementsGenerated")
  case False
  then show ?thesis using assms(1) by (simp add: applyArchitectureRevise_def keeps_same)
next
  case True
  obtain ids where "q = reviseScopedArchitectureState (en_now env) d ids p"
    using assms True
    by (auto simp: applyArchitectureRevise_def planDecisionResetScope_def resetScopeFromRequirements_def
        resetRequirementExecutions_def Let_def split: if_splits bool.splits)
  then show ?thesis using scoped_cores by (intro keeps_same) simp_all
qed

lemma scope_recovery_keeps:
  assumes "applyScopeIncompleteRecovery env d slug p c = (None, q, c1)"
  shows "keeps_outside p q hit"
proof -
  have "map story_core (p_Stories q) = map story_core (p_Stories p) \<and> map req_core (p_Requirements q) = map req_core (p_Requirements p)
      \<and> p_Scenarios q = p_Scenarios p"
    using assms hint_cores retry_cores
    by (auto simp: applyScopeIncompleteRecovery_def resetRequirementExecutions_def Let_def split: if_splits bool.splits)
  then show ?thesis by (intro keeps_same) simp_all
qed

text \<open>C6: accepting a decision destroys nothing outside its reach.  Unless the decision carries explicit
  evidence for a whole-phase reset, the effects of accepting it keep every requirement and every story
  with its dependencies and files, in order, and drop a scenario only if it belongs to a story the
  decision names or to a requirement in the closure of the affected ones.\<close>

theorem acceptance_keeps_unaffected:
  assumes "applyPlanDecisionAcceptEffects ids env d slug p c = (None, q, c1)"
    and "\<not> contractImpactAllowsWholePhaseReset d ''architecture''" "\<not> contractImpactAllowsWholePhaseReset d ''stories''"
  shows "map story_core (p_Stories q) = map story_core (p_Stories p)
    \<and> map req_core (p_Requirements q) = map req_core (p_Requirements p)
    \<and> (\<forall>s \<in> set (p_Scenarios q). s \<in> set (p_Scenarios p))
    \<and> (\<forall>s \<in> set (p_Scenarios p). s \<notin> set (p_Scenarios q) \<longrightarrow>
         sc_StoryID s \<in> set (d_AffectedStoryIDs d)
         \<or> sc_RequirementID s \<in> set (ExpandRequirementStoryClosure (p_Requirements p) (p_Stories p)
             (affectedRequirementIDsForStoryReprepare p d)))"
proof -
  let ?p1 = "applyAcceptedContractAmendment ids (en_now env) d p"
  let ?p2 = "if d_ProposedBy d = ''recovery-agent'' \<and> d_Rationale d \<noteq> [] then applyRecoveryHint (en_now env) d ?p1 else ?p1"
  have v: "validatePlanDecisionAcceptContractImpact d = None"
    using assms(1) by (auto simp: applyPlanDecisionAcceptEffects_def split: option.splits)
  have p2: "affected_scenario ?p2 d = affected_scenario p d" "map story_core (p_Stories ?p2) = map story_core (p_Stories p)"
    "map req_core (p_Requirements ?p2) = map req_core (p_Requirements p)" "p_Scenarios ?p2 = p_Scenarios p"
    by (simp_all add: hint_affected_scenario amendment_affected_scenario amendment_frame hint_cores)
  have "keeps_outside p q (affected_scenario p d)"
  proof -
    consider "applyArchitectureRevise env d ?p1 c = (None, q, c1)" | "applyScopeIncompleteRecovery env d slug ?p1 c = (None, q, c1)"
      | "applyStoryReprepare env d slug ?p2 c = (None, q, c1)" | "q = ?p2"
      using assms(1) v unfolding applyPlanDecisionAcceptEffects_def Let_def by (simp split: if_splits)
    then show ?thesis
    proof cases
      case 1
      then show ?thesis using revise_keeps [OF 1 assms(2), of "affected_scenario p d"] amendment_frame
        by (simp add: keeps_outside_def)
    next
      case 2
      then show ?thesis using scope_recovery_keeps [OF 2, of "affected_scenario p d"] amendment_frame
        by (simp add: keeps_outside_def)
    next
      case 3
      then show ?thesis using reprepare_keeps [OF 3 assms(3)] p2 by (simp add: keeps_outside_def)
    next
      case 4
      then show ?thesis using p2 by (intro keeps_same) simp_all
    qed
  qed
  then show ?thesis unfolding keeps_outside_def affected_scenario_def by (metis filter_is_subset subsetD)
qed

definition ex_prepared :: Plan where
  "ex_prepared = (ex_slug_plan ''a'' StatusImplementing)\<lparr>
     p_Requirements := [ex_req ''A'' [], ex_req ''B'' []],
     p_Stories := [Story_zero\<lparr>s_ID := ''S1'', s_RequirementIDs := [''A'']\<rparr>, Story_zero\<lparr>s_ID := ''S2'', s_RequirementIDs := [''B'']\<rparr>],
     p_Scenarios := [ex_scenario ''x'' ''A'' ''S1'', ex_scenario ''y'' ''B'' ''S2''],
     p_PlanDecisions := [PlanDecision_zero\<lparr>d_ID := ''d1'', d_Kind := PlanDecisionKindStoryReprepare,
       d_Status := PlanDecisionStatusProposed, d_AffectedStoryIDs := [''S1'']\<rparr>]\<rparr>"

definition ex_reprepare :: PlanDecision where
  "ex_reprepare = PlanDecision_zero\<lparr>d_ID := ''d1'', d_Kind := PlanDecisionKindStoryReprepare,
     d_Status := PlanDecisionStatusAccepted, d_AffectedStoryIDs := [''S1'']\<rparr>"

theorem acceptance_keeps_unaffected_witness:
  "ex_scenario ''y'' ''B'' ''S2'' \<in> set (p_Scenarios (fst (snd (applyPlanDecisionAcceptEffects ex_ids ex_env ex_reprepare ''a''
     ex_prepared (ex_comp ex_prepared)))))"
proof -
  let ?r = "applyPlanDecisionAcceptEffects ex_ids ex_env ex_reprepare ''a'' ex_prepared (ex_comp ex_prepared)"
  let ?y = "ex_scenario ''y'' ''B'' ''S2''"
  have "fst ?r = None" by code_simp
  then have r: "?r = (None, fst (snd ?r), snd (snd ?r))" by (metis prod.collapse)
  have n: "\<not> contractImpactAllowsWholePhaseReset ex_reprepare ''architecture''"
    "\<not> contractImpactAllowsWholePhaseReset ex_reprepare ''stories''" by code_simp+
  have "?y \<in> set (p_Scenarios ex_prepared)" by (simp add: ex_prepared_def)
  moreover have "sc_StoryID ?y \<notin> set (d_AffectedStoryIDs ex_reprepare)"
    "sc_RequirementID ?y \<notin> set (ExpandRequirementStoryClosure (p_Requirements ex_prepared) (p_Stories ex_prepared)
       (affectedRequirementIDsForStoryReprepare ex_prepared ex_reprepare))" by code_simp+
  ultimately show ?thesis using acceptance_keeps_unaffected [OF r n] by blast
qed

section \<open>A decision is accepted once\<close>

lemma effects_decisions:
  assumes "applyPlanDecisionAcceptEffects ids env d slug p c = (e, q, c1)"
  shows "p_PlanDecisions q = p_PlanDecisions p"
proof -
  have h: "p_PlanDecisions (applyRecoveryHint now d' x) = p_PlanDecisions x"
    "p_PlanDecisions (resetStoriesForRetry now ids' x) = p_PlanDecisions x"
    "p_PlanDecisions (reviseScopedArchitectureState now d' ids' x) = p_PlanDecisions x"
    "p_PlanDecisions (reviseArchitectureState d' x) = p_PlanDecisions x" for now d' ids' x
    by (simp_all add: applyRecoveryHint_def applyRecoveryHintToStories_def resetStoriesForRetry_def
        reviseScopedArchitectureState_def reviseArchitectureState_def prepareArchitectureRevisionBase_def
        applyArchitectureRevisionHintToStories_def Let_def)
  have a: "applyArchitectureRevise env d x c = (e, q, c1) \<Longrightarrow> p_PlanDecisions q = p_PlanDecisions x" for x
    by (auto simp: applyArchitectureRevise_def resetRequirementExecutions_def h split: if_splits sum.splits prod.splits bool.splits)
  have b: "applyScopeIncompleteRecovery env d slug x c = (e, q, c1) \<Longrightarrow> p_PlanDecisions q = p_PlanDecisions x" for x
    by (auto simp: applyScopeIncompleteRecovery_def resetRequirementExecutions_def Let_def h split: if_splits bool.splits)
  have r: "applyStoryReprepare env d slug x c = (e, q, c1) \<Longrightarrow> p_PlanDecisions q = p_PlanDecisions x" for x
    by (auto simp: applyStoryReprepare_def Let_def split: if_splits sum.splits prod.splits bool.splits)
  let ?p1 = "applyAcceptedContractAmendment ids (en_now env) d p"
  let ?p2 = "if d_ProposedBy d = ''recovery-agent'' \<and> d_Rationale d \<noteq> [] then applyRecoveryHint (en_now env) d ?p1 else ?p1"
  have p2: "p_PlanDecisions ?p2 = p_PlanDecisions p" "p_PlanDecisions ?p1 = p_PlanDecisions p"
    by (simp_all add: h amendment_frame)
  show ?thesis
    using assms a [of ?p1] b [of ?p1] r [of ?p2] p2
    unfolding applyPlanDecisionAcceptEffects_def Let_def by (auto split: option.splits if_splits)
qed

lemma start_retry_keeps:
  assumes c: "comp_inv c" "vis c slug = Some p" "p_Slug p = slug"
    and s: "startAcceptedPlanDecisionRetry env d p c = (None, c1)"
  shows "\<exists>q. vis c1 slug = Some q \<and> p_PlanDecisions q = p_PlanDecisions p"
proof -
  have pub: "vis (snd (publishScenarioOrchestrator env x f c2)) = vis c2" for x f c2 by simp
  have start: "\<exists>q. vis c1 slug = Some q \<and> p_PlanDecisions q = p_PlanDecisions p"
    if "startExecutionFromReady env 1 p f c = (None, c1)" for f
  proof -
    obtain e q' c2 where st: "set_status (en_save env 1) p StatusImplementing c = (e, q', c2)"
      by (cases "set_status (en_save env 1) p StatusImplementing c") auto
    have e: "e = None" using that st by (cases e) (auto simp: startExecutionFromReady_def split: if_splits)
    note t = set_status_touches(3,5) [OF c evolves_refl st]
    obtain b c3 where pb: "publishScenarioOrchestrator env q' f c2 = (b, c3)"
      by (cases "publishScenarioOrchestrator env q' f c2")
    have "c1 = c3" using that st e pb by (cases b) (auto simp: startExecutionFromReady_def split: if_splits prod.splits)
    then have "vis c1 = vis c2" using pub [of q' f c2] pb by simp
    then show ?thesis using t [OF e] by (intro exI [of _ q']) simp
  qed
  have "vis c1 = vis c" if "publishScenarioOrchestrator env p f c = (b, c1)" for b f
    using pub [of p f c] that by simp
  then show ?thesis
    using s start c(2) by (fastforce simp: startAcceptedPlanDecisionRetry_def split: if_splits prod.splits bool.splits)
qed

lemma store_accepted_keeps:
  assumes c: "comp_inv c" "vis c slug = Some p" "p_Slug p = slug" "evolves p q"
    and s: "store_accepted env d slug q c = (None, c1)"
  shows "\<exists>q'. vis c1 slug = Some q' \<and> p_PlanDecisions q' = p_PlanDecisions q"
proof -
  obtain e c2 where sr: "save_reply (en_save env 0) q c = (e, c2)" by (cases "save_reply (en_save env 0) q c")
  have e: "e = None" using s sr by (cases e) (simp_all add: store_accepted_def)
  have q: "p_Slug q = slug" using c(3,4) by (simp add: evolves_def)
  have c2: "comp_inv c2" "vis c2 slug = Some q"
    using contract_save [OF c, of "en_save env 0"] sr e save_reply_ok(1) q by (auto simp: fulfils_def touches_def)
  obtain f c3 where st: "startAcceptedPlanDecisionRetry env d q c2 = (f, c3)"
    by (cases "startAcceptedPlanDecisionRetry env d q c2")
  have f: "f = None" using s sr e st by (cases f) (simp_all add: store_accepted_def)
  have "vis c1 = vis c3" using s sr e st f by (auto simp: store_accepted_def)
  then show ?thesis using start_retry_keeps [OF c2 q] st f by simp
qed

lemma FindPlanDecision_update:
  assumes "FindPlanDecision p i = Some (d, k)" "d_ID d' = i" "p_PlanDecisions q = (p_PlanDecisions p)[k := d']"
  shows "FindPlanDecision q i = Some (d', k)"
  using find_at_update [of "\<lambda>d. d_ID d = i" 0 "p_PlanDecisions p" d k d'] assms
  by (simp add: FindPlanDecision_def)

text \<open>What an acceptance that succeeds leaves stored.\<close>

lemma accepted_stored:
  assumes c: "comp_inv c" and a: "handlePlanDecisionAcceptMutation ids (Some r) env c = (None, c1)"
  shows "\<exists>q d k. vis c1 (pa_Slug r) = Some q \<and> FindPlanDecision q (pa_ProposalID r) = Some (d, k)
    \<and> d_Status d = PlanDecisionStatusAccepted"
proof -
  let ?slug = "pa_Slug r" and ?i = "pa_ProposalID r"
  have w: "with_plan env ?slug (accept_locked ids r env) c = (None, c1)"
    using a by (simp add: handlePlanDecisionAcceptMutation_def split: if_splits)
  from c show ?thesis
  proof (cases rule: with_plan_cases [where env = env and slug = ?slug and k = "accept_locked ids r env"])
    case (found p c2)
    have v: "vis c2 ?slug = Some p" using found(2,6) by simp
    have b: "accept_locked ids r env p c2 = (None, c1)" using w found(1) by simp
    then obtain d k where d: "FindPlanDecision p ?i = Some (d, k)"
      by (cases "FindPlanDecision p ?i") (auto simp: accept_locked_def)
    let ?d = "d\<lparr>d_Status := PlanDecisionStatusAccepted, d_DecidedAt := Some (en_now env)\<rparr>"
    let ?p1 = "p\<lparr>p_PlanDecisions := (p_PlanDecisions p)[k := ?d]\<rparr>"
    obtain e q c3 where ef: "applyPlanDecisionAcceptEffects ids env ?d ?slug ?p1 c2 = (e, q, c3)"
      by (cases "applyPlanDecisionAcceptEffects ids env ?d ?slug ?p1 c2") auto
    have st: "e = None" "store_accepted env ?d ?slug q c3 = (None, c1)"
      using b d ef by (cases e; simp add: accept_locked_def Let_def split: if_splits option.splits)+
    have ok: "effect_ok p c2 (e, q, c3)" using effect_ok_trans [OF decisions_evolve accept_effects_ok] ef by metis
    then have c3: "comp_inv c3" "vis c3 ?slug = Some p" "evolves p q" using found(3) v by (simp_all add: effect_ok_def)
    obtain q' where q': "vis c1 ?slug = Some q'" "p_PlanDecisions q' = p_PlanDecisions q"
      using store_accepted_keeps [OF c3(1,2) found(7) c3(3) st(2)] by blast
    have "p_PlanDecisions q' = (p_PlanDecisions p)[k := ?d]" using q'(2) effects_decisions [OF ef] by simp
    moreover have "d_ID ?d = ?i" using d find_at_SomeD by (fastforce simp: FindPlanDecision_def)
    ultimately have "FindPlanDecision q' ?i = Some (?d, k)" using FindPlanDecision_update [OF d] by blast
    then show ?thesis using q'(1) by (intro exI [of _ q'] exI [of _ ?d] exI [of _ k]) simp
  qed (use w in simp)
qed

lemma accept_needs_open:
  assumes "comp_inv c" "vis c (pa_Slug r) = Some q" "FindPlanDecision q (pa_ProposalID r) = Some (d, k)"
    and "\<not> PlanDecisionStatus_CanTransitionTo (d_Status d) PlanDecisionStatusAccepted"
  shows "\<exists>e. fst (handlePlanDecisionAcceptMutation ids (Some r) env c) = Some e \<and> clean e"
proof (cases "pa_Slug r = [] \<or> pa_ProposalID r = []")
  case False
  have h: "handlePlanDecisionAcceptMutation ids (Some r) env c = with_plan env (pa_Slug r) (accept_locked ids r env) c"
    using False by (simp add: handlePlanDecisionAcceptMutation_def)
  have b: "accept_locked ids r env q c2 = (Some (BadDecisionStatus (d_Status d)), c2)" for c2
    using assms(3,4) by (simp add: accept_locked_def)
  from assms(1) show ?thesis
    by (cases rule: with_plan_cases [where env = env and slug = "pa_Slug r" and k = "accept_locked ids r env"])
      (use assms(2) h b in auto)
qed (simp add: handlePlanDecisionAcceptMutation_def)

text \<open>C23: A plan decision is accepted at most once.  After an acceptance that succeeds, the stored
  plan holds the decision as accepted, and every further request to accept it, under any outcome of
  the reads and writes it makes, is refused and leaves the stored plans and the published effects
  as they were.\<close>

theorem decision_accepted_once:
  assumes "comp_inv c" and "handlePlanDecisionAcceptMutation ids (Some r) env c = (None, c1)"
  shows "(\<exists>q d k. vis c1 (pa_Slug r) = Some q \<and> FindPlanDecision q (pa_ProposalID r) = Some (d, k)
      \<and> d_Status d = PlanDecisionStatusAccepted)
    \<and> fst (handlePlanDecisionAcceptMutation ids' (Some r) env' c1) \<noteq> None
    \<and> vis (snd (handlePlanDecisionAcceptMutation ids' (Some r) env' c1)) = vis c1
    \<and> co_outbox (snd (handlePlanDecisionAcceptMutation ids' (Some r) env' c1)) = co_outbox c1"
proof -
  obtain q d k where q: "vis c1 (pa_Slug r) = Some q" "FindPlanDecision q (pa_ProposalID r) = Some (d, k)"
    "d_Status d = PlanDecisionStatusAccepted" using accepted_stored [OF assms] by blast
  have c1: "comp_inv c1"
    using decision_accept_meets [OF assms(1), of "Some r" ids env] assms(2) by (auto simp: fulfils_def touches_def)
  have "\<not> PlanDecisionStatus_CanTransitionTo (d_Status d) PlanDecisionStatusAccepted" using q(3) by simp
  from accept_needs_open [OF c1 q(1,2) this, of ids' env'] obtain e
    where e: "fst (handlePlanDecisionAcceptMutation ids' (Some r) env' c1) = Some e" "clean e" by blast
  then show ?thesis
    using q decision_accept_meets [OF c1, of "Some r" ids' env'] unfolding fulfils_def by (metis option.distinct(1))
qed

definition ex_accept :: planDecisionAcceptRequest where
  "ex_accept = \<lparr>pa_Slug = ''a'', pa_ProposalID = ''d1'', pa_AcceptedBy = []\<rparr>"

theorem decision_accepted_once_witness:
  "vis (snd (handlePlanDecisionAcceptMutation ex_ids (Some ex_accept) ex_env
      (snd (handlePlanDecisionAcceptMutation ex_ids (Some ex_accept) ex_env (ex_comp ex_prepared)))))
    = vis (snd (handlePlanDecisionAcceptMutation ex_ids (Some ex_accept) ex_env (ex_comp ex_prepared)))"
proof -
  let ?r = "handlePlanDecisionAcceptMutation ex_ids (Some ex_accept) ex_env (ex_comp ex_prepared)"
  have "comp_inv (ex_comp ex_prepared)" by (rule ex_comp_inv) code_simp
  moreover have "fst ?r = None" by code_simp
  then have "?r = (None, snd ?r)" by (metis prod.collapse)
  ultimately show ?thesis using decision_accepted_once by blast
qed

end
