(* ===== verification/GitHub.thy ===== *)
theory GitHub
  imports Decisions Execution_Types
begin

text \<open>
  The GitHub handlers of \<^verbatim>\<open>src/processor/plan-manager/mutations.go\<close>: creating a plan from an issue,
  recording the pull request, and routing the comments of a pull-request review to the requirements
  whose executions touched the commented files.  The requests are those of
  \<^verbatim>\<open>src/workflow/payloads/github.go\<close>, decoded; \<open>lower\<close> is \<^verbatim>\<open>strings.ToLower\<close> on arbitrary
  text.
\<close>

section \<open>Requests\<close>

record GitHubPlanCreationRequest =
  gc_IssueNumber :: int
  gc_IssueURL :: bytes
  gc_Repository :: bytes
  gc_Title :: bytes
  gc_Description :: bytes
  gc_Scope :: bytes
  gc_Constraints :: bytes
  gc_Priority :: bytes
  gc_TraceID :: bytes

definition GitHubPlanCreationRequest_Validate :: "GitHubPlanCreationRequest \<Rightarrow> bool" where
  "GitHubPlanCreationRequest_Validate r \<longleftrightarrow> gc_IssueNumber r \<noteq> 0 \<and> gc_Title r \<noteq> [] \<and> gc_Repository r \<noteq> []"

record PRReviewComment =
  cm_ID :: int
  cm_Path :: bytes
  cm_Line :: int
  cm_Body :: bytes
  cm_DiffHunk :: bytes

record GitHubPRFeedbackRequest =
  gp_Slug :: bytes
  gp_PRNumber :: int
  gp_ReviewID :: int
  gp_Reviewer :: bytes
  gp_State :: bytes
  gp_Body :: bytes
  gp_Comments :: "PRReviewComment list"
  gp_TraceID :: bytes

definition GitHubPRFeedbackRequest_Validate :: "GitHubPRFeedbackRequest \<Rightarrow> bool" where
  "GitHubPRFeedbackRequest_Validate r \<longleftrightarrow> gp_Slug r \<noteq> [] \<and> gp_PRNumber r \<noteq> 0 \<and> gp_ReviewID r \<noteq> 0"

section \<open>Creating a plan\<close>

definition Slugify :: "(bytes \<Rightarrow> bytes) \<Rightarrow> Ids \<Rightarrow> bytes \<Rightarrow> bytes" where
  "Slugify lower ids description =
     (let normalized = lower (TrimSpace description) in
      if normalized = [] then [] else hex_encode (take 6 (sha256 ids normalized)))"

definition github_slug :: "(bytes \<Rightarrow> bytes) \<Rightarrow> Ids \<Rightarrow> GitHubPlanCreationRequest \<Rightarrow> bytes" where
  "github_slug lower ids req = show_int (gc_IssueNumber req) @ ''-'' @ Slugify lower ids (gc_Title req)"

definition github_details :: "GitHubPlanCreationRequest \<Rightarrow> Plan \<Rightarrow> Plan" where
  "github_details req plan =
     plan\<lparr>p_GitHub := Some (GitHubMetadata_zero\<lparr>gh_IssueNumber := gc_IssueNumber req,
             gh_IssueURL := gc_IssueURL req, gh_Repository := gc_Repository req\<rparr>),
          p_Context := (if gc_Description req \<noteq> [] then gc_Description req else p_Context plan),
          p_Scope := (if gc_Scope req \<noteq> []
                      then (p_Scope plan)\<lparr>scope_Include := map TrimSpace (split_on CHR '','' (gc_Scope req))\<rparr>
                      else p_Scope plan)\<rparr>"

text \<open>\<open>qa\<close> is the project's QA level.\<close>

definition handleGitHubPlanCreateMutation :: "(bytes \<Rightarrow> bytes) \<Rightarrow> Ids \<Rightarrow> TopologyFact list \<Rightarrow> QALevel \<Rightarrow>
    GitHubPlanCreationRequest option \<Rightarrow> handler" where
  "handleGitHubPlanCreateMutation lower ids detected qa data env c =
     (case data of
        None \<Rightarrow> (Some Unmarshal, c)
      | Some req \<Rightarrow>
          if \<not> GitHubPlanCreationRequest_Validate req then (Some Required, c)
          else let slug = github_slug lower ids req in
            if plan_exists slug (co_plans c) then (None, c)
            else (case plan_create ids detected (en_save env 0) (en_now env) slug (gc_Title req)
                         (if gc_Description req = [] then gc_Title req else gc_Description req) qa None (co_plans c) of
                    (Inl e, st) \<Rightarrow> (Some (SaveError e), c\<lparr>co_plans := st\<rparr>)
                  | (Inr plan, st) \<Rightarrow> save_reply (en_save env 1) (github_details req plan) (c\<lparr>co_plans := st\<rparr>)))"

section \<open>Pull requests\<close>

record PRMetadataRequest =
  gm_Slug :: bytes
  gm_PRNumber :: int
  gm_PRURL :: bytes

definition handleGitHubPRMetadataMutation :: "PRMetadataRequest option \<Rightarrow> handler" where
  "handleGitHubPRMetadataMutation data env c =
     (case data of
        None \<Rightarrow> (Some Unmarshal, c)
      | Some req \<Rightarrow>
          if gm_Slug req = [] \<or> gm_PRNumber req = 0 then (Some Required, c)
          else with_plan env (gm_Slug req) (\<lambda>plan c.
            case p_GitHub plan of
              None \<Rightarrow> (Some NotFromGitHub, c)
            | Some g \<Rightarrow> save_reply (en_save env 0) (plan\<lparr>p_GitHub := Some (g\<lparr>gh_PRNumber := gm_PRNumber req,
                  gh_PRURL := gm_PRURL req, gh_PRState := ''open''\<rparr>)\<rparr>) c) c)"

text \<open>The reverse index of the plan's rows, from files to the requirement part of the key, in the order
  of the bucket's keys (\<open>None\<close> for a row that cannot be read or decoded); the whole bucket is \<open>None\<close>
  when it cannot be listed, and then no comment is mapped.\<close>

definition buildFileToReqMap :: "(bytes \<times> RequirementExecution option) list option \<Rightarrow> bytes \<Rightarrow> (bytes \<times> bytes) list" where
  "buildFileToReqMap bucket slug =
     (case bucket of
        None \<Rightarrow> []
      | Some rows \<Rightarrow>
          concat (map (\<lambda>kv. case snd kv of
              None \<Rightarrow> []
            | Some e \<Rightarrow> map (\<lambda>f. (f, drop (length (''req.'' @ slug @ ''.'')) (fst kv)))
                          (concat (map nr_FilesModified (re_NodeResults e))))
            (filter (\<lambda>kv. HasPrefix (fst kv) (''req.'' @ slug @ ''.'')) rows)))"

definition mapCommentsToRequirements :: "PRReviewComment list \<Rightarrow> (bytes \<times> bytes) list \<Rightarrow> bytes list" where
  "mapCommentsToRequirements comments fileMap =
     foldl appendUnique [] (concat (map (\<lambda>c. if cm_Path c = [] then []
       else map snd (filter (\<lambda>fr. fst fr = cm_Path c) fileMap)) comments))"

definition appendPRFeedbackPlanDecisions :: "Ids \<Rightarrow> nat \<Rightarrow> GitHubPRFeedbackRequest \<Rightarrow> GitHubMetadata \<Rightarrow> bytes list \<Rightarrow> Plan \<Rightarrow> Plan" where
  "appendPRFeedbackPlanDecisions ids now req g affected plan =
     plan\<lparr>p_PlanDecisions := p_PlanDecisions plan @ map (\<lambda>reqID. PlanDecision_zero\<lparr>
         d_ID := ''plan-decision.'' @ gp_Slug req @ ''.pr-feedback.'' @ show_int (gp_ReviewID req) @ ''.'' @ reqID,
         d_PlanID := PlanEntityID ids (gp_Slug req),
         d_Title := ''PR feedback round '' @ show_int (gh_PRRevision g + 1),
         d_Rationale := ''PR review feedback from @'' @ gp_Reviewer req @ '' (review '' @ show_int (gp_ReviewID req) @ '')''
           @ (if gp_Body req \<noteq> [] then '': '' @ gp_Body req else []),
         d_Status := PlanDecisionStatusAccepted, d_ProposedBy := ''github-pr-review'',
         d_AffectedReqIDs := [reqID], d_CreatedAt := now, d_DecidedAt := Some now\<rparr>) affected\<rparr>"

definition affected_by_review :: "GitHubPRFeedbackRequest \<Rightarrow> (bytes \<times> bytes) list \<Rightarrow> Plan \<Rightarrow> bytes list" where
  "affected_by_review req fileMap plan =
     (let mapped = mapCommentsToRequirements (gp_Comments req) fileMap in
      if mapped \<noteq> [] then mapped
      else map r_ID (filter (\<lambda>r. r_Status r = RequirementStatusActive) (p_Requirements plan)))"

definition handleGitHubPRFeedbackMutation :: "Ids \<Rightarrow> (bytes \<times> RequirementExecution option) list option \<Rightarrow>
    GitHubPRFeedbackRequest option \<Rightarrow> handler" where
  "handleGitHubPRFeedbackMutation ids bucket data env c =
     (case data of
        None \<Rightarrow> (Some Unmarshal, c)
      | Some req \<Rightarrow>
          if \<not> GitHubPRFeedbackRequest_Validate req then (Some Required, c)
          else with_plan env (gp_Slug req) (\<lambda>plan c.
            if EffectiveStatus plan \<noteq> StatusAwaitingReview then (Some (ReviewNotAwaiting (EffectiveStatus plan)), c)
            else case p_GitHub plan of
              None \<Rightarrow> (Some NotFromGitHub, c)
            | Some g \<Rightarrow>
                let fileMap = buildFileToReqMap bucket (gp_Slug req);
                    affected = affected_by_review req fileMap plan;
                    g1 = (if mapCommentsToRequirements (gp_Comments req) fileMap = [] \<and> gp_Body req \<noteq> []
                          then g\<lparr>gh_LatestFeedback := gp_Body req\<rparr> else g);
                    plan1 = (appendPRFeedbackPlanDecisions ids (en_now env) req g1 affected plan)
                      \<lparr>p_GitHub := Some (g1\<lparr>gh_PRRevision := gh_PRRevision g1 + 1,
                                            gh_LastProcessedReviewID := gp_ReviewID req\<rparr>)\<rparr>
                in case resetRequirementExecutions env (gp_Slug req) ''requirements'' affected c of
                     (False, c1) \<Rightarrow> (Some ResetFailed, c1)
                   | (True, c1) \<Rightarrow>
                       if en_reset env = Some 0 \<and> affected \<noteq> [] then (Some NothingReset, c1)
                       else transitionToReadyForExecution env 0 plan1 affected c1) c)"

section \<open>Contracts\<close>

lemma pr_metadata_meets:
  "comp_inv c \<Longrightarrow> fulfils (case data of Some r \<Rightarrow> gm_Slug r | None \<Rightarrow> []) c (handleGitHubPRMetadataMutation data env c)"
  by (auto simp: handleGitHubPRMetadataMutation_def EffectiveStatus_def split: option.split
      intro!: contract_reject contract_with_plan contract_save evolves_keep)

lemma fulfils_publish_first:
  assumes "fulfils slug (publish f c) r" "\<And>e. fst r = Some e \<Longrightarrow> \<not> clean e"
  shows "fulfils slug c r"
  using assms by (auto simp: fulfils_def touches_def)

lemma feedback_evolves:
  "evolves p (appendPRFeedbackPlanDecisions ids now req g affected p\<lparr>p_GitHub := x\<rparr>)"
  by (rule evolves_keep) (simp_all add: appendPRFeedbackPlanDecisions_def EffectiveStatus_def)

lemma feedback_step:
  assumes c: "comp_inv c" "vis c slug = Some p" "p_Slug p = slug" and q: "evolves p q"
  shows "fulfils slug c (case resetRequirementExecutions env slug ''requirements'' affected c of
      (False, c1) \<Rightarrow> (Some ResetFailed, c1)
    | (True, c1) \<Rightarrow> if en_reset env = Some 0 \<and> affected \<noteq> [] then (Some NothingReset, c1)
                   else transitionToReadyForExecution env 0 q affected c1)"
proof -
  let ?c = "publish (ResetExecutions slug ''requirements'' (uniqueSortedStrings affected)) c"
  have c1: "comp_inv ?c" "vis ?c slug = Some p" using c by simp_all
  have t: "touches slug c ?c" using c(1) by (simp add: touches_def)
  note r = transitionToReady_touches [OF c1 c(3) q]
  have "fulfils slug c (transitionToReadyForExecution env 0 q affected ?c)"
    using touches_trans [OF t r(1)] r(2) by (auto simp: fulfils_def)
  then show ?thesis
    using t by (auto simp: resetRequirementExecutions_def intro: fulfils_partial split: bool.split)
qed

lemma pr_feedback_meets:
  "comp_inv c \<Longrightarrow> fulfils (case data of Some r \<Rightarrow> gp_Slug r | None \<Rightarrow> []) c (handleGitHubPRFeedbackMutation ids bucket data env c)"
  unfolding handleGitHubPRFeedbackMutation_def Let_def
  by (auto split: option.split intro!: contract_reject contract_with_plan feedback_step feedback_evolves)

end
