(* ===== verification/Convergence.thy ===== *)
theory Convergence
  imports Decisions Execution_Types
begin

text \<open>
  How a plan leaves execution: \<^verbatim>\<open>src/processor/plan-manager/execution_events.go\<close> (the watcher of
  the requirement rows of EXECUTION_STATES), \<^verbatim>\<open>completeness_gate.go\<close> and the staging part of
  \<^verbatim>\<open>plan_merge.go\<close>.  The bucket is the list of its keys with the decoded rows (\<open>None\<close> for a
  row that cannot be read), or \<open>None\<close> when listing fails.  The sandbox (merge, worktree, tracked files)
  is a parameter of the run, in \<open>Sandbox\<close>.  The watcher takes no slug lock: everything after its read
  works on a snapshot of the plan, so those definitions take the snapshot as an argument.
\<close>

section \<open>Counting\<close>

type_synonym bucket = "(bytes \<times> RequirementExecution option) list option"

definition isTerminalStage :: "bytes \<Rightarrow> bool" where
  "isTerminalStage stage \<longleftrightarrow> stage = ''completed'' \<or> stage = ''failed'' \<or> stage = ''error''"

text \<open>\<^verbatim>\<open>strings.SplitN(key, ".", 3)\<close> has three parts when the key has two dots; the second part lies
  between them.\<close>

definition slugFromKey :: "bytes \<Rightarrow> bytes" where
  "slugFromKey key = (case split_on CHR ''.'' key of _ # slug # _ # _ \<Rightarrow> slug | _ \<Rightarrow> [])"

definition plan_rows :: "(bytes \<times> RequirementExecution option) list \<Rightarrow> bytes \<Rightarrow> RequirementExecution list" where
  "plan_rows rows slug =
     List.map_filter snd (filter (\<lambda>kv. HasPrefix (fst kv) (''req.'' @ slug @ ''.'')) rows)"

definition failed_stage :: "bytes \<Rightarrow> bool" where
  "failed_stage stage \<longleftrightarrow> stage = ''failed'' \<or> stage = ''error''"

definition countTerminalRequirements :: "bucket \<Rightarrow> bytes \<Rightarrow> (nat \<times> nat \<times> bytes list) option" where
  "countTerminalRequirements bucket slug =
     (case bucket of
        None \<Rightarrow> None
      | Some rows \<Rightarrow>
          let es = plan_rows rows slug; fs = filter (\<lambda>e. failed_stage (re_Stage e)) es in
          Some (length (filter (\<lambda>e. re_Stage e = ''completed'') es), length fs,
            remdups (filter (\<lambda>i. i \<noteq> []) (map re_RequirementID fs))))"

fun blocked_pass :: "Requirement list \<Rightarrow> bytes list \<Rightarrow> bytes list" where
  "blocked_pass [] blocked = blocked"
| "blocked_pass (req # rs) blocked =
     (if r_ID req \<in> set blocked then blocked_pass rs blocked
      else if list_ex (\<lambda>dep. dep \<in> set blocked) (r_DependsOn req) then blocked_pass rs (blocked @ [r_ID req])
      else blocked_pass rs blocked)"

fun blocked_loop :: "nat \<Rightarrow> Requirement list \<Rightarrow> bytes list \<Rightarrow> bytes list" where
  "blocked_loop 0 reqs blocked = blocked"
| "blocked_loop (Suc n) reqs blocked =
     (let blocked' = blocked_pass reqs blocked in
      if length blocked' = length blocked then blocked' else blocked_loop n reqs blocked')"

definition countBlockedByFailure :: "Plan \<Rightarrow> bytes list \<Rightarrow> nat" where
  "countBlockedByFailure plan failedIDs =
     (if failedIDs = [] then 0
      else length (filter (\<lambda>i. i \<notin> set failedIDs)
             (blocked_loop (length (p_Requirements plan)) (p_Requirements plan) failedIDs)))"

definition augmentFailedWithBlocked :: "Plan \<Rightarrow> bytes list \<Rightarrow> nat \<Rightarrow> nat" where
  "augmentFailedWithBlocked plan failedIDs failedCount = failedCount + countBlockedByFailure plan failedIDs"

section \<open>Completeness of the deliverable\<close>

definition blank :: "bytes \<Rightarrow> bool" where
  "blank s \<longleftrightarrow> TrimSpace s = []"

definition undeliveredScopeFiles :: "bytes list \<Rightarrow> bytes list \<Rightarrow> bytes list" where
  "undeliveredScopeFiles declared delivered =
     (let have_files = set (map (\<lambda>d. path_Clean (TrimSpace d)) (filter (\<lambda>d. \<not> blank d) delivered)) in
      filter (\<lambda>d. path_Clean d \<notin> have_files)
        (map TrimSpace (filter (\<lambda>d. \<not> blank d) declared)))"

record Sandbox =
  sb_merge :: "(bytes \<Rightarrow> bytes list \<Rightarrow> merge_result) option"
  sb_stage :: bool
  sb_files :: "bytes list option"

definition scopeCompletenessGap :: "Sandbox \<Rightarrow> Plan \<Rightarrow> bytes list option" where
  "scopeCompletenessGap sb plan =
     (if sb_merge sb = None \<or> scope_Create (p_Scope plan) = [] then Some []
      else if p_AssembledBranch plan = [] then Some (undeliveredScopeFiles (scope_Create (p_Scope plan)) [])
      else map_option (undeliveredScopeFiles (scope_Create (p_Scope plan))) (sb_files sb))"

definition scopeCompletenessAffectedIDs :: "bytes list \<Rightarrow> bytes list" where
  "scopeCompletenessAffectedIDs missing =
     map (\<lambda>f. ''contract.scope.create:'' @ TrimSpace f) (filter (\<lambda>f. \<not> blank f) missing)"

section \<open>Ending execution\<close>

definition QAWorktreeID :: "bytes \<Rightarrow> bytes" where
  "QAWorktreeID slug = ''qa-'' @ slug"

datatype stage_error = MergeStep assembly_error | StageStep

definition assembleAndStageQAWorktree :: "Sandbox \<Rightarrow> Plan \<Rightarrow> Comp \<Rightarrow> stage_error option \<times> Plan \<times> Comp" where
  "assembleAndStageQAWorktree sb plan c =
     (case assembleRequirementBranches (sb_merge sb) plan of
        (Some e, plan1) \<Rightarrow> (Some (MergeStep e), plan1, c)
      | (None, plan1) \<Rightarrow>
          if sb_merge sb = None \<or> p_AssembledBranch plan1 = [] then (None, plan1, c)
          else let c1 = publish (DeleteQAWorktree (p_Slug plan1)) c in
            if \<not> sb_stage sb then (Some StageStep, plan1, c1)
            else (None, plan1, publish (StageQAWorktree (p_Slug plan1) (p_AssembledBranch plan1)) c1))"

definition targetForQALevel :: "Comp \<Rightarrow> Plan \<Rightarrow> Status" where
  "targetForQALevel c plan =
     (if EffectiveQALevel plan = QALevelNone
      then (if shouldGateReview c plan then StatusAwaitingReview else StatusComplete)
      else StatusReadyForQA)"

text \<open>A status change whose failure is only logged, with a direct save as a fallback.\<close>

definition savePlanCached :: "SaveIO \<Rightarrow> Plan \<Rightarrow> Comp \<Rightarrow> Comp" where
  "savePlanCached io plan c = snd (save_reply io plan c)"

definition reject_or_save :: "Env \<Rightarrow> nat \<Rightarrow> Plan \<Rightarrow> Comp \<Rightarrow> Comp" where
  "reject_or_save env n plan c =
     (case set_status (en_save env n) plan StatusRejected c of
        (None, _, c1) \<Rightarrow> c1
      | (Some e, plan1, c1) \<Rightarrow> savePlanCached (en_save env (n + 1)) plan1 c1)"

definition decision_id :: "Plan \<Rightarrow> bytes" where
  "decision_id plan = ''plan-decision.'' @ p_Slug plan @ ''.'' @ show_nat (length (p_PlanDecisions plan) + 1)"

definition failPlanOnAssemblyConflict :: "Ids \<Rightarrow> Env \<Rightarrow> nat \<Rightarrow> bytes \<Rightarrow> Plan \<Rightarrow> Comp \<Rightarrow> Comp" where
  "failPlanOnAssemblyConflict ids env n errtext plan c =
     reject_or_save env n (plan\<lparr>p_PlanDecisions := p_PlanDecisions plan @
       [PlanDecision_zero\<lparr>d_ID := decision_id plan, d_PlanID := PlanEntityID ids (p_Slug plan),
          d_Kind := PlanDecisionKindAssemblyConflict, d_Title := ''Plan-level merge conflict at branch assembly'',
          d_Rationale := ''Execution succeeded but the requirement branches could not be merged: '' @ errtext @
            ''. This is a planning-partition defect '' @ [CHR 0xE2, CHR 0x80, CHR 0x94] @
            '' two parallel branches edited the same file with no ownership/DependsOn edge. Re-run with corrected file ownership (the offending file must be declared on exactly one component, or shared owners serialized).'',
          d_Status := PlanDecisionStatusProposed, d_ProposedBy := ''plan-manager'',
          d_AffectedReqIDs := map r_ID (p_Requirements plan), d_CreatedAt := en_now env\<rparr>]\<rparr>) c"

definition routeAssemblyConflict :: "Ids \<Rightarrow> (stage_error \<Rightarrow> bytes) \<Rightarrow> Env \<Rightarrow> nat \<Rightarrow> stage_error \<Rightarrow> Plan \<Rightarrow> Comp \<Rightarrow> Comp" where
  "routeAssemblyConflict ids errtext env n err plan c =
     (let plan1 = plan\<lparr>p_LastError := ''pre-QA assembly failed: '' @ errtext err, p_LastErrorAt := Some (en_now env)\<rparr> in
      case err of
        MergeStep (AssemblyConflict _ _ _) \<Rightarrow> failPlanOnAssemblyConflict ids env n (errtext err) plan1 c
      | _ \<Rightarrow> savePlanCached (en_save env n) plan1 c)"

definition failPlanOnIncompleteScope :: "Ids \<Rightarrow> Env \<Rightarrow> nat \<Rightarrow> bytes list \<Rightarrow> Plan \<Rightarrow> Comp \<Rightarrow> Comp" where
  "failPlanOnIncompleteScope ids env n missing plan c =
     (let msg = ''Level-0 completeness gate: '' @ show_nat (length missing) @ '' of ''
             @ show_nat (length (scope_Create (p_Scope plan)))
             @ '' declared scope.create file(s) not delivered on the assembled branch: '' @ Join '', '' missing;
          plan1 = plan\<lparr>p_LastError := msg, p_LastErrorAt := Some (en_now env)\<rparr>
      in reject_or_save env n (plan1\<lparr>p_PlanDecisions := p_PlanDecisions plan1 @
           [PlanDecision_zero\<lparr>d_ID := decision_id plan1, d_PlanID := PlanEntityID ids (p_Slug plan1),
              d_Kind := PlanDecisionKindScopeIncomplete, d_Title := ''Declared scope.create files not delivered'',
              d_Rationale := msg, d_AffectedReqIDs := map r_ID (p_Requirements plan1),
              d_ContractImpact := Some \<lparr>ci_Kind = ContractImpactPreserve,
                ci_Summary = ''Declared scope.create files remain required; retry execution must deliver the missing files or propose an explicit scope amendment.'',
                ci_AffectedIDs = scopeCompletenessAffectedIDs missing\<rparr>,
              d_Status := PlanDecisionStatusProposed, d_ProposedBy := ''plan-manager'',
              d_CreatedAt := en_now env\<rparr>]\<rparr>) c)"

definition QARequest_valid :: "Plan \<Rightarrow> bool" where
  "QARequest_valid plan \<longleftrightarrow> ValidateSlug (p_Slug plan) = None
     \<and> QALevel_UsesSandboxTests (EffectiveQALevel plan)
     \<and> \<not> (let w = QAWorktreeID (p_Slug plan) in Contains w ''..'' \<or> Contains w ''/'' \<or> Contains w [CHR 0x5C])"

definition publishQARequestIfNeeded :: "Env \<Rightarrow> Plan \<Rightarrow> Comp \<Rightarrow> Comp" where
  "publishQARequestIfNeeded env plan c =
     (if p_Status plan \<noteq> StatusReadyForQA \<or> \<not> natsConfigured (co_config c) then c
      else if \<not> QALevel_UsesSandboxTests (EffectiveQALevel plan) then c
      else if \<not> QARequest_valid plan then c
      else if \<not> en_publish env then c
      else publish (QARequest (p_Slug plan) (p_ID plan) (EffectiveQALevel plan) (QAWorktreeID (p_Slug plan))) c)"

text \<open>The end of the success arm: move to the target, or, when that fails, to the fallback.\<close>

definition advance :: "Env \<Rightarrow> nat \<Rightarrow> Status \<Rightarrow> Plan \<Rightarrow> Comp \<Rightarrow> Comp" where
  "advance env n target plan c =
     (case set_status (en_save env n) plan target c of
        (None, plan1, c1) \<Rightarrow> publishQARequestIfNeeded env plan1 c1
      | (Some e, plan1, c1) \<Rightarrow>
          snd (snd (set_status (en_save env (n + 1)) plan1
            (if shouldGateReview c1 plan1 then StatusAwaitingReview else StatusComplete) c1)))"

definition handleConvergenceAllSucceeded :: "Ids \<Rightarrow> (stage_error \<Rightarrow> bytes) \<Rightarrow> bytes \<Rightarrow> Sandbox \<Rightarrow> Env \<Rightarrow> nat \<Rightarrow> Plan \<Rightarrow> Comp \<Rightarrow> Comp" where
  "handleConvergenceAllSucceeded ids errtext gaptext sb env n plan c =
     (let target = targetForQALevel c plan in
      if target = StatusReadyForQA then
        (case assembleAndStageQAWorktree sb plan c of
           (Some e, plan1, c1) \<Rightarrow> routeAssemblyConflict ids errtext env n e plan1 c1
         | (None, plan1, c1) \<Rightarrow>
             (case scopeCompletenessGap sb plan1 of
                None \<Rightarrow> savePlanCached (en_save env n)
                   (plan1\<lparr>p_LastError := ''Level-0 completeness gate could not run: '' @ gaptext,
                          p_LastErrorAt := Some (en_now env)\<rparr>) c1
              | Some missing \<Rightarrow>
                  if missing \<noteq> [] then failPlanOnIncompleteScope ids env n missing plan1 c1
                  else advance env n target plan1 c1))
      else advance env n target plan c)"

definition resolveAutoRejectOnExhaustion :: "Plan \<Rightarrow> PMConfig \<Rightarrow> bool" where
  "resolveAutoRejectOnExhaustion plan cfg =
     (case p_AutoRejectOnExhaustion plan of Some b \<Rightarrow> b | None \<Rightarrow> AutoRejectOnExhaustion cfg)"

definition auto_reject :: "Env \<Rightarrow> nat \<Rightarrow> nat \<Rightarrow> nat \<Rightarrow> Plan \<Rightarrow> Comp \<Rightarrow> Comp" where
  "auto_reject env n failed totalRequired plan c =
     snd (snd (set_status (en_save env n)
       (plan\<lparr>p_LastError := ''autonomous mode: '' @ show_nat failed @ ''/'' @ show_nat totalRequired
           @ '' requirements failed; auto-rejecting (production mode would await human decision)'',
         p_LastErrorAt := Some (en_now env)\<rparr>) StatusRejected c))"

text \<open>\<^verbatim>\<open>checkPlanConvergence\<close> after its read, on the snapshot it read.\<close>

definition converge :: "Ids \<Rightarrow> (stage_error \<Rightarrow> bytes) \<Rightarrow> bytes \<Rightarrow> Sandbox \<Rightarrow> bucket \<Rightarrow> Env \<Rightarrow> nat \<Rightarrow> bytes \<Rightarrow> Plan \<Rightarrow> Comp \<Rightarrow> Comp" where
  "converge ids errtext gaptext sb bucket env n slug plan c =
     (let totalRequired = length (p_Requirements plan) in
      if EffectiveStatus plan \<noteq> StatusImplementing \<or> totalRequired = 0 then c
      else case countTerminalRequirements bucket slug of
        None \<Rightarrow> c
      | Some (completed, failed0, failedIDs) \<Rightarrow>
          let failed = augmentFailedWithBlocked plan failedIDs failed0 in
          if completed + failed < totalRequired then c
          else if failed = 0 then handleConvergenceAllSucceeded ids errtext gaptext sb env n plan c
          else if resolveAutoRejectOnExhaustion plan (co_config c) then auto_reject env n failed totalRequired plan c
          else savePlanCached (en_save env n) plan c)"

definition read_plan :: "Env \<Rightarrow> bytes \<Rightarrow> (Plan \<Rightarrow> Comp \<Rightarrow> Comp) \<Rightarrow> Comp \<Rightarrow> Comp" where
  "read_plan env slug k c =
     (case plan_get (en_read env) slug (co_plans c) of
        (None, st) \<Rightarrow> c\<lparr>co_plans := st\<rparr> | (Some p, st) \<Rightarrow> k p (c\<lparr>co_plans := st\<rparr>))"

definition checkPlanConvergence :: "Ids \<Rightarrow> (stage_error \<Rightarrow> bytes) \<Rightarrow> bytes \<Rightarrow> Sandbox \<Rightarrow> bucket \<Rightarrow> Env \<Rightarrow> nat \<Rightarrow> bytes \<Rightarrow> Comp \<Rightarrow> Comp" where
  "checkPlanConvergence ids errtext gaptext sb bucket env n slug c =
     read_plan env slug (converge ids errtext gaptext sb bucket env n slug) c"

text \<open>After the replay, every listed plan that is implementing is checked; \<open>order\<close> is the order in which
  the cache lists its slugs, newest first, and \<open>ios\<close> the outcomes of each check.\<close>

definition checkPostReplayConvergence :: "Ids \<Rightarrow> (stage_error \<Rightarrow> bytes) \<Rightarrow> bytes \<Rightarrow> Sandbox \<Rightarrow> bucket \<Rightarrow>
    (bytes \<Rightarrow> Env) \<Rightarrow> bytes list \<Rightarrow> Comp \<Rightarrow> Comp" where
  "checkPostReplayConvergence ids errtext gaptext sb bucket ios order c =
     foldl (\<lambda>c plan. if EffectiveStatus plan \<noteq> StatusImplementing then c
         else checkPlanConvergence ids errtext gaptext sb bucket (ios (p_Slug plan)) 0 (p_Slug plan) c)
       c (List.map_filter (st_cache (co_plans c)) order)"

definition autoArchiveExhaustionDecisions :: "Env \<Rightarrow> nat \<Rightarrow> bytes \<Rightarrow> bytes \<Rightarrow> bytes \<Rightarrow> Comp \<Rightarrow> Comp" where
  "autoArchiveExhaustionDecisions env n slug reqID reason c =
     read_plan env slug (\<lambda>plan c.
       if list_ex (superseded [reqID]) (p_PlanDecisions plan)
       then savePlanCached (en_save env n) (plan\<lparr>p_PlanDecisions := map (\<lambda>d. if superseded [reqID] d
              then d\<lparr>d_Status := PlanDecisionStatusArchived, d_DecidedAt := Some (en_now env),
                     d_RejectionReasons := (d_RejectionReasons d)(''auto_archive'' \<mapsto> reason)\<rparr>
              else d) (p_PlanDecisions plan)\<rparr>) c
       else c) c"

definition markPlanInfraCritical :: "Env \<Rightarrow> nat \<Rightarrow> bytes \<Rightarrow> Comp \<Rightarrow> Comp" where
  "markPlanInfraCritical env n slug c =
     read_plan env slug (\<lambda>plan c.
       if p_InfraHealth plan = ''critical'' then c
       else savePlanCached (en_save env n) (plan\<lparr>p_InfraHealth := ''critical''\<rparr>) c) c"

definition refire :: "Env \<Rightarrow> bytes \<Rightarrow> Comp \<Rightarrow> Comp" where
  "refire env slug c =
     read_plan env slug (\<lambda>plan c.
       if EffectiveStatus plan = StatusImplementing then snd (publishScenarioOrchestrator env plan [] c) else c) c"

text \<open>The watcher's handler of one row: its key, the decoded row (\<open>None\<close> when it cannot be decoded) and
  whether the initial replay is over.\<close>

definition handleRequirementStateChange :: "Ids \<Rightarrow> (stage_error \<Rightarrow> bytes) \<Rightarrow> bytes \<Rightarrow> Sandbox \<Rightarrow> bucket \<Rightarrow>
    bytes \<Rightarrow> RequirementExecution option \<Rightarrow> bool \<Rightarrow> Env \<Rightarrow> Comp \<Rightarrow> Comp" where
  "handleRequirementStateChange ids errtext gaptext sb bucket key row replayDone env c =
     (case row of
        None \<Rightarrow> c
      | Some e \<Rightarrow>
          let slug = (if re_Slug e = [] then slugFromKey key else re_Slug e) in
          if \<not> isTerminalStage (re_Stage e) \<or> slug = [] \<or> \<not> replayDone then c
          else let c1 = (if re_Stage e = ''completed'' \<and> re_RequirementID e \<noteq> []
                         then autoArchiveExhaustionDecisions env 0 slug (re_RequirementID e)
                                ''requirement completed after exhaustion'' c
                         else c);
                   c2 = (if re_Stage e = ''error'' \<and> re_ErrorClass e = ''infrastructure''
                         then markPlanInfraCritical env 1 slug c1 else c1);
                   c3 = checkPlanConvergence ids errtext gaptext sb bucket env 2 slug c2
               in if re_Stage e = ''completed'' then refire env slug c3 else c3)"

section \<open>The watcher keeps the contract of the handlers\<close>

lemma read_plan_with_plan: "read_plan env slug k c = snd (with_plan env slug (\<lambda>p c. (None, k p c)) c)"
  by (simp add: read_plan_def with_plan_def split: prod.split option.split)

lemma read_plan_cases:
  assumes "comp_inv c"
  shows "vis (read_plan env slug k c) = vis c
    \<or> (\<exists>p c1. read_plan env slug k c = k p c1 \<and> vis c1 = vis c \<and> vis c slug = Some p)"
  unfolding read_plan_with_plan
  by (rule with_plan_cases [OF assms, of env slug "\<lambda>p c. (None, k p c)"]) auto

lemma read_plan_touches:
  assumes "comp_inv c"
    and "\<And>p c1. comp_inv c1 \<Longrightarrow> vis c1 slug = Some p \<Longrightarrow> p_Slug p = slug \<Longrightarrow> touches slug c1 (k p c1)"
  shows "touches slug c (read_plan env slug k c)"
  using contract_with_plan [OF assms(1), of slug "\<lambda>p c. (None, k p c)" env] assms(2)
  by (simp add: read_plan_with_plan fulfils_def)

lemma savePlanCached_touches:
  assumes "comp_inv c" "vis c slug = Some p" "p_Slug p = slug" "evolves p q"
  shows "touches slug c (savePlanCached io q c)"
  using contract_save [OF assms] by (simp add: savePlanCached_def fulfils_def)

text \<open>After an attempted status change the stored plan is the old one or the changed one.\<close>

lemma set_status_next:
  assumes c: "comp_inv c" "vis c slug = Some p" "p_Slug p = slug" "evolves p q"
    and s: "set_status io q t c = (e, q', c')"
  obtains x where "comp_inv c'" "vis c' slug = Some x" "p_Slug x = slug" "evolves x q'" "touches slug c c'"
proof -
  note t = set_status_touches [OF c s]
  have q: "p_Slug q = slug" "p_Slug q' = slug" using c(3,4) t(2) by (simp_all add: evolves_def)
  have "c' = c \<or> (\<exists>st. plan_save io q' (co_plans c) = (e, st) \<and> c' = c\<lparr>co_plans := st\<rparr>)"
    using s by (auto simp: set_status_def setPlanStatusCached_def Let_def split: if_splits prod.splits)
  then have "vis c' = vis c \<or> vis c' = (vis c)(slug \<mapsto> q')"
    using plan_save_visible q(2) by fastforce
  then have v: "vis c' slug = Some p \<or> vis c' slug = Some q'" using c(2) by auto
  show ?thesis
  proof (cases "vis c' slug = Some p")
    case True
    show ?thesis by (rule that [OF touches_inv [OF t(1)] True c(3) evolves_trans [OF c(4) t(2)] t(1)])
  next
    case False
    then have "vis c' slug = Some q'" using v by blast
    from that [OF touches_inv [OF t(1)] this q(2) evolves_refl t(1)] show ?thesis .
  qed
qed

lemma reject_or_save_touches:
  assumes c: "comp_inv c" "vis c slug = Some p" "p_Slug p = slug" "evolves p q"
  shows "touches slug c (reject_or_save env n q c)"
proof -
  obtain e q' c1 where s: "set_status (en_save env n) q StatusRejected c = (e, q', c1)"
    by (cases "set_status (en_save env n) q StatusRejected c") auto
  obtain x where x: "comp_inv c1" "vis c1 slug = Some x" "p_Slug x = slug" "evolves x q'" "touches slug c c1"
    by (rule set_status_next [OF c s])
  show ?thesis
    using s x(5) touches_trans [OF x(5) savePlanCached_touches [OF x(1-4)]]
    by (cases e) (simp_all add: reject_or_save_def)
qed

lemma advance_touches:
  assumes c: "comp_inv c" "vis c slug = Some p" "p_Slug p = slug" "evolves p q"
  shows "touches slug c (advance env n t q c)"
proof -
  obtain e q' c1 where s: "set_status (en_save env n) q t c = (e, q', c1)"
    by (cases "set_status (en_save env n) q t c") auto
  obtain x where x: "comp_inv c1" "vis c1 slug = Some x" "p_Slug x = slug" "evolves x q'" "touches slug c c1"
    by (rule set_status_next [OF c s])
  let ?t = "if shouldGateReview c1 q' then StatusAwaitingReview else StatusComplete"
  obtain e2 q2 c2 where s2: "set_status (en_save env (n + 1)) q' ?t c1 = (e2, q2, c2)"
    by (cases "set_status (en_save env (n + 1)) q' ?t c1") auto
  have "touches slug c c2" using touches_trans [OF x(5) set_status_touches(1) [OF x(1-4) s2]] .
  moreover have "touches slug c (publishQARequestIfNeeded env q' c1)"
    by (rule touches_plans_eq [OF x(5)]) (simp_all add: publishQARequestIfNeeded_def)
  ultimately show ?thesis using s s2 by (cases e) (simp_all add: advance_def)
qed

lemma EffectiveStatus_error [simp]:
  "EffectiveStatus (p\<lparr>p_LastError := x, p_LastErrorAt := y\<rparr>) = EffectiveStatus p"
  by (simp add: EffectiveStatus_def)

lemma error_evolves: "evolves p (p\<lparr>p_LastError := x, p_LastErrorAt := y\<rparr>)"
  by (rule evolves_keep) simp_all

lemma error_decision_evolves: "evolves p (p\<lparr>p_LastError := x, p_LastErrorAt := y, p_PlanDecisions := z\<rparr>)"
  using evolves_trans [OF error_evolves decisions_evolve] by simp

lemma assemble_evolves: "assembleRequirementBranches merge p = (e, q) \<Longrightarrow> evolves p q"
  by (rule evolves_keep) (simp_all add: assemble_frame)

lemma stage_frame:
  assumes "assembleAndStageQAWorktree sb p c = (e, q, c1)"
  shows "evolves p q" "co_plans c1 = co_plans c" "co_config c1 = co_config c"
  using assms assemble_evolves
  by (auto simp: assembleAndStageQAWorktree_def Let_def split: prod.splits option.splits if_splits)

lemma fail_touches:
  assumes c: "comp_inv c" "vis c slug = Some p" "p_Slug p = slug" "evolves p q"
  shows "touches slug c (routeAssemblyConflict ids errtext env n err q c)"
    and "touches slug c (failPlanOnIncompleteScope ids env n missing q c)"
proof -
  note e = evolves_trans [OF c(4) error_evolves] evolves_trans [OF c(4) error_decision_evolves]
  show "touches slug c (routeAssemblyConflict ids errtext env n err q c)"
    unfolding routeAssemblyConflict_def failPlanOnAssemblyConflict_def Let_def
    by (auto split: stage_error.split assembly_error.split
        intro!: savePlanCached_touches [OF c(1-3)] reject_or_save_touches [OF c(1-3)] e)
  show "touches slug c (failPlanOnIncompleteScope ids env n missing q c)"
    unfolding failPlanOnIncompleteScope_def Let_def
    by (auto intro!: reject_or_save_touches [OF c(1-3)] e)
qed

lemma succeeded_touches:
  assumes c: "comp_inv c" "vis c slug = Some p" "p_Slug p = slug"
  shows "touches slug c (handleConvergenceAllSucceeded ids errtext gaptext sb env n p c)"
proof (cases "targetForQALevel c p = StatusReadyForQA")
  case True
  obtain e q c1 where s: "assembleAndStageQAWorktree sb p c = (e, q, c1)"
    by (cases "assembleAndStageQAWorktree sb p c") auto
  note f = stage_frame [OF s]
  have c1: "comp_inv c1" "vis c1 slug = Some p" using c f by simp_all
  have "touches slug c1 (case e of Some e \<Rightarrow> routeAssemblyConflict ids errtext env n e q c1
      | None \<Rightarrow> (case scopeCompletenessGap sb q of
            None \<Rightarrow> savePlanCached (en_save env n) (q\<lparr>p_LastError := ''Level-0 completeness gate could not run: '' @ gaptext,
                       p_LastErrorAt := Some (en_now env)\<rparr>) c1
          | Some missing \<Rightarrow> if missing \<noteq> [] then failPlanOnIncompleteScope ids env n missing q c1
              else advance env n StatusReadyForQA q c1))"
    by (auto split: option.split intro!: fail_touches [OF c1 c(3) f(1)] advance_touches [OF c1 c(3) f(1)]
        savePlanCached_touches [OF c1 c(3)] evolves_trans [OF f(1) error_evolves])
  then have "touches slug c1 (handleConvergenceAllSucceeded ids errtext gaptext sb env n p c)"
    using True s by (cases e) (simp_all add: handleConvergenceAllSucceeded_def)
  then show ?thesis using f by (simp add: touches_def)
next
  case False
  then show ?thesis using advance_touches [OF c evolves_refl] by (simp add: handleConvergenceAllSucceeded_def Let_def)
qed

lemma converge_touches:
  assumes c: "comp_inv c" "vis c slug = Some p" "p_Slug p = slug"
  shows "touches slug c (converge ids errtext gaptext sb bucket env n s p c)"
proof -
  have "touches slug c (auto_reject env n f t p c)" for f t
    unfolding auto_reject_def by (cases "set_status (en_save env n) (p\<lparr>p_LastError := ''autonomous mode: '' @ show_nat f @ ''/'' @ show_nat t
           @ '' requirements failed; auto-rejecting (production mode would await human decision)'',
         p_LastErrorAt := Some (en_now env)\<rparr>) StatusRejected c") (simp add: set_status_touches(1) [OF c error_evolves])
  then show ?thesis
    using succeeded_touches [OF c] savePlanCached_touches [OF c evolves_refl] touches_refl [OF c(1)]
    by (simp add: converge_def Let_def split: option.split)
qed

lemma check_touches: "comp_inv c \<Longrightarrow> touches slug c (checkPlanConvergence ids errtext gaptext sb bucket env n slug c)"
  unfolding checkPlanConvergence_def by (rule read_plan_touches) (assumption, rule converge_touches)

lemma archive_touches: "comp_inv c \<Longrightarrow> touches slug c (autoArchiveExhaustionDecisions env n slug r reason c)"
  unfolding autoArchiveExhaustionDecisions_def
  by (rule read_plan_touches) (auto intro: touches_refl savePlanCached_touches)

lemma infra_touches: "comp_inv c \<Longrightarrow> touches slug c (markPlanInfraCritical env n slug c)"
  unfolding markPlanInfraCritical_def
  by (rule read_plan_touches) (auto intro!: touches_refl savePlanCached_touches evolves_keep simp: EffectiveStatus_def)

lemma refire_touches: "comp_inv c \<Longrightarrow> touches slug c (refire env slug c)"
  unfolding refire_def
  by (rule read_plan_touches) (auto intro!: touches_plans_eq [OF touches_refl] touches_refl)

definition row_slug :: "bytes \<Rightarrow> RequirementExecution option \<Rightarrow> bytes" where
  "row_slug key row = (case row of None \<Rightarrow> [] | Some e \<Rightarrow> if re_Slug e = [] then slugFromKey key else re_Slug e)"

lemma state_change_touches:
  assumes "comp_inv c"
  shows "touches (row_slug key row) c
    (handleRequirementStateChange ids errtext gaptext sb bucket key row replayDone env c)"
proof (cases row)
  case None
  then show ?thesis using assms by (simp add: handleRequirementStateChange_def touches_refl)
next
  case (Some e)
  let ?s = "row_slug key (Some e)"
  have s: "(if re_Slug e = [] then slugFromKey key else re_Slug e) = ?s" by (simp add: row_slug_def)
  have step: "touches ?s c (if b then f d else d)"
    if "touches ?s c d" "\<And>c. comp_inv c \<Longrightarrow> touches ?s c (f c)" for b f d
    using that touches_trans [OF that(1)] touches_inv [OF that(1)] by simp
  define c1 where "c1 = (if re_Stage e = ''completed'' \<and> re_RequirementID e \<noteq> []
    then autoArchiveExhaustionDecisions env 0 ?s (re_RequirementID e) ''requirement completed after exhaustion'' c else c)"
  define c2 where "c2 = (if re_Stage e = ''error'' \<and> re_ErrorClass e = ''infrastructure''
    then markPlanInfraCritical env 1 ?s c1 else c1)"
  define c3 where "c3 = checkPlanConvergence ids errtext gaptext sb bucket env 2 ?s c2"
  have "touches ?s c c1" unfolding c1_def by (rule step [OF touches_refl [OF assms] archive_touches])
  then have "touches ?s c c2" unfolding c2_def by (rule step [OF _ infra_touches])
  then have "touches ?s c c3" unfolding c3_def using touches_trans check_touches touches_inv by blast
  then have "touches ?s c (if re_Stage e = ''completed'' then refire env ?s c3 else c3)"
    by (rule step [OF _ refire_touches])
  then show ?thesis
    unfolding handleRequirementStateChange_def Some option.case Let_def s
      c1_def [symmetric] c2_def [symmetric] c3_def [symmetric]
    using touches_refl [OF assms] by (auto split: if_split)
qed

section \<open>What is counted\<close>

text \<open>Dependents: the requirements that transitively depend on a given set.\<close>

definition dependents :: "Requirement list \<Rightarrow> (bytes \<times> bytes) set" where
  "dependents reqs = {(d, r_ID r) | d r. r \<in> set reqs \<and> d \<in> set (r_DependsOn r)}"

lemma blocked_pass_props:
  "\<exists>new. blocked_pass reqs b = b @ new \<and> distinct new \<and> set new \<inter> set b = {} \<and> set new \<subseteq> r_ID ` set reqs
     \<and> set new \<subseteq> (dependents reqs)\<^sup>* `` set b"
proof (induction reqs b rule: blocked_pass.induct)
  case (2 req rs b)
  have mono: "(dependents rs)\<^sup>* \<subseteq> (dependents (req # rs))\<^sup>*"
    by (rule rtrancl_mono) (auto simp: dependents_def)
  show ?case
  proof (cases "r_ID req \<notin> set b \<and> list_ex (\<lambda>dep. dep \<in> set b) (r_DependsOn req)")
    case True
    then obtain d where d: "d \<in> set b" "d \<in> set (r_DependsOn req)" by (auto simp: list_ex_iff)
    then have r: "r_ID req \<in> (dependents (req # rs))\<^sup>* `` set b"
      by (auto simp: dependents_def Image_iff intro!: bexI [of _ d] r_into_rtrancl)
    obtain new where n: "blocked_pass rs (b @ [r_ID req]) = b @ r_ID req # new" "distinct new"
      "set new \<inter> set (b @ [r_ID req]) = {}" "set new \<subseteq> r_ID ` set rs" "set new \<subseteq> (dependents rs)\<^sup>* `` set (b @ [r_ID req])"
      using "2.IH"(2) True by auto
    have "set new \<subseteq> (dependents (req # rs))\<^sup>* `` set b"
    proof
      fix x assume "x \<in> set new"
      then obtain y where y: "(y, x) \<in> (dependents (req # rs))\<^sup>*" "y = r_ID req \<or> y \<in> set b"
        using n(5) mono by auto
      show "x \<in> (dependents (req # rs))\<^sup>* `` set b" using y r by (auto intro: rtrancl_trans)
    qed
    then show ?thesis using True n r by (intro exI [of _ "r_ID req # new"]) auto
  next
    case False
    then have "\<exists>new. blocked_pass rs b = b @ new \<and> distinct new \<and> set new \<inter> set b = {} \<and> set new \<subseteq> r_ID ` set rs
        \<and> set new \<subseteq> (dependents rs)\<^sup>* `` set b" "blocked_pass (req # rs) b = blocked_pass rs b"
      using "2.IH"(1,3) by auto
    then show ?thesis using mono by (metis (no_types, lifting) Image_mono order_refl order_trans set_subset_Cons image_mono)
  qed
qed simp

lemma blocked_pass_fixed:
  assumes "length (blocked_pass reqs b) = length b"
  shows "r \<in> set reqs \<Longrightarrow> d \<in> set (r_DependsOn r) \<Longrightarrow> d \<in> set b \<Longrightarrow> r_ID r \<in> set b"
  using assms
proof (induction reqs b rule: blocked_pass.induct)
  case (2 req rs b)
  obtain new where "blocked_pass rs (b @ [r_ID req]) = (b @ [r_ID req]) @ new" using blocked_pass_props by blast
  then show ?case using 2 by (auto simp: list_ex_iff split: if_splits)
qed simp

lemma closed_star:
  assumes "\<And>x y. (x, y) \<in> R \<Longrightarrow> x \<in> B \<Longrightarrow> y \<in> B"
  shows "R\<^sup>* `` B = B"
proof -
  have "y \<in> B" if "(x, y) \<in> R\<^sup>*" "x \<in> B" for x y
    using that by (induction rule: rtrancl_induct) (auto intro: assms)
  then show ?thesis by auto
qed

lemma blocked_loop_props:
  "set b \<subseteq> set (blocked_loop n reqs b) \<and> set (blocked_loop n reqs b) \<subseteq> (dependents reqs)\<^sup>* `` set b
   \<and> (distinct b \<longrightarrow> distinct (blocked_loop n reqs b))
   \<and> (card (r_ID ` set reqs - set b) \<le> n \<longrightarrow>
        (\<forall>r d. r \<in> set reqs \<longrightarrow> d \<in> set (r_DependsOn r) \<longrightarrow> d \<in> set (blocked_loop n reqs b) \<longrightarrow>
           r_ID r \<in> set (blocked_loop n reqs b)))"
proof (induction n arbitrary: b)
  case 0
  show ?case by auto
next
  case (Suc n)
  obtain new where n: "blocked_pass reqs b = b @ new" "distinct new" "set new \<inter> set b = {}"
    "set new \<subseteq> r_ID ` set reqs" "set new \<subseteq> (dependents reqs)\<^sup>* `` set b" using blocked_pass_props by blast
  show ?case
  proof (cases "new = []")
    case True
    then show ?thesis using n(1) blocked_pass_fixed [of reqs b] by auto
  next
    case False
    have "card (r_ID ` set reqs - set (b @ new)) < card (r_ID ` set reqs - set b)"
      using False n(3,4) by (intro psubset_card_mono) (auto simp: psubset_eq neq_Nil_conv)
    moreover have "(dependents reqs)\<^sup>* `` set (b @ new) \<subseteq> (dependents reqs)\<^sup>* `` set b"
      using n(5) by (auto intro: rtrancl_trans)
    ultimately show ?thesis
      using Suc.IH [of "b @ new"] False n(1-3) by (simp add: Let_def) (auto dest: subsetD)
  qed
qed

lemma ids_bound: "card (r_ID ` set reqs - set b) \<le> length reqs"
proof -
  have "card (r_ID ` set reqs - set b) \<le> card (r_ID ` set reqs)" by (rule card_mono) auto
  also have "\<dots> \<le> card (set reqs)" by (rule card_image_le) simp
  also have "\<dots> \<le> length reqs" by (rule card_length)
  finally show ?thesis .
qed

lemma blocked_exact:
  "set (blocked_loop (length reqs) reqs b) = (dependents reqs)\<^sup>* `` set b"
proof
  let ?b = "blocked_loop (length reqs) reqs b"
  note p = blocked_loop_props [of b "length reqs" reqs]
  show "set ?b \<subseteq> (dependents reqs)\<^sup>* `` set b" by (rule p [THEN conjunct2, THEN conjunct1])
  have cl: "y \<in> set ?b" if xy: "(x, y) \<in> dependents reqs" "x \<in> set ?b" for x y
  proof -
    obtain r where "r \<in> set reqs" "x \<in> set (r_DependsOn r)" "y = r_ID r"
      using xy(1) unfolding dependents_def by blast
    then show ?thesis
      using p [THEN conjunct2, THEN conjunct2, THEN conjunct2, THEN mp, OF ids_bound] xy(2) by simp
  qed
  have "(dependents reqs)\<^sup>* `` set b \<subseteq> (dependents reqs)\<^sup>* `` set ?b"
    by (rule Image_mono [OF subset_refl p [THEN conjunct1]])
  then show "(dependents reqs)\<^sup>* `` set b \<subseteq> set ?b" using closed_star [OF cl] by simp
qed

lemma blocked_count:
  assumes "distinct failed"
  shows "countBlockedByFailure plan failed = card ((dependents (p_Requirements plan))\<^sup>* `` set failed - set failed)"
proof -
  let ?b = "blocked_loop (length (p_Requirements plan)) (p_Requirements plan) failed"
  have d: "distinct ?b" using blocked_loop_props assms by blast
  have "length (filter (\<lambda>i. i \<notin> set failed) ?b) = card (set (filter (\<lambda>i. i \<notin> set failed) ?b))"
    by (rule distinct_card [symmetric]) (use d in simp)
  also have "set (filter (\<lambda>i. i \<notin> set failed) ?b) = (dependents (p_Requirements plan))\<^sup>* `` set failed - set failed"
    using blocked_exact by auto
  finally show ?thesis by (auto simp: countBlockedByFailure_def)
qed

section \<open>Convergence against a reference\<close>

text \<open>The rows of a plan: at most one per requirement, and only of requirements the plan has.\<close>

definition rows_match :: "RequirementExecution list \<Rightarrow> Requirement list \<Rightarrow> bool" where
  "rows_match es reqs \<longleftrightarrow> distinct (map r_ID reqs) \<and> distinct (map re_RequirementID es)
     \<and> re_RequirementID ` set es \<subseteq> r_ID ` set reqs - {[]}"

definition done_ids :: "RequirementExecution list \<Rightarrow> bytes set" where
  "done_ids es = re_RequirementID ` {e \<in> set es. re_Stage e = ''completed''}"

definition failed_ids :: "RequirementExecution list \<Rightarrow> bytes set" where
  "failed_ids es = re_RequirementID ` {e \<in> set es. failed_stage (re_Stage e)}"

text \<open>The requirements that can no longer complete: failed, or downstream of a failed one.\<close>

definition doomed_ids :: "Requirement list \<Rightarrow> RequirementExecution list \<Rightarrow> bytes set" where
  "doomed_ids reqs es = (dependents reqs)\<^sup>* `` failed_ids es"

lemma ids_lists:
  "done_ids es = set (map re_RequirementID (filter (\<lambda>e. re_Stage e = ''completed'') es))"
  "failed_ids es = set (map re_RequirementID (filter (\<lambda>e. failed_stage (re_Stage e)) es))"
  by (auto simp: done_ids_def failed_ids_def)

lemma filter_count:
  "distinct (map re_RequirementID es) \<Longrightarrow> length (filter P es) = card (re_RequirementID ` {e \<in> set es. P e})"
proof -
  assume d: "distinct (map re_RequirementID es)"
  then have "distinct (map re_RequirementID (filter P es))" by (rule distinct_map_filter)
  then have "card (set (map re_RequirementID (filter P es))) = length (map re_RequirementID (filter P es))"
    by (rule distinct_card)
  then show ?thesis by simp
qed

lemma counts:
  assumes "rows_match (plan_rows rows slug) (p_Requirements plan)"
    and "countTerminalRequirements (Some rows) slug = Some (n, f, fs)"
  shows "n = card (done_ids (plan_rows rows slug))" "f = card (failed_ids (plan_rows rows slug))"
    "set fs = failed_ids (plan_rows rows slug)" "distinct fs"
proof -
  have ne: "re_RequirementID e \<noteq> []" if "e \<in> set (plan_rows rows slug)" for e
    using assms(1) that by (auto simp: rows_match_def dest!: subsetD [OF _ imageI])
  have d: "distinct (map re_RequirementID (plan_rows rows slug))" using assms(1) by (simp add: rows_match_def)
  show "n = card (done_ids (plan_rows rows slug))" "f = card (failed_ids (plan_rows rows slug))"
    "set fs = failed_ids (plan_rows rows slug)" "distinct fs"
    using assms(2) ne filter_count [OF d]
    by (auto simp: countTerminalRequirements_def Let_def done_ids_def failed_ids_def)
qed

lemma doomed_subset:
  assumes "rows_match es reqs"
  shows "doomed_ids reqs es \<subseteq> r_ID ` set reqs" "failed_ids es \<subseteq> doomed_ids reqs es"
proof -
  have "failed_ids es \<subseteq> r_ID ` set reqs" using assms by (auto simp: rows_match_def failed_ids_def)
  moreover have "y \<in> r_ID ` set reqs" if "(x, y) \<in> (dependents reqs)\<^sup>*" "x \<in> r_ID ` set reqs" for x y
    using that by (induction rule: rtrancl_induct) (auto simp: dependents_def)
  ultimately show "doomed_ids reqs es \<subseteq> r_ID ` set reqs" unfolding doomed_ids_def by auto
  show "failed_ids es \<subseteq> doomed_ids reqs es" unfolding doomed_ids_def by auto
qed

lemma augmented:
  assumes "rows_match (plan_rows rows slug) (p_Requirements plan)"
    and "countTerminalRequirements (Some rows) slug = Some (n, f, fs)"
  shows "augmentFailedWithBlocked plan fs f = card (doomed_ids (p_Requirements plan) (plan_rows rows slug))"
proof -
  let ?R = "p_Requirements plan" and ?es = "plan_rows rows slug"
  note c = counts [OF assms]
  have "countBlockedByFailure plan fs = card (doomed_ids ?R ?es - failed_ids ?es)"
    using blocked_count [OF c(4), of plan] c(3) by (simp add: doomed_ids_def)
  moreover have "finite (doomed_ids ?R ?es)" using doomed_subset(1) [OF assms(1)] finite_subset by blast
  ultimately show ?thesis
    using c(2) doomed_subset(2) [OF assms(1)]
    by (simp add: augmentFailedWithBlocked_def card_Diff_subset finite_subset card_mono)
qed


text \<open>Rows of the examples.\<close>

definition ex_row :: "bytes \<Rightarrow> bytes \<Rightarrow> bytes \<Rightarrow> bytes \<times> RequirementExecution option" where
  "ex_row slug reqID stage = (RequirementExecutionKey slug reqID, Some \<lparr>re_EntityID = [], re_Slug = slug,
     re_RequirementID = reqID, re_Stage = stage, re_Title = [], re_Description = [], re_ProjectID = [],
     re_TraceID = [], re_LoopID = [], re_RequestID = [], re_Model = [], re_Scenarios = [], re_DependsOn = [],
     re_Prompt = [], re_Role = [], re_PlanBranch = [], re_BaseBranch = [], re_SortedStoryIDs = [],
     re_CurrentStoryIdx = 0, re_NodeCount = 0, re_CurrentNodeIdx = 0, re_DAGRaw = None, re_SortedNodeIDs = [],
     re_NodeResults = [], re_ScenarioVerdicts = [], re_CurrentNodeTaskID = [], re_ReviewerTaskID = [],
     re_RequirementBranch = [], re_ReviewVerdict = [], re_ReviewFeedback = [], re_ErrorReason = [],
     re_ErrorClass = [], re_RetryCount = 0, re_MaxRetries = 0, re_CreatedAt = 0, re_UpdatedAt = 0\<rparr>)"

definition ex_running :: Plan where
  "ex_running = (ex_slug_plan ''a'' StatusImplementing)\<lparr>p_Requirements := [ex_req ''A'' [], ex_req ''B'' [''A''], ex_req ''C'' []]\<rparr>"

definition no_sandbox :: Sandbox where
  "no_sandbox = \<lparr>sb_merge = None, sb_stage = False, sb_files = None\<rparr>"


text \<open>a completed requirement downstream of a failed one is counted twice.  Here A failed, B, which
  depends on A, had completed before, and C has not run at all; the plan is nevertheless taken to
  have converged with failures and is rejected.\<close>

theorem convergence_counts_twice:
  "status_of (checkPlanConvergence ex_ids (\<lambda>_. []) [] no_sandbox
       (Some [ex_row ''a'' ''A'' ''failed'', ex_row ''a'' ''B'' ''completed'']) ex_env 2 ''a'' (ex_comp ex_running)) ''a''
     = Some StatusRejected
   \<and> ''C'' \<in> r_ID ` set (p_Requirements ex_running)
   \<and> ''C'' \<notin> re_RequirementID ` set (plan_rows [ex_row ''a'' ''A'' ''failed'', ex_row ''a'' ''B'' ''completed''] ''a'')"
  by code_simp

section \<open>The gate before QA\<close>

text \<open>Nothing but the last step of the success arm makes a plan ready for QA.\<close>

definition not_qa :: "bytes \<Rightarrow> Comp \<Rightarrow> bool" where
  "not_qa slug c \<longleftrightarrow> (\<forall>q. vis c slug = Some q \<longrightarrow> EffectiveStatus q \<noteq> StatusReadyForQA)"

lemma not_qa_save:
  assumes "not_qa slug c" "EffectiveStatus q \<noteq> StatusReadyForQA"
  shows "not_qa slug (savePlanCached io q c)"
proof -
  obtain e st where s: "plan_save io q (co_plans c) = (e, st)" by (cases "plan_save io q (co_plans c)")
  then show ?thesis
    using plan_save_visible [OF s] assms by (auto simp: savePlanCached_def save_reply_def not_qa_def split: if_splits)
qed

lemma not_qa_set_status:
  assumes "not_qa slug c" "EffectiveStatus q \<noteq> StatusReadyForQA" "t \<noteq> StatusReadyForQA"
    and s: "set_status io q t c = (e, q', c')"
  shows "not_qa slug c'" "EffectiveStatus q' \<noteq> StatusReadyForQA"
proof -
  consider "c' = c" "q' = q" | st where "Status_CanTransitionTo (EffectiveStatus q) t" "q' = q\<lparr>p_Status := t\<rparr>"
      "plan_save io q' (co_plans c) = (e, st)" "c' = c\<lparr>co_plans := st\<rparr>"
    using s by (auto simp: set_status_def setPlanStatusCached_def Let_def split: if_splits prod.splits)
  then have "not_qa slug c' \<and> EffectiveStatus q' \<noteq> StatusReadyForQA"
  proof cases
    case 1
    then show ?thesis using assms by simp
  next
    case (2 st)
    have "EffectiveStatus q' \<noteq> StatusReadyForQA"
      using EffectiveStatus_target [of _ q'] 2(1,2) assms(3) by auto
    then show ?thesis using plan_save_visible [OF 2(3)] assms(1) 2(4) by (auto simp: not_qa_def split: if_splits)
  qed
  then show "not_qa slug c'" "EffectiveStatus q' \<noteq> StatusReadyForQA" by auto
qed

lemma not_qa_set_status_snd:
  assumes "not_qa slug c" "EffectiveStatus q \<noteq> StatusReadyForQA" "t \<noteq> StatusReadyForQA"
  shows "not_qa slug (snd (snd (set_status io q t c)))"
  by (rule not_qa_set_status(1) [OF assms, of io "fst (set_status io q t c)" "fst (snd (set_status io q t c))"]) simp

lemma not_qa_reject:
  assumes "not_qa slug c" "EffectiveStatus q \<noteq> StatusReadyForQA"
  shows "not_qa slug (reject_or_save env n q c)"
proof -
  obtain e q' c1 where s: "set_status (en_save env n) q StatusRejected c = (e, q', c1)"
    by (cases "set_status (en_save env n) q StatusRejected c") auto
  note t = not_qa_set_status [OF assms _ s]
  then show ?thesis using s not_qa_save by (cases e) (simp_all add: reject_or_save_def)
qed

lemma not_qa_advance:
  assumes "not_qa slug c" "EffectiveStatus q \<noteq> StatusReadyForQA" "t \<noteq> StatusReadyForQA"
  shows "not_qa slug (advance env n t q c)"
proof -
  obtain e q' c1 where s: "set_status (en_save env n) q t c = (e, q', c1)"
    by (cases "set_status (en_save env n) q t c") auto
  note t = not_qa_set_status [OF assms s]
  let ?t = "if shouldGateReview c1 q' then StatusAwaitingReview else StatusComplete"
  obtain e2 q2 c2 where s2: "set_status (en_save env (n + 1)) q' ?t c1 = (e2, q2, c2)"
    by (cases "set_status (en_save env (n + 1)) q' ?t c1") auto
  have "not_qa slug c2" using not_qa_set_status(1) [OF t _ s2] by simp
  moreover have "not_qa slug (publishQARequestIfNeeded env q' c1)"
    using t(1) by (simp add: publishQARequestIfNeeded_def not_qa_def)
  ultimately show ?thesis using s s2 by (cases e) (simp_all add: advance_def)
qed

lemma not_qa_fail:
  assumes "not_qa slug c" "EffectiveStatus q \<noteq> StatusReadyForQA"
  shows "not_qa slug (routeAssemblyConflict ids errtext env n err q c)"
    and "not_qa slug (failPlanOnIncompleteScope ids env n missing q c)"
  using assms unfolding routeAssemblyConflict_def failPlanOnAssemblyConflict_def failPlanOnIncompleteScope_def Let_def
  by (auto split: stage_error.split assembly_error.split intro!: not_qa_save not_qa_reject)

lemma assemble_scope: "assembleRequirementBranches merge p = (e, q) \<Longrightarrow> p_Scope q = p_Scope p"
  by (auto simp: assembleRequirementBranches_def Let_def split: option.splits if_splits prod.splits merge_result.splits)

lemma stage_scope:
  assumes "assembleAndStageQAWorktree sb p c = (e, q, c1)"
  shows "p_Scope q = p_Scope p" "EffectiveStatus q = EffectiveStatus p"
    "e = None \<Longrightarrow> fst (assembleRequirementBranches (sb_merge sb) p) = None"
  using assms assemble_scope assemble_frame(6)
  by (auto simp: assembleAndStageQAWorktree_def Let_def split: prod.splits option.splits if_splits)

lemma succeeded_to_qa:
  assumes imp: "EffectiveStatus p = StatusImplementing" "not_qa slug c"
    and qa: "\<not> not_qa slug (handleConvergenceAllSucceeded ids errtext gaptext sb env n p c)"
  obtains q c1 where "assembleAndStageQAWorktree sb p c = (None, q, c1)" "scopeCompletenessGap sb q = Some []"
proof -
  have tgt: "targetForQALevel c p = StatusReadyForQA"
  proof (rule ccontr)
    assume "targetForQALevel c p \<noteq> StatusReadyForQA"
    then show False
      using not_qa_advance [OF imp(2), of p "targetForQALevel c p" env n] imp(1) qa
      by (simp add: handleConvergenceAllSucceeded_def)
  qed
  obtain e q c1 where s: "assembleAndStageQAWorktree sb p c = (e, q, c1)"
    by (cases "assembleAndStageQAWorktree sb p c") auto
  have n: "not_qa slug c1" using stage_frame(2) [OF s] imp(2) by (simp add: not_qa_def)
  have q: "EffectiveStatus q \<noteq> StatusReadyForQA" using stage_scope(2) [OF s] imp(1) by simp
  have e: "e = None" using qa not_qa_fail(1) [OF n q] s tgt by (cases e) (auto simp: handleConvergenceAllSucceeded_def)
  have "scopeCompletenessGap sb q = Some []"
    using qa not_qa_fail(2) [OF n q] not_qa_save [OF n] q s tgt e
    by (auto simp: handleConvergenceAllSucceeded_def split: option.splits if_splits)
  then show ?thesis using that s e by blast
qed

lemma converge_to_qa:
  assumes imp: "not_qa slug c" and qa: "\<not> not_qa slug (converge ids errtext gaptext sb bucket env n s p c)"
  obtains rows k fs where "bucket = Some rows" "countTerminalRequirements (Some rows) s = Some (k, 0, fs)"
    "length (p_Requirements p) \<le> k" "EffectiveStatus p = StatusImplementing"
    "\<not> not_qa slug (handleConvergenceAllSucceeded ids errtext gaptext sb env n p c)"
proof -
  have st: "EffectiveStatus p = StatusImplementing" "p_Requirements p \<noteq> []"
    using imp qa by (auto simp: converge_def Let_def split: if_splits)
  obtain rows k f fs where t: "bucket = Some rows" "countTerminalRequirements (Some rows) s = Some (k, f, fs)"
    using imp qa by (cases bucket) (auto simp: converge_def countTerminalRequirements_def Let_def split: if_splits)
  let ?f = "augmentFailedWithBlocked p fs f"
  have "not_qa slug (auto_reject env n a b p c)" for a b
    unfolding auto_reject_def by (rule not_qa_set_status_snd [OF imp]) (use st(1) in simp_all)
  moreover have "not_qa slug (savePlanCached (en_save env n) p c)" using not_qa_save [OF imp] st(1) by simp
  ultimately have "\<not> k + ?f < length (p_Requirements p)" "?f = 0"
    "\<not> not_qa slug (handleConvergenceAllSucceeded ids errtext gaptext sb env n p c)"
    using qa imp st t by (auto simp: converge_def Let_def split: if_splits)
  then show ?thesis using that [OF t(1), of k fs] t(2) st(1) by (auto simp: augmentFailedWithBlocked_def)
qed

lemma undelivered_none:
  assumes "undeliveredScopeFiles declared delivered = []" "f \<in> set declared" "\<not> blank f"
  shows "\<exists>d \<in> set delivered. path_Clean (TrimSpace d) = path_Clean (TrimSpace f)"
proof -
  have "path_Clean (TrimSpace f) \<in> (\<lambda>d. path_Clean (TrimSpace d)) ` {d \<in> set delivered. \<not> blank d}"
    using assms by (simp add: undeliveredScopeFiles_def Let_def filter_empty_conv)
  then obtain d where "d \<in> set delivered" "path_Clean (TrimSpace f) = path_Clean (TrimSpace d)" by blast
  then show ?thesis by (auto intro!: bexI [of _ d])
qed

lemma gap_none:
  assumes "scopeCompletenessGap sb q = Some []" "sb_merge sb \<noteq> None" "f \<in> set (scope_Create (p_Scope q))" "\<not> blank f"
  shows "\<exists>files d. sb_files sb = Some files \<and> d \<in> set files \<and> path_Clean (TrimSpace d) = path_Clean (TrimSpace f)"
proof -
  obtain files where f: "undeliveredScopeFiles (scope_Create (p_Scope q)) files = []" "files = [] \<or> sb_files sb = Some files"
    using assms(1-3) by (cases "sb_files sb") (auto simp: scopeCompletenessGap_def split: if_splits)
  obtain d where "d \<in> set files" "path_Clean (TrimSpace d) = path_Clean (TrimSpace f)"
    using undelivered_none [OF f(1) assms(3,4)] by blast
  then show ?thesis using f(2) by (intro exI [of _ files] exI [of _ d]) auto
qed


definition ex_delivered :: Plan where
  "ex_delivered = ex_running\<lparr>p_Scope := Scope_zero\<lparr>scope_Create := [''./x.go'']\<rparr>\<rparr>"

definition ex_sandbox :: Sandbox where
  "ex_sandbox = \<lparr>sb_merge = Some (\<lambda>t bs. Merged t [''c1'']), sb_stage = True, sb_files = Some [''x.go'']\<rparr>"

definition ex_all_done :: "(bytes \<times> RequirementExecution option) list" where
  "ex_all_done = [ex_row ''a'' ''A'' ''completed'', ex_row ''a'' ''B'' ''completed'', ex_row ''a'' ''C'' ''completed'']"


definition ex_decision :: PlanDecision where
  "ex_decision = PlanDecision_zero\<lparr>d_ID := ''d1'', d_PlanID := ''p1'', d_Kind := PlanDecisionKindExecutionExhausted,
     d_AffectedReqIDs := [''A'']\<rparr>"

text \<open>The watcher can undo a handler.  It reads the plan and saves its snapshot without the slug
  lock.  When a plan decision is added, with success, between its read and its save, the decision is
  gone afterwards, although the comment on the watcher expects the last writer to win on LastError
  only.\<close>

theorem watcher_loses_decision:
  "case plan_get True ''a'' (co_plans (ex_comp ex_running)) of
     (None, _) \<Rightarrow> False
   | (Some snapshot, st) \<Rightarrow>
       (case handlePlanDecisionAddMutation (Some \<lparr>pd_Slug = ''a'', pd_Decision = ex_decision\<rparr>) ex_env
               ((ex_comp ex_running)\<lparr>co_plans := st\<rparr>) of
          (Some _, _) \<Rightarrow> False
        | (None, c1) \<Rightarrow>
            map_option (map d_ID \<circ> p_PlanDecisions) (vis c1 ''a'') = Some [''d1'']
            \<and> map_option (map d_ID \<circ> p_PlanDecisions) (vis (converge ex_ids (\<lambda>_. []) [] no_sandbox
                 (Some [ex_row ''a'' ''A'' ''failed'', ex_row ''a'' ''C'' ''completed'']) ex_env 2 ''a'' snapshot c1) ''a'') = Some [])"
  by code_simp

text \<open>The fallback of the success arm never applies.  When the move to the QA target reports an
  error, the snapshot already carries the target status, from which neither complete nor
  awaiting_review can be reached, so the second attempt is refused by the transition table; nothing
  more is saved and no QA request is published.  A plan whose move was stored although an error was
  reported (the graph write comes last) is then left in ready_for_qa without a QA request.\<close>

theorem qa_fallback_dead:
  assumes "target = targetForQALevel c plan" "EffectiveStatus plan = StatusImplementing"
    and "set_status (en_save env n) plan target c = (Some e, plan1, c1)"
  shows "advance env n target plan c = c1"
proof -
  have t: "target \<in> {StatusReadyForQA, StatusAwaitingReview, StatusComplete}"
    using assms(1) by (simp add: targetForQALevel_def)
  then have p: "plan1 = plan\<lparr>p_Status := target\<rparr>"
    using assms(2,3) by (auto simp: set_status_def setPlanStatusCached_def Let_def Status_CanTransitionTo_def split: if_splits prod.splits)
  have "co_config c1 = co_config c"
    using assms(3) by (auto simp: set_status_def split: prod.splits)
  then have "shouldGateReview c1 plan1 = shouldGateReview c plan" by (simp add: shouldGateReview_def p)
  then show ?thesis using t p assms(1,3)
    by (auto simp: advance_def set_status_def setPlanStatusCached_def EffectiveStatus_def Status_CanTransitionTo_def
        targetForQALevel_def split: if_splits)
qed

definition ex_unit :: Plan where
  "ex_unit = ex_running\<lparr>p_QALevel := QALevelUnit\<rparr>"

definition ex_no_graph :: Env where
  "ex_no_graph = ex_env\<lparr>en_save := (\<lambda>_. io_ok\<lparr>sv_graph := False\<rparr>)\<rparr>"

theorem qa_fallback_dead_witness:
  "status_of (advance ex_no_graph 2 StatusReadyForQA ex_unit (ex_comp ex_unit)) ''a'' = Some StatusReadyForQA
   \<and> co_outbox (advance ex_no_graph 2 StatusReadyForQA ex_unit (ex_comp ex_unit)) = []"
proof -
  let ?r = "set_status (en_save ex_no_graph 2) ex_unit StatusReadyForQA (ex_comp ex_unit)"
  have t: "StatusReadyForQA = targetForQALevel (ex_comp ex_unit) ex_unit" by code_simp
  have i: "EffectiveStatus ex_unit = StatusImplementing" by code_simp
  have "fst ?r = Some GraphFailed" by code_simp
  then have s: "?r = (Some GraphFailed, fst (snd ?r), snd (snd ?r))" by (metis prod.collapse)
  have "status_of (snd (snd ?r)) ''a'' = Some StatusReadyForQA" by code_simp
  moreover have "co_outbox (snd (snd ?r)) = []" by (simp add: set_status_def ex_comp_def split: prod.split)
  ultimately show ?thesis using qa_fallback_dead [OF t i s] by simp
qed

end
