(* ===== verification/Plan_Machine.thy ===== *)
theory Plan_Machine
  imports GitHub Convergence
begin

text \<open>
  All mutation handlers together, as \<^verbatim>\<open>startMutationHandler\<close> of
  \<^verbatim>\<open>src/processor/plan-manager/mutations.go\<close> registers them, with the watcher of
  EXECUTION_STATES and the expiry of the cache: a transition system on the component.  Handlers of
  one slug exclude each other, so a concurrent use of a slug is a sequence of whole handlers; the
  watcher is taken as one step, which it is when no handler of the same slug runs meanwhile.  Its
  abstraction is a map from slugs to statuses that only moves along the transition table.
\<close>

section \<open>Requests\<close>

text \<open>What the handlers take from outside the request: the identifiers, the texts of errors and
  verdicts.  The outcome of a merge, the rows of the bucket and the iteration order of a map come
  with the request they belong to.\<close>

record World =
  wd_ids :: Ids
  wd_verdict_text :: "QAVerdict \<Rightarrow> bytes"
  wd_merge_text :: "assembly_error \<Rightarrow> bytes"
  wd_stage_text :: "stage_error \<Rightarrow> bytes"
  wd_gap_text :: bytes
  wd_lower :: "bytes \<Rightarrow> bytes"
  wd_qa :: QALevel

datatype request =
    mutationExplored "ExploredMutationRequest option"
  | mutationDrafted "DraftedMutationRequest option"
  | mutationReviewed "ReviewedMutationRequest option"
  | mutationApproved "ApprovedMutationRequest option"
  | mutationRequirementsGenerated "RequirementsMutationRequest option"
  | mutationArchitectureGenerated "architectureMutationRequest option"
  | mutationStoriesGenerated "nat \<Rightarrow> bytes list \<Rightarrow> bytes list" "storiesMutationRequest option"
  | mutationStoryStatus "StoryStatusMutationRequest option"
  | mutationScenariosGenerated "ScenariosMutationRequest option"
  | mutationScenariosReviewed "RoundReviewedRequest option"
  | mutationArchitectureReviewed "RoundReviewedRequest option"
  | mutationRequirementsReviewed "RoundReviewedRequest option"
  | mutationReadyForExecution "bytes option"
  | mutationGenerationFailed "GenerationFailedRequest option"
  | mutationClaim "ClaimMutationRequest option"
  | mutationRevision "RevisionMutationRequest option"
  | mutationQAStart "qaStartRequest option"
  | mutationQAVerdict "(bytes \<Rightarrow> bytes list \<Rightarrow> merge_result) option" "QAVerdictEvent option"
  | mutationReviewApprove "bytes option"
  | mutationGitHubPRFeedback bucket "GitHubPRFeedbackRequest option"
  | mutationGitHubPRMetadata "PRMetadataRequest option"
  | mutationPlanDecisionAdd "planDecisionAddRequest option"
  | mutationPlanDecisionAccept "planDecisionAcceptRequest option"
  | rowChanged Sandbox bucket bytes "RequirementExecution option" bool

fun handle_request :: "World \<Rightarrow> request \<Rightarrow> handler" where
  "handle_request w (mutationExplored r) = handleExploredMutation r"
| "handle_request w (mutationDrafted r) = handleDraftedMutation (wd_ids w) r"
| "handle_request w (mutationReviewed r) = handleReviewedMutation r"
| "handle_request w (mutationApproved r) = handleApprovedMutation r"
| "handle_request w (mutationRequirementsGenerated r) = handleRequirementsMutation (wd_ids w) r"
| "handle_request w (mutationArchitectureGenerated r) = handleArchitectureMutation r"
| "handle_request w (mutationStoriesGenerated perm r) = handleStoriesMutation perm r"
| "handle_request w (mutationStoryStatus r) = handleStoryStatusMutation r"
| "handle_request w (mutationScenariosGenerated r) = handleScenariosMutation r"
| "handle_request w (mutationScenariosReviewed r) = handleScenariosReviewedMutation r"
| "handle_request w (mutationArchitectureReviewed r) = handleArchitectureReviewedMutation r"
| "handle_request w (mutationRequirementsReviewed r) = handleRequirementsReviewedMutation r"
| "handle_request w (mutationReadyForExecution r) = handleReadyForExecutionMutation r"
| "handle_request w (mutationGenerationFailed r) = handleGenerationFailedMutation r"
| "handle_request w (mutationClaim r) = handleClaimMutation r"
| "handle_request w (mutationRevision r) = handleRevisionMutation r"
| "handle_request w (mutationQAStart r) = handleQAStartMutation r"
| "handle_request w (mutationQAVerdict merge r) = handleQAVerdictMutation (wd_verdict_text w) (wd_merge_text w) merge r"
| "handle_request w (mutationReviewApprove r) = handleReviewApproveMutation r"
| "handle_request w (mutationGitHubPRFeedback b r) = handleGitHubPRFeedbackMutation (wd_ids w) b r"
| "handle_request w (mutationGitHubPRMetadata r) = handleGitHubPRMetadataMutation r"
| "handle_request w (mutationPlanDecisionAdd r) = handlePlanDecisionAddMutation r"
| "handle_request w (mutationPlanDecisionAccept r) = handlePlanDecisionAcceptMutation (wd_ids w) r"
| "handle_request w (rowChanged sb b key row replayed) = (\<lambda>env c.
     (None, handleRequirementStateChange (wd_ids w) (wd_stage_text w) (wd_gap_text w) sb b key row replayed env c))"

text \<open>The slug a request addresses.\<close>

abbreviation slug_or_empty :: "('r \<Rightarrow> bytes) \<Rightarrow> 'r option \<Rightarrow> bytes" where
  "slug_or_empty f r \<equiv> (case r of Some x \<Rightarrow> f x | None \<Rightarrow> [])"

fun request_slug :: "request \<Rightarrow> bytes" where
  "request_slug (mutationExplored r) = slug_or_empty em_Slug r"
| "request_slug (mutationDrafted r) = slug_or_empty dm_Slug r"
| "request_slug (mutationReviewed r) = slug_or_empty rv_Slug r"
| "request_slug (mutationApproved r) = slug_or_empty ap_Slug r"
| "request_slug (mutationRequirementsGenerated r) = slug_or_empty rm_Slug r"
| "request_slug (mutationArchitectureGenerated r) = slug_or_empty architectureMutationRequest.ar_Slug r"
| "request_slug (mutationStoriesGenerated _ r) = slug_or_empty sm_Slug r"
| "request_slug (mutationStoryStatus r) = slug_or_empty ss_Slug r"
| "request_slug (mutationScenariosGenerated r) = slug_or_empty scm_Slug r"
| "request_slug (mutationScenariosReviewed r) = slug_or_empty ro_Slug r"
| "request_slug (mutationArchitectureReviewed r) = slug_or_empty ro_Slug r"
| "request_slug (mutationRequirementsReviewed r) = slug_or_empty ro_Slug r"
| "request_slug (mutationReadyForExecution r) = slug_or_empty (\<lambda>s. s) r"
| "request_slug (mutationGenerationFailed r) = slug_or_empty gf_Slug r"
| "request_slug (mutationClaim r) = slug_or_empty cl_Slug r"
| "request_slug (mutationRevision r) = slug_or_empty rn_Slug r"
| "request_slug (mutationQAStart r) = slug_or_empty qs_Slug r"
| "request_slug (mutationQAVerdict _ r) = slug_or_empty qe_Slug r"
| "request_slug (mutationReviewApprove r) = slug_or_empty (\<lambda>s. s) r"
| "request_slug (mutationGitHubPRFeedback _ r) = slug_or_empty gp_Slug r"
| "request_slug (mutationGitHubPRMetadata r) = slug_or_empty gm_Slug r"
| "request_slug (mutationPlanDecisionAdd r) = slug_or_empty pd_Slug r"
| "request_slug (mutationPlanDecisionAccept r) = slug_or_empty pa_Slug r"
| "request_slug (rowChanged _ _ key row _) = row_slug key row"

lemmas handlers_meet = explored_meets drafted_meets reviewed_meets approved_meets requirements_meets
  architecture_meets stories_meets story_status_meets scenarios_meets scenarios_reviewed_meets
  architecture_reviewed_meets requirements_reviewed_meets ready_for_execution_meets generation_failed_meets
  claim_meets revision_meets qa_start_meets qa_verdict_meets review_approve_meets pr_feedback_meets
  pr_metadata_meets decision_add_meets decision_accept_meets fulfils_ok [OF state_change_touches]

interpretation plans: plan_handler "handle_request w" request_slug for w
proof
  show "fulfils (request_slug r) c (handle_request w r env c)" if "comp_inv c" for c r env
    by (cases r) (simp_all only: handle_request.simps request_slug.simps handlers_meet [OF that])
qed

section \<open>The transition system\<close>

text \<open>A handled request, the expiry of a cache entry that the bucket has, and the creation of a plan
  under a slug that nothing is stored under.\<close>

inductive plan_step :: "World \<Rightarrow> Comp \<Rightarrow> Comp \<Rightarrow> bool" for w :: World where
  request: "plan_step w c (snd (handle_request w r env c))"
| expire: "synced (co_plans c) \<Longrightarrow> plan_step w c (c\<lparr>co_plans := evict slug (co_plans c)\<rparr>)"
| create: "case data of Some req \<Rightarrow> vis c (github_slug (wd_lower w) (wd_ids w) req) = None | None \<Rightarrow> True \<Longrightarrow>
    plan_step w c (snd (handleGitHubPlanCreateMutation (wd_lower w) (wd_ids w) detected (wd_qa w) data env c))"

lemma request_reachable: "(plan_step w)\<^sup>*\<^sup>* c (snd (handle_request w r env c))"
  by (rule r_into_rtranclp, rule plan_step.request)

text \<open>The specification: a slug appears with the status created, or moves along one edge of the
  table.\<close>

inductive spec_step :: "(bytes \<rightharpoonup> Status) \<Rightarrow> (bytes \<rightharpoonup> Status) \<Rightarrow> bool" where
  birth: "m slug = None \<Longrightarrow> spec_step m (m(slug \<mapsto> StatusCreated))"
| move: "m slug = Some s \<Longrightarrow> Status_CanTransitionTo s t \<Longrightarrow> spec_step m (m(slug \<mapsto> t))"

definition abs_plans :: "Comp \<Rightarrow> bytes \<rightharpoonup> Status" where
  "abs_plans c slug = map_option EffectiveStatus (vis c slug)"

lemma spec_path:
  assumes "Status_CanTransitionTo\<^sup>*\<^sup>* s t" "m slug = Some s"
  shows "spec_step\<^sup>*\<^sup>* m (m(slug \<mapsto> t))"
  using assms(1)
proof (induction rule: rtranclp_induct)
  case base
  then show ?case using assms(2) by (simp add: map_upd_triv)
next
  case (step t u)
  have "spec_step (m(slug \<mapsto> t)) ((m(slug \<mapsto> t))(slug \<mapsto> u))" by (rule move) (use step in simp_all)
  then show ?case using rtranclp.rtrancl_into_rtrancl [OF step.IH] by (simp only: fun_upd_upd)
qed

lemma abs_upd: "vis c' = (vis c)(slug \<mapsto> q) \<Longrightarrow> abs_plans c' = (abs_plans c)(slug \<mapsto> EffectiveStatus q)"
  by (auto simp: abs_plans_def fun_eq_iff)

lemma abs_same: "vis c' = vis c \<Longrightarrow> abs_plans c' = abs_plans c"
  by (auto simp: abs_plans_def fun_eq_iff)

lemma touches_refines:
  assumes "touches slug c c'"
  shows "spec_step\<^sup>*\<^sup>* (abs_plans c) (abs_plans c')"
proof -
  consider "vis c' = vis c" | p q where "vis c slug = Some p" "vis c' = (vis c)(slug \<mapsto> q)" "evolves p q"
    using assms unfolding touches_def by blast
  then show ?thesis
  proof cases
    case 1
    then show ?thesis by (simp add: abs_same [OF 1])
  next
    case (2 p q)
    then have "Status_CanTransitionTo\<^sup>*\<^sup>* (EffectiveStatus p) (EffectiveStatus q)" "abs_plans c slug = Some (EffectiveStatus p)"
      by (simp_all add: evolves_def abs_plans_def)
    then show ?thesis unfolding abs_upd [OF 2(2)] by (rule spec_path)
  qed
qed

text \<open>Creation: nothing, or a new plan with status created; an error may leave the plan stored without
  its GitHub details.\<close>

definition fresh :: "Plan \<Rightarrow> bool" where
  "fresh p \<longleftrightarrow> p_Status p = StatusEmpty \<and> EffectiveStatus p = StatusCreated \<and> p_Goal p = []
     \<and> p_Requirements p = [] \<and> p_Stories p = [] \<and> p_ReviewIteration p = 0"

lemma fresh_steps:
  "fresh p \<Longrightarrow> fresh (ensureRuntimeContractFacts d p)" "fresh p \<Longrightarrow> fresh (EnsureContractPacket ids n b m p)"
  "p_Slug (ensureRuntimeContractFacts d p) = p_Slug p" "p_Slug (EnsureContractPacket ids n b m p) = p_Slug p"
  by (auto simp: fresh_def ensureRuntimeContractFacts_def EnsureContractPacket_def split: option.split)

lemma fresh_details:
  "fresh p \<Longrightarrow> fresh (github_details req p)" "p_Slug (github_details req p) = p_Slug p"
proof -
  show "p_Slug (github_details req p) = p_Slug p" by (simp add: github_details_def)
  assume f: "fresh p"
  have "EffectiveStatus (github_details req p) = EffectiveStatus p"
    using f by (simp add: fresh_def github_details_def EffectiveStatus_def)
  then show "fresh (github_details req p)" using f by (simp add: fresh_def github_details_def)
qed

definition new_plan :: "Ids \<Rightarrow> TopologyFact list \<Rightarrow> nat \<Rightarrow> bytes \<Rightarrow> bytes \<Rightarrow> bytes \<Rightarrow> QALevel \<Rightarrow> bool option \<Rightarrow> Plan" where
  "new_plan ids detected now slug title brief qa ov =
     ensureRuntimeContractFacts detected (EnsureContractPacket ids now (if brief = [] then title else brief) now
       (Plan_zero\<lparr>p_ID := PlanEntityID ids slug, p_Slug := slug, p_Title := title,
          p_ProjectID := ProjectEntityID ids ''default'', p_CreatedAt := now,
          p_QALevel := (if qa = QALevelOther [] then QALevelSynthesis else qa), p_AutoRejectOnExhaustion := ov\<rparr>))"

lemma new_plan_fresh: "fresh (new_plan ids detected now slug title brief qa ov)"
  "p_Slug (new_plan ids detected now slug title brief qa ov) = slug"
  unfolding new_plan_def
  by (intro fresh_steps(1,2), simp add: fresh_def EffectiveStatus_def Plan_zero_def, simp add: fresh_steps(3,4))

lemma plan_create_saves:
  assumes "plan_save io (new_plan ids detected now slug title brief qa ov) st = (e, st1)"
    and "ValidateSlug slug = None \<and> title \<noteq> [] \<and> \<not> plan_exists slug st"
  shows "plan_create ids detected io now slug title brief qa ov st
    = (case e of None \<Rightarrow> Inr (new_plan ids detected now slug title brief qa ov) | Some x \<Rightarrow> Inl x, st1)"
  using assms(2) unfolding plan_create_def Let_def new_plan_def [symmetric] assms(1) by (cases e) simp_all

lemma plan_create_refuses:
  assumes "\<not> (ValidateSlug slug = None \<and> title \<noteq> [] \<and> \<not> plan_exists slug st)"
  shows "\<exists>e. plan_create ids detected io now slug title brief qa ov st = (Inl e, st)"
  using assms unfolding plan_create_def by (cases "ValidateSlug slug") auto

lemma plan_create_fresh:
  assumes "plan_create ids detected io now slug title brief qa ov st = (r, st')"
  obtains (refused) e where "st' = st" "r = Inl e"
    | (saved) p e where "fresh p" "p_Slug p = slug" "plan_save io p st = (e, st')" "r = (case e of None \<Rightarrow> Inr p | Some x \<Rightarrow> Inl x)"
proof (cases "ValidateSlug slug = None \<and> title \<noteq> [] \<and> \<not> plan_exists slug st")
  case True
  obtain e st1 where s: "plan_save io (new_plan ids detected now slug title brief qa ov) st = (e, st1)"
    by (cases "plan_save io (new_plan ids detected now slug title brief qa ov) st")
  show ?thesis
    by (rule saved [OF new_plan_fresh]) (use plan_create_saves [OF s True] assms s in simp_all)
next
  case False
  then obtain x where "plan_create ids detected io now slug title brief qa ov st = (Inl x, st)"
    using plan_create_refuses by blast
  then show ?thesis using refused assms by simp
qed

lemma create_step:
  assumes c: "comp_inv c" and "case data of Some req \<Rightarrow> vis c (github_slug lower ids req) = None | None \<Rightarrow> True"
    and c': "c' = snd (handleGitHubPlanCreateMutation lower ids detected qa data env c)"
  shows "comp_inv c' \<and> (vis c' = vis c \<or> (\<exists>slug p. vis c slug = None \<and> vis c' = (vis c)(slug \<mapsto> p) \<and> fresh p))"
proof (cases data)
  case None
  then show ?thesis using c c' by (simp add: handleGitHubPlanCreateMutation_def)
next
  case (Some req)
  let ?s = "github_slug lower ids req"
  have n: "vis c ?s = None" using assms(2) Some by simp
  obtain r st where pc: "plan_create ids detected (en_save env 0) (en_now env) ?s (gc_Title req)
      (if gc_Description req = [] then gc_Title req else gc_Description req) qa None (co_plans c) = (r, st)"
    by (cases "plan_create ids detected (en_save env 0) (en_now env) ?s (gc_Title req)
      (if gc_Description req = [] then gc_Title req else gc_Description req) qa None (co_plans c)")
  have fin: "comp_inv d \<and> (vis d = vis c \<or> (\<exists>slug p. vis c slug = None \<and> vis d = (vis c)(slug \<mapsto> p) \<and> fresh p))"
    if "store_inv (co_plans d)" "vis d = vis c \<or> (\<exists>p. vis d = (vis c)(?s \<mapsto> p) \<and> fresh p)" for d
    using that n by blast
  consider "c' = c" | e where "r = Inl e" "c' = c\<lparr>co_plans := st\<rparr>"
    | p where "r = Inr p" "c' = snd (save_reply (en_save env 1) (github_details req p) (c\<lparr>co_plans := st\<rparr>))"
    using c' Some pc by (cases r) (auto simp: handleGitHubPlanCreateMutation_def Let_def split: if_splits)
  then show ?thesis
  proof cases
    case 1
    then show ?thesis using c by simp
  next
    case (2 e)
    from pc show ?thesis
    proof (cases rule: plan_create_fresh)
      case refused
      then show ?thesis using 2 c by simp
    next
      case (saved p x)
      have "store_inv st" using plan_save_inv [OF saved(3) c] .
      then show ?thesis
        using fin [of c'] 2 plan_save_visible [OF saved(3)] saved(1,2) by auto
    qed
  next
    case (3 p)
    from pc show ?thesis
    proof (cases rule: plan_create_fresh)
      case (refused e)
      then show ?thesis using 3 by simp
    next
      case (saved q x)
      then have q: "q = p" "x = None" using 3 by (auto split: option.splits)
      have i: "store_inv st" using plan_save_inv [OF saved(3) c] .
      have v: "visible st = (vis c)(?s \<mapsto> p)" using plan_save_ok [of "en_save env 0" q "co_plans c" st] saved(2,3) q by simp
      obtain y st2 where s2: "plan_save (en_save env 1) (github_details req p) st = (y, st2)"
        by (cases "plan_save (en_save env 1) (github_details req p) st")
      have "visible st2 = visible st \<or> visible st2 = (visible st)(?s \<mapsto> github_details req p)"
        using plan_save_visible [OF s2] fresh_details(2) saved(2) q by simp
      then have "\<exists>z. visible st2 = (vis c)(?s \<mapsto> z) \<and> fresh z"
        using v saved(1) q(1) fresh_details(1) by (auto simp: fun_upd_upd)
      moreover have "store_inv st2" using plan_save_inv [OF s2 i] .
      moreover have "co_plans c' = st2" using 3(2) s2 by (simp add: save_reply_def)
      ultimately show ?thesis using fin [of c'] by simp
    qed
  qed
qed

lemma plan_step_sim:
  assumes "comp_inv c" "plan_step w c c'"
  shows "comp_inv c' \<and> spec_step\<^sup>*\<^sup>* (abs_plans c) (abs_plans c')"
  using assms(2)
proof (cases rule: plan_step.cases)
  case (request r env)
  have "touches (request_slug r) c c'" using plans.meets [OF assms(1), of r w env] request by (simp add: fulfils_def)
  then show ?thesis using touches_refines touches_inv by blast
next
  case (expire slug)
  then have "vis c' = vis c" "comp_inv c'" using assms(1) by (simp_all add: evict_visible evict_inv)
  then show ?thesis using abs_same [of c' c] by simp
next
  case (create data detected env)
  have "spec_step (abs_plans c) (abs_plans c')" if "vis c slug = None" "vis c' = (vis c)(slug \<mapsto> p)" "fresh p" for slug p
    using birth [of "abs_plans c" slug] that abs_upd [OF that(2)] by (simp add: abs_plans_def fresh_def)
  then show ?thesis
    using create_step [OF assms(1) create(2,1)] abs_same [of c' c] by auto
qed

text \<open>The structural invariant of the stored plans.\<close>

definition all_ok :: "Comp \<Rightarrow> bool" where
  "all_ok c \<longleftrightarrow> comp_inv c \<and> (\<forall>slug p. vis c slug = Some p \<longrightarrow>
     plan_ok p \<and> Status_IsValid (EffectiveStatus p) \<and> 0 \<le> p_ReviewIteration p)"

lemma path_valid:
  assumes "Status_CanTransitionTo\<^sup>*\<^sup>* s t" "Status_IsValid s"
  shows "Status_IsValid t"
  using assms by (induction rule: rtranclp_induct) (auto simp: Status_CanTransitionTo_def dest: allowed_targets_valid)

lemma evolves_ok:
  assumes "evolves p q" "plan_ok p" "Status_IsValid (EffectiveStatus p)" "0 \<le> p_ReviewIteration p"
  shows "plan_ok q \<and> Status_IsValid (EffectiveStatus q) \<and> 0 \<le> p_ReviewIteration q"
  using assms path_valid unfolding evolves_def by fastforce

lemma fresh_ok: "fresh p \<Longrightarrow> plan_ok p \<and> Status_IsValid (EffectiveStatus p) \<and> 0 \<le> p_ReviewIteration p"
  using plan_ok_empty_stories by (simp add: fresh_def plan_ok_def)

lemma plan_step_ok:
  assumes ok: "all_ok c" and "plan_step w c c'"
  shows "all_ok c'"
proof -
  have inv: "comp_inv c" and p: "\<And>slug p. vis c slug = Some p \<Longrightarrow>
      plan_ok p \<and> Status_IsValid (EffectiveStatus p) \<and> 0 \<le> p_ReviewIteration p"
    using ok by (auto simp: all_ok_def)
  have inv': "comp_inv c'" using plan_step_sim [OF inv assms(2)] ..
  have same: "all_ok c'" if "vis c' = vis c" using ok inv' that by (simp add: all_ok_def)
  from assms(2) show ?thesis
  proof (cases rule: plan_step.cases)
    case (request r env)
    have e: "rel_option evolves (vis c slug) (vis c' slug)" for slug using plans.plans_evolve [OF inv] request by simp
    have "plan_ok q \<and> Status_IsValid (EffectiveStatus q) \<and> 0 \<le> p_ReviewIteration q" if q: "vis c' slug = Some q" for slug q
    proof -
      obtain x where "vis c slug = Some x" "evolves x q" using e [of slug] q by (auto simp: option_rel_Some2)
      then show ?thesis using p evolves_ok by blast
    qed
    then show ?thesis using inv' by (simp add: all_ok_def)
  next
    case (expire slug)
    then show ?thesis using same evict_visible by simp
  next
    case (create data detected env)
    consider "vis c' = vis c" | slug x where "vis c' = (vis c)(slug \<mapsto> x)" "fresh x"
      using create_step [OF inv create(2,1)] by blast
    then show ?thesis
    proof cases
      case (2 slug x)
      then show ?thesis using inv' p fresh_ok by (auto simp: all_ok_def split: if_splits)
    qed (rule same)
  qed
qed

section \<open>Properties\<close>


definition ex_world :: World where
  "ex_world = \<lparr>wd_ids = ex_ids, wd_verdict_text = (\<lambda>_. []), wd_merge_text = (\<lambda>_. []), wd_stage_text = (\<lambda>_. []),
     wd_gap_text = [], wd_lower = ToLower, wd_qa = QALevelSynthesis\<rparr>"

definition ex_claim :: request where
  "ex_claim = mutationClaim (Some \<lparr>cl_Slug = ''a'', cl_Status = StatusDrafting\<rparr>)"


text \<open>C3: stored plans stay valid.  In every reachable state each readable plan is stored under its own
  valid slug, has an acyclic requirement graph whose dependencies resolve, an acyclic story graph, no
  two unordered stories owning one file, a known status and a revision count that is not negative.\<close>

theorem stored_plans_stay_valid:
  assumes "all_ok c" and "(plan_step w)\<^sup>*\<^sup>* c c'"
  shows "\<forall>slug p. vis c' slug = Some p \<longrightarrow>
    p_Slug p = slug \<and> ValidateSlug slug = None
    \<and> ValidateRequirementDAG (p_Requirements p) = None \<and> ValidateStoryDAG (p_Stories p) = None
    \<and> ValidateStoryFileOwnership (p_Stories p) = None
    \<and> Status_IsValid (EffectiveStatus p) \<and> 0 \<le> p_ReviewIteration p"
proof -
  have "all_ok c'" using assms(2) by (induction rule: rtranclp_induct) (use assms(1) plan_step_ok in auto)
  then show ?thesis using visible_slug by (auto simp: all_ok_def plan_ok_def)
qed

lemma ex_all_ok:
  assumes "ValidateSlug (p_Slug p) = None" "plan_ok p" "Status_IsValid (EffectiveStatus p)" "0 \<le> p_ReviewIteration p"
  shows "all_ok (ex_comp p)"
  using assms ex_comp_inv by (auto simp: all_ok_def ex_comp_def visible_def split: if_splits)

theorem stored_plans_stay_valid_witness:
  "\<exists>p. vis (snd (handle_request ex_world ex_claim ex_env (ex_comp (ex_slug_plan ''a'' StatusExplored)))) ''a'' = Some p
     \<and> p_Slug p = ''a'' \<and> ValidateRequirementDAG (p_Requirements p) = None \<and> Status_IsValid (EffectiveStatus p)"
proof -
  let ?c = "snd (handle_request ex_world ex_claim ex_env (ex_comp (ex_slug_plan ''a'' StatusExplored)))"
  have i: "all_ok (ex_comp (ex_slug_plan ''a'' StatusExplored))"
    by (rule ex_all_ok; code_simp)
  have "status_of ?c ''a'' = Some StatusDrafting" by code_simp
  then obtain p where "vis ?c ''a'' = Some p" by auto
  then show ?thesis using stored_plans_stay_valid [OF i request_reachable] by blast
qed

text \<open>C24: a rejected request changes nothing.  When a handler replies with an error other than those
  that come from a write, a published trigger or a partial reset, every plan reads as before and
  nothing has been published.\<close>

theorem rejected_requests_change_nothing:
  assumes "comp_inv c" "handle_request w r env c = (Some e, c')" "clean e"
  shows "vis c' = vis c \<and> co_outbox c' = co_outbox c"
  using plans.rejected_unchanged [OF assms(1), of w r env e] assms(2,3) by simp

theorem rejected_requests_change_nothing_witness:
  "vis (snd (handle_request ex_world ex_claim ex_env (ex_comp (ex_slug_plan ''a'' StatusComplete))))
     = vis (ex_comp (ex_slug_plan ''a'' StatusComplete))"
proof -
  let ?r = "handle_request ex_world ex_claim ex_env (ex_comp (ex_slug_plan ''a'' StatusComplete))"
  have i: "comp_inv (ex_comp (ex_slug_plan ''a'' StatusComplete))" by (rule ex_comp_inv) code_simp
  have "fst ?r = Some (BadTransition StatusComplete StatusDrafting)" by code_simp
  then have e: "?r = (Some (BadTransition StatusComplete StatusDrafting), snd ?r)" by (metis prod.collapse)
  have "clean (BadTransition StatusComplete StatusDrafting)" by simp
  from rejected_requests_change_nothing [OF i e this] show ?thesis by blast
qed

section \<open>Claims\<close>

fun replies :: "('r \<Rightarrow> handler) \<Rightarrow> ('r \<times> Env) list \<Rightarrow> Comp \<Rightarrow> merr option list" where
  "replies h [] c = []"
| "replies h (x # xs) c = fst (h (fst x) (snd x) c) # replies h xs (snd (h (fst x) (snd x) c))"

abbreviation claim :: "ClaimMutationRequest \<Rightarrow> handler" where
  "claim r \<equiv> handleClaimMutation (Some r)"

lemma claim_inv: "comp_inv c \<Longrightarrow> comp_inv (snd (claim r env c))"
  using claim_meets [of c "Some r" env] by (simp add: fulfils_def touches_def)

lemma claim_busy:
  assumes c: "comp_inv c" and p: "vis c slug = Some p" "Status_IsInProgress (EffectiveStatus p)" and r: "cl_Slug r = slug"
  shows "fst (claim r env c) \<noteq> None \<and> vis (snd (claim r env c)) = vis c"
proof -
  let ?k = "\<lambda>plan c. let current = EffectiveStatus plan in
      if \<not> Status_CanTransitionTo current (cl_Status r) then (Some (BadTransition current (cl_Status r)), c)
      else save_reply (en_save env 0) (plan\<lparr>p_Status := cl_Status r\<rparr>) c"
  have "fst (with_plan env slug ?k c) \<noteq> None \<and> vis (snd (with_plan env slug ?k c)) = vis c" if ip: "Status_IsInProgress (cl_Status r)"
    using c
  proof (cases rule: with_plan_cases [where env = env and slug = slug and k = ?k])
    case (found q c1)
    then have "\<not> Status_CanTransitionTo (EffectiveStatus q) (cl_Status r)" using p ip in_progress_targets by auto
    then show ?thesis using found by simp
  qed simp
  then show ?thesis using r by (simp add: handleClaimMutation_def)
qed

lemma claim_won:
  assumes c: "comp_inv c" and w: "fst (claim r env c) = None"
  shows "\<exists>q. vis (snd (claim r env c)) (cl_Slug r) = Some q \<and> Status_IsInProgress (EffectiveStatus q)"
proof -
  let ?k = "\<lambda>plan c. let current = EffectiveStatus plan in
      if \<not> Status_CanTransitionTo current (cl_Status r) then (Some (BadTransition current (cl_Status r)), c)
      else save_reply (en_save env 0) (plan\<lparr>p_Status := cl_Status r\<rparr>) c"
  have u: "Status_IsInProgress (cl_Status r)" "claim r env c = with_plan env (cl_Slug r) ?k c"
    using w by (auto simp: handleClaimMutation_def split: if_splits)
  from c show ?thesis
  proof (cases rule: with_plan_cases [where env = env and slug = "cl_Slug r" and k = ?k])
    case (missing c1)
    then show ?thesis using w u by simp
  next
    case (found p c1)
    let ?q = "p\<lparr>p_Status := cl_Status r\<rparr>"
    have t: "Status_CanTransitionTo (EffectiveStatus p) (cl_Status r)" using found w u by (auto simp: Let_def split: if_splits)
    then have e: "claim r env c = save_reply (en_save env 0) ?q c1" using found u by simp
    obtain c2 where s: "save_reply (en_save env 0) ?q c1 = (None, c2)"
      using w e by (cases "save_reply (en_save env 0) ?q c1") auto
    have "vis c2 (cl_Slug r) = Some ?q" using save_reply_ok(1) [OF s] found by simp
    moreover have "EffectiveStatus ?q = cl_Status r" using EffectiveStatus_target [of _ ?q] t by auto
    ultimately show ?thesis using e s u(1) by simp
  qed
qed

lemma busy_claims_fail:
  assumes "comp_inv c" "vis c slug = Some p" "Status_IsInProgress (EffectiveStatus p)"
    and "\<forall>x \<in> set xs. cl_Slug (fst x) = slug"
  shows "filter (\<lambda>r. r = None) (replies claim xs c) = []"
  using assms
proof (induction xs arbitrary: c)
  case (Cons x xs)
  have x: "cl_Slug (fst x) = slug" using Cons.prems(4) by simp
  note b = claim_busy [OF Cons.prems(1,2,3) x, of "snd x"]
  then show ?case using Cons.IH [OF claim_inv [OF Cons.prems(1)]] Cons.prems by simp
qed simp

text \<open>C2: at most one claim wins.  However many components claim a plan, for whatever in-progress
  statuses and with whatever failures in between, at most one of the claims is granted until some
  other request moves the plan on.\<close>

theorem one_claim_wins:
  assumes "comp_inv c" and "\<forall>x \<in> set xs. cl_Slug (fst x) = slug"
  shows "length (filter (\<lambda>r. r = None) (replies (\<lambda>r. handleClaimMutation (Some r)) xs c)) \<le> 1"
  using assms
proof (induction xs arbitrary: c)
  case (Cons x xs)
  let ?c1 = "snd (claim (fst x) (snd x) c)"
  have i: "comp_inv ?c1" using claim_inv [OF Cons.prems(1)] .
  show ?case
  proof (cases "fst (claim (fst x) (snd x) c) = None")
    case True
    then obtain q where q: "vis ?c1 slug = Some q" "Status_IsInProgress (EffectiveStatus q)"
      using claim_won [OF Cons.prems(1), of "fst x" "snd x"] Cons.prems(2) by auto
    have "filter (\<lambda>r. r = None) (replies claim xs ?c1) = []"
      by (rule busy_claims_fail [OF i q]) (use Cons.prems(2) in simp)
    then show ?thesis by simp
  next
    case False
    then show ?thesis using Cons.IH [OF i] Cons.prems(2) by auto
  qed
qed simp

theorem one_claim_wins_witness:
  "length (filter (\<lambda>r. r = None) (replies (\<lambda>r. handleClaimMutation (Some r))
      [(\<lparr>cl_Slug = ''a'', cl_Status = StatusDrafting\<rparr>, ex_env), (\<lparr>cl_Slug = ''a'', cl_Status = StatusDrafting\<rparr>, ex_env)]
      (ex_comp (ex_slug_plan ''a'' StatusExplored)))) = 1"
proof -
  let ?xs = "[(\<lparr>cl_Slug = ''a'', cl_Status = StatusDrafting\<rparr>, ex_env), (\<lparr>cl_Slug = ''a'', cl_Status = StatusDrafting\<rparr>, ex_env)]"
  let ?c = "ex_comp (ex_slug_plan ''a'' StatusExplored)"
  have i: "comp_inv ?c" by (rule ex_comp_inv) code_simp
  have "\<forall>x \<in> set ?xs. cl_Slug (fst x) = ''a''" by simp
  note u = one_claim_wins [OF i this]
  have "fst (handleClaimMutation (Some \<lparr>cl_Slug = ''a'', cl_Status = StatusDrafting\<rparr>) ex_env ?c) = None" by code_simp
  then have "1 \<le> length (filter (\<lambda>r. r = None) (replies (\<lambda>r. handleClaimMutation (Some r)) ?xs ?c))" by simp
  then show ?thesis using u by linarith
qed

section \<open>Revisions\<close>

text \<open>The revisions of a plan that are granted in a run: those that send it back to an earlier phase.\<close>

fun granted :: "World \<Rightarrow> bytes \<Rightarrow> (request \<times> Env) list \<Rightarrow> Comp \<Rightarrow> nat" where
  "granted w slug [] c = 0"
| "granted w slug (x # xs) c =
     (case handle_request w (fst x) (snd x) c of (e, c') \<Rightarrow>
       (case fst x of
          mutationRevision (Some r) \<Rightarrow>
            if rn_Slug r = slug \<and> e = None \<and> status_of c' slug \<noteq> Some StatusRejected then 1 else 0
        | _ \<Rightarrow> 0) + granted w slug xs c')"

lemma escalate_rejects:
  assumes "escalateRevision env plan req cur m c = (None, c')" "p_Slug plan = slug"
  shows "status_of c' slug = Some StatusRejected"
proof -
  define q where "q = plan\<lparr>p_ReviewVerdict := ''escalated'',
      p_ReviewSummary := ''Max revisions exceeded after '' @ show_int m @ '' attempts: '' @ rn_Summary req,
      p_LastError := ''review revision cap reached ('' @ show_int (p_ReviewIteration plan) @ ''/'' @ show_int m @ ''): '' @ rn_Summary req,
      p_LastErrorAt := Some (en_now env), p_ReviewedAt := Some (en_now env), p_Status := StatusRejected\<rparr>"
  have q: "p_Slug q = slug" "EffectiveStatus q = StatusRejected" using assms(2) by (simp_all add: q_def EffectiveStatus_def)
  have t: "Status_CanTransitionTo cur StatusRejected" using assms(1) by (simp add: escalateRevision_def split: if_splits)
  obtain x c1 where s: "save_reply (en_save env 0) q c = (x, c1)" by (cases "save_reply (en_save env 0) q c")
  have "x = None \<and> co_plans c' = co_plans c1"
    using assms(1) t s unfolding escalateRevision_def Let_def q_def [symmetric] by (cases x) auto
  then show ?thesis using save_reply_ok(1) [of "en_save env 0" q c c1] s q by simp
qed

lemma revision_granted:
  assumes c: "comp_inv c" and p: "vis c (rn_Slug r) = Some p" and h: "handleRevisionMutation (Some r) env c = (None, c')"
    and ok: "status_of c' (rn_Slug r) \<noteq> Some StatusRejected"
  shows "\<exists>q. vis c' (rn_Slug r) = Some q \<and> p_ReviewIteration q = p_ReviewIteration p + 1
    \<and> p_ReviewIteration q < max_iterations c"
proof -
  let ?s = "rn_Slug r"
  let ?k = "\<lambda>plan c. let current = EffectiveStatus plan in
      if current \<noteq> expected_status (rn_Round r) then (Some (WrongRound (nat (rn_Round r)) (expected_status (rn_Round r)) current), c)
      else let plan1 = record_review r plan in
        if p_ReviewIteration plan1 \<ge> max_iterations c then escalateRevision env plan1 r current (max_iterations c) c
        else case reentry r plan1 of (targetStatus, plan2) \<Rightarrow>
          if \<not> Status_CanTransitionTo current targetStatus then (Some (BadTransition current targetStatus), c)
          else let plan3 = plan2\<lparr>p_Status := targetStatus\<rparr>;
                   plan4 = (if targetStatus = StatusCreated then plan3\<lparr>p_Approved := False, p_ApprovedAt := None\<rparr> else plan3)
               in save_reply (en_save env 0) plan4 c"
  have u: "with_plan env ?s ?k c = (None, c')"
    using h by (auto simp: handleRevisionMutation_def split: if_splits)
  from c show ?thesis
  proof (cases rule: with_plan_cases [where env = env and slug = ?s and k = ?k])
    case (missing c1)
    then show ?thesis using u by simp
  next
    case (found p' c1)
    have p': "p' = p" using found p by simp
    have m: "max_iterations c1 = max_iterations c" using found by (simp add: max_iterations_def)
    obtain t plan2 where re: "reentry r (record_review r p) = (t, plan2)" by (cases "reentry r (record_review r p)")
    note f = reentry_frame [OF re]
    show ?thesis
    proof (cases "p_ReviewIteration (record_review r p) \<ge> max_iterations c")
      case True
      let ?e = "escalateRevision env (record_review r p) r (EffectiveStatus p) (max_iterations c) c1"
      have e: "?e = (None, c')" using u found(1) p' True m by (simp add: Let_def split: if_splits)
      then show ?thesis using ok escalate_rejects [OF e, of ?s] found(7) p' by auto
    next
      case False
      let ?q = "if t = StatusCreated then plan2\<lparr>p_Status := t, p_Approved := False, p_ApprovedAt := None\<rparr> else plan2\<lparr>p_Status := t\<rparr>"
      have s: "save_reply (en_save env 0) ?q c1 = (None, c')"
        using u found(1) p' False m re by (simp add: Let_def split: if_splits)
      have "p_Slug ?q = ?s" "p_ReviewIteration ?q = p_ReviewIteration p + 1" using f(1,2) found(7) p' by simp_all
      then show ?thesis using save_reply_ok(1) [OF s] False by auto
    qed
  qed
qed

lemma granted_bound:
  assumes "comp_inv c" "vis c slug = Some p"
  shows "int (granted w slug xs c) \<le> max 0 (max_iterations c - 1 - p_ReviewIteration p)"
  using assms
proof (induction xs arbitrary: c p)
  case (Cons x xs)
  obtain e c' where h: "handle_request w (fst x) (snd x) c = (e, c')" by (cases "handle_request w (fst x) (snd x) c")
  have i: "comp_inv c'" "max_iterations c' = max_iterations c"
    using plans.keeps_inv [OF Cons.prems(1), of w "fst x" "snd x"] plans.keeps_config [OF Cons.prems(1), of w "fst x" "snd x"] h
    by (simp_all add: max_iterations_def)
  obtain q where q: "vis c' slug = Some q" "evolves p q"
    using plans.plans_evolve [OF Cons.prems(1), of slug w "fst x" "snd x"] h Cons.prems(2) by (auto simp: option_rel_Some1)
  have IH: "int (granted w slug xs c') \<le> max 0 (max_iterations c - 1 - p_ReviewIteration q)"
    using Cons.IH [OF i(1) q(1)] i(2) by simp
  have mono: "p_ReviewIteration p \<le> p_ReviewIteration q" using q(2) by (simp add: evolves_def)
  show ?case
  proof (cases "\<exists>r. fst x = mutationRevision (Some r) \<and> rn_Slug r = slug \<and> e = None \<and> status_of c' slug \<noteq> Some StatusRejected")
    case True
    then obtain r where r: "fst x = mutationRevision (Some r)" "rn_Slug r = slug" "e = None"
      "status_of c' slug \<noteq> Some StatusRejected" by blast
    have "handleRevisionMutation (Some r) (snd x) c = (None, c')" using h r by simp
    from revision_granted [OF Cons.prems(1) _ this] have g: "p_ReviewIteration q = p_ReviewIteration p + 1"
        "p_ReviewIteration q < max_iterations c" using r Cons.prems(2) q(1) by auto
    have "granted w slug (x # xs) c = 1 + granted w slug xs c'" using h r by simp
    then show ?thesis using IH g by linarith
  next
    case False
    then have "granted w slug (x # xs) c = granted w slug xs c'"
      using h by (auto split: request.split option.split)
    then show ?thesis using IH mono by linarith
  qed
qed simp

text \<open>C4: review does not go on for ever.  In any run, from a plan with k recorded revisions, at most
  max_review_iterations - 1 - k further revision requests are granted, over all review rounds
  together and whatever else happens in between; every later one is refused or rejects the
  plan.\<close>

theorem revisions_bounded:
  assumes "comp_inv c" "vis c slug = Some p" "0 \<le> p_ReviewIteration p"
  shows "granted w slug xs c \<le> nat (max_iterations c - 1 - p_ReviewIteration p)"
  using granted_bound [OF assms(1,2), of w xs] by linarith

definition ex_revision :: request where
  "ex_revision = mutationRevision (Some \<lparr>rn_Slug = ''a'', rn_Round = 1, rn_Verdict = ''needs_changes'', rn_Summary = ''x'',
     rn_Findings = RawEmpty\<rparr>)"

theorem revisions_bounded_witness:
  "granted ex_world ''a'' [(ex_revision, ex_env), (ex_claim, ex_env), (ex_revision, ex_env)]
     (ex_comp ((ex_slug_plan ''a'' StatusReviewingDraft)\<lparr>p_ReviewIteration := 1\<rparr>)) = 1"
proof -
  let ?p = "(ex_slug_plan ''a'' StatusReviewingDraft)\<lparr>p_ReviewIteration := 1\<rparr>"
  let ?xs = "[(ex_revision, ex_env), (ex_claim, ex_env), (ex_revision, ex_env)]"
  have i: "comp_inv (ex_comp ?p)" by (rule ex_comp_inv) code_simp
  have v: "vis (ex_comp ?p) ''a'' = Some ?p" by (simp add: ex_comp_def visible_def ex_slug_plan_def)
  have "max_iterations (ex_comp ?p) = 3" by code_simp
  then have u: "granted ex_world ''a'' ?xs (ex_comp ?p) \<le> 1" using revisions_bounded [OF i v, of ex_world ?xs] by simp
  have "granted ex_world ''a'' [(ex_revision, ex_env)] (ex_comp ?p) = 1" by code_simp
  then have "1 \<le> granted ex_world ''a'' ?xs (ex_comp ?p)"
    by (auto simp: ex_revision_def split: prod.splits if_splits)
  then show ?thesis using u by linarith
qed

end
