(* ===== verification/Exec_Store.thy ===== *)
theory Exec_Store
  imports Execution_Types Plan_Store "HOL-Library.AList"
begin

text \<open>
  The store of execution rows of \<^verbatim>\<open>src/processor/execution-manager/execution_store.go\<close>: two TTL
  caches (tasks, requirements) in front of the bucket EXECUTION_STATES, which holds both families
  under the key prefixes \<^verbatim>\<open>task.\<close> and \<^verbatim>\<open>req.\<close>.  Caches and bucket are association lists, since
  the code enumerates them; \<open>xi_perm\<close> is the order in which it does.  A cached task is either a record of
  its own or, after \<^verbatim>\<open>syncToStore\<close>, the record of a running execution itself: the constructor
  \<open>Live\<close> points into the executions, and readers take their current contents \<open>live\<close>.  What the
  outside world decides during a call is in \<open>XIO\<close>.  Triples written to the graph are left out, and
  so is the graph fallback of \<^verbatim>\<open>reconcile\<close>.
\<close>

section \<open>State\<close>

record XIO =
  xi_now :: nat
  xi_get :: "bytes \<Rightarrow> bool"
  xi_keys :: bool
  xi_marshal :: bool
  xi_put :: bool
  xi_delete :: "bytes \<Rightarrow> bool"
  xi_perm :: "bytes list \<Rightarrow> bytes list"

datatype exec_row = TaskRow TaskExecution | ReqRow RequirementExecution

datatype cached = Own TaskExecution | Live nat

record ExecStore =
  xs_taskCache :: "(bytes \<times> cached) list"
  xs_reqCache :: "(bytes \<times> RequirementExecution) list"
  xs_kv :: "(bytes \<times> exec_row) list option"

fun deref :: "(nat \<Rightarrow> TaskExecution) \<Rightarrow> cached \<Rightarrow> TaskExecution" where
  "deref live (Own t) = t"
| "deref live (Live r) = live r"

section \<open>Entity IDs, error classes\<close>

definition TaskExecutionEntityID :: "Ids \<Rightarrow> bytes \<Rightarrow> bytes \<Rightarrow> bytes" where
  "TaskExecutionEntityID ids slug taskID = EntityPrefix ids @ ''.exec.task.run.'' @ HashInstanceID ids [slug, taskID]"

definition RequirementExecutionEntityID :: "Ids \<Rightarrow> bytes \<Rightarrow> bytes \<Rightarrow> bytes" where
  "RequirementExecutionEntityID ids slug reqID = EntityPrefix ids @ ''.exec.req.run.'' @ HashInstanceID ids [slug, reqID]"

definition ClassifyErrorReason :: "bytes \<Rightarrow> bytes" where
  "ClassifyErrorReason reason = (if HasPrefix reason ''INFRASTRUCTURE:'' then ''infrastructure'' else ''agent'')"

section \<open>Reading\<close>

definition kv_row :: "XIO \<Rightarrow> bytes \<Rightarrow> ExecStore \<Rightarrow> exec_row option" where
  "kv_row io key st = (case xs_kv st of None \<Rightarrow> None | Some kv \<Rightarrow> if xi_get io key then map_of kv key else None)"

definition getTask :: "(nat \<Rightarrow> TaskExecution) \<Rightarrow> XIO \<Rightarrow> bytes \<Rightarrow> ExecStore \<Rightarrow> TaskExecution option \<times> ExecStore" where
  "getTask live io key st =
     (if \<not> HasPrefix key ''task.'' then (None, st)
      else case map_of (xs_taskCache st) key of
        Some v \<Rightarrow> (Some (deref live v), st)
      | None \<Rightarrow>
          (case kv_row io key st of
             Some (TaskRow t) \<Rightarrow> (Some t, st\<lparr>xs_taskCache := AList.update key (Own t) (xs_taskCache st)\<rparr>)
           | _ \<Rightarrow> (None, st)))"

definition getReq :: "XIO \<Rightarrow> bytes \<Rightarrow> ExecStore \<Rightarrow> RequirementExecution option \<times> ExecStore" where
  "getReq io key st =
     (if \<not> HasPrefix key ''req.'' then (None, st)
      else case map_of (xs_reqCache st) key of
        Some e \<Rightarrow> (Some e, st)
      | None \<Rightarrow>
          (case kv_row io key st of
             Some (ReqRow e) \<Rightarrow> (Some e, st\<lparr>xs_reqCache := AList.update key e (xs_reqCache st)\<rparr>)
           | _ \<Rightarrow> (None, st)))"

section \<open>Writing\<close>

text \<open>The bucket part of a save: \<open>None\<close> when marshalling fails; a failed put is only logged.\<close>

definition kv_put :: "XIO \<Rightarrow> bytes \<Rightarrow> exec_row \<Rightarrow> ExecStore \<Rightarrow> ExecStore option" where
  "kv_put io key r st =
     (case xs_kv st of
        None \<Rightarrow> Some st
      | Some kv \<Rightarrow> if \<not> xi_marshal io then None
                   else Some (if xi_put io then st\<lparr>xs_kv := Some (AList.update key r kv)\<rparr> else st))"

definition store_task :: "XIO \<Rightarrow> bytes \<Rightarrow> cached \<Rightarrow> TaskExecution \<Rightarrow> ExecStore \<Rightarrow> bool \<times> ExecStore" where
  "store_task io key v t st =
     (let st1 = st\<lparr>xs_taskCache := AList.update key v (xs_taskCache st)\<rparr> in
      case kv_put io key (TaskRow t) st1 of None \<Rightarrow> (False, st1) | Some st2 \<Rightarrow> (True, st2))"

text \<open>Saving a copy that \<^verbatim>\<open>getTask\<close> returned or a handler built; True is a nil error.\<close>

definition saveTask :: "XIO \<Rightarrow> bytes \<Rightarrow> TaskExecution \<Rightarrow> ExecStore \<Rightarrow> bool \<times> ExecStore" where
  "saveTask io key t st = (let t1 = t\<lparr>te_UpdatedAt := xi_now io\<rparr> in store_task io key (Own t1) t1 st)"

definition saveReq :: "XIO \<Rightarrow> bytes \<Rightarrow> RequirementExecution \<Rightarrow> ExecStore \<Rightarrow> bool \<times> ExecStore" where
  "saveReq io key e st =
     (let e1 = e\<lparr>re_UpdatedAt := xi_now io\<rparr>; st1 = st\<lparr>xs_reqCache := AList.update key e1 (xs_reqCache st)\<rparr> in
      case kv_put io key (ReqRow e1) st1 of None \<Rightarrow> (False, st1) | Some st2 \<Rightarrow> (True, st2))"

definition deleteReq :: "XIO \<Rightarrow> bytes \<Rightarrow> ExecStore \<Rightarrow> bool \<times> ExecStore" where
  "deleteReq io key st =
     (let st1 = st\<lparr>xs_reqCache := AList.delete key (xs_reqCache st), xs_taskCache := AList.delete key (xs_taskCache st)\<rparr> in
      case xs_kv st1 of
        None \<Rightarrow> (True, st1)
      | Some kv \<Rightarrow> if xi_delete io key then (True, st1\<lparr>xs_kv := Some (AList.delete key kv)\<rparr>) else (False, st1))"

section \<open>Listing\<close>

text \<open>The fallback reads the rows of the prefix one by one and caches them.\<close>

fun load_tasks :: "XIO \<Rightarrow> bytes list \<Rightarrow> ExecStore \<Rightarrow> TaskExecution list \<times> ExecStore" where
  "load_tasks io [] st = ([], st)"
| "load_tasks io (k # ks) st =
     (case kv_row io k st of
        Some (TaskRow t) \<Rightarrow>
          (case load_tasks io ks (st\<lparr>xs_taskCache := AList.update k (Own t) (xs_taskCache st)\<rparr>) of
             (ts, st1) \<Rightarrow> (t # ts, st1))
      | _ \<Rightarrow> load_tasks io ks st)"

definition listTasksForSlug :: "(nat \<Rightarrow> TaskExecution) \<Rightarrow> XIO \<Rightarrow> bytes \<Rightarrow> ExecStore \<Rightarrow> TaskExecution list \<times> ExecStore" where
  "listTasksForSlug live io slug st =
     (let pre = ''task.'' @ slug @ ''.'';
          hits = filter (\<lambda>k. HasPrefix k pre) (xi_perm io (map fst (xs_taskCache st)));
          out = List.map_filter (\<lambda>k. map_option (deref live) (map_of (xs_taskCache st) k)) hits
      in if out = [] then
           (case xs_kv st of
              Some kv \<Rightarrow> if xi_keys io then load_tasks io (filter (\<lambda>k. HasPrefix k pre) (xi_perm io (map fst kv))) st
                         else ([], st)
            | None \<Rightarrow> ([], st))
         else (out, st))"

section \<open>Restart\<close>

fun reconcile_row :: "bytes \<times> exec_row \<Rightarrow> ExecStore \<Rightarrow> ExecStore" where
  "reconcile_row (key, TaskRow t) st =
     (if HasPrefix key ''task.'' \<and> \<not> IsTerminalTaskStage (te_Stage t)
      then st\<lparr>xs_taskCache := AList.update key (Own t) (xs_taskCache st)\<rparr> else st)"
| "reconcile_row (key, ReqRow e) st =
     (if HasPrefix key ''req.'' \<and> \<not> IsTerminalReqStage (re_Stage e)
      then st\<lparr>xs_reqCache := AList.update key e (xs_reqCache st)\<rparr> else st)"

definition reconcile_kv :: "XIO \<Rightarrow> ExecStore \<Rightarrow> ExecStore" where
  "reconcile_kv io st =
     (case xs_kv st of
        None \<Rightarrow> st
      | Some kv \<Rightarrow>
          if \<not> xi_keys io then st
          else foldl (\<lambda>s k. case kv_row io k st of None \<Rightarrow> s | Some r \<Rightarrow> reconcile_row (k, r) s) st (xi_perm io (map fst kv)))"

text \<open>The TTL of a cache removes an entry.\<close>

definition expire_task :: "bytes \<Rightarrow> ExecStore \<Rightarrow> ExecStore" where
  "expire_task key st = st\<lparr>xs_taskCache := AList.delete key (xs_taskCache st)\<rparr>"

end
