(* ===== verification/Exec_Mutations.thy ===== *)
theory Exec_Mutations
  imports Exec_Store
begin

text \<open>
  The handlers of \<^verbatim>\<open>src/processor/execution-manager/mutations.go\<close> that work on the store alone:
  creation, phases and completion of tasks and requirements, node results and claims.  A handler takes
  the decoded request (\<open>None\<close> when it does not unmarshal), the running executions \<open>live\<close> that
  cached tasks may point to, and the outcomes \<open>XIO\<close>; it returns the response and the store.  The
  reset handler, which also cancels running executions, is in theory \<open>Tdd_Pipeline\<close>.  Claims are
  serialised by \<^verbatim>\<open>claimMu\<close>, so concurrent claims are a sequence of whole handlers.
\<close>

section \<open>Responses\<close>

datatype xerr = XUnmarshal | XRequired | XExists bytes | XNotFound bytes | XNotTerminal bytes
  | XSave | XDelete bytes | XClaimSource bytes bytes | XAlreadyAt bytes

record ExecMutationResponse =
  xr_error :: "xerr option"
  xr_Key :: bytes
  xr_ResetCount :: nat

definition xfail :: "xerr \<Rightarrow> ExecMutationResponse" where
  "xfail e = \<lparr>xr_error = Some e, xr_Key = [], xr_ResetCount = 0\<rparr>"

definition xok :: "bytes \<Rightarrow> ExecMutationResponse" where
  "xok key = \<lparr>xr_error = None, xr_Key = key, xr_ResetCount = 0\<rparr>"

definition task_reply :: "XIO \<Rightarrow> bytes \<Rightarrow> bytes \<Rightarrow> TaskExecution \<Rightarrow> ExecStore \<Rightarrow> ExecMutationResponse \<times> ExecStore" where
  "task_reply io key ret t st =
     (case saveTask io key t st of (ok, st1) \<Rightarrow> (if ok then xok ret else xfail XSave, st1))"

definition req_reply :: "XIO \<Rightarrow> bytes \<Rightarrow> bytes \<Rightarrow> RequirementExecution \<Rightarrow> ExecStore \<Rightarrow> ExecMutationResponse \<times> ExecStore" where
  "req_reply io key ret e st =
     (case saveReq io key e st of (ok, st1) \<Rightarrow> (if ok then xok ret else xfail XSave, st1))"

text \<open>An optional field of a request replaces the stored one when it is not empty.\<close>

abbreviation given :: "'a list \<Rightarrow> 'a list \<Rightarrow> 'a list" where
  "given new old \<equiv> (if new \<noteq> [] then new else old)"

abbreviation set_if :: "'a option \<Rightarrow> 'a \<Rightarrow> 'a" where
  "set_if new old \<equiv> (case new of Some x \<Rightarrow> x | None \<Rightarrow> old)"

section \<open>Tasks\<close>

record TaskCreateRequest =
  tc_Slug :: bytes
  tc_TaskID :: bytes
  tc_RequirementID :: bytes
  tc_Title :: bytes
  tc_Description :: bytes
  tc_ProjectID :: bytes
  tc_Prompt :: bytes
  tc_Model :: bytes
  tc_TraceID :: bytes
  tc_LoopID :: bytes
  tc_RequestID :: bytes
  tc_TaskType :: bytes
  tc_MaxTDDCycles :: int
  tc_AgentID :: bytes
  tc_WorktreePath :: bytes
  tc_WorktreeBranch :: bytes
  tc_ScenarioBranch :: bytes
  tc_FileScope :: "bytes list"
  tc_Scenarios :: "Scenario list"

definition TaskExecution_zero :: TaskExecution where
  "TaskExecution_zero = \<lparr>te_EntityID = [], te_Slug = [], te_TaskID = [], te_RequirementID = [], te_Stage = [],
     te_TDDCycle = 0, te_MaxTDDCycles = 0, te_Title = [], te_Description = [], te_ProjectID = [], te_Prompt = [],
     te_Model = [], te_TraceID = [], te_LoopID = [], te_RequestID = [], te_TaskType = [], te_AgentID = [],
     te_WorktreePath = [], te_WorktreeBranch = [], te_ScenarioBranch = [], te_FileScope = [], te_Scenarios = [],
     te_FilesModified = [], te_TestsPassed = False, te_ValidationPassed = False, te_MergeCommit = [],
     te_DeveloperTaskID = [], te_ValidatorTaskID = [], te_ReviewerTaskID = [], te_Verdict = [], te_RejectionType = [],
     te_Feedback = [], te_ReviewRetryCount = 0, te_ErrorReason = [], te_ErrorClass = [], te_EscalationReason = [],
     te_CreatedAt = 0, te_UpdatedAt = 0\<rparr>"

definition new_task :: "Ids \<Rightarrow> nat \<Rightarrow> int \<Rightarrow> TaskCreateRequest \<Rightarrow> TaskExecution" where
  "new_task ids now maxCycles req = TaskExecution_zero\<lparr>te_EntityID := TaskExecutionEntityID ids (tc_Slug req) (tc_TaskID req),
     te_Slug := tc_Slug req, te_TaskID := tc_TaskID req, te_RequirementID := tc_RequirementID req,
     te_Stage := ''pending'', te_MaxTDDCycles := maxCycles, te_Title := tc_Title req,
     te_Description := tc_Description req, te_ProjectID := tc_ProjectID req, te_Prompt := tc_Prompt req,
     te_Model := tc_Model req, te_TraceID := tc_TraceID req, te_LoopID := tc_LoopID req, te_RequestID := tc_RequestID req,
     te_TaskType := tc_TaskType req, te_AgentID := tc_AgentID req, te_WorktreePath := tc_WorktreePath req,
     te_WorktreeBranch := tc_WorktreeBranch req, te_ScenarioBranch := tc_ScenarioBranch req,
     te_FileScope := tc_FileScope req, te_Scenarios := tc_Scenarios req, te_CreatedAt := now, te_UpdatedAt := now\<rparr>"

definition handleTaskCreateMutation :: "Ids \<Rightarrow> int \<Rightarrow> TaskCreateRequest option \<Rightarrow> (nat \<Rightarrow> TaskExecution) \<Rightarrow> XIO \<Rightarrow>
    ExecStore \<Rightarrow> ExecMutationResponse \<times> ExecStore" where
  "handleTaskCreateMutation ids maxTDDCycles data live io st =
     (case data of
        None \<Rightarrow> (xfail XUnmarshal, st)
      | Some req \<Rightarrow>
          if tc_Slug req = [] \<or> tc_TaskID req = [] then (xfail XRequired, st)
          else let key = TaskExecutionKey (tc_Slug req) (tc_TaskID req) in
            case getTask live io key st of
              (Some _, st1) \<Rightarrow> (xfail (XExists key), st1)
            | (None, st1) \<Rightarrow>
                let maxCycles = (if tc_MaxTDDCycles req = 0 then maxTDDCycles else tc_MaxTDDCycles req) in
                task_reply io key key (new_task ids (xi_now io) maxCycles req) st1)"

record TaskPhaseRequest =
  tp_Key :: bytes
  tp_Stage :: bytes
  tp_TDDCycle :: "int option"
  tp_Verdict :: bytes
  tp_RejectionType :: bytes
  tp_Feedback :: bytes
  tp_FilesModified :: "bytes list"
  tp_TestsPassed :: "bool option"
  tp_ValidationPassed :: "bool option"
  tp_ErrorReason :: bytes
  tp_ErrorClass :: bytes
  tp_EscalationReason :: bytes
  tp_DeveloperTaskID :: bytes
  tp_ValidatorTaskID :: bytes
  tp_ReviewerTaskID :: bytes

definition with_task :: "bytes \<Rightarrow> (TaskExecution \<Rightarrow> TaskExecution) \<Rightarrow> (nat \<Rightarrow> TaskExecution) \<Rightarrow> XIO \<Rightarrow> ExecStore \<Rightarrow>
    ExecMutationResponse \<times> ExecStore" where
  "with_task key f live io st =
     (case getTask live io key st of
        (None, st1) \<Rightarrow> (xfail (XNotFound key), st1)
      | (Some t, st1) \<Rightarrow> task_reply io key [] (f t) st1)"

definition handleTaskPhaseMutation :: "TaskPhaseRequest option \<Rightarrow> (nat \<Rightarrow> TaskExecution) \<Rightarrow> XIO \<Rightarrow> ExecStore \<Rightarrow>
    ExecMutationResponse \<times> ExecStore" where
  "handleTaskPhaseMutation data live io st =
     (case data of
        None \<Rightarrow> (xfail XUnmarshal, st)
      | Some req \<Rightarrow>
          if tp_Key req = [] \<or> tp_Stage req = [] then (xfail XRequired, st)
          else with_task (tp_Key req) (\<lambda>t. t\<lparr>te_Stage := tp_Stage req,
            te_TDDCycle := set_if (tp_TDDCycle req) (te_TDDCycle t),
            te_Verdict := given (tp_Verdict req) (te_Verdict t),
            te_RejectionType := given (tp_RejectionType req) (te_RejectionType t),
            te_Feedback := given (tp_Feedback req) (te_Feedback t),
            te_FilesModified := given (tp_FilesModified req) (te_FilesModified t),
            te_TestsPassed := set_if (tp_TestsPassed req) (te_TestsPassed t),
            te_ValidationPassed := set_if (tp_ValidationPassed req) (te_ValidationPassed t),
            te_ErrorReason := given (tp_ErrorReason req) (te_ErrorReason t),
            te_ErrorClass := given (tp_ErrorClass req) (te_ErrorClass t),
            te_EscalationReason := given (tp_EscalationReason req) (te_EscalationReason t),
            te_DeveloperTaskID := given (tp_DeveloperTaskID req) (te_DeveloperTaskID t),
            te_ValidatorTaskID := given (tp_ValidatorTaskID req) (te_ValidatorTaskID t),
            te_ReviewerTaskID := given (tp_ReviewerTaskID req) (te_ReviewerTaskID t)\<rparr>) live io st)"

record TaskCompleteRequest =
  tx_Key :: bytes
  tx_Stage :: bytes
  tx_Verdict :: bytes
  tx_Feedback :: bytes
  tx_ErrorReason :: bytes
  tx_EscalationReason :: bytes

definition handleTaskCompleteMutation :: "TaskCompleteRequest option \<Rightarrow> (nat \<Rightarrow> TaskExecution) \<Rightarrow> XIO \<Rightarrow> ExecStore \<Rightarrow>
    ExecMutationResponse \<times> ExecStore" where
  "handleTaskCompleteMutation data live io st =
     (case data of
        None \<Rightarrow> (xfail XUnmarshal, st)
      | Some req \<Rightarrow>
          if tx_Key req = [] \<or> tx_Stage req = [] then (xfail XRequired, st)
          else if \<not> IsTerminalTaskStage (tx_Stage req) then (xfail (XNotTerminal (tx_Stage req)), st)
          else with_task (tx_Key req) (\<lambda>t. t\<lparr>te_Stage := tx_Stage req,
            te_Verdict := given (tx_Verdict req) (te_Verdict t),
            te_Feedback := given (tx_Feedback req) (te_Feedback t),
            te_ErrorReason := given (tx_ErrorReason req) (te_ErrorReason t),
            te_EscalationReason := given (tx_EscalationReason req) (te_EscalationReason t)\<rparr>) live io st)"

section \<open>Requirements\<close>

record ReqCreateRequest =
  rc_Slug :: bytes
  rc_RequirementID :: bytes
  rc_Title :: bytes
  rc_Description :: bytes
  rc_ProjectID :: bytes
  rc_TraceID :: bytes
  rc_LoopID :: bytes
  rc_RequestID :: bytes
  rc_Model :: bytes
  rc_Scenarios :: "Scenario list"
  rc_DependsOn :: "PrereqContext list"
  rc_Prompt :: bytes
  rc_Role :: bytes
  rc_PlanBranch :: bytes
  rc_BaseBranch :: bytes
  rc_Force :: bool

definition RequirementExecution_zero :: RequirementExecution where
  "RequirementExecution_zero = \<lparr>re_EntityID = [], re_Slug = [], re_RequirementID = [], re_Stage = [], re_Title = [],
     re_Description = [], re_ProjectID = [], re_TraceID = [], re_LoopID = [], re_RequestID = [], re_Model = [],
     re_Scenarios = [], re_DependsOn = [], re_Prompt = [], re_Role = [], re_PlanBranch = [], re_BaseBranch = [],
     re_SortedStoryIDs = [], re_CurrentStoryIdx = 0, re_NodeCount = 0, re_CurrentNodeIdx = 0, re_DAGRaw = None,
     re_SortedNodeIDs = [], re_NodeResults = [], re_ScenarioVerdicts = [], re_CurrentNodeTaskID = [],
     re_ReviewerTaskID = [], re_RequirementBranch = [], re_ReviewVerdict = [], re_ReviewFeedback = [],
     re_ErrorReason = [], re_ErrorClass = [], re_RetryCount = 0, re_MaxRetries = 0, re_CreatedAt = 0, re_UpdatedAt = 0\<rparr>"

definition new_req :: "Ids \<Rightarrow> nat \<Rightarrow> ReqCreateRequest \<Rightarrow> RequirementExecution" where
  "new_req ids now req = RequirementExecution_zero\<lparr>
     re_EntityID := RequirementExecutionEntityID ids (rc_Slug req) (rc_RequirementID req),
     re_Slug := rc_Slug req, re_RequirementID := rc_RequirementID req, re_Stage := ''pending'', re_Title := rc_Title req,
     re_Description := rc_Description req, re_ProjectID := rc_ProjectID req, re_TraceID := rc_TraceID req,
     re_LoopID := rc_LoopID req, re_RequestID := rc_RequestID req, re_Model := rc_Model req,
     re_Scenarios := rc_Scenarios req, re_DependsOn := rc_DependsOn req, re_Prompt := rc_Prompt req, re_Role := rc_Role req,
     re_PlanBranch := rc_PlanBranch req, re_BaseBranch := rc_BaseBranch req, re_CurrentNodeIdx := - 1,
     re_CreatedAt := now, re_UpdatedAt := now\<rparr>"

definition handleReqCreateMutation :: "Ids \<Rightarrow> ReqCreateRequest option \<Rightarrow> XIO \<Rightarrow> ExecStore \<Rightarrow>
    ExecMutationResponse \<times> ExecStore" where
  "handleReqCreateMutation ids data io st =
     (case data of
        None \<Rightarrow> (xfail XUnmarshal, st)
      | Some req \<Rightarrow>
          if rc_Slug req = [] \<or> rc_RequirementID req = [] then (xfail XRequired, st)
          else let key = RequirementExecutionKey (rc_Slug req) (rc_RequirementID req);
                   create = req_reply io key key (new_req ids (xi_now io) req)
            in case getReq io key st of
              (None, st1) \<Rightarrow> create st1
            | (Some _, st1) \<Rightarrow>
                if \<not> rc_Force req then (xfail (XExists key), st1)
                else (case deleteReq io key st1 of
                        (False, st2) \<Rightarrow> (xfail (XDelete key), st2)
                      | (True, st2) \<Rightarrow> create st2))"

record ReqPhaseRequest =
  rp_Key :: bytes
  rp_Stage :: bytes
  rp_NodeCount :: "int option"
  rp_CurrentNodeIdx :: "int option"
  rp_ReviewVerdict :: bytes
  rp_ReviewFeedback :: bytes
  rp_ErrorReason :: bytes
  rp_ErrorClass :: bytes
  rp_CurrentNodeTaskID :: bytes
  rp_ReviewerTaskID :: bytes
  rp_RequirementBranch :: bytes
  rp_DAGRaw :: "TaskDAG option"
  rp_SortedNodeIDs :: "bytes list"
  rp_SortedStoryIDs :: "bytes list"
  rp_CurrentStoryIdx :: "int option"
  rp_NodeResults :: "NodeResult list"
  rp_ScenarioVerdicts :: "ScenarioVerdict list"

definition with_req :: "bytes \<Rightarrow> (RequirementExecution \<Rightarrow> RequirementExecution) \<Rightarrow> XIO \<Rightarrow> ExecStore \<Rightarrow>
    ExecMutationResponse \<times> ExecStore" where
  "with_req key f io st =
     (case getReq io key st of
        (None, st1) \<Rightarrow> (xfail (XNotFound key), st1)
      | (Some e, st1) \<Rightarrow> req_reply io key [] (f e) st1)"

definition handleReqPhaseMutation :: "ReqPhaseRequest option \<Rightarrow> XIO \<Rightarrow> ExecStore \<Rightarrow> ExecMutationResponse \<times> ExecStore" where
  "handleReqPhaseMutation data io st =
     (case data of
        None \<Rightarrow> (xfail XUnmarshal, st)
      | Some req \<Rightarrow>
          if rp_Key req = [] \<or> rp_Stage req = [] then (xfail XRequired, st)
          else with_req (rp_Key req) (\<lambda>e. e\<lparr>re_Stage := rp_Stage req,
            re_NodeCount := set_if (rp_NodeCount req) (re_NodeCount e),
            re_CurrentNodeIdx := set_if (rp_CurrentNodeIdx req) (re_CurrentNodeIdx e),
            re_ReviewVerdict := given (rp_ReviewVerdict req) (re_ReviewVerdict e),
            re_ReviewFeedback := given (rp_ReviewFeedback req) (re_ReviewFeedback e),
            re_ErrorReason := given (rp_ErrorReason req) (re_ErrorReason e),
            re_ErrorClass := given (rp_ErrorClass req) (re_ErrorClass e),
            re_CurrentNodeTaskID := given (rp_CurrentNodeTaskID req) (re_CurrentNodeTaskID e),
            re_ReviewerTaskID := given (rp_ReviewerTaskID req) (re_ReviewerTaskID e),
            re_RequirementBranch := given (rp_RequirementBranch req) (re_RequirementBranch e),
            re_DAGRaw := (case rp_DAGRaw req of Some d \<Rightarrow> Some d | None \<Rightarrow> re_DAGRaw e),
            re_SortedNodeIDs := given (rp_SortedNodeIDs req) (re_SortedNodeIDs e),
            re_SortedStoryIDs := given (rp_SortedStoryIDs req) (re_SortedStoryIDs e),
            re_CurrentStoryIdx := set_if (rp_CurrentStoryIdx req) (re_CurrentStoryIdx e),
            re_NodeResults := given (rp_NodeResults req) (re_NodeResults e),
            re_ScenarioVerdicts := given (rp_ScenarioVerdicts req) (re_ScenarioVerdicts e)\<rparr>) io st)"

record ReqNodeRequest =
  rq_Key :: bytes
  rq_CurrentNodeIdx :: "int option"
  rq_NodeResult :: "NodeResult option"
  rq_CurrentNodeTaskID :: bytes

definition handleReqNodeMutation :: "ReqNodeRequest option \<Rightarrow> XIO \<Rightarrow> ExecStore \<Rightarrow> ExecMutationResponse \<times> ExecStore" where
  "handleReqNodeMutation data io st =
     (case data of
        None \<Rightarrow> (xfail XUnmarshal, st)
      | Some req \<Rightarrow>
          if rq_Key req = [] then (xfail XRequired, st)
          else with_req (rq_Key req) (\<lambda>e. e\<lparr>re_CurrentNodeIdx := set_if (rq_CurrentNodeIdx req) (re_CurrentNodeIdx e),
            re_CurrentNodeTaskID := given (rq_CurrentNodeTaskID req) (re_CurrentNodeTaskID e),
            re_NodeResults := re_NodeResults e @ (case rq_NodeResult req of Some n \<Rightarrow> [n] | None \<Rightarrow> [])\<rparr>) io st)"

record ReqResetNodeResultsRequest =
  rs_Key :: bytes
  rs_NodeResults :: "NodeResult list"

definition handleReqResetNodeResultsMutation :: "ReqResetNodeResultsRequest option \<Rightarrow> XIO \<Rightarrow> ExecStore \<Rightarrow>
    ExecMutationResponse \<times> ExecStore" where
  "handleReqResetNodeResultsMutation data io st =
     (case data of
        None \<Rightarrow> (xfail XUnmarshal, st)
      | Some req \<Rightarrow>
          if rs_Key req = [] then (xfail XRequired, st)
          else case getReq io (rs_Key req) st of
            (None, st1) \<Rightarrow> (xok [], st1)
          | (Some e, st1) \<Rightarrow> req_reply io (rs_Key req) [] (e\<lparr>re_NodeResults := rs_NodeResults req\<rparr>) st1)"

section \<open>Claims\<close>

record ExecClaimRequest =
  xc_Key :: bytes
  xc_Stage :: bytes
  xc_ExpectedFromStage :: bytes

definition claimStageGuard :: "ExecClaimRequest \<Rightarrow> bytes \<Rightarrow> xerr option" where
  "claimStageGuard req current =
     (if xc_ExpectedFromStage req \<noteq> [] \<and> current \<noteq> xc_ExpectedFromStage req
      then Some (XClaimSource (xc_ExpectedFromStage req) current)
      else if current = xc_Stage req then Some (XAlreadyAt (xc_Stage req))
      else None)"

definition handleExecClaimMutation :: "ExecClaimRequest option \<Rightarrow> (nat \<Rightarrow> TaskExecution) \<Rightarrow> XIO \<Rightarrow> ExecStore \<Rightarrow>
    ExecMutationResponse \<times> ExecStore" where
  "handleExecClaimMutation data live io st =
     (case data of
        None \<Rightarrow> (xfail XUnmarshal, st)
      | Some req \<Rightarrow>
          if xc_Key req = [] \<or> xc_Stage req = [] then (xfail XRequired, st)
          else case getTask live io (xc_Key req) st of
            (Some t, st1) \<Rightarrow>
              (case claimStageGuard req (te_Stage t) of
                 Some e \<Rightarrow> (xfail e, st1)
               | None \<Rightarrow> task_reply io (xc_Key req) [] (t\<lparr>te_Stage := xc_Stage req\<rparr>) st1)
          | (None, st1) \<Rightarrow>
              (case getReq io (xc_Key req) st1 of
                 (Some e, st2) \<Rightarrow>
                   (case claimStageGuard req (re_Stage e) of
                      Some x \<Rightarrow> (xfail x, st2)
                    | None \<Rightarrow> req_reply io (xc_Key req) [] (e\<lparr>re_Stage := xc_Stage req\<rparr>) st2)
               | (None, st2) \<Rightarrow> (xfail (XNotFound (xc_Key req)), st2)))"

end
