(* ===== verification/Exec_Feedback.thy ===== *)
theory Exec_Feedback
  imports Exec_Mutations
begin

text \<open>
  What a rejected developer is told: the pure helpers of \<^verbatim>\<open>src/processor/execution-manager\<close> in
  \<^verbatim>\<open>loop_completions.go\<close> (failure and validation feedback), \<^verbatim>\<open>cycle_history.go\<close> (prior attempts) and
  \<^verbatim>\<open>component.go\<close> (classification, snapshots, the planning gap, leaked files), with the error
  categories of \<^verbatim>\<open>src/workflow/error_category.go\<close>.  \<open>dash\<close> and \<open>ellipsis\<close> are the UTF-8 bytes of the
  characters the texts use; \<^verbatim>\<open>strings.ToLower\<close> is modelled on ASCII.
\<close>

definition dash :: bytes where "dash = [CHR 0xE2, CHR 0x80, CHR 0x94]"

definition ellipsis :: bytes where "ellipsis = [CHR 0xE2, CHR 0x80, CHR 0xA6]"

definition nl :: bytes where "nl = [CHR 0x0A]"

section \<open>Loop failures\<close>

record LoopEvent =
  lv_LoopID :: bytes
  lv_TaskID :: bytes
  lv_Success :: bool
  lv_Outcome :: bytes
  lv_Iterations :: int
  lv_Error :: bytes
  lv_MaxIterations :: int
  lv_WorkflowStep :: bytes

definition buildLoopFailureFeedback :: "LoopEvent \<Rightarrow> bytes" where
  "buildLoopFailureFeedback event =
     (if Contains (lv_Error event) ''max iterations'' then
        (let budget = (if lv_MaxIterations event = 0 then lv_Iterations event else lv_MaxIterations event) in
         ''Your previous attempt exhausted its iteration budget ('' @ show_int (lv_Iterations event) @ '' of '' @ show_int budget
         @ '' iterations) without calling submit_work. You MUST call submit_work to terminate the loop. If your code in the worktree is correct, call submit_work now with summary, files_modified listing what you changed, file_intents classifying each changed path, and any output. If you are stuck or uncertain, call submit_work with a partial summary that explicitly describes the obstacle ''
         @ dash @ '' do not keep refining.'')
      else if lv_Error event \<noteq> [] then
        ''Your previous attempt failed: '' @ lv_Error event @ nl @ nl
        @ ''Review the error and try a different approach. If you have working code in the worktree, call submit_work to terminate.''
      else ''Your previous attempt failed (outcome='' @ lv_Outcome event @ ''). Review the prior output and try again ''
        @ dash @ '' and remember to call submit_work to terminate the loop.'')"

section \<open>Validation failures\<close>

record CheckResult =
  ck_Name :: bytes
  ck_Passed :: bool
  ck_Required :: bool
  ck_Command :: bytes
  ck_ExitCode :: int
  ck_Stdout :: bytes
  ck_Stderr :: bytes
  ck_Duration :: bytes

definition maxValidationOutputBytes :: nat where "maxValidationOutputBytes = 2048"

definition tailTruncate :: "bytes \<Rightarrow> nat \<Rightarrow> bytes" where
  "tailTruncate s n =
     (if length s \<le> n then s
      else ''[...truncated '' @ show_nat (length s - n) @ '' bytes from start...]'' @ nl @ drop (length s - n) s)"

definition output_block :: "bytes \<Rightarrow> bytes \<Rightarrow> bytes" where
  "output_block label out =
     (if out = [] then []
      else nl @ label @ '':'' @ nl @ ''<validation-output trust=\"untrusted\">'' @ nl
        @ tailTruncate out maxValidationOutputBytes @ nl @ ''</validation-output>'' @ nl)"

definition renderFailedCheck :: "CheckResult \<Rightarrow> bytes" where
  "renderFailedCheck r =
     ''## Check: '' @ ck_Name r @ '' (FAILED, required)'' @ nl @ nl
     @ (if ck_Command r \<noteq> [] then ''Command: `'' @ ck_Command r @ ''`'' @ nl else [])
     @ (if ck_ExitCode r \<noteq> 0 then ''Exit code: '' @ show_int (ck_ExitCode r) @ nl else [])
     @ (if ck_Duration r \<noteq> [] then ''Duration: '' @ ck_Duration r @ nl else [])
     @ output_block ''stderr'' (ck_Stderr r) @ output_block ''stdout'' (ck_Stdout r) @ nl"

definition buildValidationFailureFeedback :: "CheckResult list \<Rightarrow> bytes" where
  "buildValidationFailureFeedback results =
     (let failed = filter (\<lambda>r. \<not> ck_Passed r \<and> ck_Required r) results in
      if failed = [] then
        ''Structural validation failed but no required check reported a failure. This indicates a validation result wiring issue ''
        @ dash @ '' escalate rather than retry blindly.''
      else ''Structural validation failed. Fix the following issues:'' @ nl @ nl @ concat (map renderFailedCheck failed))"

definition ownershipPlanningGap :: "CheckResult list \<Rightarrow> bytes option" where
  "ownershipPlanningGap results =
     (case filter (\<lambda>r. ck_Name r = ''file-ownership-planning-gap'' \<and> ck_Required r \<and> \<not> ck_Passed r) results of
        [] \<Rightarrow> None
      | r # _ \<Rightarrow>
          let detail = TrimSpace (ck_Stderr r) in
          Some (if detail = [] then ''new source/test file created outside the story's declared file scope'' else detail))"

section \<open>Error categories\<close>

record ErrorCategoryDef =
  cat_ID :: bytes
  cat_Label :: bytes
  cat_Description :: bytes
  cat_Signals :: "bytes list"
  cat_Guidance :: bytes

text \<open>The registry is a map with distinct IDs, here the list of its values; \<^verbatim>\<open>None\<close> is a nil registry.\<close>

definition MatchSignals :: "ErrorCategoryDef list \<Rightarrow> bytes \<Rightarrow> ErrorCategoryDef list" where
  "MatchSignals categories text =
     (if text = [] then []
      else sort_key cat_ID (filter (\<lambda>cat. list_ex (\<lambda>s. Contains (ToLower text) (ToLower s)) (cat_Signals cat)) categories))"

definition classifyFeedback :: "ErrorCategoryDef list option \<Rightarrow> bytes \<Rightarrow> bytes list" where
  "classifyFeedback registry feedback =
     (case registry of
        None \<Rightarrow> []
      | Some cats \<Rightarrow> if feedback = [] then [] else map cat_ID (MatchSignals cats feedback))"

definition enrichFeedbackWithGuidance :: "ErrorCategoryDef list option \<Rightarrow> bytes \<Rightarrow> bytes list \<Rightarrow> bytes" where
  "enrichFeedbackWithGuidance registry feedback ids =
     (case registry of
        None \<Rightarrow> feedback
      | Some cats \<Rightarrow>
          if ids = [] then feedback
          else feedback @ nl @ nl @ ''--- REMEDIATION GUIDANCE ---'' @ nl
            @ concat (map (\<lambda>i. case find (\<lambda>c. cat_ID c = i) cats of
                None \<Rightarrow> []
              | Some c \<Rightarrow> ''- '' @ cat_Label c @ '': '' @ cat_Guidance c @ nl) ids))"

section \<open>Cycle history\<close>

record cycleSnapshot =
  cy_Cycle :: int
  cy_LoopID :: bytes
  cy_Verdict :: bytes
  cy_RejectionType :: bytes
  cy_Feedback :: bytes
  cy_FilesModified :: "bytes list"

definition priorCyclesCap :: nat where "priorCyclesCap = 10"

definition snapshotFeedbackCap :: nat where "snapshotFeedbackCap = 1500"

record CodeReview =
  cr_Verdict :: bytes
  cr_RejectionType :: bytes
  cr_Feedback :: bytes

definition clip_feedback :: "bytes \<Rightarrow> bytes" where
  "clip_feedback feedback =
     (if length feedback > snapshotFeedbackCap then take snapshotFeedbackCap feedback @ ellipsis else feedback)"

definition appendCycleSnapshot :: "TaskExecution \<Rightarrow> bytes \<Rightarrow> CodeReview \<Rightarrow> cycleSnapshot list \<Rightarrow> cycleSnapshot list" where
  "appendCycleSnapshot t loopID result prior =
     (let snaps = prior @ [\<lparr>cy_Cycle = te_TDDCycle t, cy_LoopID = loopID, cy_Verdict = cr_Verdict result,
            cy_RejectionType = cr_RejectionType result, cy_Feedback = clip_feedback (cr_Feedback result),
            cy_FilesModified = te_FilesModified t\<rparr>]
      in if length snaps > priorCyclesCap then drop (length snaps - priorCyclesCap) snaps else snaps)"

definition allCyclesSameFiles :: "cycleSnapshot list \<Rightarrow> bytes list" where
  "allCyclesSameFiles cycles =
     (case cycles of
        [] \<Rightarrow> []
      | c # cs \<Rightarrow>
          if cy_FilesModified c = [] then []
          else let want = remdups (cy_FilesModified c) in
            if list_all (\<lambda>d. length (cy_FilesModified d) = length want
                 \<and> list_all (\<lambda>f. f \<in> set want) (cy_FilesModified d)) cs
            then cy_FilesModified c else [])"

fun common_loop :: "bytes \<Rightarrow> cycleSnapshot list \<Rightarrow> bytes" where
  "common_loop common [] = common"
| "common_loop common (c # cs) =
     (if cy_Verdict c \<noteq> ''rejected'' \<or> cy_RejectionType c = [] then common_loop common cs
      else if common = [] then common_loop (cy_RejectionType c) cs
      else if cy_RejectionType c \<noteq> common then []
      else common_loop common cs)"

definition commonRejectionType :: "cycleSnapshot list \<Rightarrow> bytes" where
  "commonRejectionType cycles = common_loop [] cycles"

definition detectPatterns :: "cycleSnapshot list \<Rightarrow> bytes list" where
  "detectPatterns cycles =
     (if length cycles < 2 then []
      else (if list_all (\<lambda>c. cy_Verdict c = ''rejected'') cycles
            then [''All '' @ show_nat (length cycles) @ '' prior cycles were rejected.''] else [])
        @ (let sameFiles = allCyclesSameFiles cycles in
           if sameFiles \<noteq> [] then [''All cycles modified the same files: '' @ Join '', '' sameFiles] else [])
        @ (let rt = commonRejectionType cycles in
           if rt \<noteq> [] then [''All rejections were rejection_type='' @ rt @ ''.''] else []))"

definition cycle_lines :: "cycleSnapshot \<Rightarrow> bytes" where
  "cycle_lines c =
     (let verdict = (if cy_RejectionType c \<noteq> [] then cy_Verdict c @ '' ('' @ cy_RejectionType c @ '')'' else cy_Verdict c) in
      ''  Cycle '' @ show_int (cy_Cycle c) @ '': '' @ verdict @ nl
      @ (if cy_FilesModified c \<noteq> [] then ''    Files changed: '' @ Join '', '' (cy_FilesModified c) @ nl else [])
      @ (if cy_Feedback c \<noteq> [] then ''    Reviewer said: '' @ cy_Feedback c @ nl else []))"

definition summarizeCycleHistory :: "cycleSnapshot list \<Rightarrow> bytes" where
  "summarizeCycleHistory cycles =
     (if cycles = [] then []
      else ''PRIOR ATTEMPTS ('' @ show_nat (length cycles) @ '' cycle'' @ (if length cycles = 1 then [] else ''s'')
        @ '' before this one):'' @ nl @ concat (map cycle_lines cycles)
        @ (let patterns = detectPatterns cycles in
           if patterns = [] then []
           else nl @ ''Pattern across attempts:'' @ nl @ concat (map (\<lambda>p. ''  - '' @ p @ nl) patterns))
        @ nl @ ''Do not repeat any approach above. If the same approach keeps failing for the same reason, change tactics (try a different tool, decompose differently, ask via submit_work).'')"

section \<open>Verdicts\<close>

definition ValidateVerdict :: "(bytes \<Rightarrow> bytes) \<Rightarrow> bytes \<Rightarrow> bytes option" where
  "ValidateVerdict quote verdict =
     (if verdict \<in> {''approved'', ''rejected'', ''needs_changes''} then None
      else let rest = '' '' @ dash @ '' must be '' @ quote ''approved'' @ '', '' @ quote ''rejected'' @ '', or '' @ quote ''needs_changes'' in
        if verdict = [] then Some (''verdict is empty'' @ rest) else Some (''invalid verdict '' @ quote verdict @ rest))"

section \<open>Leaked files\<close>

text \<open>The claimed files that the porcelain status of the repository root lists, as files or below an
  untracked directory; \<open>None\<close> is a failed query.\<close>

definition dirty_paths :: "bytes \<Rightarrow> bytes list" where
  "dirty_paths output =
     filter (\<lambda>p. p \<noteq> []) (map (\<lambda>l. TrimSpace (drop 3 l)) (filter (\<lambda>l. \<not> length l < 4) (split_on (CHR 0x0A) output)))"

definition developerLeakedToWorkspace :: "bytes option \<Rightarrow> bytes list \<Rightarrow> bytes list" where
  "developerLeakedToWorkspace status claimed =
     (case status of
        None \<Rightarrow> []
      | Some output \<Rightarrow>
          if claimed = [] \<or> TrimSpace output = [] then []
          else let dirty = dirty_paths output in
            filter (\<lambda>f. f \<in> set dirty \<or> list_ex (\<lambda>d. HasSuffix d ''/'' \<and> HasPrefix f d) dirty) claimed)"

section \<open>Bounds and repeated files\<close>

text \<open>The comparison is by the length of the list against the size of the set, so duplicates in a report of modified
  files make different sets equal and equal sets different.  Without duplicates it is equality of sets.
\<close>

lemma same_files_duplicates:
  "cy_FilesModified c = [a, b] \<Longrightarrow> cy_FilesModified d = [a, a] \<Longrightarrow> a \<noteq> b \<Longrightarrow> allCyclesSameFiles [c, d] = [a, b]"
  "cy_FilesModified c = [a, a] \<Longrightarrow> cy_FilesModified d = [a, a] \<Longrightarrow> allCyclesSameFiles [c, d] = []"
  by (simp_all add: allCyclesSameFiles_def)

lemma same_files_exact:
  assumes "\<forall>c \<in> set (c # cs). distinct (cy_FilesModified c)" "cy_FilesModified c \<noteq> []"
  shows "allCyclesSameFiles (c # cs) \<noteq> [] \<longleftrightarrow> (\<forall>d \<in> set cs. set (cy_FilesModified d) = set (cy_FilesModified c))"
proof -
  have "length (cy_FilesModified d) = length (cy_FilesModified c) \<and> set (cy_FilesModified d) \<subseteq> set (cy_FilesModified c)
      \<longleftrightarrow> set (cy_FilesModified d) = set (cy_FilesModified c)" if "d \<in> set cs" for d
    using that assms(1) by (metis List.finite_set card_subset_eq distinct_card list.set_intros(1,2) set_eq_subset)
  then have "(\<forall>d \<in> set cs. length (cy_FilesModified d) = length (cy_FilesModified c) \<and> set (cy_FilesModified d) \<subseteq> set (cy_FilesModified c))
      \<longleftrightarrow> (\<forall>d \<in> set cs. set (cy_FilesModified d) = set (cy_FilesModified c))" by blast
  then show ?thesis using assms by (simp add: allCyclesSameFiles_def Let_def list_all_iff distinct_remdups_id subset_code(1))
qed

lemma appendCycleSnapshot_bounded:
  assumes "length prior \<le> priorCyclesCap"
  shows "length (appendCycleSnapshot t l r prior) \<le> priorCyclesCap"
  using assms by (simp add: appendCycleSnapshot_def priorCyclesCap_def Let_def)

lemma clip_feedback_bounded: "length (clip_feedback f) \<le> snapshotFeedbackCap + 3"
  by (simp add: clip_feedback_def ellipsis_def)

end
