(* ===== verification/Tdd_Pipeline.thy ===== *)
theory Tdd_Pipeline
  imports Exec_Feedback
begin

text \<open>
  The pipeline of a task in \<^verbatim>\<open>src/processor/execution-manager/component.go\<close>: develop, validate,
  review, merge.  What triggers it is in theory \<open>Exec_Events\<close>.  The executions are objects with identity: \<open>ec_execs\<close> is
  the list of all that were ever created, a reference is an index into it, and \<^verbatim>\<open>activeExecs\<close>, timers
  and cached rows hold references.  A function whose name ends in \<open>Locked\<close> runs under the mutex of its
  execution; the structural validation releases it, so \<open>dispatchValidatorLocked\<close> ends with the
  request and \<open>validation_returned\<close> goes on with the answer.  Texts of prompts, lessons, triples and
  entity snapshots are left out, and so are the fields only they read; a component that was started
  has a NATS client.  \<open>XEnv\<close> holds the outcomes of the calls to the sandbox and of the other external
  calls of one handler.
\<close>

section \<open>State\<close>

record XConfig =
  xg_MaxTDDCycles :: int
  xg_MaxReviewRetries :: int
  xg_SandboxURL :: bytes
  xg_RequireMergeObservation :: "bool option"
  xg_RequireDeveloperDiff :: "bool option"

definition requireMergeObservation :: "XConfig \<Rightarrow> bool" where
  "requireMergeObservation g = (case xg_RequireMergeObservation g of None \<Rightarrow> True | Some b \<Rightarrow> b)"

definition requireDeveloperDiff :: "XConfig \<Rightarrow> bool" where
  "requireDeveloperDiff g = (case xg_RequireDeveloperDiff g of None \<Rightarrow> True | Some b \<Rightarrow> b)"

record taskRun =
  tr_terminated :: bool
  tr_key :: bytes
  tr_task :: TaskExecution
  tr_ValidationResults :: "CheckResult list"
  tr_DeveloperLoopID :: bytes
  tr_PriorCycles :: "cycleSnapshot list"
  tr_timer :: "nat option"

record TaskRecovery =
  rv_Slug :: bytes
  rv_RequirementID :: bytes
  rv_TaskID :: bytes
  rv_LoopID :: bytes
  rv_EscalationReason :: bytes
  rv_LastFailureFeedback :: bytes
  rv_AffectedStoryIDs :: "bytes list"

datatype xeffect = DispatchDeveloper nat bytes | DispatchReviewer nat bytes | RequestValidation nat
  | RequestTaskRecovery TaskRecovery | CreateWorktree bytes | DiscardWorktree bytes | MergeWorktree bytes
  | CancelLoop bytes bytes

record LoopEntity =
  le_Terminal :: bool
  le_WorkflowSlug :: bytes
  le_event :: LoopEvent
  le_files :: "bytes list option"
  le_review :: "CodeReview option"

record XComp =
  ec_config :: XConfig
  ec_ids :: Ids
  ec_categories :: "ErrorCategoryDef list option"
  ec_store :: ExecStore
  ec_execs :: "taskRun list"
  ec_active :: "(bytes \<times> nat) list"
  ec_routing :: "(bytes \<times> bytes) list"
  ec_timers :: "(nat \<times> nat) list"
  ec_nextTimer :: nat
  ec_starting :: "nat list"
  ec_created :: "nat list"
  ec_validating :: "nat list"
  ec_replay :: "(bytes \<times> LoopEntity) list"
  ec_outbox :: "xeffect list"

datatype site = AtDeveloper | AtValidator | AtReviewer | AtMerge

datatype http_check = Unreachable | HttpStatus int | BadRequest bytes

record WtMerge =
  wm_Commit :: bytes
  wm_NothingToCommit :: bool
  wm_FilesChanged :: "bytes list"

datatype wt_outcome = WtMerged WtMerge | WtFailed bool bytes

record FileEntry =
  fe_Name :: bytes
  fe_IsDir :: bool
  fe_Size :: int

record XEnv =
  xe_io :: XIO
  xe_uuid :: bytes
  xe_status :: "bytes \<Rightarrow> bytes option"
  xe_worktree :: "site \<Rightarrow> http_check"
  xe_plan :: "site \<Rightarrow> bytes option"
  xe_merge :: "nat \<Rightarrow> wt_outcome"
  xe_shutdown :: "nat \<Rightarrow> bool"
  xe_files :: "FileEntry list option"
  xe_create :: "bytes + bytes \<times> bytes"
  xe_loop :: "bytes \<Rightarrow> bytes option"
  xe_timeout :: bytes
  xe_quote :: "bytes \<Rightarrow> bytes"

abbreviation run_of :: "XComp \<Rightarrow> nat \<Rightarrow> taskRun" where
  "run_of c r \<equiv> ec_execs c ! r"

abbreviation task_of :: "XComp \<Rightarrow> nat \<Rightarrow> TaskExecution" where
  "task_of c r \<equiv> tr_task (ec_execs c ! r)"

definition upd_run :: "nat \<Rightarrow> (taskRun \<Rightarrow> taskRun) \<Rightarrow> XComp \<Rightarrow> XComp" where
  "upd_run r f c = c\<lparr>ec_execs := (ec_execs c)[r := f (run_of c r)]\<rparr>"

definition upd_task :: "nat \<Rightarrow> (TaskExecution \<Rightarrow> TaskExecution) \<Rightarrow> XComp \<Rightarrow> XComp" where
  "upd_task r f c = upd_run r (\<lambda>x. x\<lparr>tr_task := f (tr_task x)\<rparr>) c"

definition emit :: "xeffect \<Rightarrow> XComp \<Rightarrow> XComp" where
  "emit e c = c\<lparr>ec_outbox := ec_outbox c @ [e]\<rparr>"

definition syncToStore :: "nat \<Rightarrow> XEnv \<Rightarrow> XComp \<Rightarrow> XComp" where
  "syncToStore r env c =
     (let c1 = upd_task r (\<lambda>t. t\<lparr>te_UpdatedAt := xi_now (xe_io env)\<rparr>) c; x = run_of c1 r in
      c1\<lparr>ec_store := snd (store_task (xe_io env) (tr_key x) (Live r) (tr_task x) (ec_store c1))\<rparr>)"

section \<open>Timers and cleanup\<close>

definition stop_timer :: "nat \<Rightarrow> XComp \<Rightarrow> XComp" where
  "stop_timer r c =
     (case tr_timer (run_of c r) of
        None \<Rightarrow> c
      | Some i \<Rightarrow> c\<lparr>ec_timers := filter (\<lambda>x. fst x \<noteq> i) (ec_timers c)\<rparr>)"

definition startExecutionTimeout :: "nat \<Rightarrow> XComp \<Rightarrow> XComp" where
  "startExecutionTimeout r c =
     upd_run r (\<lambda>x. x\<lparr>tr_timer := Some (ec_nextTimer c)\<rparr>)
       (c\<lparr>ec_timers := ec_timers c @ [(ec_nextTimer c, r)], ec_nextTimer := ec_nextTimer c + 1\<rparr>)"

definition resetTimeoutLocked :: "nat \<Rightarrow> XComp \<Rightarrow> XComp" where
  "resetTimeoutLocked r c = startExecutionTimeout r (stop_timer r c)"

definition cleanupExecutionLocked :: "nat \<Rightarrow> XComp \<Rightarrow> XComp" where
  "cleanupExecutionLocked r c0 =
     (let c = stop_timer r c0; t = task_of c r in
      c\<lparr>ec_routing := AList.delete (te_ReviewerTaskID t) (AList.delete (te_ValidatorTaskID t)
            (AList.delete (te_DeveloperTaskID t) (ec_routing c))),
        ec_active := AList.delete (te_EntityID t) (ec_active c)\<rparr>)"

definition discardWorktree :: "nat \<Rightarrow> XComp \<Rightarrow> XComp" where
  "discardWorktree r c =
     (if xg_SandboxURL (ec_config c) = [] \<or> te_WorktreePath (task_of c r) = [] then c
      else emit (DiscardWorktree (te_TaskID (task_of c r))) c)"

section \<open>Terminal states\<close>

definition set_terminated :: "nat \<Rightarrow> XComp \<Rightarrow> XComp" where
  "set_terminated r c = upd_run r (\<lambda>x. x\<lparr>tr_terminated := True\<rparr>) c"

definition markErrorLocked :: "nat \<Rightarrow> bytes \<Rightarrow> XEnv \<Rightarrow> XComp \<Rightarrow> XComp" where
  "markErrorLocked r reason env c =
     (if tr_terminated (run_of c r) then c
      else cleanupExecutionLocked r (syncToStore r env
        (upd_task r (\<lambda>t. t\<lparr>te_Stage := ''error'', te_ErrorReason := reason, te_ErrorClass := ClassifyErrorReason reason\<rparr>)
          (discardWorktree r (set_terminated r c)))))"

definition RecoveryRequested_valid :: "TaskRecovery \<Rightarrow> bool" where
  "RecoveryRequested_valid q \<longleftrightarrow> rv_Slug q \<noteq> [] \<and> rv_EscalationReason q \<noteq> []"

definition emitRecoveryRequested :: "TaskRecovery \<Rightarrow> XComp \<Rightarrow> XComp" where
  "emitRecoveryRequested q c = (if RecoveryRequested_valid q then emit (RequestTaskRecovery q) c else c)"

definition request_recovery :: "nat \<Rightarrow> bytes \<Rightarrow> XEnv \<Rightarrow> XComp \<Rightarrow> XComp" where
  "request_recovery r reason env c =
     (let t = task_of c r in
      case getReq (xe_io env) (RequirementExecutionKey (te_Slug t) (te_RequirementID t)) (ec_store c) of
        (req, st) \<Rightarrow>
          emitRecoveryRequested \<lparr>rv_Slug = te_Slug t, rv_RequirementID = te_RequirementID t, rv_TaskID = te_TaskID t,
             rv_LoopID = tr_DeveloperLoopID (run_of c r), rv_EscalationReason = reason,
             rv_LastFailureFeedback = te_Feedback t,
             rv_AffectedStoryIDs = (case req of Some e \<Rightarrow> re_SortedStoryIDs e | None \<Rightarrow> [])\<rparr>
            (c\<lparr>ec_store := st\<rparr>))"

definition markEscalatedLocked :: "nat \<Rightarrow> bytes \<Rightarrow> XEnv \<Rightarrow> XComp \<Rightarrow> XComp" where
  "markEscalatedLocked r reason env c =
     (if tr_terminated (run_of c r) then c
      else cleanupExecutionLocked r (request_recovery r reason env (syncToStore r env
        (upd_task r (\<lambda>t. t\<lparr>te_Stage := ''escalated'', te_EscalationReason := reason\<rparr>)
          (discardWorktree r (set_terminated r c))))))"

section \<open>Dispatch\<close>

definition parentRequirementTerminated :: "nat \<Rightarrow> XEnv \<Rightarrow> XComp \<Rightarrow> bytes option \<times> XComp" where
  "parentRequirementTerminated r env c =
     (let t = task_of c r in
      if te_RequirementID t = [] then (None, c)
      else case getReq (xe_io env) (RequirementExecutionKey (te_Slug t) (te_RequirementID t)) (ec_store c) of
        (req, st) \<Rightarrow>
          (case req of
             Some e \<Rightarrow> if IsTerminalReqStage (re_Stage e) then Some (re_Stage e) else None
           | None \<Rightarrow> None, c\<lparr>ec_store := st\<rparr>))"

definition checkWorktreeExists :: "site \<Rightarrow> nat \<Rightarrow> XEnv \<Rightarrow> XComp \<Rightarrow> bytes option" where
  "checkWorktreeExists at r env c =
     (if xg_SandboxURL (ec_config c) = [] \<or> te_WorktreePath (task_of c r) = [] then None
      else case xe_worktree env at of
        Unreachable \<Rightarrow> None
      | HttpStatus n \<Rightarrow> if n = 200 then None
          else Some (''worktree check: sandbox returned '' @ show_int n @ '' for task '' @ te_TaskID (task_of c r))
      | BadRequest e \<Rightarrow> Some (''checkWorktreeExists: build request: '' @ e))"

text \<open>The two checks every dispatch makes first: the reason to give up, if any.\<close>

definition dispatch_guard :: "site \<Rightarrow> nat \<Rightarrow> XEnv \<Rightarrow> XComp \<Rightarrow> bytes option \<times> XComp" where
  "dispatch_guard at r env c =
     (case parentRequirementTerminated r env c of
        (Some stage, c1) \<Rightarrow> (Some (''parent_requirement_'' @ stage), c1)
      | (None, c1) \<Rightarrow> (if checkWorktreeExists at r env c1 \<noteq> None then Some ''worktree_lost'' else None, c1))"

definition dispatchDeveloperLocked :: "nat \<Rightarrow> XEnv \<Rightarrow> XComp \<Rightarrow> XComp" where
  "dispatchDeveloperLocked r env c =
     (case dispatch_guard AtDeveloper r env c of
        (Some reason, c1) \<Rightarrow> markErrorLocked r reason env c1
      | (None, c1) \<Rightarrow>
          (case xe_plan env AtDeveloper of
             Some e \<Rightarrow> markErrorLocked r (''developer prompt plan context unavailable: '' @ e) env c1
           | None \<Rightarrow>
               let entity = te_EntityID (task_of c1 r); taskID = ''dev-'' @ entity @ ''-'' @ xe_uuid env;
                   c2 = upd_task r (\<lambda>t. t\<lparr>te_DeveloperTaskID := taskID\<rparr>) c1
               in emit (DispatchDeveloper r taskID) (c2\<lparr>ec_routing := AList.update taskID entity (ec_routing c2)\<rparr>)))"

definition dispatchReviewerLocked :: "nat \<Rightarrow> XEnv \<Rightarrow> XComp \<Rightarrow> XComp" where
  "dispatchReviewerLocked r env c =
     (case dispatch_guard AtReviewer r env c of
        (Some reason, c1) \<Rightarrow> markErrorLocked r reason env c1
      | (None, c1) \<Rightarrow>
          (case xe_plan env AtReviewer of
             Some e \<Rightarrow> markErrorLocked r (''reviewer prompt plan context unavailable: '' @ e) env c1
           | None \<Rightarrow>
               let entity = te_EntityID (task_of c1 r); taskID = ''rev-'' @ entity @ ''-'' @ xe_uuid env;
                   c2 = upd_task r (\<lambda>t. t\<lparr>te_ReviewerTaskID := taskID\<rparr>) c1
               in emit (DispatchReviewer r taskID) (c2\<lparr>ec_routing := AList.update taskID entity (ec_routing c2)\<rparr>)))"

definition dispatchValidatorLocked :: "nat \<Rightarrow> XEnv \<Rightarrow> XComp \<Rightarrow> XComp" where
  "dispatchValidatorLocked r env c =
     (case dispatch_guard AtValidator r env c of
        (Some reason, c1) \<Rightarrow> markErrorLocked r reason env c1
      | (None, c1) \<Rightarrow> emit (RequestValidation r) (c1\<lparr>ec_validating := ec_validating c1 @ [r]\<rparr>))"

section \<open>Retries\<close>

definition file_listing :: "FileEntry list \<Rightarrow> bytes" where
  "file_listing files =
     nl @ nl @ ''Files in your working directory from previous iterations:'' @ nl
     @ concat (map (\<lambda>f. if fe_IsDir f then ''  '' @ fe_Name f @ ''/ (directory)'' @ nl
                        else ''  '' @ fe_Name f @ '' ('' @ show_int (fe_Size f) @ '' bytes)'' @ nl) files)"

definition startDeveloperRetryLocked :: "nat \<Rightarrow> bytes \<Rightarrow> XEnv \<Rightarrow> XComp \<Rightarrow> XComp" where
  "startDeveloperRetryLocked r feedback env c =
     (let listing = (if xg_SandboxURL (ec_config c) \<noteq> [] \<and> te_WorktreePath (task_of c r) \<noteq> []
                     then (case xe_files env of Some fs \<Rightarrow> if fs \<noteq> [] then file_listing fs else [] | None \<Rightarrow> []) else []);
          c1 = upd_run r (\<lambda>x. x\<lparr>tr_ValidationResults := []\<rparr>) c;
          c2 = upd_task r (\<lambda>t. t\<lparr>te_TDDCycle := te_TDDCycle t + 1, te_FilesModified := [], te_ValidationPassed := False,
                 te_Verdict := [], te_RejectionType := [], te_ReviewRetryCount := 0,
                 te_Feedback := feedback @ listing, te_Stage := ''developing''\<rparr>) c1
      in dispatchDeveloperLocked r env (syncToStore r env c2))"

definition routeFixableRejection :: "nat \<Rightarrow> bytes \<Rightarrow> XEnv \<Rightarrow> XComp \<Rightarrow> XComp" where
  "routeFixableRejection r feedback env c =
     (if te_TDDCycle (task_of c r) + 1 < te_MaxTDDCycles (task_of c r)
      then startDeveloperRetryLocked r feedback env c
      else markEscalatedLocked r ''fixable rejections exceeded TDD cycle budget'' env c)"

section \<open>The developer has finished\<close>

definition developerWorkClean :: "nat \<Rightarrow> XEnv \<Rightarrow> XComp \<Rightarrow> bool" where
  "developerWorkClean r env c =
     (if xg_SandboxURL (ec_config c) = [] \<or> te_TaskID (task_of c r) = [] then False
      else case xe_status env (te_TaskID (task_of c r)) of None \<Rightarrow> False | Some out \<Rightarrow> TrimSpace out = [])"

definition scope_hint :: "TaskExecution \<Rightarrow> bytes" where
  "scope_hint t =
     (if te_FileScope t = [] then []
      else '' Work only inside the declared file scope: '' @ Join '', '' (te_FileScope t) @ ''.'')"

definition empty_feedback :: "bool \<Rightarrow> TaskExecution \<Rightarrow> bytes" where
  "empty_feedback unparsed t =
     (if unparsed
      then ''Your previous attempt ended without a valid submit_work call. You must call submit_work with a summary, a non-empty files_modified array, and one file_intents entry for every files_modified path before stopping. If you asked a question and did not get an answer, make reasonable assumptions from the plan and scenarios and continue '' @ dash @ '' do not stop the loop waiting for an answer.''
      else ''Your previous submit_work had an empty files_modified array. You must write at least one file before calling submit_work. Create the implementation and test files called for by the scenarios, then submit again with the list of files you created or modified and one file_intents entry for each path.'')
     @ scope_hint t"

definition clean_feedback :: "bytes list \<Rightarrow> TaskExecution \<Rightarrow> bytes" where
  "clean_feedback leaked t =
     (if leaked \<noteq> []
      then ''Your `git status` in your worktree is empty, but the parent fixture root (`/workspace`) has uncommitted changes to: ''
        @ Join '', '' leaked @ ''. You likely ran `cd /workspace && cat > <file>` or similar '' @ dash
        @ '' those writes land in the parent fixture, NOT your worktree, so they do NOT count as your contribution. Your bash starts with cwd=your worktree. Use relative paths or paths inside your worktree. Do NOT `cd /workspace` to write files.''
      else ''Your submit_work claimed to modify '' @ show_nat (length (te_FilesModified t)) @ '' file(s) ('' @ Join '', '' (te_FilesModified t)
        @ '') but `git status` against your worktree shows NO changes. Reading a file with `cat` is not modifying it. You must use bash to actually write the files before calling submit_work '' @ dash
        @ '' for example: `cat > main.go << 'EOF' ... EOF`, or `tee path < input`, or `sed -i 's/old/new/' path`. Verify with `bash('git status')` BEFORE submit_work '' @ dash
        @ '' if the output is empty, you have not written anything yet. Re-implement the work and submit again.'')"

definition handleDeveloperCompleteLocked :: "nat \<Rightarrow> LoopEvent \<Rightarrow> bytes list option \<Rightarrow> XEnv \<Rightarrow> XComp \<Rightarrow> XComp" where
  "handleDeveloperCompleteLocked r event parsed env c =
     (let c0 = resetTimeoutLocked r c;
          c1 = c0\<lparr>ec_routing := AList.delete (te_DeveloperTaskID (task_of c0 r)) (ec_routing c0)\<rparr>;
          c2 = (if lv_LoopID event \<noteq> [] then upd_run r (\<lambda>x. x\<lparr>tr_DeveloperLoopID := lv_LoopID event\<rparr>) c1 else c1)
      in if \<not> lv_Success event then routeFixableRejection r (buildLoopFailureFeedback event) env c2
         else let c3 = (case parsed of None \<Rightarrow> c2 | Some fs \<Rightarrow> upd_task r (\<lambda>t. t\<lparr>te_FilesModified := fs\<rparr>) c2);
                  t = task_of c3 r
           in if parsed = None \<or> te_FilesModified t = []
              then routeFixableRejection r (empty_feedback (parsed = None) t) env c3
              else if requireDeveloperDiff (ec_config c3) \<and> developerWorkClean r env c3
              then routeFixableRejection r (clean_feedback
                     (developerLeakedToWorkspace (xe_status env ''main'') (te_FilesModified t)) t) env c3
              else dispatchValidatorLocked r env (syncToStore r env (upd_task r (\<lambda>t. t\<lparr>te_Stage := ''validating''\<rparr>) c3)))"

section \<open>The validator has answered\<close>

definition handleValidationFailedLocked :: "nat \<Rightarrow> XEnv \<Rightarrow> XComp \<Rightarrow> XComp" where
  "handleValidationFailedLocked r env c =
     (let c1 = syncToStore r env (upd_task r (\<lambda>t. t\<lparr>te_Stage := ''validation_failed''\<rparr>) c) in
      case ownershipPlanningGap (tr_ValidationResults (run_of c1 r)) of
        Some detail \<Rightarrow> markEscalatedLocked r (''planning gap (ADR-049 ownership): '' @ detail) env c1
      | None \<Rightarrow>
          if te_TDDCycle (task_of c1 r) + 1 < te_MaxTDDCycles (task_of c1 r)
          then startDeveloperRetryLocked r (buildValidationFailureFeedback (tr_ValidationResults (run_of c1 r))) env c1
          else markEscalatedLocked r ''validation failures exceeded TDD cycle budget'' env c1)"

definition validation_returned :: "nat \<Rightarrow> bytes + bool \<times> CheckResult list \<Rightarrow> XEnv \<Rightarrow> XComp \<Rightarrow> XComp" where
  "validation_returned r result env c0 =
     (let c = c0\<lparr>ec_validating := remove1 r (ec_validating c0)\<rparr> in
      if tr_terminated (run_of c r) then c
      else case result of
        Inl err \<Rightarrow> markEscalatedLocked r (''structural validation error: '' @ err) env c
      | Inr (passed, results) \<Rightarrow>
          let c1 = upd_task r (\<lambda>t. t\<lparr>te_ValidationPassed := passed\<rparr>)
                     (upd_run r (\<lambda>x. x\<lparr>tr_ValidationResults := results\<rparr>) c) in
          if \<not> passed then handleValidationFailedLocked r env c1
          else dispatchReviewerLocked r env (syncToStore r env (upd_task r (\<lambda>t. t\<lparr>te_Stage := ''reviewing''\<rparr>) c1)))"

section \<open>The reviewer has finished\<close>

definition parseCodeReviewResult :: "(bytes \<Rightarrow> bytes) \<Rightarrow> CodeReview option \<Rightarrow> CodeReview \<times> bool" where
  "parseCodeReviewResult quote parsed =
     (case parsed of
        None \<Rightarrow> (\<lparr>cr_Verdict = ''rejected'', cr_RejectionType = ''fixable'',
                  cr_Feedback = ''parse failure '' @ dash @ '' could not read reviewer response''\<rparr>, False)
      | Some result \<Rightarrow>
          (case ValidateVerdict quote (cr_Verdict result) of
             Some err \<Rightarrow> (\<lparr>cr_Verdict = ''rejected'', cr_RejectionType = ''fixable'',
                           cr_Feedback = ''invalid verdict from reviewer: '' @ err\<rparr>, False)
           | None \<Rightarrow> (result, True)))"

datatype merge_run = MergeDone WtMerge | MergeGaveUp bool bytes | MergeShutDown

fun merge_loop :: "XEnv \<Rightarrow> nat list \<Rightarrow> bytes \<Rightarrow> merge_run" where
  "merge_loop env [] err = MergeGaveUp False err"
| "merge_loop env (a # as) err =
     (case xe_merge env a of
        WtMerged res \<Rightarrow> MergeDone res
      | WtFailed wedged e \<Rightarrow>
          if xe_shutdown env a then MergeShutDown
          else if wedged then MergeGaveUp True e
          else merge_loop env as e)"

text \<open>The error of a merge with whether the sandbox needs reconciliation; \<open>None\<close> is a nil error.\<close>

definition mergeWorktree :: "nat \<Rightarrow> XEnv \<Rightarrow> XComp \<Rightarrow> (bool \<times> bytes) option \<times> XComp" where
  "mergeWorktree r env c =
     (if xg_SandboxURL (ec_config c) = [] \<or> te_WorktreePath (task_of c r) = [] then (None, c)
      else case checkWorktreeExists AtMerge r env c of
        Some e \<Rightarrow> (Some (False, ''merge worktree: '' @ e), c)
      | None \<Rightarrow>
          let t = task_of c r; c1 = emit (MergeWorktree (te_TaskID t)) c in
          (case merge_loop env [0, 1, 2] [] of
             MergeShutDown \<Rightarrow> (None, c1)
           | MergeGaveUp wedged e \<Rightarrow> (Some (wedged, ''merge worktree after retries: '' @ e), c1)
           | MergeDone res \<Rightarrow>
               if requireMergeObservation (ec_config c) \<and> te_FilesModified t \<noteq> [] \<and> (wm_NothingToCommit res \<or> wm_Commit res = [])
               then (Some (False, ''merge claim/observation mismatch: developer reported '' @ show_nat (length (te_FilesModified t))
                      @ '' files but sandbox produced no commit (nothing_to_commit=''
                      @ (if wm_NothingToCommit res then ''true'' else ''false'') @ '')''), c1)
               else (None, upd_task r (\<lambda>t. t\<lparr>te_FilesModified := given (wm_FilesChanged res) (te_FilesModified t),
                       te_MergeCommit := wm_Commit res\<rparr>) c1)))"

definition markApprovedLocked :: "nat \<Rightarrow> XEnv \<Rightarrow> XComp \<Rightarrow> XComp" where
  "markApprovedLocked r env c =
     (if tr_terminated (run_of c r) then c
      else case mergeWorktree r env c of
        (Some (wedged, e), c1) \<Rightarrow>
          markErrorLocked r ((if wedged then ''INFRASTRUCTURE: '' else []) @ ''merge_failed: '' @ e) env c1
      | (None, c1) \<Rightarrow>
          cleanupExecutionLocked r (syncToStore r env (upd_task r (\<lambda>t. t\<lparr>te_Stage := ''approved''\<rparr>) (set_terminated r c1))))"

definition handleRejectionLocked :: "nat \<Rightarrow> CodeReview \<Rightarrow> XEnv \<Rightarrow> XComp \<Rightarrow> XComp" where
  "handleRejectionLocked r result env c =
     (let c1 = upd_task r (\<lambda>t. t\<lparr>te_Stage := ''rejected''\<rparr>) c;
          ids = classifyFeedback (ec_categories c1) (cr_Feedback result);
          c2 = upd_run r (\<lambda>x. x\<lparr>tr_PriorCycles := appendCycleSnapshot (tr_task x) (tr_DeveloperLoopID x) result (tr_PriorCycles x)\<rparr>) c1
      in if cr_RejectionType result = ''restructure''
         then markEscalatedLocked r (''restructure rejection: '' @ cr_RejectionType result) env c2
         else routeFixableRejection r (enrichFeedbackWithGuidance (ec_categories c2) (cr_Feedback result) ids) env c2)"

definition max_review_retries :: "XConfig \<Rightarrow> int" where
  "max_review_retries g = (if xg_MaxReviewRetries g = 0 then 3 else xg_MaxReviewRetries g)"

definition handleReviewerCompleteLocked :: "nat \<Rightarrow> LoopEvent \<Rightarrow> CodeReview option \<Rightarrow> XEnv \<Rightarrow> XComp \<Rightarrow> XComp" where
  "handleReviewerCompleteLocked r event parsed env c =
     (let c0 = resetTimeoutLocked r c;
          c1 = c0\<lparr>ec_routing := AList.delete (te_ReviewerTaskID (task_of c0 r)) (ec_routing c0)\<rparr>
      in if \<not> lv_Success event then routeFixableRejection r (buildLoopFailureFeedback event) env c1
         else case parseCodeReviewResult (xe_quote env) parsed of
           (result, ok) \<Rightarrow>
             if \<not> ok \<and> te_ReviewRetryCount (task_of c1 r) < max_review_retries (ec_config c1)
             then dispatchReviewerLocked r env (startExecutionTimeout r (syncToStore r env
                    (upd_task r (\<lambda>t. t\<lparr>te_ReviewRetryCount := te_ReviewRetryCount t + 1\<rparr>) c1)))
             else let c2 = upd_task r (\<lambda>t. t\<lparr>te_Verdict := cr_Verdict result, te_RejectionType := cr_RejectionType result,
                             te_Feedback := cr_Feedback result\<rparr>) c1 in
               if cr_Verdict result = ''approved'' then markApprovedLocked r env c2
               else handleRejectionLocked r result env c2)"

end
