(* ===== verification/Exec_Events.thy ===== *)
theory Exec_Events
  imports Tdd_Pipeline
begin

text \<open>
  What drives the pipeline of theory \<open>Tdd_Pipeline\<close>, in \<^verbatim>\<open>src/processor/execution-manager\<close>: the claim
  of pending tasks (\<^verbatim>\<open>task_watcher.go\<close>), the completion of agent loops and their replay after a restart
  (\<^verbatim>\<open>loop_completions.go\<close>), the watchdog timers, the cancellation of orphans (\<^verbatim>\<open>req_watcher.go\<close>),
  the reset of a requirement (\<^verbatim>\<open>mutations.go\<close>), and start and stop (\<^verbatim>\<open>component.go\<close>).  The goroutine
  that sets a claimed task up takes the mutex of its execution only at its end, so it is two operations:
  \<open>init_worktree\<close> and \<open>init_dispatch\<close>.
\<close>

section \<open>Claiming a pending task\<close>

definition claimTaskExecution :: "bytes \<Rightarrow> bytes \<Rightarrow> bytes \<Rightarrow> XEnv \<Rightarrow> XComp \<Rightarrow> bool \<times> XComp" where
  "claimTaskExecution key fromStage toStage env c =
     (case handleExecClaimMutation (Some \<lparr>xc_Key = key, xc_Stage = toStage, xc_ExpectedFromStage = fromStage\<rparr>)
             (task_of c) (xe_io env) (ec_store c) of
        (resp, st) \<Rightarrow> (xr_error resp = None, c\<lparr>ec_store := st\<rparr>))"

definition claimed_task :: "Ids \<Rightarrow> XConfig \<Rightarrow> TaskExecution \<Rightarrow> TaskExecution" where
  "claimed_task ids g t = TaskExecution_zero\<lparr>
     te_EntityID := TaskExecutionEntityID ids (te_Slug t) (te_TaskID t), te_Slug := te_Slug t, te_TaskID := te_TaskID t,
     te_RequirementID := te_RequirementID t, te_Stage := ''developing'', te_TDDCycle := 0,
     te_MaxTDDCycles := (if te_MaxTDDCycles t = 0 then xg_MaxTDDCycles g else te_MaxTDDCycles t),
     te_Title := te_Title t, te_Description := te_Description t, te_ProjectID := te_ProjectID t, te_Prompt := te_Prompt t,
     te_Model := te_Model t, te_TraceID := te_TraceID t, te_LoopID := te_LoopID t, te_RequestID := te_RequestID t,
     te_TaskType := te_TaskType t, te_AgentID := te_AgentID t, te_WorktreePath := te_WorktreePath t,
     te_WorktreeBranch := te_WorktreeBranch t, te_ScenarioBranch := te_ScenarioBranch t, te_FileScope := te_FileScope t,
     te_Scenarios := te_Scenarios t\<rparr>"

definition new_run :: "bytes \<Rightarrow> TaskExecution \<Rightarrow> taskRun" where
  "new_run key t = \<lparr>tr_terminated = False, tr_key = key, tr_task = t, tr_ValidationResults = [], tr_DeveloperLoopID = [],
     tr_PriorCycles = [], tr_timer = None\<rparr>"

definition handleTaskPending :: "bytes \<Rightarrow> TaskExecution option \<Rightarrow> XEnv \<Rightarrow> XComp \<Rightarrow> XComp" where
  "handleTaskPending key entry env c =
     (case entry of
        None \<Rightarrow> c
      | Some taskExec \<Rightarrow>
          if te_Stage taskExec \<noteq> ''pending'' then c
          else case claimTaskExecution key ''pending'' ''developing'' env c of
            (False, c1) \<Rightarrow> c1
          | (True, c1) \<Rightarrow>
              let t = claimed_task (ec_ids c1) (ec_config c1) taskExec; r = length (ec_execs c1) in
              if map_of (ec_active c1) (te_EntityID t) \<noteq> None then c1
              else c1\<lparr>ec_execs := ec_execs c1 @ [new_run key t], ec_active := AList.update (te_EntityID t) r (ec_active c1),
                      ec_starting := ec_starting c1 @ [r]\<rparr>)"

definition createWorktree :: "nat \<Rightarrow> XEnv \<Rightarrow> XComp \<Rightarrow> bytes option \<times> XComp" where
  "createWorktree r env c =
     (let taskID = te_TaskID (task_of c r); c1 = emit (CreateWorktree taskID) c in
      case xe_create env of
        Inl e \<Rightarrow> (Some (''create worktree for task '' @ taskID @ '': '' @ e), c1)
      | Inr (dir, branch) \<Rightarrow> (None, upd_task r (\<lambda>t. t\<lparr>te_WorktreePath := dir, te_WorktreeBranch := branch\<rparr>) c1))"

definition init_worktree :: "nat \<Rightarrow> XEnv \<Rightarrow> XComp \<Rightarrow> XComp" where
  "init_worktree r env c0 =
     (let c = syncToStore r env (c0\<lparr>ec_starting := remove1 r (ec_starting c0)\<rparr>) in
      case createWorktree r env c of
        (Some e, c1) \<Rightarrow> markErrorLocked r (''worktree_creation_failed: '' @ e) env c1
      | (None, c1) \<Rightarrow> c1\<lparr>ec_created := ec_created c1 @ [r]\<rparr>)"

definition init_dispatch :: "nat \<Rightarrow> XEnv \<Rightarrow> XComp \<Rightarrow> XComp" where
  "init_dispatch r env c =
     dispatchDeveloperLocked r env (startExecutionTimeout r (c\<lparr>ec_created := remove1 r (ec_created c)\<rparr>))"

section \<open>Loop completions\<close>

definition currentStageTaskID :: "TaskExecution \<Rightarrow> bytes" where
  "currentStageTaskID t =
     (if te_Stage t \<in> {''developing'', ''testing'', ''building''} then te_DeveloperTaskID t
      else if te_Stage t = ''reviewing'' then te_ReviewerTaskID t
      else [])"

definition loop_relevant :: "LoopEntity \<Rightarrow> bool" where
  "loop_relevant l \<longleftrightarrow> le_Terminal l \<and> le_WorkflowSlug l = ''semspec-task-execution'' \<and> lv_TaskID (le_event l) \<noteq> []"

definition complete_step :: "nat \<Rightarrow> LoopEntity \<Rightarrow> XEnv \<Rightarrow> XComp \<Rightarrow> XComp" where
  "complete_step r l env c =
     (if lv_WorkflowStep (le_event l) \<in> {''develop'', ''test'', ''build''}
      then handleDeveloperCompleteLocked r (le_event l) (le_files l) env c
      else if lv_WorkflowStep (le_event l) = ''review''
      then handleReviewerCompleteLocked r (le_event l) (le_review l) env c
      else c)"

definition handleLoopEntityUpdate :: "LoopEntity option \<Rightarrow> XEnv \<Rightarrow> XComp \<Rightarrow> XComp" where
  "handleLoopEntityUpdate entry env c =
     (case entry of
        None \<Rightarrow> c
      | Some l \<Rightarrow>
          if \<not> loop_relevant l then c
          else case map_of (ec_routing c) (lv_TaskID (le_event l)) of
            None \<Rightarrow> c
          | Some entityID \<Rightarrow>
              (case map_of (ec_active c) entityID of
                 None \<Rightarrow> c
               | Some r \<Rightarrow> if tr_terminated (run_of c r) then c else complete_step r l env c))"

section \<open>Replay after a restart\<close>

fun find_owner :: "XComp \<Rightarrow> bytes \<Rightarrow> bytes list \<Rightarrow> bytes option" where
  "find_owner c taskID [] = None"
| "find_owner c taskID (e # es) =
     (case map_of (ec_active c) e of
        None \<Rightarrow> find_owner c taskID es
      | Some r \<Rightarrow> if currentStageTaskID (task_of c r) = taskID then Some e else find_owner c taskID es)"

definition handleLoopEntityUpdateReplay :: "LoopEntity option \<Rightarrow> XEnv \<Rightarrow> XComp \<Rightarrow> XComp" where
  "handleLoopEntityUpdateReplay entry env c =
     (case entry of
        None \<Rightarrow> c
      | Some l \<Rightarrow>
          let taskID = lv_TaskID (le_event l) in
          if \<not> loop_relevant l \<or> map_of (ec_routing c) taskID \<noteq> None then c
          else case find_owner c taskID (xi_perm (xe_io env) (map fst (ec_active c))) of
            None \<Rightarrow> c
          | Some e \<Rightarrow> c\<lparr>ec_routing := AList.update taskID e (ec_routing c), ec_replay := AList.update taskID l (ec_replay c)\<rparr>)"

definition replayed_event :: "bytes \<Rightarrow> LoopEntity option \<Rightarrow> LoopEvent" where
  "replayed_event taskID rl = \<lparr>lv_LoopID = (case rl of Some l \<Rightarrow> lv_LoopID (le_event l) | None \<Rightarrow> []), lv_TaskID = taskID,
     lv_Success = (case rl of Some l \<Rightarrow> lv_Success (le_event l) | None \<Rightarrow> False),
     lv_Outcome = (case rl of Some l \<Rightarrow> lv_Outcome (le_event l) | None \<Rightarrow> []),
     lv_Iterations = 0, lv_Error = [], lv_MaxIterations = 0, lv_WorkflowStep = []\<rparr>"

definition resume_one :: "(bytes \<Rightarrow> XEnv) \<Rightarrow> bytes \<Rightarrow> XComp \<Rightarrow> XComp" where
  "resume_one envs entityID c =
     (case map_of (ec_active c) entityID of
        None \<Rightarrow> c
      | Some r \<Rightarrow>
          let t = task_of c r; taskID = currentStageTaskID t; rl = map_of (ec_replay c) taskID;
              event = replayed_event taskID rl
          in if tr_terminated (run_of c r) \<or> taskID = [] \<or> map_of (ec_routing c) taskID \<in> {None, Some []} then c
             else if te_Stage t \<in> {''developing'', ''testing'', ''building''}
             then handleDeveloperCompleteLocked r (event\<lparr>lv_WorkflowStep := ''develop''\<rparr>) (Option.bind rl le_files) (envs entityID) c
             else handleReviewerCompleteLocked r (event\<lparr>lv_WorkflowStep := ''review''\<rparr>) (Option.bind rl le_review) (envs entityID) c)"

definition resumeStuckExecutions :: "bytes list \<Rightarrow> (bytes \<Rightarrow> XEnv) \<Rightarrow> XComp \<Rightarrow> XComp" where
  "resumeStuckExecutions order envs c = (fold (resume_one envs) order c)\<lparr>ec_replay := []\<rparr>"

section \<open>Timeouts\<close>

definition timer_fired :: "nat \<Rightarrow> nat \<Rightarrow> XEnv \<Rightarrow> XComp \<Rightarrow> XComp" where
  "timer_fired i r env c =
     markErrorLocked r (''execution timed out after '' @ xe_timeout env) env
       (c\<lparr>ec_timers := filter (\<lambda>x. fst x \<noteq> i) (ec_timers c)\<rparr>)"

section \<open>Cancelling the children of a requirement\<close>

definition cancel_one :: "bytes \<Rightarrow> bytes \<Rightarrow> bytes \<Rightarrow> XEnv \<Rightarrow> bytes \<Rightarrow> XComp \<Rightarrow> XComp" where
  "cancel_one slug requirementID reason env entityID c =
     (case map_of (ec_active c) entityID of
        None \<Rightarrow> c
      | Some r \<Rightarrow>
          let t = task_of c r; taskID = currentStageTaskID t in
          if tr_terminated (run_of c r) then c
          else if te_RequirementID t \<noteq> requirementID \<or> te_Slug t \<noteq> slug then c
          else markErrorLocked r reason env
            (if taskID = [] then c
             else case xe_loop env taskID of None \<Rightarrow> c | Some loopID \<Rightarrow> emit (CancelLoop loopID reason) c))"

definition cancelChildrenForRequirement :: "bytes \<Rightarrow> bytes \<Rightarrow> bytes \<Rightarrow> XEnv \<Rightarrow> XComp \<Rightarrow> XComp" where
  "cancelChildrenForRequirement slug requirementID reason env c =
     (if requirementID = [] then c
      else fold (cancel_one slug requirementID reason env) (xi_perm (xe_io env) (map fst (ec_active c))) c)"

definition handleRequirementUpdate :: "RequirementExecution option \<Rightarrow> XEnv \<Rightarrow> XComp \<Rightarrow> XComp" where
  "handleRequirementUpdate entry env c =
     (case entry of
        None \<Rightarrow> c
      | Some e \<Rightarrow>
          if \<not> IsTerminalReqStage (re_Stage e) \<or> re_Stage e = ''completed'' then c
          else cancelChildrenForRequirement (re_Slug e) (re_RequirementID e) (''parent_requirement_'' @ re_Stage e) env c)"

section \<open>Resetting a requirement\<close>

record ReqResetRequest =
  rr_Key :: bytes
  rr_Slug :: bytes
  rr_RequirementID :: bytes

text \<open>The deletion of the task rows: the key that could not be deleted, if any, and the count so far.\<close>

fun delete_tasks :: "XIO \<Rightarrow> bytes \<Rightarrow> bytes \<Rightarrow> TaskExecution list \<Rightarrow> nat \<Rightarrow> ExecStore \<Rightarrow> bytes option \<times> nat \<times> ExecStore" where
  "delete_tasks io slug reqID [] n st = (None, n, st)"
| "delete_tasks io slug reqID (t # ts) n st =
     (if te_RequirementID t \<noteq> reqID then delete_tasks io slug reqID ts n st
      else let key = TaskExecutionKey slug (te_TaskID t) in
        case deleteReq io key st of
          (False, st1) \<Rightarrow> (Some key, n, st1)
        | (True, st1) \<Rightarrow> delete_tasks io slug reqID ts (n + 1) st1)"

definition delete_family :: "(nat \<Rightarrow> TaskExecution) \<Rightarrow> XIO \<Rightarrow> bytes \<Rightarrow> bytes \<Rightarrow> ExecStore \<Rightarrow> ExecMutationResponse \<times> ExecStore" where
  "delete_family live io slug reqID st =
     (case listTasksForSlug live io slug st of
        (tasks, st1) \<Rightarrow>
          (case delete_tasks io slug reqID tasks 0 st1 of
             (Some key, n, st2) \<Rightarrow> (xfail (XDelete key), st2)
           | (None, n, st2) \<Rightarrow>
               let reqKey = RequirementExecutionKey slug reqID in
               (case getReq io reqKey st2 of
                  (None, st3) \<Rightarrow> ((xok [])\<lparr>xr_ResetCount := n\<rparr>, st3)
                | (Some _, st3) \<Rightarrow>
                    (case deleteReq io reqKey st3 of
                       (False, st4) \<Rightarrow> (xfail (XDelete reqKey), st4)
                     | (True, st4) \<Rightarrow> ((xok [])\<lparr>xr_ResetCount := n + 1\<rparr>, st4)))))"

definition resetRequirementFamily :: "bytes \<Rightarrow> bytes \<Rightarrow> XEnv \<Rightarrow> XComp \<Rightarrow> ExecMutationResponse \<times> XComp" where
  "resetRequirementFamily slug reqID env c =
     (let c1 = cancelChildrenForRequirement slug reqID ''requirement_reset'' env c in
      case delete_family (task_of c1) (xe_io env) slug reqID (ec_store c1) of (resp, st) \<Rightarrow> (resp, c1\<lparr>ec_store := st\<rparr>))"

definition handleReqResetMutation :: "ReqResetRequest option \<Rightarrow> XEnv \<Rightarrow> XComp \<Rightarrow> ExecMutationResponse \<times> XComp" where
  "handleReqResetMutation data env c =
     (case data of
        None \<Rightarrow> (xfail XUnmarshal, c)
      | Some req \<Rightarrow>
          if rr_Slug req \<noteq> [] \<and> rr_RequirementID req \<noteq> [] then resetRequirementFamily (rr_Slug req) (rr_RequirementID req) env c
          else if rr_Key req = [] then (xfail XRequired, c)
          else case getReq (xe_io env) (rr_Key req) (ec_store c) of
            (row, st) \<Rightarrow>
              let c1 = c\<lparr>ec_store := st\<rparr>;
                  c2 = (case row of
                          Some e \<Rightarrow> cancelChildrenForRequirement (re_Slug e) (re_RequirementID e) ''requirement_reset'' env c1
                        | None \<Rightarrow> c1)
              in (case deleteReq (xe_io env) (rr_Key req) (ec_store c2) of
                    (ok, st1) \<Rightarrow> (if ok then xok [] else xfail (XDelete (rr_Key req)), c2\<lparr>ec_store := st1\<rparr>)))"

section \<open>Start and stop\<close>

text \<open>The triples of an execution in the graph; the counters are what \<^verbatim>\<open>Sscanf\<close> reads, if anything.\<close>

record GraphTask =
  gt_Phase :: bytes
  gt_Slug :: bytes
  gt_TaskID :: bytes
  gt_Title :: bytes
  gt_ProjectID :: bytes
  gt_TraceID :: bytes
  gt_Model :: bytes
  gt_Prompt :: bytes
  gt_AgentID :: bytes
  gt_WorktreePath :: bytes
  gt_WorktreeBranch :: bytes
  gt_TDDCycle :: "int option"
  gt_MaxTDDCycles :: "int option"

definition terminalPhases :: "bytes set" where
  "terminalPhases = {''approved'', ''escalated'', ''error'', ''rejected''}"

definition recovered_task :: "bytes \<Rightarrow> GraphTask \<Rightarrow> TaskExecution" where
  "recovered_task entityID g = TaskExecution_zero\<lparr>te_EntityID := entityID, te_Slug := gt_Slug g, te_TaskID := gt_TaskID g,
     te_Title := gt_Title g, te_ProjectID := gt_ProjectID g, te_TraceID := gt_TraceID g, te_Model := gt_Model g,
     te_Prompt := gt_Prompt g, te_AgentID := gt_AgentID g, te_WorktreePath := gt_WorktreePath g,
     te_WorktreeBranch := gt_WorktreeBranch g, te_Stage := gt_Phase g, te_TDDCycle := set_if (gt_TDDCycle g) 0,
     te_MaxTDDCycles := set_if (gt_MaxTDDCycles g) 0\<rparr>"

definition recover_one :: "XEnv \<Rightarrow> bytes \<times> GraphTask \<Rightarrow> XComp \<Rightarrow> XComp" where
  "recover_one env entity c =
     (case entity of
        (entityID, g) \<Rightarrow>
          if gt_Phase g \<in> terminalPhases then c
          else let r = length (ec_execs c); x = new_run (TaskExecutionKey (gt_Slug g) (gt_TaskID g)) (recovered_task entityID g)
            in syncToStore r env (c\<lparr>ec_execs := ec_execs c @ [x], ec_active := AList.update entityID r (ec_active c)\<rparr>))"

definition reconcileFromGraph :: "(bytes \<times> GraphTask) list option \<Rightarrow> XEnv \<Rightarrow> XComp \<Rightarrow> XComp" where
  "reconcileFromGraph entities env c = (case entities of None \<Rightarrow> c | Some es \<Rightarrow> fold (recover_one env) es c)"

definition fresh_comp :: "XConfig \<Rightarrow> Ids \<Rightarrow> ErrorCategoryDef list option \<Rightarrow> (bytes \<times> exec_row) list option \<Rightarrow> XComp" where
  "fresh_comp g ids cats kv = \<lparr>ec_config = g, ec_ids = ids, ec_categories = cats,
     ec_store = \<lparr>xs_taskCache = [], xs_reqCache = [], xs_kv = kv\<rparr>, ec_execs = [], ec_active = [], ec_routing = [],
     ec_timers = [], ec_nextTimer = 0, ec_starting = [], ec_created = [], ec_validating = [], ec_replay = [], ec_outbox = []\<rparr>"

text \<open>\<^verbatim>\<open>Start\<close>: \<open>None\<close> when no sandbox is configured.\<close>

definition start_comp :: "XConfig \<Rightarrow> Ids \<Rightarrow> ErrorCategoryDef list option \<Rightarrow> (bytes \<times> exec_row) list option \<Rightarrow>
    (bytes \<times> GraphTask) list option \<Rightarrow> XEnv \<Rightarrow> XComp option" where
  "start_comp g ids cats kv entities env =
     (if xg_SandboxURL g = [] then None
      else let c = reconcileFromGraph entities env (fresh_comp g ids cats kv)
        in Some (c\<lparr>ec_store := reconcile_kv (xe_io env) (ec_store c)\<rparr>))"

definition stop_one :: "bytes \<Rightarrow> XComp \<Rightarrow> XComp" where
  "stop_one entityID c =
     (case map_of (ec_active c) entityID of None \<Rightarrow> c | Some r \<Rightarrow> discardWorktree r (stop_timer r c))"

definition stop_comp :: "bytes list \<Rightarrow> XComp \<Rightarrow> XComp" where
  "stop_comp order c = fold stop_one order c"

end
