(* ===== verification/Exec_Invariant.thy ===== *)
theory Exec_Invariant
  imports Exec_Events
begin

text \<open>
  The invariant of the execution manager and the rules by which its locked handlers keep it.  A run is
  \<^emph>\<open>idle\<close> while a handler works on it: nothing is outstanding for it, and every other run is in order.  The
  rules say how the building blocks change an idle run, and that each way a handler can end (a dispatch, a
  terminal mark) restores the invariant.  Theory \<open>Exec_Machine\<close> applies them to the events.
\<close>

section \<open>What is outstanding for a run\<close>

text \<open>The agent loops dispatched so far: developer (True) or reviewer, the run and the task ID.\<close>

fun dispatch_of :: "xeffect \<Rightarrow> (bool \<times> nat \<times> bytes) option" where
  "dispatch_of (DispatchDeveloper r i) = Some (True, r, i)"
| "dispatch_of (DispatchReviewer r i) = Some (False, r, i)"
| "dispatch_of _ = None"

definition dispatched :: "XComp \<Rightarrow> (bool \<times> nat \<times> bytes) list" where
  "dispatched c = List.map_filter dispatch_of (ec_outbox c)"

definition loops :: "bool \<Rightarrow> (bool \<times> nat \<times> bytes) list \<Rightarrow> nat \<Rightarrow> int" where
  "loops k U r = int (length (filter (\<lambda>u. fst u = k \<and> fst (snd u) = r) U))"

datatype token = Starting | Created | Validating | Looping bytes

definition tokens :: "XComp \<Rightarrow> nat \<Rightarrow> token list" where
  "tokens c r = replicate (count_list (ec_starting c) r) Starting @ replicate (count_list (ec_created c) r) Created
     @ replicate (count_list (ec_validating c) r) Validating
     @ map (\<lambda>x. Looping (fst x)) (filter (\<lambda>x. snd x = te_EntityID (task_of c r)) (ec_routing c))"

definition armed :: "XComp \<Rightarrow> nat \<Rightarrow> bool" where
  "armed c r \<longleftrightarrow> (\<exists>i. tr_timer (run_of c r) = Some i \<and> (i, r) \<in> set (ec_timers c))"

section \<open>The invariant\<close>

definition retry_bound :: "XConfig \<Rightarrow> int" where
  "retry_bound g = max 0 (max_review_retries g)"

text \<open>The counters of a run whose loops so far are \<open>U\<close>.\<close>

definition in_budget :: "XConfig \<Rightarrow> (bool \<times> nat \<times> bytes) list \<Rightarrow> nat \<Rightarrow> TaskExecution \<Rightarrow> bool" where
  "in_budget g U r t \<longleftrightarrow> 0 \<le> te_TDDCycle t \<and> te_TDDCycle t < max 1 (te_MaxTDDCycles t)
     \<and> loops True U r \<le> te_TDDCycle t + 1 \<and> loops False U r \<le> (te_TDDCycle t + 1) * (retry_bound g + 1)"

definition developing :: "XConfig \<Rightarrow> (bool \<times> nat \<times> bytes) list \<Rightarrow> nat \<Rightarrow> TaskExecution \<Rightarrow> bool" where
  "developing g U r t \<longleftrightarrow> te_Stage t = ''developing'' \<and> te_ReviewRetryCount t = 0
     \<and> loops False U r \<le> te_TDDCycle t * (retry_bound g + 1)"

definition validating :: "XConfig \<Rightarrow> (bool \<times> nat \<times> bytes) list \<Rightarrow> nat \<Rightarrow> TaskExecution \<Rightarrow> bool" where
  "validating g U r t \<longleftrightarrow> te_Stage t = ''validating'' \<and> te_ReviewRetryCount t = 0 \<and> te_FilesModified t \<noteq> []
     \<and> loops False U r \<le> te_TDDCycle t * (retry_bound g + 1)"

definition reviewing :: "int \<Rightarrow> XConfig \<Rightarrow> (bool \<times> nat \<times> bytes) list \<Rightarrow> nat \<Rightarrow> TaskExecution \<Rightarrow> bool" where
  "reviewing n g U r t \<longleftrightarrow> te_Stage t = ''reviewing'' \<and> te_ValidationPassed t \<and> te_FilesModified t \<noteq> []
     \<and> 0 \<le> te_ReviewRetryCount t \<and> te_ReviewRetryCount t \<le> retry_bound g
     \<and> loops False U r \<le> te_TDDCycle t * (retry_bound g + 1) + te_ReviewRetryCount t + n"

definition done_ok :: "XConfig \<Rightarrow> TaskExecution \<Rightarrow> bool" where
  "done_ok g t \<longleftrightarrow> te_Stage t \<in> {''approved'', ''escalated'', ''error''} \<and> (te_Stage t = ''approved'' \<longrightarrow>
     te_Verdict t = ''approved'' \<and> te_ValidationPassed t \<and> te_FilesModified t \<noteq> []
     \<and> (requireMergeObservation g \<and> xg_SandboxURL g \<noteq> [] \<and> te_WorktreePath t \<noteq> [] \<longrightarrow> te_MergeCommit t \<noteq> []))"

fun token_ok :: "XComp \<Rightarrow> nat \<Rightarrow> TaskExecution \<Rightarrow> token \<Rightarrow> bool" where
  "token_ok c r t Starting \<longleftrightarrow> developing (ec_config c) (dispatched c) r t \<and> te_TDDCycle t = 0 \<and> loops True (dispatched c) r = 0
     \<and> r \<notin> snd ` set (ec_timers c)"
| "token_ok c r t Created \<longleftrightarrow> developing (ec_config c) (dispatched c) r t \<and> te_TDDCycle t = 0 \<and> loops True (dispatched c) r = 0
     \<and> r \<notin> snd ` set (ec_timers c)"
| "token_ok c r t Validating \<longleftrightarrow> validating (ec_config c) (dispatched c) r t \<and> armed c r"
| "token_ok c r t (Looping i) \<longleftrightarrow> armed c r \<and> i \<noteq> [] \<and>
     (i = te_DeveloperTaskID t \<and> developing (ec_config c) (dispatched c) r t
      \<or> i = te_ReviewerTaskID t \<and> reviewing 1 (ec_config c) (dispatched c) r t)"

definition run_ok :: "XComp \<Rightarrow> nat \<Rightarrow> bool" where
  "run_ok c r \<longleftrightarrow> in_budget (ec_config c) (dispatched c) r (task_of c r) \<and>
     (if tr_terminated (run_of c r)
      then done_ok (ec_config c) (task_of c r) \<and> r \<notin> set (ec_starting c) \<and> r \<notin> set (ec_created c)
      else map_of (ec_active c) (te_EntityID (task_of c r)) = Some r
           \<and> (\<exists>k. tokens c r = [k] \<and> token_ok c r (task_of c r) k))"

text \<open>The shared tables; the runs in \<open>X\<close> may be active although they have just been terminated.\<close>

definition task_ids_ok :: "XComp \<Rightarrow> nat \<Rightarrow> bool" where
  "task_ids_ok c r \<longleftrightarrow> te_ValidatorTaskID (task_of c r) = []
     \<and> (te_DeveloperTaskID (task_of c r) \<noteq> [] \<longrightarrow> (True, r, te_DeveloperTaskID (task_of c r)) \<in> set (dispatched c))
     \<and> (te_ReviewerTaskID (task_of c r) \<noteq> [] \<longrightarrow> (False, r, te_ReviewerTaskID (task_of c r)) \<in> set (dispatched c))"

definition timers_ok :: "XComp \<Rightarrow> bool" where
  "timers_ok c \<longleftrightarrow> (\<forall>x \<in> set (ec_timers c). fst x < ec_nextTimer c \<and> snd x < length (ec_execs c)) \<and> distinct (map fst (ec_timers c))
     \<and> (\<forall>r < length (ec_execs c). \<forall>i. tr_timer (run_of c r) = Some i \<longrightarrow>
          i < ec_nextTimer c \<and> (\<forall>s. (i, s) \<in> set (ec_timers c) \<longrightarrow> s = r))"

definition routing_ok :: "nat set \<Rightarrow> XComp \<Rightarrow> bool" where
  "routing_ok X c \<longleftrightarrow> distinct (map fst (ec_routing c)) \<and> (\<forall>x \<in> set (ec_routing c). \<exists>r < length (ec_execs c).
     r \<notin> X \<and> \<not> tr_terminated (run_of c r) \<and> snd x = te_EntityID (task_of c r))"

definition active_ok :: "nat set \<Rightarrow> XComp \<Rightarrow> bool" where
  "active_ok X c \<longleftrightarrow> distinct (map fst (ec_active c)) \<and> (\<forall>x \<in> set (ec_active c). snd x < length (ec_execs c)
     \<and> te_EntityID (task_of c (snd x)) = fst x \<and> (snd x \<in> X \<or> \<not> tr_terminated (run_of c (snd x))))"

definition refs_ok :: "XComp \<Rightarrow> bool" where
  "refs_ok c \<longleftrightarrow> (\<forall>r \<in> set (ec_starting c) \<union> set (ec_created c) \<union> set (ec_validating c). r < length (ec_execs c))"

definition sent_ok :: "XComp \<Rightarrow> bool" where
  "sent_ok c \<longleftrightarrow> distinct (map (snd \<circ> snd) (dispatched c))
     \<and> (\<forall>u \<in> set (dispatched c). snd (snd u) \<noteq> [] \<and> fst (snd u) < length (ec_execs c))
     \<and> (\<forall>r < length (ec_execs c). task_ids_ok c r)"

definition tables_ok :: "nat set \<Rightarrow> XComp \<Rightarrow> bool" where
  "tables_ok X c \<longleftrightarrow> routing_ok X c \<and> active_ok X c \<and> refs_ok c \<and> sent_ok c \<and> timers_ok c"

definition xinv :: "XComp \<Rightarrow> bool" where
  "xinv c \<longleftrightarrow> tables_ok {} c \<and> (\<forall>r < length (ec_execs c). run_ok c r)"

text \<open>A handler works on run \<open>r\<close>, of which \<open>P\<close> holds; with \<open>a\<close>, its watchdog is armed.\<close>

definition idle :: "bool \<Rightarrow> nat \<Rightarrow> XConfig \<Rightarrow> (bool \<times> nat \<times> bytes) list \<Rightarrow> (taskRun \<Rightarrow> bool) \<Rightarrow> XComp \<Rightarrow> bool" where
  "idle a r g U P c \<longleftrightarrow> tables_ok {r} c \<and> r < length (ec_execs c) \<and> map_of (ec_active c) (te_EntityID (task_of c r)) = Some r
     \<and> tokens c r = [] \<and> (\<forall>s < length (ec_execs c). s \<noteq> r \<longrightarrow> run_ok c s) \<and> ec_config c = g \<and> dispatched c = U
     \<and> P (run_of c r) \<and> (a \<longrightarrow> armed c r)"

definition fresh_uuid :: "XEnv \<Rightarrow> (bool \<times> nat \<times> bytes) list \<Rightarrow> bool" where
  "fresh_uuid env U \<longleftrightarrow> (\<forall>u \<in> set U. \<forall>p. snd (snd u) \<noteq> p @ ''-'' @ xe_uuid env)"

section \<open>Frames\<close>

lemma upd_run_simps [simp]:
  "ec_config (upd_run r f c) = ec_config c" "ec_active (upd_run r f c) = ec_active c"
  "ec_routing (upd_run r f c) = ec_routing c" "ec_timers (upd_run r f c) = ec_timers c"
  "ec_nextTimer (upd_run r f c) = ec_nextTimer c" "ec_starting (upd_run r f c) = ec_starting c"
  "ec_created (upd_run r f c) = ec_created c" "ec_validating (upd_run r f c) = ec_validating c"
  "ec_outbox (upd_run r f c) = ec_outbox c" "ec_store (upd_run r f c) = ec_store c"
  "length (ec_execs (upd_run r f c)) = length (ec_execs c)" "dispatched (upd_run r f c) = dispatched c"
  by (simp_all add: upd_run_def dispatched_def)

lemma run_of_upd [simp]:
  "s < length (ec_execs c) \<Longrightarrow> run_of (upd_run r f c) s = (if s = r then f (run_of c r) else run_of c s)"
  by (simp add: upd_run_def nth_list_update)

definition keeps :: "(taskRun \<Rightarrow> taskRun) \<Rightarrow> bool" where
  "keeps f \<longleftrightarrow> (\<forall>x. tr_timer (f x) = tr_timer x \<and> te_EntityID (tr_task (f x)) = te_EntityID (tr_task x)
     \<and> te_DeveloperTaskID (tr_task (f x)) = te_DeveloperTaskID (tr_task x)
     \<and> te_ReviewerTaskID (tr_task (f x)) = te_ReviewerTaskID (tr_task x)
     \<and> te_ValidatorTaskID (tr_task (f x)) = te_ValidatorTaskID (tr_task x))"

lemma run_ok_cong:
  assumes "ec_config c' = ec_config c" "run_of c' s = run_of c s" "tokens c' s = tokens c s"
    "map_of (ec_active c') (te_EntityID (task_of c s)) = map_of (ec_active c) (te_EntityID (task_of c s))"
    "loops True (dispatched c') s = loops True (dispatched c) s" "loops False (dispatched c') s = loops False (dispatched c) s"
    "armed c s \<Longrightarrow> armed c' s" "s \<in> snd ` set (ec_timers c') \<Longrightarrow> s \<in> snd ` set (ec_timers c)" "s \<in> set (ec_starting c') \<longleftrightarrow> s \<in> set (ec_starting c)" "s \<in> set (ec_created c') \<longleftrightarrow> s \<in> set (ec_created c)"
    and ok: "run_ok c s"
  shows "run_ok c' s"
proof -
  have t: "token_ok c' s (task_of c s) k" if "token_ok c s (task_of c s) k" for k
    using that assms(1,5,6,7,8) by (cases k) (auto simp: developing_def validating_def reviewing_def)
  show ?thesis using ok assms t unfolding run_ok_def by (auto simp: in_budget_def)
qed

lemma idle_upd:
  assumes i: "idle a r g U P c" and k: "keeps f" and q: "\<And>x. P x \<Longrightarrow> Q (f x)"
  shows "idle a r g U Q (upd_run r f c)"
proof -
  let ?c = "upd_run r f c"
  have r: "r < length (ec_execs c)" using i by (simp add: idle_def)
  have e: "te_EntityID (task_of ?c s) = te_EntityID (task_of c s)" "tr_timer (run_of ?c s) = tr_timer (run_of c s)"
    if "s < length (ec_execs c)" for s using that k by (auto simp: keeps_def)
  have tok: "tokens ?c s = tokens c s" "armed ?c s \<longleftrightarrow> armed c s" if "s < length (ec_execs c)" for s
    using e[OF that] by (simp_all add: tokens_def armed_def)
  have ids: "task_ids_ok ?c s \<longleftrightarrow> task_ids_ok c s" if "s < length (ec_execs c)" for s
    using that k unfolding task_ids_ok_def keeps_def by (cases "s = r") simp_all
  have "run_ok ?c s" if "s < length (ec_execs c)" "s \<noteq> r" for s
    by (rule run_ok_cong[of ?c c]) (use that i tok in \<open>auto simp: idle_def\<close>)
  moreover have "tables_ok {r} ?c"
  proof -
    have t: "tables_ok {r} c" using i by (simp add: idle_def)
    have "routing_ok {r} ?c" using t unfolding tables_ok_def routing_ok_def by fastforce
    moreover have "active_ok {r} ?c" using t e unfolding tables_ok_def active_ok_def by fastforce
    moreover have "refs_ok ?c" "sent_ok ?c" "timers_ok ?c"
      using t e ids unfolding tables_ok_def refs_ok_def sent_ok_def timers_ok_def by simp_all
    ultimately show ?thesis by (simp add: tables_ok_def)
  qed
  ultimately show ?thesis
    using i r q e(1)[OF r] tok[OF r] by (simp add: idle_def)
qed

text \<open>Only the runs, the tables, the timers and the dispatches matter.\<close>

definition same_core :: "XComp \<Rightarrow> XComp \<Rightarrow> bool" where
  "same_core c d \<longleftrightarrow> ec_config d = ec_config c \<and> ec_execs d = ec_execs c \<and> ec_active d = ec_active c \<and> ec_routing d = ec_routing c
     \<and> ec_timers d = ec_timers c \<and> ec_nextTimer d = ec_nextTimer c \<and> ec_starting d = ec_starting c \<and> ec_created d = ec_created c
     \<and> ec_validating d = ec_validating c \<and> dispatched d = dispatched c"

lemma core_eqs:
  assumes "same_core c d"
  shows "tokens d r = tokens c r" "armed d r = armed c r" "token_ok d r t k = token_ok c r t k" "run_ok d r = run_ok c r"
    "tables_ok X d = tables_ok X c"
proof -
  show t: "tokens d r = tokens c r" and a: "armed d r = armed c r"
    using assms by (simp_all add: same_core_def tokens_def armed_def)
  show k: "token_ok d r t k = token_ok c r t k" for k t using assms a by (cases k) (simp_all add: same_core_def)
  show "run_ok d r = run_ok c r" using assms t k by (simp add: same_core_def run_ok_def)
  show "tables_ok X d = tables_ok X c"
    using assms by (simp add: same_core_def tables_ok_def routing_ok_def active_ok_def refs_ok_def sent_ok_def timers_ok_def task_ids_ok_def)
qed

lemma idle_core: "idle a r g U P c \<Longrightarrow> same_core c d \<Longrightarrow> idle a r g U P d"
  using core_eqs[of c d] by (simp add: idle_def same_core_def)

lemma xinv_core: "xinv c \<Longrightarrow> same_core c d \<Longrightarrow> xinv d"
  using core_eqs[of c d] by (simp add: xinv_def same_core_def)

lemma same_core_store [simp]: "same_core c (c\<lparr>ec_store := st\<rparr>)" "same_core c (c\<lparr>ec_replay := rp\<rparr>)"
  by (simp_all add: same_core_def dispatched_def)

lemma dispatched_emit:
  "dispatched (emit e c) = dispatched c @ (case dispatch_of e of None \<Rightarrow> [] | Some u \<Rightarrow> [u])"
  by (simp add: dispatched_def emit_def List.map_filter_def split: option.splits)

lemma same_core_emit [simp]: "dispatch_of e = None \<Longrightarrow> same_core c (emit e c)"
  by (simp add: same_core_def dispatched_emit) (simp add: emit_def)

lemma same_core_refl [simp]: "same_core c c"
  by (simp add: same_core_def)

lemma same_core_discard [simp]: "same_core c (discardWorktree r c)"
  by (simp add: discardWorktree_def)

lemma idle_mono: "idle a r g U P c \<Longrightarrow> (\<And>x. P x \<Longrightarrow> Q x) \<Longrightarrow> idle a r g U Q c"
  by (auto simp: idle_def)

lemma idle_disarm: "idle a r g U P c \<Longrightarrow> idle False r g U P c"
  by (simp add: idle_def)

text \<open>A property of a run that does not read the field \<^verbatim>\<open>UpdatedAt\<close> or the timer handle.\<close>

definition clockless :: "(taskRun \<Rightarrow> bool) \<Rightarrow> bool" where
  "clockless P \<longleftrightarrow> (\<forall>x t i. P x \<longrightarrow> P (x\<lparr>tr_task := (tr_task x)\<lparr>te_UpdatedAt := t\<rparr>\<rparr>) \<and> P (x\<lparr>tr_timer := i\<rparr>))"

lemma idle_task:
  assumes "idle a r g U P c" "\<And>x. P x \<Longrightarrow> Q (x\<lparr>tr_task := f (tr_task x)\<rparr>)"
    and "\<And>t. te_EntityID (f t) = te_EntityID t \<and> te_DeveloperTaskID (f t) = te_DeveloperTaskID t
      \<and> te_ReviewerTaskID (f t) = te_ReviewerTaskID t \<and> te_ValidatorTaskID (f t) = te_ValidatorTaskID t"
  shows "idle a r g U Q (upd_task r f c)"
  unfolding upd_task_def by (rule idle_upd[OF assms(1)]) (use assms in \<open>auto simp: keeps_def\<close>)

lemma idle_sync:
  assumes "idle a r g U P c" "clockless P"
  shows "idle a r g U P (syncToStore r env c)"
proof -
  have "idle a r g U P (upd_task r (\<lambda>t. t\<lparr>te_UpdatedAt := xi_now (xe_io env)\<rparr>) c)"
    by (rule idle_task[OF assms(1)]) (use assms(2) in \<open>auto simp: clockless_def\<close>)
  then show ?thesis by (auto simp: syncToStore_def Let_def intro: idle_core)
qed

section \<open>Timers\<close>

lemma idle_drop_timer:
  assumes i: "idle a r g U P c" and j: "\<And>s. s < length (ec_execs c) \<Longrightarrow> s \<noteq> r \<Longrightarrow> tr_timer (run_of c s) = Some j \<Longrightarrow> (j, s) \<notin> set (ec_timers c)"
  shows "idle False r g U P (c\<lparr>ec_timers := filter (\<lambda>x. fst x \<noteq> j) (ec_timers c)\<rparr>)" (is "idle _ _ _ _ _ ?c")
proof -
  have f: "dispatched ?c = dispatched c" by (simp add: dispatched_def)
  have "armed ?c s" if "armed c s" "s < length (ec_execs c)" "s \<noteq> r" for s
    using that j by (auto simp: armed_def)
  then have runs: "run_ok ?c s" if "s < length (ec_execs c)" "s \<noteq> r" for s
    by (intro run_ok_cong[of ?c c]) (use that i in \<open>auto simp: idle_def f tokens_def\<close>)
  have t: "tables_ok {r} c" using i by (simp add: idle_def)
  then have "timers_ok ?c" unfolding tables_ok_def timers_ok_def by (simp add: distinct_map_filter)
  then have "tables_ok {r} ?c"
    using t by (simp add: tables_ok_def f routing_ok_def active_ok_def refs_ok_def sent_ok_def task_ids_ok_def)
  then show ?thesis using i runs by (simp add: idle_def f tokens_def)
qed

lemma idle_stop:
  assumes i: "idle a r g U P c"
  shows "idle False r g U P (stop_timer r c)"
proof (cases "tr_timer (run_of c r)")
  case None
  then show ?thesis using i by (simp add: stop_timer_def idle_disarm)
next
  case (Some j)
  have "timers_ok c" "r < length (ec_execs c)" using i by (simp_all add: idle_def tables_ok_def)
  then have "(j, s) \<notin> set (ec_timers c)" if "s \<noteq> r" for s using that Some unfolding timers_ok_def by blast
  then show ?thesis using idle_drop_timer[OF i, of j] Some by (simp add: stop_timer_def)
qed

lemma idle_start:
  assumes i: "idle a r g U P c" and p: "clockless P"
  shows "idle True r g U P (startExecutionTimeout r c)"
proof -
  let ?n = "ec_nextTimer c"
  let ?d = "c\<lparr>ec_timers := ec_timers c @ [(?n, r)], ec_nextTimer := ?n + 1\<rparr>"
  let ?c = "startExecutionTimeout r c"
  have e: "ec_active ?c = ec_active c" "ec_routing ?c = ec_routing c" "ec_nextTimer ?c = ?n + 1" "ec_timers ?c = ec_timers c @ [(?n, r)]"
    "ec_starting ?c = ec_starting c" "ec_created ?c = ec_created c" "ec_validating ?c = ec_validating c"
    "ec_config ?c = ec_config c" "dispatched ?c = dispatched c" "length (ec_execs ?c) = length (ec_execs c)"
    by (simp_all add: startExecutionTimeout_def) (simp add: dispatched_def)
  have t: "timers_ok c" and r: "r < length (ec_execs c)" using i by (simp_all add: idle_def tables_ok_def)
  have run: "run_of ?c s = (if s = r then (run_of c r)\<lparr>tr_timer := Some ?n\<rparr> else run_of c s)" if "s < length (ec_execs c)" for s
    using that by (simp add: startExecutionTimeout_def)
  have tok: "tokens ?c s = tokens c s" if "s < length (ec_execs c)" for s
    using that by (simp add: tokens_def e run)
  have "run_ok ?c s" if "s < length (ec_execs c)" "s \<noteq> r" for s
    by (rule run_ok_cong[of ?c c]) (use that i in \<open>auto simp: idle_def e tok run armed_def\<close>)
  moreover have "timers_ok ?c" unfolding timers_ok_def
  proof (intro conjI)
    show "\<forall>x \<in> set (ec_timers ?c). fst x < ec_nextTimer ?c \<and> snd x < length (ec_execs ?c)" using t r by (auto simp: timers_ok_def e)
    show "distinct (map fst (ec_timers ?c))" using t by (auto simp: timers_ok_def e)
    show "\<forall>s < length (ec_execs ?c). \<forall>i. tr_timer (run_of ?c s) = Some i \<longrightarrow>
          i < ec_nextTimer ?c \<and> (\<forall>u. (i, u) \<in> set (ec_timers ?c) \<longrightarrow> u = s)"
    proof (intro allI impI)
      fix s i assume s: "s < length (ec_execs ?c)" and tm: "tr_timer (run_of ?c s) = Some i"
      have lt: "\<forall>x \<in> set (ec_timers c). fst x < ?n" using t by (simp add: timers_ok_def)
      show "i < ec_nextTimer ?c \<and> (\<forall>u. (i, u) \<in> set (ec_timers ?c) \<longrightarrow> u = s)"
      proof (cases "s = r")
        case True
        then show ?thesis using s tm lt by (auto simp: e run)
      next
        case False
        then have "tr_timer (run_of c s) = Some i" using s tm by (simp add: e run)
        then have "i < ?n \<and> (\<forall>u. (i, u) \<in> set (ec_timers c) \<longrightarrow> u = s)" using t s by (simp add: timers_ok_def e)
        then show ?thesis by (auto simp: e)
      qed
    qed
  qed
  moreover have "routing_ok {r} ?c" "active_ok {r} ?c" "refs_ok ?c" "sent_ok ?c"
  proof -
    have x: "tables_ok {r} c" using i by (simp add: idle_def)
    show "routing_ok {r} ?c" using x unfolding tables_ok_def routing_ok_def e by (fastforce simp: run)
    show "active_ok {r} ?c" using x unfolding tables_ok_def active_ok_def e by (fastforce simp: run)
    show "refs_ok ?c" using x by (simp add: tables_ok_def refs_ok_def e)
    have "task_ids_ok ?c s = task_ids_ok c s" if "s < length (ec_execs c)" for s
      using that by (simp add: task_ids_ok_def e run)
    then show "sent_ok ?c" using x by (simp add: tables_ok_def sent_ok_def e)
  qed
  moreover have "armed ?c r" using r by (simp add: armed_def run e)
  ultimately show ?thesis
    using i p r by (simp add: idle_def tables_ok_def e run tok clockless_def)
qed

lemma idle_reset: "idle a r g U P c \<Longrightarrow> clockless P \<Longrightarrow> idle True r g U P (resetTimeoutLocked r c)"
  unfolding resetTimeoutLocked_def by (rule idle_start[OF idle_stop])

section \<open>Ending a handler\<close>

lemma idle_other_entity:
  assumes "idle a r g U P c" "s < length (ec_execs c)" "s \<noteq> r" "\<not> tr_terminated (run_of c s)"
  shows "te_EntityID (task_of c s) \<noteq> te_EntityID (task_of c r)"
proof -
  have "map_of (ec_active c) (te_EntityID (task_of c s)) = Some s" using assms by (auto simp: idle_def run_ok_def)
  moreover have "map_of (ec_active c) (te_EntityID (task_of c r)) = Some r" using assms by (simp add: idle_def)
  ultimately show ?thesis using assms(3) by auto
qed

lemma sent_once: "sent_ok c \<Longrightarrow> (j, r, i) \<in> set (dispatched c) \<Longrightarrow> (k, s, i) \<in> set (dispatched c) \<Longrightarrow> j = k \<and> r = s"
  unfolding sent_ok_def distinct_map by (auto dest!: inj_onD[of _ _ "(j, r, i)" "(k, s, i)"])

text \<open>A route belongs to a live run, whose one outstanding loop it is.\<close>

lemma route_owner:
  assumes "run_ok c s" "\<not> tr_terminated (run_of c s)" "x \<in> set (ec_routing c)" "snd x = te_EntityID (task_of c s)"
  shows "tokens c s = [Looping (fst x)] \<and> token_ok c s (task_of c s) (Looping (fst x))"
proof -
  have "Looping (fst x) \<in> set (tokens c s)" using assms(3,4) by (auto simp: tokens_def)
  then show ?thesis using assms(1,2) by (auto simp: run_ok_def)
qed

lemma idle_route_free:
  assumes i: "idle a r g U P c" and x: "x \<in> set (ec_routing c)"
  shows "fst x \<notin> {[], te_DeveloperTaskID (task_of c r), te_ReviewerTaskID (task_of c r), te_ValidatorTaskID (task_of c r)}"
proof -
  have t: "tables_ok {r} c" using i by (simp add: idle_def)
  obtain s where s: "s < length (ec_execs c)" "s \<noteq> r" "\<not> tr_terminated (run_of c s)" "snd x = te_EntityID (task_of c s)"
    using t x by (auto simp: tables_ok_def routing_ok_def)
  have "token_ok c s (task_of c s) (Looping (fst x))" using route_owner[of c s x] i s x by (simp add: idle_def)
  then have ne: "fst x \<noteq> []" and own: "fst x = te_DeveloperTaskID (task_of c s) \<or> fst x = te_ReviewerTaskID (task_of c s)" by auto
  have sent: "sent_ok c" using t by (simp add: tables_ok_def)
  have ids: "task_ids_ok c s" "task_ids_ok c r" using sent s(1) i by (auto simp: sent_ok_def idle_def)
  obtain k where "(k, s, fst x) \<in> set (dispatched c)" using ids(1) own ne unfolding task_ids_ok_def by auto
  then have "(j, r, fst x) \<notin> set (dispatched c)" for j using sent_once[OF sent] s(2) by blast
  then show ?thesis using ids(2) ne unfolding task_ids_ok_def by auto
qed

lemma cleanup_restores:
  assumes i0: "idle a r g U P c0"
    and p: "\<And>x. P x \<Longrightarrow> tr_terminated x \<and> in_budget g U r (tr_task x) \<and> done_ok g (tr_task x)"
  shows "xinv (cleanupExecutionLocked r c0)"
proof -
  let ?c = "stop_timer r c0"
  let ?d = "cleanupExecutionLocked r c0"
  let ?e = "te_EntityID (task_of ?c r)"
  have i: "idle False r g U P ?c" by (rule idle_stop[OF i0])
  have t: "tables_ok {r} ?c" and r: "r < length (ec_execs ?c)" and act: "map_of (ec_active ?c) ?e = Some r" using i by (simp_all add: idle_def)
  have nf: "k \<notin> fst ` set (ec_routing ?c)" if "k \<in> {te_DeveloperTaskID (task_of ?c r), te_ReviewerTaskID (task_of ?c r), te_ValidatorTaskID (task_of ?c r)}" for k
    using idle_route_free[OF i] that by auto
  have d: "?d = ?c\<lparr>ec_active := AList.delete ?e (ec_active ?c)\<rparr>"
    using nf by (simp add: cleanupExecutionLocked_def Let_def)
  have f: "ec_execs ?d = ec_execs ?c" "ec_routing ?d = ec_routing ?c" "ec_starting ?d = ec_starting ?c" "ec_created ?d = ec_created ?c"
    "ec_validating ?d = ec_validating ?c" "dispatched ?d = dispatched ?c" "ec_config ?d = ec_config ?c" "ec_timers ?d = ec_timers ?c"
    "ec_nextTimer ?d = ec_nextTimer ?c" "tokens ?d s = tokens ?c s" "armed ?d s = armed ?c s"
    and a: "ec_active ?d = AList.delete ?e (ec_active ?c)" for s
    by (simp_all add: d dispatched_def tokens_def armed_def)
  have "run_ok ?d s" if s: "s < length (ec_execs ?c)" "s \<noteq> r" for s
  proof (cases "tr_terminated (run_of ?c s)")
    case True
    then show ?thesis using i s by (auto simp: idle_def run_ok_def f)
  next
    case False
    show ?thesis
      by (rule run_ok_cong[of ?d ?c])
        (use i s idle_other_entity[OF i s False] in \<open>auto simp: idle_def f a AList.delete_conv'\<close>)
  qed
  moreover have "run_ok ?d r"
  proof -
    have "tokens ?c r = []" using i by (simp add: idle_def)
    then have "r \<notin> set (ec_starting ?c)" "r \<notin> set (ec_created ?c)" by (simp_all add: tokens_def count_list_0_iff)
    moreover have "P (run_of ?c r)" using i by (simp add: idle_def)
    moreover have "ec_config ?c = g" "dispatched ?c = U" using i by (simp_all add: idle_def)
    ultimately show ?thesis using p by (simp add: run_ok_def f)
  qed
  moreover have "tables_ok {} ?d"
  proof -
    have "active_ok {} ?d" unfolding active_ok_def
    proof (intro conjI ballI)
      show "distinct (map fst (ec_active ?d))" using t by (simp add: a AList.distinct_delete tables_ok_def active_ok_def)
      fix x assume "x \<in> set (ec_active ?d)"
      then have x: "x \<in> set (ec_active ?c)" "fst x \<noteq> ?e" by (auto simp: a AList.delete_eq)
      then have y: "snd x < length (ec_execs ?c)" "te_EntityID (task_of ?c (snd x)) = fst x" "snd x = r \<or> \<not> tr_terminated (run_of ?c (snd x))"
        using t by (auto simp: tables_ok_def active_ok_def)
      then show "snd x < length (ec_execs ?d)" "te_EntityID (task_of ?d (snd x)) = fst x"
        "snd x \<in> {} \<or> \<not> tr_terminated (run_of ?d (snd x))" using x(2) by (auto simp: f)
    qed
    moreover have "routing_ok {} ?d" using t by (fastforce simp: tables_ok_def routing_ok_def f)
    moreover have "refs_ok ?d" "sent_ok ?d" "timers_ok ?d"
      using t by (simp_all add: tables_ok_def refs_ok_def sent_ok_def timers_ok_def task_ids_ok_def f)
    ultimately show ?thesis by (simp add: tables_ok_def)
  qed
  ultimately show ?thesis unfolding xinv_def f by blast
qed

text \<open>What holds of every run a handler works on.\<close>

definition live_run :: "XConfig \<Rightarrow> (bool \<times> nat \<times> bytes) list \<Rightarrow> nat \<Rightarrow> taskRun \<Rightarrow> bool" where
  "live_run g U r x \<longleftrightarrow> \<not> tr_terminated x \<and> in_budget g U r (tr_task x)"

definition ended_run :: "XConfig \<Rightarrow> (bool \<times> nat \<times> bytes) list \<Rightarrow> nat \<Rightarrow> taskRun \<Rightarrow> bool" where
  "ended_run g U r x \<longleftrightarrow> tr_terminated x \<and> in_budget g U r (tr_task x)"

lemma in_budget_cong:
  "te_TDDCycle t = te_TDDCycle u \<Longrightarrow> te_MaxTDDCycles t = te_MaxTDDCycles u \<Longrightarrow> in_budget g U r t = in_budget g U r u"
  by (simp add: in_budget_def)

lemma idle_terminated:
  "idle a r g U (live_run g U r) c \<Longrightarrow> idle a r g U (ended_run g U r) (set_terminated r c)"
  unfolding set_terminated_def by (erule idle_upd) (simp_all add: keeps_def live_run_def ended_run_def)

lemma mark_error_restores:
  assumes i: "idle a r g U (live_run g U r) c"
  shows "xinv (markErrorLocked r reason env c)"
proof -
  let ?P = "\<lambda>x. ended_run g U r x \<and> te_Stage (tr_task x) = ''error''"
  let ?f = "\<lambda>t. t\<lparr>te_Stage := ''error'', te_ErrorReason := reason, te_ErrorClass := ClassifyErrorReason reason\<rparr>"
  have "idle a r g U (ended_run g U r) (discardWorktree r (set_terminated r c))"
    by (rule idle_core[OF idle_terminated[OF i]]) simp
  then have "idle a r g U ?P (upd_task r ?f (discardWorktree r (set_terminated r c)))"
    by (rule idle_task) (simp_all add: ended_run_def in_budget_def)
  then have "idle a r g U ?P (syncToStore r env (upd_task r ?f (discardWorktree r (set_terminated r c))))"
    by (rule idle_sync) (simp add: clockless_def ended_run_def in_budget_def)
  then have "xinv (cleanupExecutionLocked r (syncToStore r env (upd_task r ?f (discardWorktree r (set_terminated r c)))))"
    by (rule cleanup_restores) (simp add: ended_run_def done_ok_def)
  moreover have "\<not> tr_terminated (run_of c r)" using i by (simp add: idle_def live_run_def)
  ultimately show ?thesis by (simp add: markErrorLocked_def)
qed

lemma same_core_recovery [simp]: "same_core c (request_recovery r reason env c)"
  by (simp add: request_recovery_def emitRecoveryRequested_def Let_def same_core_def dispatched_def emit_def
      List.map_filter_def split: prod.splits)

lemma mark_escalated_restores:
  assumes i: "idle a r g U (live_run g U r) c"
  shows "xinv (markEscalatedLocked r reason env c)"
proof -
  let ?P = "\<lambda>x. ended_run g U r x \<and> te_Stage (tr_task x) = ''escalated''"
  let ?f = "\<lambda>t. t\<lparr>te_Stage := ''escalated'', te_EscalationReason := reason\<rparr>"
  have "idle a r g U (ended_run g U r) (discardWorktree r (set_terminated r c))"
    by (rule idle_core[OF idle_terminated[OF i]]) simp
  then have "idle a r g U ?P (upd_task r ?f (discardWorktree r (set_terminated r c)))"
    by (rule idle_task) (simp_all add: ended_run_def in_budget_def)
  then have "idle a r g U ?P (syncToStore r env (upd_task r ?f (discardWorktree r (set_terminated r c))))"
    by (rule idle_sync) (simp add: clockless_def ended_run_def in_budget_def)
  then have "idle a r g U ?P (request_recovery r reason env (syncToStore r env (upd_task r ?f (discardWorktree r (set_terminated r c)))))"
    by (rule idle_core) simp
  then have "xinv (cleanupExecutionLocked r (request_recovery r reason env
      (syncToStore r env (upd_task r ?f (discardWorktree r (set_terminated r c))))))"
    by (rule cleanup_restores) (simp add: ended_run_def done_ok_def)
  moreover have "\<not> tr_terminated (run_of c r)" using i by (simp add: idle_def live_run_def)
  ultimately show ?thesis by (simp add: markEscalatedLocked_def)
qed

section \<open>Dispatches\<close>

lemma update_new_key: "k \<notin> fst ` set al \<Longrightarrow> AList.update k v al = al @ [(k, v)]"
  by (induction al) auto

lemma loops_snoc: "loops k (U @ [(j, s, i)]) r = loops k U r + (if j = k \<and> s = r then 1 else 0)"
  by (simp add: loops_def)

lemma route_sent:
  assumes i: "idle a r g U P c" and x: "x \<in> set (ec_routing c)"
  shows "fst x \<in> (snd \<circ> snd) ` set U"
proof -
  have t: "tables_ok {r} c" and u: "dispatched c = U" using i by (simp_all add: idle_def)
  obtain s where s: "s < length (ec_execs c)" "s \<noteq> r" "\<not> tr_terminated (run_of c s)" "snd x = te_EntityID (task_of c s)"
    using t x by (auto simp: tables_ok_def routing_ok_def)
  have "token_ok c s (task_of c s) (Looping (fst x))" using route_owner[of c s x] i s x by (simp add: idle_def)
  moreover have "task_ids_ok c s" using t s(1) by (auto simp: tables_ok_def sent_ok_def)
  ultimately obtain k where "(k, s, fst x) \<in> set U" unfolding task_ids_ok_def u by auto
  then show ?thesis by force
qed

definition set_task_id :: "bool \<Rightarrow> bytes \<Rightarrow> TaskExecution \<Rightarrow> TaskExecution" where
  "set_task_id k i t = (if k then t\<lparr>te_DeveloperTaskID := i\<rparr> else t\<lparr>te_ReviewerTaskID := i\<rparr>)"

lemma set_task_id_simps [simp]:
  "te_EntityID (set_task_id k i t) = te_EntityID t" "te_ValidatorTaskID (set_task_id k i t) = te_ValidatorTaskID t"
  "in_budget g U r (set_task_id k i t) = in_budget g U r t" "developing g U r (set_task_id k i t) = developing g U r t"
  "reviewing n g U r (set_task_id k i t) = reviewing n g U r t"
  by (simp_all add: set_task_id_def in_budget_def developing_def reviewing_def)

lemma loop_restores:
  assumes i: "idle True r g U P c" and u: "i \<notin> (snd \<circ> snd) ` set U" "i \<noteq> []" and k: "dispatch_of e = Some (k, r, i)"
    and p: "\<And>x. P x \<Longrightarrow> \<not> tr_terminated x \<and> in_budget g (U @ [(k, r, i)]) r (tr_task x)
      \<and> (if k then developing g (U @ [(k, r, i)]) r (tr_task x) else reviewing 1 g (U @ [(k, r, i)]) r (tr_task x))"
  shows "xinv (emit e ((upd_task r (set_task_id k i) c)\<lparr>ec_routing := AList.update i (te_EntityID (task_of c r)) (ec_routing c)\<rparr>))"
    (is "xinv ?d")
proof -
  let ?U = "U @ [(k, r, i)]"
  have t: "tables_ok {r} c" and r: "r < length (ec_execs c)" and cu: "dispatched c = U" and cg: "ec_config c = g"
    and act: "map_of (ec_active c) (te_EntityID (task_of c r)) = Some r" and nt: "tokens c r = []" and arm: "armed c r"
    and pr: "P (run_of c r)" using i by (simp_all add: idle_def)
  have "i \<notin> fst ` set (ec_routing c)" using route_sent[OF i] u(1) by auto
  then have rt: "ec_routing ?d = ec_routing c @ [(i, te_EntityID (task_of c r))]" by (simp add: emit_def update_new_key)
  have f: "ec_starting ?d = ec_starting c" "ec_created ?d = ec_created c" "ec_validating ?d = ec_validating c" "ec_active ?d = ec_active c"
    "ec_config ?d = g" "ec_timers ?d = ec_timers c" "ec_nextTimer ?d = ec_nextTimer c" "length (ec_execs ?d) = length (ec_execs c)"
    by (simp_all add: emit_def upd_task_def cg)
  have du: "dispatched ?d = ?U" using k by (simp add: dispatched_emit flip: cu) (simp add: dispatched_def upd_task_def)
  have run: "run_of ?d s = (if s = r then (run_of c r)\<lparr>tr_task := set_task_id k i (task_of c r)\<rparr> else run_of c s)" if "s < length (ec_execs c)" for s
    using run_of_upd[OF that] by (simp add: emit_def upd_task_def)
  have tm: "tr_timer (run_of ?d s) = tr_timer (run_of c s)" if "s < length (ec_execs c)" for s using that by (simp add: run)
  have armd: "armed ?d s = armed c s" if "s < length (ec_execs c)" for s using that by (simp add: armed_def f tm)
  have "run_ok ?d s" if s: "s < length (ec_execs c)" "s \<noteq> r" for s
  proof (cases "tr_terminated (run_of c s)")
    case True
    have "run_ok c s" using i s by (simp add: idle_def)
    then show ?thesis using s True by (simp add: run_ok_def run f du in_budget_def loops_snoc cu cg)
  next
    case False
    have "tokens ?d s = tokens c s" using s idle_other_entity[OF i s False] by (simp add: tokens_def run rt f)
    then show ?thesis
      by (intro run_ok_cong[of ?d c]) (use i s in \<open>auto simp: idle_def run f armd du loops_snoc\<close>)
  qed
  moreover have "run_ok ?d r"
  proof -
    have "tokens ?d r = [Looping i]" using nt r by (simp add: tokens_def run rt f)
    moreover have "token_ok ?d r (set_task_id k i (task_of c r)) (Looping i)"
      unfolding token_ok.simps armd[OF r] du f set_task_id_simps
      using p[OF pr] arm u(2) by (cases k) (simp_all add: set_task_id_def)
    ultimately show ?thesis using p[OF pr] act r by (simp add: run_ok_def run f du)
  qed
  moreover have "tables_ok {} ?d"
  proof -
    have "routing_ok {} ?d"
    proof -
      have "\<exists>s < length (ec_execs c). s \<noteq> r \<and> \<not> tr_terminated (run_of c s) \<and> snd x = te_EntityID (task_of c s)"
        if "x \<in> set (ec_routing c)" for x using t that by (auto simp: tables_ok_def routing_ok_def)
      then have "\<exists>s < length (ec_execs ?d). \<not> tr_terminated (run_of ?d s) \<and> snd x = te_EntityID (task_of ?d s)"
        if "x \<in> set (ec_routing c)" for x using that unfolding f by (metis run)
      moreover have "\<not> tr_terminated (run_of ?d r)" "te_EntityID (task_of ?d r) = te_EntityID (task_of c r)"
        using p[OF pr] r by (simp_all add: run)
      ultimately show ?thesis
        using t r \<open>i \<notin> fst ` set (ec_routing c)\<close> unfolding tables_ok_def routing_ok_def rt
        by (auto simp: f simp del: length_list_update)
    qed
    moreover have "active_ok {} ?d"
    proof -
      have "\<not> tr_terminated (run_of c r)" using p[OF pr] by simp
      then have "te_EntityID (task_of ?d s) = te_EntityID (task_of c s) \<and> (tr_terminated (run_of ?d s) \<longleftrightarrow> tr_terminated (run_of c s))"
        "s = r \<or> \<not> tr_terminated (run_of c s) \<Longrightarrow> \<not> tr_terminated (run_of c s)" if "s < length (ec_execs c)" for s
        using that by (auto simp: run)
      then show ?thesis using t unfolding tables_ok_def active_ok_def f by auto
    qed
    moreover have "refs_ok ?d" using t by (simp add: tables_ok_def refs_ok_def f)
    moreover have "timers_ok ?d" using t tm by (simp add: tables_ok_def timers_ok_def f)
    moreover have "sent_ok ?d"
    proof -
      have "task_ids_ok ?d s" if "s < length (ec_execs c)" for s
        using t that by (auto simp: tables_ok_def sent_ok_def task_ids_ok_def run du cu set_task_id_def)
      then show ?thesis using t u r unfolding tables_ok_def sent_ok_def du by (auto simp: f cu)
    qed
    ultimately show ?thesis by (simp add: tables_ok_def)
  qed
  ultimately show ?thesis unfolding xinv_def f by blast
qed

lemma guard_core:
  "dispatch_guard at r env c = (x, d) \<Longrightarrow> same_core c d"
  by (auto simp: dispatch_guard_def parentRequirementTerminated_def Let_def split: option.splits prod.splits if_splits)

definition may_develop :: "XConfig \<Rightarrow> (bool \<times> nat \<times> bytes) list \<Rightarrow> nat \<Rightarrow> taskRun \<Rightarrow> bool" where
  "may_develop g U r x \<longleftrightarrow> live_run g U r x \<and> developing g U r (tr_task x) \<and> loops True U r \<le> te_TDDCycle (tr_task x)"

definition may_validate :: "XConfig \<Rightarrow> (bool \<times> nat \<times> bytes) list \<Rightarrow> nat \<Rightarrow> taskRun \<Rightarrow> bool" where
  "may_validate g U r x \<longleftrightarrow> live_run g U r x \<and> validating g U r (tr_task x)"

definition may_review :: "XConfig \<Rightarrow> (bool \<times> nat \<times> bytes) list \<Rightarrow> nat \<Rightarrow> taskRun \<Rightarrow> bool" where
  "may_review g U r x \<longleftrightarrow> live_run g U r x \<and> reviewing 0 g U r (tr_task x)"

lemma fresh_id: "fresh_uuid env U \<Longrightarrow> p @ ''-'' @ xe_uuid env \<notin> (snd \<circ> snd) ` set U"
  by (auto simp: fresh_uuid_def)

lemma dispatch_developer_restores:
  assumes i: "idle True r g U (may_develop g U r) c" and u: "fresh_uuid env U"
  shows "xinv (dispatchDeveloperLocked r env c)"
proof -
  obtain x d where g: "dispatch_guard AtDeveloper r env c = (x, d)" by fastforce
  have id: "idle True r g U (may_develop g U r) d" by (rule idle_core[OF i guard_core[OF g]])
  then have il: "idle True r g U (live_run g U r) d" by (rule idle_mono) (simp add: may_develop_def)
  let ?i = "''dev-'' @ te_EntityID (task_of d r) @ ''-'' @ xe_uuid env"
  have n: "?i \<notin> (snd \<circ> snd) ` set U" using fresh_id[OF u, of "''dev-'' @ te_EntityID (task_of d r)"] by simp
  have "xinv (emit (DispatchDeveloper r ?i) ((upd_task r (set_task_id True ?i) d)\<lparr>ec_routing :=
      AList.update ?i (te_EntityID (task_of d r)) (ec_routing d)\<rparr>))"
    by (rule loop_restores[OF id n]) (simp_all add: may_develop_def live_run_def in_budget_def loops_snoc developing_def)
  then show ?thesis using g mark_error_restores[OF il]
    by (simp add: dispatchDeveloperLocked_def Let_def upd_task_def set_task_id_def split: option.splits)
qed

lemma dispatch_reviewer_restores:
  assumes i: "idle True r g U (may_review g U r) c" and u: "fresh_uuid env U"
  shows "xinv (dispatchReviewerLocked r env c)"
proof -
  obtain x d where g: "dispatch_guard AtReviewer r env c = (x, d)" by fastforce
  have id: "idle True r g U (may_review g U r) d" by (rule idle_core[OF i guard_core[OF g]])
  then have il: "idle True r g U (live_run g U r) d" by (rule idle_mono) (simp add: may_review_def)
  let ?i = "''rev-'' @ te_EntityID (task_of d r) @ ''-'' @ xe_uuid env"
  have n: "?i \<notin> (snd \<circ> snd) ` set U" using fresh_id[OF u, of "''rev-'' @ te_EntityID (task_of d r)"] by simp
  have "xinv (emit (DispatchReviewer r ?i) ((upd_task r (set_task_id False ?i) d)\<lparr>ec_routing :=
      AList.update ?i (te_EntityID (task_of d r)) (ec_routing d)\<rparr>))"
    by (rule loop_restores[OF id n])
      (simp_all add: may_review_def live_run_def in_budget_def loops_snoc reviewing_def algebra_simps)
  then show ?thesis using g mark_error_restores[OF il]
    by (simp add: dispatchReviewerLocked_def Let_def upd_task_def set_task_id_def split: option.splits)
qed

text \<open>Handing the run to another goroutine.\<close>

lemma put_token:
  assumes i: "idle a r g U P c"
    and same: "ec_execs d = ec_execs c" "ec_config d = ec_config c" "ec_active d = ec_active c" "ec_timers d = ec_timers c"
      "ec_nextTimer d = ec_nextTimer c" "dispatched d = dispatched c" "ec_routing d = ec_routing c"
    and more: "set (ec_starting d) \<subseteq> insert r (set (ec_starting c))" "set (ec_created d) \<subseteq> insert r (set (ec_created c))"
      "set (ec_validating d) \<subseteq> insert r (set (ec_validating c))"
    and tok: "tokens d r = [k]" "\<And>s. s \<noteq> r \<Longrightarrow> tokens d s = tokens c s"
    and p: "\<And>x. P x \<Longrightarrow> live_run g U r x \<and> token_ok c r (tr_task x) k"
  shows "xinv d"
proof -
  have t: "tables_ok {r} c" and r: "r < length (ec_execs c)" and cu: "dispatched c = U" and cg: "ec_config c = g"
    and act: "map_of (ec_active c) (te_EntityID (task_of c r)) = Some r" and pr: "P (run_of c r)" using i by (simp_all add: idle_def)
  have arm: "armed d s = armed c s" for s by (simp add: armed_def same)
  have tk: "token_ok d s u j = token_ok c s u j" for s u j by (cases j) (simp_all add: same arm)
  have "run_ok d s" if s: "s < length (ec_execs c)" "s \<noteq> r" for s
    using i s more(1,2) tok(2)[OF s(2)] by (fastforce simp: idle_def run_ok_def same tk)
  moreover have "run_ok d r" using p[OF pr] act tok(1) by (simp add: run_ok_def same tk live_run_def cu cg)
  moreover have "tables_ok {} d"
  proof -
    have "\<not> tr_terminated (run_of c r)" using p[OF pr] by (simp add: live_run_def)
    then have "routing_ok {} d" "active_ok {} d"
      using t unfolding tables_ok_def routing_ok_def active_ok_def same by auto
    moreover have "refs_ok d" using t r more by (auto simp: tables_ok_def refs_ok_def same)
    moreover have "sent_ok d" "timers_ok d" using t by (simp_all add: tables_ok_def sent_ok_def timers_ok_def task_ids_ok_def same)
    ultimately show ?thesis by (simp add: tables_ok_def)
  qed
  ultimately show ?thesis by (auto simp: xinv_def same)
qed

lemma validate_restores:
  assumes i: "idle True r g U (may_validate g U r) c"
  shows "xinv (c\<lparr>ec_validating := ec_validating c @ [r]\<rparr>)" (is "xinv ?d")
proof -
  have a: "idle True r g U (\<lambda>x. may_validate g U r x \<and> armed c r) c" using i by (simp add: idle_def)
  have "tokens ?d r = [Validating]" using i by (simp add: idle_def tokens_def)
  then show ?thesis
    by (rule put_token[OF a, rotated -3]) (use i in \<open>auto simp: dispatched_def idle_def tokens_def may_validate_def\<close>)
qed

lemma created_restores:
  assumes i: "idle a r g U (\<lambda>x. may_develop g U r x \<and> te_TDDCycle (tr_task x) = 0 \<and> loops True U r = 0) c"
    and n: "r \<notin> snd ` set (ec_timers c)"
  shows "xinv (c\<lparr>ec_created := ec_created c @ [r]\<rparr>)" (is "xinv ?d")
proof -
  have "tokens ?d r = [Created]" using i by (simp add: idle_def tokens_def)
  then show ?thesis
    by (rule put_token[OF i, rotated -3]) (use i n in \<open>auto simp: dispatched_def idle_def tokens_def may_develop_def\<close>)
qed

lemma dispatch_validator_restores:
  assumes i: "idle True r g U (may_validate g U r) c"
  shows "xinv (dispatchValidatorLocked r env c)"
proof -
  obtain x d where g: "dispatch_guard AtValidator r env c = (x, d)" by fastforce
  have id: "idle True r g U (may_validate g U r) d" by (rule idle_core[OF i guard_core[OF g]])
  then have il: "idle True r g U (live_run g U r) d" by (rule idle_mono) (simp add: may_validate_def)
  have "xinv (emit (RequestValidation r) (d\<lparr>ec_validating := ec_validating d @ [r]\<rparr>))"
    by (rule xinv_core[OF validate_restores[OF id]]) simp
  then show ?thesis using g mark_error_restores[OF il] by (simp add: dispatchValidatorLocked_def split: option.splits)
qed

section \<open>Retries and rejections\<close>

lemma retry_bound_nonneg: "0 \<le> retry_bound g"
  by (simp add: retry_bound_def)

lemma retry_restores:
  assumes i: "idle True r g U (live_run g U r) c" and u: "fresh_uuid env U"
    and n: "te_TDDCycle (task_of c r) + 1 < te_MaxTDDCycles (task_of c r)"
  shows "xinv (startDeveloperRetryLocked r feedback env c)"
proof -
  let ?P = "\<lambda>x. live_run g U r x \<and> te_TDDCycle (tr_task x) + 1 < te_MaxTDDCycles (tr_task x)"
  have "idle True r g U ?P c" using i n by (simp add: idle_def)
  then have "idle True r g U ?P (upd_run r (\<lambda>x. x\<lparr>tr_ValidationResults := []\<rparr>) c)"
    by (rule idle_upd) (simp_all add: keeps_def live_run_def)
  then show ?thesis unfolding startDeveloperRetryLocked_def Let_def
    by (intro dispatch_developer_restores[OF _ u] idle_sync)
      (rule idle_task, assumption,
        use retry_bound_nonneg[of g] in \<open>simp_all add: may_develop_def live_run_def in_budget_def developing_def clockless_def algebra_simps\<close>)
qed

lemma route_fixable_restores:
  assumes i: "idle True r g U (live_run g U r) c" and u: "fresh_uuid env U"
  shows "xinv (routeFixableRejection r feedback env c)"
  using retry_restores[OF i u] mark_escalated_restores[OF i] by (simp add: routeFixableRejection_def)

section \<open>Approval\<close>

definition running :: "XEnv \<Rightarrow> bool" where
  "running env \<longleftrightarrow> (\<forall>n. \<not> xe_shutdown env n)"

lemma merge_not_shut_down: "running env \<Longrightarrow> merge_loop env as err \<noteq> MergeShutDown"
  by (induction as arbitrary: err) (auto simp: running_def split: wt_outcome.splits)

definition passed_review :: "XConfig \<Rightarrow> (bool \<times> nat \<times> bytes) list \<Rightarrow> nat \<Rightarrow> taskRun \<Rightarrow> bool" where
  "passed_review g U r x \<longleftrightarrow> live_run g U r x \<and> te_Verdict (tr_task x) = ''approved'' \<and> te_ValidationPassed (tr_task x)
     \<and> te_FilesModified (tr_task x) \<noteq> []"

definition merged :: "XConfig \<Rightarrow> taskRun \<Rightarrow> bool" where
  "merged g x \<longleftrightarrow> (requireMergeObservation g \<and> xg_SandboxURL g \<noteq> [] \<and> te_WorktreePath (tr_task x) \<noteq> [] \<longrightarrow>
     te_MergeCommit (tr_task x) \<noteq> [])"

lemma merge_outcome:
  assumes i: "idle a r g U (passed_review g U r) c" and n: "running env" and m: "mergeWorktree r env c = (e, d)"
  shows "idle a r g U (passed_review g U r) d \<and> (e = None \<longrightarrow> idle a r g U (\<lambda>x. passed_review g U r x \<and> merged g x) d)"
  supply merge_loop.simps [simp del]
proof (cases "xg_SandboxURL (ec_config c) = [] \<or> te_WorktreePath (task_of c r) = [] \<or> checkWorktreeExists AtMerge r env c \<noteq> None")
  case True
  have g: "ec_config c = g" using i by (simp add: idle_def)
  have "d = c \<and> (e = None \<longrightarrow> merged g (run_of c r))"
    using m True g by (auto simp: mergeWorktree_def merged_def split: if_splits option.splits)
  then show ?thesis using i by (auto simp: idle_def)
next
  case False
  let ?t = "task_of c r"
  let ?c = "emit (MergeWorktree (te_TaskID ?t)) c"
  have g: "ec_config c = g" and p: "passed_review g U r (run_of c r)" using i by (simp_all add: idle_def)
  have ic: "idle a r g U (passed_review g U r) ?c" by (rule idle_core[OF i]) simp
  show ?thesis
  proof (cases "merge_loop env [0, 1, 2] []")
    case MergeShutDown
    then show ?thesis using merge_not_shut_down[OF n] by simp
  next
    case (MergeGaveUp w err)
    then have "d = ?c \<and> e \<noteq> None" using m False by (auto simp: mergeWorktree_def Let_def)
    then show ?thesis using ic by auto
  next
    case (MergeDone res)
    let ?f = "\<lambda>t. t\<lparr>te_FilesModified := given (wm_FilesChanged res) (te_FilesModified t), te_MergeCommit := wm_Commit res\<rparr>"
    show ?thesis
    proof (cases "requireMergeObservation g \<and> (wm_NothingToCommit res \<or> wm_Commit res = [])")
      case True
      then have "d = ?c \<and> e \<noteq> None"
        using m False MergeDone g p by (auto simp: mergeWorktree_def Let_def passed_review_def)
      then show ?thesis using ic by auto
    next
      case cm: False
      then have d: "d = upd_task r ?f ?c" using m False MergeDone g by (auto simp: mergeWorktree_def Let_def)
      have "idle a r g U (\<lambda>x. passed_review g U r x \<and> merged g x) (upd_task r ?f ?c)"
        by (rule idle_task[OF ic]) (use cm in \<open>auto simp: passed_review_def merged_def live_run_def in_budget_def\<close>)
      then show ?thesis unfolding d by (auto elim: idle_mono)
    qed
  qed
qed

lemma mark_approved_restores:
  assumes i: "idle a r g U (passed_review g U r) c" and n: "running env"
  shows "xinv (markApprovedLocked r env c)"
proof -
  obtain e d where m: "mergeWorktree r env c = (e, d)" by fastforce
  have live: "\<not> tr_terminated (run_of c r)" using i by (simp add: idle_def passed_review_def live_run_def)
  note o = merge_outcome[OF i n m]
  show ?thesis
  proof (cases e)
    case (Some x)
    have "idle a r g U (live_run g U r) d" using o by (auto simp: passed_review_def elim: idle_mono)
    then show ?thesis using Some m live mark_error_restores by (cases x) (simp add: markApprovedLocked_def)
  next
    case None
    let ?P = "\<lambda>x. ended_run g U r x \<and> te_Verdict (tr_task x) = ''approved'' \<and> te_ValidationPassed (tr_task x)
      \<and> te_FilesModified (tr_task x) \<noteq> [] \<and> merged g x"
    have "idle a r g U ?P (set_terminated r d)" unfolding set_terminated_def
      by (rule idle_upd[OF o[THEN conjunct2, rule_format, OF None]])
        (auto simp: keeps_def passed_review_def live_run_def ended_run_def merged_def)
    then have "idle a r g U (\<lambda>x. ?P x \<and> te_Stage (tr_task x) = ''approved'')
        (upd_task r (\<lambda>t. t\<lparr>te_Stage := ''approved''\<rparr>) (set_terminated r d))"
      by (rule idle_task) (auto simp: ended_run_def in_budget_def merged_def)
    then have "idle a r g U (\<lambda>x. ?P x \<and> te_Stage (tr_task x) = ''approved'')
        (syncToStore r env (upd_task r (\<lambda>t. t\<lparr>te_Stage := ''approved''\<rparr>) (set_terminated r d)))"
      by (rule idle_sync) (simp add: clockless_def ended_run_def in_budget_def merged_def)
    then have "xinv (cleanupExecutionLocked r (syncToStore r env (upd_task r (\<lambda>t. t\<lparr>te_Stage := ''approved''\<rparr>) (set_terminated r d))))"
      by (rule cleanup_restores) (auto simp: ended_run_def done_ok_def merged_def)
    then show ?thesis using None m live by (simp add: markApprovedLocked_def)
  qed
qed

section \<open>Starting a handler\<close>

lemma take_token:
  assumes inv: "xinv c" and r: "r < length (ec_execs c)" "\<not> tr_terminated (run_of c r)" "tokens c r = [k]"
    and same: "ec_execs d = ec_execs c" "ec_config d = ec_config c" "ec_active d = ec_active c" "ec_timers d = ec_timers c"
      "ec_nextTimer d = ec_nextTimer c" "dispatched d = dispatched c"
    and less: "set (ec_starting d) \<subseteq> set (ec_starting c)" "set (ec_created d) \<subseteq> set (ec_created c)"
      "set (ec_validating d) \<subseteq> set (ec_validating c)" "set (ec_routing d) \<subseteq> set (ec_routing c)" "distinct (map fst (ec_routing d))"
    and tok: "tokens d r = []" "\<And>s. s < length (ec_execs c) \<Longrightarrow> s \<noteq> r \<Longrightarrow> \<not> tr_terminated (run_of c s) \<Longrightarrow> tokens d s = tokens c s"
  shows "idle (k \<noteq> Starting \<and> k \<noteq> Created) r (ec_config c) (dispatched c)
    (\<lambda>x. live_run (ec_config c) (dispatched c) r x \<and> token_ok c r (tr_task x) k \<and> x = run_of c r) d"
proof -
  have t: "tables_ok {} c" and ro: "run_ok c s" if "s < length (ec_execs c)" for s using inv that r by (auto simp: xinv_def)
  have arm: "armed d s = armed c s" for s by (simp add: armed_def same)
  have kok: "token_ok c r (task_of c r) k" and act: "map_of (ec_active c) (te_EntityID (task_of c r)) = Some r"
    and b: "in_budget (ec_config c) (dispatched c) r (task_of c r)"
    using ro[OF r(1)] r by (auto simp: run_ok_def)
  have "run_ok d s" if s: "s < length (ec_execs c)" "s \<noteq> r" for s
  proof (cases "tr_terminated (run_of c s)")
    case True
    then show ?thesis using ro[OF s(1)] less by (auto simp: run_ok_def same)
  next
    case False
    have "token_ok d s u j = token_ok c s u j" for u j by (cases j) (simp_all add: same arm)
    then show ?thesis using ro[OF s(1)] tok(2)[OF s False] False by (auto simp: run_ok_def same)
  qed
  moreover have "tables_ok {r} d"
  proof -
    have tt: "tables_ok {} c" using t r by blast
    have "snd x \<noteq> te_EntityID (task_of c r)" if "x \<in> set (ec_routing d)" for x
      using tok(1) that by (auto simp: tokens_def same filter_empty_conv)
    then have "routing_ok {r} d" using tt less(4,5) unfolding tables_ok_def routing_ok_def same by fastforce
    moreover have "active_ok {r} d" using tt by (auto simp: tables_ok_def active_ok_def same)
    moreover have "refs_ok d" using tt less by (auto simp: tables_ok_def refs_ok_def same)
    moreover have "sent_ok d" "timers_ok d"
      using tt by (simp_all add: tables_ok_def sent_ok_def timers_ok_def task_ids_ok_def same)
    ultimately show ?thesis by (simp add: tables_ok_def)
  qed
  moreover have "k \<noteq> Starting \<and> k \<noteq> Created \<longrightarrow> armed c r" using kok by (cases k) auto
  ultimately show ?thesis
    using r kok act b tok(1) by (simp add: idle_def same arm live_run_def)
qed

end
