(* ===== verification/Exec_Keeps.thy ===== *)
theory Exec_Keeps
  imports Exec_Invariant
begin

text \<open>
  Every event of the execution manager keeps the invariant of theory \<open>Exec_Invariant\<close>: the completion of a
  loop, the answer of the validator, a timeout, the cancellation of the children of a requirement, the claim
  and the set-up of a task, and the reset of a requirement.
\<close>

section \<open>Events keep the invariant\<close>

lemma delete_route_tokens:
  assumes inv: "xinv c" and s: "s < length (ec_execs c)" "\<not> tr_terminated (run_of c s)"
    and i: "(i, te_EntityID (task_of c r)) \<in> set (ec_routing c)" "te_EntityID (task_of c s) \<noteq> te_EntityID (task_of c r)"
  shows "filter (\<lambda>x. snd x = te_EntityID (task_of c s)) (AList.delete i (ec_routing c))
    = filter (\<lambda>x. snd x = te_EntityID (task_of c s)) (ec_routing c)"
proof -
  have d: "distinct (map fst (ec_routing c))" using inv by (simp add: xinv_def tables_ok_def routing_ok_def)
  have "fst x \<noteq> i" if "x \<in> set (ec_routing c)" "snd x = te_EntityID (task_of c s)" for x
    using that i d by (metis eq_key_imp_eq_value prod.collapse)
  then show ?thesis unfolding AList.delete_eq filter_filter by (intro filter_cong[OF refl]) (auto simp: split_def)
qed

lemma live_entities:
  assumes "xinv c" "r < length (ec_execs c)" "\<not> tr_terminated (run_of c r)" "s < length (ec_execs c)"
    "\<not> tr_terminated (run_of c s)" "te_EntityID (task_of c s) = te_EntityID (task_of c r)"
  shows "s = r"
proof -
  have "run_ok c r" "run_ok c s" using assms by (auto simp: xinv_def)
  then have "map_of (ec_active c) (te_EntityID (task_of c r)) = Some r" "map_of (ec_active c) (te_EntityID (task_of c s)) = Some s"
    using assms(3,5) by (auto simp: run_ok_def)
  then show ?thesis using assms(6) by simp
qed

lemma live_token:
  assumes "xinv c" "r < length (ec_execs c)" "\<not> tr_terminated (run_of c r)"
  obtains k where "tokens c r = [k]" "token_ok c r (task_of c r) k" "map_of (ec_active c) (te_EntityID (task_of c r)) = Some r"
proof -
  have "run_ok c r" using assms by (simp add: xinv_def)
  then show thesis using assms(3) that by (auto simp: run_ok_def)
qed

lemma take_loop:
  assumes inv: "xinv c" and r: "r < length (ec_execs c)" "\<not> tr_terminated (run_of c r)" "tokens c r = [Looping i]"
  shows "idle True r (ec_config c) (dispatched c) (\<lambda>x. live_run (ec_config c) (dispatched c) r x
    \<and> token_ok c r (tr_task x) (Looping i) \<and> x = run_of c r) (c\<lparr>ec_routing := AList.delete i (ec_routing c)\<rparr>)"
proof -
  let ?d = "c\<lparr>ec_routing := AList.delete i (ec_routing c)\<rparr>"
  have d: "distinct (map fst (ec_routing c))" using inv by (simp add: xinv_def tables_ok_def routing_ok_def)
  have "Starting \<notin> set (tokens c r)" "Created \<notin> set (tokens c r)" "Validating \<notin> set (tokens c r)" using r(3) by simp_all
  then have z: "count_list (ec_starting c) r = 0" "count_list (ec_created c) r = 0" "count_list (ec_validating c) r = 0"
    by (auto simp: tokens_def count_list_0_iff)
  have m: "(i, te_EntityID (task_of c r)) \<in> set (ec_routing c)"
  proof -
    have "Looping i \<in> set (tokens c r)" using r(3) by simp
    then show ?thesis using z by (auto simp: tokens_def)
  qed
  have only: "fst x = i" if "x \<in> set (ec_routing c)" "snd x = te_EntityID (task_of c r)" for x
  proof -
    have "Looping (fst x) \<in> set (tokens c r)" using that by (auto simp: tokens_def)
    then show ?thesis using r(3) by simp
  qed
  have "idle (Looping i \<noteq> Starting \<and> Looping i \<noteq> Created) r (ec_config c) (dispatched c) (\<lambda>x. live_run (ec_config c) (dispatched c) r x
      \<and> token_ok c r (tr_task x) (Looping i) \<and> x = run_of c r) ?d"
  proof (rule take_token[OF inv r])
    show "tokens ?d r = []" using z only by (auto simp: tokens_def AList.delete_eq filter_empty_conv)
    fix s assume s: "s < length (ec_execs c)" "s \<noteq> r" "\<not> tr_terminated (run_of c s)"
    then have "te_EntityID (task_of c s) \<noteq> te_EntityID (task_of c r)" using live_entities[OF inv r(1,2)] by blast
    then show "tokens ?d s = tokens c s" using delete_route_tokens[OF inv s(1,3) m] by (simp add: tokens_def)
  qed (use d in \<open>auto simp: dispatched_def AList.delete_eq distinct_map_filter\<close>)
  then show ?thesis by simp
qed

lemma count_remove1_other: "s \<noteq> r \<Longrightarrow> count_list (remove1 r xs) s = count_list xs s"
  by (induction xs) auto

lemma take_listed:
  assumes inv: "xinv c" and r: "r < length (ec_execs c)" "\<not> tr_terminated (run_of c r)"
  shows "r \<in> set (ec_starting c) \<Longrightarrow> idle False r (ec_config c) (dispatched c)
      (\<lambda>x. live_run (ec_config c) (dispatched c) r x \<and> token_ok c r (tr_task x) Starting \<and> x = run_of c r)
      (c\<lparr>ec_starting := remove1 r (ec_starting c)\<rparr>)"
    and "r \<in> set (ec_created c) \<Longrightarrow> idle False r (ec_config c) (dispatched c)
      (\<lambda>x. live_run (ec_config c) (dispatched c) r x \<and> token_ok c r (tr_task x) Created \<and> x = run_of c r)
      (c\<lparr>ec_created := remove1 r (ec_created c)\<rparr>)"
    and "r \<in> set (ec_validating c) \<Longrightarrow> idle True r (ec_config c) (dispatched c)
      (\<lambda>x. live_run (ec_config c) (dispatched c) r x \<and> token_ok c r (tr_task x) Validating \<and> x = run_of c r)
      (c\<lparr>ec_validating := remove1 r (ec_validating c)\<rparr>)"
proof -
  have d: "distinct (map fst (ec_routing c))" using inv by (simp add: xinv_def tables_ok_def routing_ok_def)
  obtain k where k: "tokens c r = [k]" using live_token[OF inv r] .
  note other = count_remove1_other
  have one: "count_list (remove1 r xs) r = count_list xs r - 1" for xs by (induction xs) (auto simp: count_list_0_iff)
  have in_set: "count_list xs r \<noteq> 0" if "r \<in> set xs" for xs using that by (simp add: count_list_0_iff)
  {
    assume m: "r \<in> set (ec_starting c)"
    then have "Starting \<in> set (tokens c r)" by (auto simp: tokens_def count_list_0_iff)
    then have t: "tokens c r = [Starting]" using k by simp
    have z: "tokens (c\<lparr>ec_starting := remove1 r (ec_starting c)\<rparr>) r = []"
      using t in_set[OF m] by (cases "count_list (ec_starting c) r") (simp_all add: tokens_def one)
    show "idle False r (ec_config c) (dispatched c) (\<lambda>x. live_run (ec_config c) (dispatched c) r x
        \<and> token_ok c r (tr_task x) Starting \<and> x = run_of c r) (c\<lparr>ec_starting := remove1 r (ec_starting c)\<rparr>)"
      using take_token[OF inv r t, of "c\<lparr>ec_starting := remove1 r (ec_starting c)\<rparr>"] z d set_remove1_subset[of r "ec_starting c"]
      by (simp add: dispatched_def tokens_def other)
  next
    assume m: "r \<in> set (ec_created c)"
    then have "Created \<in> set (tokens c r)" by (auto simp: tokens_def count_list_0_iff)
    then have t: "tokens c r = [Created]" using k by simp
    then have "count_list (ec_starting c) r = 0" by (cases "count_list (ec_starting c) r") (simp_all add: tokens_def)
    then have z: "tokens (c\<lparr>ec_created := remove1 r (ec_created c)\<rparr>) r = []"
      using t in_set[OF m] by (cases "count_list (ec_created c) r") (simp_all add: tokens_def one)
    show "idle False r (ec_config c) (dispatched c) (\<lambda>x. live_run (ec_config c) (dispatched c) r x
        \<and> token_ok c r (tr_task x) Created \<and> x = run_of c r) (c\<lparr>ec_created := remove1 r (ec_created c)\<rparr>)"
      using take_token[OF inv r t, of "c\<lparr>ec_created := remove1 r (ec_created c)\<rparr>"] z d set_remove1_subset[of r "ec_created c"]
      by (simp add: dispatched_def tokens_def other)
  next
    assume m: "r \<in> set (ec_validating c)"
    then have "Validating \<in> set (tokens c r)" by (auto simp: tokens_def count_list_0_iff)
    then have t: "tokens c r = [Validating]" using k by simp
    then have "count_list (ec_starting c) r = 0" by (cases "count_list (ec_starting c) r") (simp_all add: tokens_def)
    moreover have "count_list (ec_created c) r = 0" using t calculation
      by (cases "count_list (ec_created c) r") (simp_all add: tokens_def)
    ultimately have z: "tokens (c\<lparr>ec_validating := remove1 r (ec_validating c)\<rparr>) r = []"
      using t in_set[OF m] by (cases "count_list (ec_validating c) r") (simp_all add: tokens_def one)
    show "idle True r (ec_config c) (dispatched c) (\<lambda>x. live_run (ec_config c) (dispatched c) r x
        \<and> token_ok c r (tr_task x) Validating \<and> x = run_of c r) (c\<lparr>ec_validating := remove1 r (ec_validating c)\<rparr>)"
      using take_token[OF inv r t, of "c\<lparr>ec_validating := remove1 r (ec_validating c)\<rparr>"] z d set_remove1_subset[of r "ec_validating c"]
      by (simp add: dispatched_def tokens_def other)
  }
qed

subsection \<open>A developer loop completes\<close>

lemma reset_simps:
  "r < length (ec_execs c) \<Longrightarrow> task_of (resetTimeoutLocked r c) r = task_of c r"
  "ec_routing (resetTimeoutLocked r c) = ec_routing c"
  "(resetTimeoutLocked r c)\<lparr>ec_routing := rt\<rparr> = resetTimeoutLocked r (c\<lparr>ec_routing := rt\<rparr>)"
  by (simp_all add: resetTimeoutLocked_def startExecutionTimeout_def stop_timer_def upd_run_def split: option.splits)

text \<open>A run without outstanding work whose developer has just finished.\<close>

definition developed :: "XConfig \<Rightarrow> (bool \<times> nat \<times> bytes) list \<Rightarrow> nat \<Rightarrow> taskRun \<Rightarrow> bool" where
  "developed g U r x \<longleftrightarrow> live_run g U r x \<and> developing g U r (tr_task x)"

lemma developer_complete_keeps:
  assumes inv: "xinv c" and r: "r < length (ec_execs c)" "\<not> tr_terminated (run_of c r)" "tokens c r = [Looping (te_DeveloperTaskID (task_of c r))]"
    and st: "developing (ec_config c) (dispatched c) r (task_of c r)" and u: "fresh_uuid env (dispatched c)"
  shows "xinv (handleDeveloperCompleteLocked r event parsed env c)"
proof -
  let ?g = "ec_config c" and ?U = "dispatched c"
  let ?P = "developed ?g ?U r"
  let ?c0 = "c\<lparr>ec_routing := AList.delete (te_DeveloperTaskID (task_of c r)) (ec_routing c)\<rparr>"
  let ?c1 = "resetTimeoutLocked r ?c0"
  let ?c2 = "if lv_LoopID event \<noteq> [] then upd_run r (\<lambda>x. x\<lparr>tr_DeveloperLoopID := lv_LoopID event\<rparr>) ?c1 else ?c1"
  let ?c3 = "case parsed of None \<Rightarrow> ?c2 | Some fs \<Rightarrow> upd_task r (\<lambda>t. t\<lparr>te_FilesModified := fs\<rparr>) ?c2"
  have "idle True r ?g ?U ?P ?c0"
    by (rule idle_mono[OF take_loop[OF inv r]]) (use st in \<open>simp add: developed_def\<close>)
  then have "idle True r ?g ?U ?P ?c1"
    by (rule idle_reset) (simp add: clockless_def developed_def live_run_def in_budget_def developing_def)
  then have i2: "idle True r ?g ?U ?P ?c2"
    by (auto intro!: idle_upd simp: keeps_def developed_def live_run_def)
  then have i3: "idle True r ?g ?U ?P ?c3"
    by (cases parsed) (auto intro!: idle_task simp: developed_def live_run_def developing_def in_budget_def)
  have route: "xinv (routeFixableRejection r fb env d)" if "idle True r ?g ?U ?P d" for fb d
    by (rule route_fixable_restores[OF idle_mono[OF that] u]) (simp add: developed_def)
  have val: "xinv (dispatchValidatorLocked r env (syncToStore r env (upd_task r (\<lambda>t. t\<lparr>te_Stage := ''validating''\<rparr>) ?c3)))"
    if "te_FilesModified (task_of ?c3 r) \<noteq> []"
  proof -
    have "idle True r ?g ?U (\<lambda>x. ?P x \<and> te_FilesModified (tr_task x) \<noteq> []) ?c3" using i3 that by (simp add: idle_def)
    then have "idle True r ?g ?U (may_validate ?g ?U r) (upd_task r (\<lambda>t. t\<lparr>te_Stage := ''validating''\<rparr>) ?c3)"
      by (rule idle_task) (auto simp: developed_def may_validate_def live_run_def developing_def validating_def in_budget_def)
    then show ?thesis
      by (intro dispatch_validator_restores idle_sync)
        (simp_all add: clockless_def may_validate_def live_run_def in_budget_def validating_def)
  qed
  show ?thesis
    unfolding handleDeveloperCompleteLocked_def reset_simps(1)[OF r(1)] reset_simps(2,3) Let_def
    using route[OF i2] route[OF i3] val by simp
qed

subsection \<open>Structural validation returns\<close>

lemma validation_failed_keeps:
  assumes i: "idle True r g U (live_run g U r) c" and u: "fresh_uuid env U"
  shows "xinv (handleValidationFailedLocked r env c)"
proof -
  have "idle True r g U (live_run g U r) (upd_task r (\<lambda>t. t\<lparr>te_Stage := ''validation_failed''\<rparr>) c)"
    by (rule idle_task[OF i]) (simp_all add: live_run_def in_budget_def)
  then have "idle True r g U (live_run g U r) (syncToStore r env (upd_task r (\<lambda>t. t\<lparr>te_Stage := ''validation_failed''\<rparr>) c))"
    by (rule idle_sync) (simp add: clockless_def live_run_def in_budget_def)
  then show ?thesis unfolding handleValidationFailedLocked_def Let_def
    by (auto intro: mark_escalated_restores retry_restores[OF _ u] split: option.splits)
qed

text \<open>What is pending for a terminated run does not matter.\<close>

lemma stale_validation:
  assumes inv: "xinv c" and t: "tr_terminated (run_of c r)"
    and v: "set v \<subseteq> insert r (set (ec_validating c))" "r < length (ec_execs c)" "\<And>s. s \<noteq> r \<Longrightarrow> count_list v s = count_list (ec_validating c) s"
  shows "xinv (c\<lparr>ec_validating := v\<rparr>)" (is "xinv ?d")
proof -
  have f: "dispatched ?d = dispatched c" "armed ?d s = armed c s" for s by (simp_all add: dispatched_def armed_def)
  have "run_ok ?d s" if "s < length (ec_execs c)" for s
  proof (cases "s = r")
    case True
    then show ?thesis using inv t that by (simp add: xinv_def run_ok_def f)
  next
    case False
    then show ?thesis
      by (intro run_ok_cong[of ?d c]) (use inv that v in \<open>auto simp: xinv_def f tokens_def\<close>)
  qed
  moreover have "tables_ok {} ?d" using inv v(1,2)
    by (auto simp: xinv_def tables_ok_def routing_ok_def active_ok_def refs_ok_def sent_ok_def timers_ok_def task_ids_ok_def f)
  ultimately show ?thesis by (simp add: xinv_def)
qed

lemma validation_returned_keeps:
  assumes inv: "xinv c" and r: "r \<in> set (ec_validating c)" and u: "fresh_uuid env (dispatched c)"
  shows "xinv (validation_returned r result env c)"
proof (cases "tr_terminated (run_of c r)")
  case True
  have len: "r < length (ec_execs c)" using inv r by (simp add: xinv_def tables_ok_def refs_ok_def)
  have "xinv (c\<lparr>ec_validating := remove1 r (ec_validating c)\<rparr>)"
    by (rule stale_validation[OF inv True _ len]) (use set_remove1_subset[of r "ec_validating c"] in \<open>auto simp: count_remove1_other\<close>)
  then show ?thesis using True by (simp add: validation_returned_def Let_def)
next
  case False
  let ?g = "ec_config c" and ?U = "dispatched c"
  let ?c0 = "c\<lparr>ec_validating := remove1 r (ec_validating c)\<rparr>"
  have len: "r < length (ec_execs c)" using inv r by (simp add: xinv_def tables_ok_def refs_ok_def)
  have i0: "idle True r ?g ?U (may_validate ?g ?U r) ?c0"
    by (rule idle_mono[OF take_listed(3)[OF inv len False r]]) (simp add: may_validate_def)
  then have il: "idle True r ?g ?U (live_run ?g ?U r) ?c0" by (rule idle_mono) (simp add: may_validate_def)
  show ?thesis
  proof (cases result)
    case (Inl err)
    then show ?thesis using False mark_escalated_restores[OF il] by (simp add: validation_returned_def Let_def)
  next
    case (Inr res)
    obtain passed results where res: "res = (passed, results)" by fastforce
    let ?c1 = "upd_task r (\<lambda>t. t\<lparr>te_ValidationPassed := passed\<rparr>) (upd_run r (\<lambda>x. x\<lparr>tr_ValidationResults := results\<rparr>) ?c0)"
    have "idle True r ?g ?U (may_validate ?g ?U r) (upd_run r (\<lambda>x. x\<lparr>tr_ValidationResults := results\<rparr>) ?c0)"
      by (rule idle_upd[OF i0]) (simp_all add: keeps_def may_validate_def live_run_def)
    then have i1: "idle True r ?g ?U (\<lambda>x. may_validate ?g ?U r x \<and> te_ValidationPassed (tr_task x) = passed) ?c1"
      by (rule idle_task) (simp_all add: may_validate_def live_run_def in_budget_def validating_def)
    show ?thesis
    proof (cases passed)
      case True
      have "idle True r ?g ?U (may_review ?g ?U r) (upd_task r (\<lambda>t. t\<lparr>te_Stage := ''reviewing''\<rparr>) ?c1)"
        by (rule idle_task[OF i1])
          (use True retry_bound_nonneg[of ?g] in \<open>auto simp: may_validate_def may_review_def live_run_def in_budget_def validating_def reviewing_def\<close>)
      then have "xinv (dispatchReviewerLocked r env (syncToStore r env (upd_task r (\<lambda>t. t\<lparr>te_Stage := ''reviewing''\<rparr>) ?c1)))"
        by (intro dispatch_reviewer_restores[OF _ u] idle_sync)
          (simp_all add: clockless_def may_review_def live_run_def in_budget_def reviewing_def)
      then show ?thesis using False Inr res True by (simp add: validation_returned_def Let_def)
    next
      case f: False
      have "xinv (handleValidationFailedLocked r env ?c1)"
        by (rule validation_failed_keeps[OF idle_mono[OF i1] u]) (simp add: may_validate_def)
      then show ?thesis using False Inr res f by (simp add: validation_returned_def Let_def)
    qed
  qed
qed

subsection \<open>A reviewer loop completes\<close>

lemma rejection_keeps:
  assumes i: "idle True r g U (live_run g U r) c" and u: "fresh_uuid env U"
  shows "xinv (handleRejectionLocked r result env c)"
proof -
  have "idle True r g U (live_run g U r) (upd_task r (\<lambda>t. t\<lparr>te_Stage := ''rejected''\<rparr>) c)"
    by (rule idle_task[OF i]) (simp_all add: live_run_def in_budget_def)
  then have "idle True r g U (live_run g U r) (upd_run r (\<lambda>x. x\<lparr>tr_PriorCycles := appendCycleSnapshot (tr_task x) (tr_DeveloperLoopID x)
      result (tr_PriorCycles x)\<rparr>) (upd_task r (\<lambda>t. t\<lparr>te_Stage := ''rejected''\<rparr>) c))"
    by (rule idle_upd) (simp_all add: keeps_def live_run_def)
  then show ?thesis unfolding handleRejectionLocked_def Let_def
    by (auto intro: mark_escalated_restores route_fixable_restores[OF _ u])
qed

lemma reviewer_complete_keeps:
  assumes inv: "xinv c" and r: "r < length (ec_execs c)" "\<not> tr_terminated (run_of c r)" "tokens c r = [Looping (te_ReviewerTaskID (task_of c r))]"
    and st: "reviewing 1 (ec_config c) (dispatched c) r (task_of c r)" and u: "fresh_uuid env (dispatched c)" and n: "running env"
  shows "xinv (handleReviewerCompleteLocked r event parsed env c)"
proof -
  let ?g = "ec_config c" and ?U = "dispatched c"
  let ?P = "\<lambda>x. live_run ?g ?U r x \<and> reviewing 1 ?g ?U r (tr_task x)"
  let ?c0 = "c\<lparr>ec_routing := AList.delete (te_ReviewerTaskID (task_of c r)) (ec_routing c)\<rparr>"
  let ?c1 = "resetTimeoutLocked r ?c0"
  obtain result ok where p: "parseCodeReviewResult (xe_quote env) parsed = (result, ok)" by fastforce
  let ?f = "\<lambda>t. t\<lparr>te_Verdict := cr_Verdict result, te_RejectionType := cr_RejectionType result, te_Feedback := cr_Feedback result\<rparr>"
  have "idle True r ?g ?U ?P ?c0"
    by (rule idle_mono[OF take_loop[OF inv r]]) (use st in simp)
  then have i1: "idle True r ?g ?U ?P ?c1"
    by (rule idle_reset) (simp add: clockless_def live_run_def in_budget_def reviewing_def)
  have il: "idle True r ?g ?U (live_run ?g ?U r) ?c1" by (rule idle_mono[OF i1]) simp
  have retry: "xinv (dispatchReviewerLocked r env (startExecutionTimeout r (syncToStore r env
      (upd_task r (\<lambda>t. t\<lparr>te_ReviewRetryCount := te_ReviewRetryCount t + 1\<rparr>) ?c1))))"
    if "te_ReviewRetryCount (task_of ?c1 r) < max_review_retries (ec_config ?c1)"
  proof -
    have g: "ec_config ?c1 = ?g" using i1 by (simp add: idle_def)
    then have "idle True r ?g ?U (\<lambda>x. ?P x \<and> te_ReviewRetryCount (tr_task x) < max_review_retries ?g) ?c1"
      using i1 that by (simp add: idle_def)
    then have "idle True r ?g ?U (may_review ?g ?U r) (upd_task r (\<lambda>t. t\<lparr>te_ReviewRetryCount := te_ReviewRetryCount t + 1\<rparr>) ?c1)"
      by (rule idle_task) (auto simp: may_review_def live_run_def in_budget_def reviewing_def retry_bound_def)
    then show ?thesis
      by (intro dispatch_reviewer_restores[OF _ u] idle_start[where a = True] idle_sync)
        (simp_all add: clockless_def may_review_def live_run_def in_budget_def reviewing_def)
  qed
  have i2: "idle True r ?g ?U (\<lambda>x. ?P x \<and> te_Verdict (tr_task x) = cr_Verdict result) (upd_task r ?f ?c1)"
    by (rule idle_task[OF i1]) (simp_all add: live_run_def in_budget_def reviewing_def)
  have rej: "xinv (handleRejectionLocked r result env (upd_task r ?f ?c1))"
    by (rule rejection_keeps[OF idle_mono[OF i2] u]) simp
  have app: "xinv (markApprovedLocked r env (upd_task r ?f ?c1))" if "cr_Verdict result = ''approved''"
    by (rule mark_approved_restores[OF idle_mono[OF i2] n]) (use that in \<open>simp add: passed_review_def reviewing_def\<close>)
  show ?thesis
    unfolding handleReviewerCompleteLocked_def reset_simps(1)[OF r(1)] reset_simps(2,3) Let_def p
    using route_fixable_restores[OF il u] retry rej app by simp
qed

subsection \<open>The completion of a loop\<close>

text \<open>A loop reports the step of the task it was dispatched for.\<close>

definition echoes :: "LoopEntity option \<Rightarrow> XComp \<Rightarrow> bool" where
  "echoes entry c \<longleftrightarrow> (\<forall>l. entry = Some l \<longrightarrow> (\<forall>k r. (k, r, lv_TaskID (le_event l)) \<in> set (dispatched c) \<longrightarrow>
     (if k then lv_WorkflowStep (le_event l) \<in> {''develop'', ''test'', ''build''} else lv_WorkflowStep (le_event l) = ''review'')))"

lemma loop_update_keeps:
  assumes inv: "xinv c" and e: "echoes entry c" and u: "fresh_uuid env (dispatched c)" and n: "running env"
  shows "xinv (handleLoopEntityUpdate entry env c)"
proof (cases "handleLoopEntityUpdate entry env c = c")
  case True
  then show ?thesis using inv by simp
next
  case False
  then obtain l entity r where l: "entry = Some l" and rt: "map_of (ec_routing c) (lv_TaskID (le_event l)) = Some entity"
    and act: "map_of (ec_active c) entity = Some r" and live: "\<not> tr_terminated (run_of c r)"
    and eq: "handleLoopEntityUpdate entry env c = complete_step r l env c"
    by (auto simp: handleLoopEntityUpdate_def split: option.splits if_splits)
  let ?i = "lv_TaskID (le_event l)"
  have len: "r < length (ec_execs c)" and ent: "te_EntityID (task_of c r) = entity"
    using inv map_of_SomeD[OF act] by (auto simp: xinv_def tables_ok_def active_ok_def)
  have ro: "run_ok c r" using inv len by (simp add: xinv_def)
  have own: "tokens c r = [Looping ?i]" "token_ok c r (task_of c r) (Looping ?i)"
    using route_owner[OF ro live map_of_SomeD[OF rt]] ent by simp_all
  have ids: "task_ids_ok c r" using inv len by (simp add: xinv_def tables_ok_def sent_ok_def)
  show ?thesis
  proof (cases "?i = te_DeveloperTaskID (task_of c r) \<and> developing (ec_config c) (dispatched c) r (task_of c r)")
    case True
    then have "(True, r, ?i) \<in> set (dispatched c)" using own ids by (simp add: task_ids_ok_def)
    then have "lv_WorkflowStep (le_event l) \<in> {''develop'', ''test'', ''build''}" using e l by (auto simp: echoes_def)
    then show ?thesis using True own developer_complete_keeps[OF inv len live _ _ u] by (simp add: eq complete_step_def)
  next
    case False
    then have rev: "?i = te_ReviewerTaskID (task_of c r)" "reviewing 1 (ec_config c) (dispatched c) r (task_of c r)" using own by auto
    then have "(False, r, ?i) \<in> set (dispatched c)" using own ids by (simp add: task_ids_ok_def)
    then have "lv_WorkflowStep (le_event l) = ''review''" using e l by (auto simp: echoes_def)
    then show ?thesis using rev own reviewer_complete_keeps[OF inv len live _ _ u n] by (simp add: eq complete_step_def)
  qed
qed

subsection \<open>Killing a run\<close>

text \<open>The terminal mark deletes the route of the outstanding loop, if any, and leaves a pending validation.\<close>

lemma routing_commutes:
  "upd_run r f (c\<lparr>ec_routing := x\<rparr>) = (upd_run r f c)\<lparr>ec_routing := x\<rparr>"
  "upd_task r h (c\<lparr>ec_routing := x\<rparr>) = (upd_task r h c)\<lparr>ec_routing := x\<rparr>"
  "set_terminated r (c\<lparr>ec_routing := x\<rparr>) = (set_terminated r c)\<lparr>ec_routing := x\<rparr>"
  "emit e (c\<lparr>ec_routing := x\<rparr>) = (emit e c)\<lparr>ec_routing := x\<rparr>"
  "discardWorktree r (c\<lparr>ec_routing := x\<rparr>) = (discardWorktree r c)\<lparr>ec_routing := x\<rparr>"
  "syncToStore r env (c\<lparr>ec_routing := x\<rparr>) = (syncToStore r env c)\<lparr>ec_routing := x\<rparr>"
  "stop_timer r (c\<lparr>ec_routing := x\<rparr>) = (stop_timer r c)\<lparr>ec_routing := x\<rparr>"
  by (simp_all add: upd_run_def upd_task_def set_terminated_def emit_def discardWorktree_def syncToStore_def stop_timer_def Let_def
      split: option.splits)

lemma validating_commutes:
  "upd_run r f (c\<lparr>ec_validating := v\<rparr>) = (upd_run r f c)\<lparr>ec_validating := v\<rparr>"
  "upd_task r h (c\<lparr>ec_validating := v\<rparr>) = (upd_task r h c)\<lparr>ec_validating := v\<rparr>"
  "set_terminated r (c\<lparr>ec_validating := v\<rparr>) = (set_terminated r c)\<lparr>ec_validating := v\<rparr>"
  "emit e (c\<lparr>ec_validating := v\<rparr>) = (emit e c)\<lparr>ec_validating := v\<rparr>"
  "discardWorktree r (c\<lparr>ec_validating := v\<rparr>) = (discardWorktree r c)\<lparr>ec_validating := v\<rparr>"
  "syncToStore r env (c\<lparr>ec_validating := v\<rparr>) = (syncToStore r env c)\<lparr>ec_validating := v\<rparr>"
  "stop_timer r (c\<lparr>ec_validating := v\<rparr>) = (stop_timer r c)\<lparr>ec_validating := v\<rparr>"
  by (simp_all add: upd_run_def upd_task_def set_terminated_def emit_def discardWorktree_def syncToStore_def stop_timer_def Let_def
      split: option.splits)

text \<open>The record a terminal mark leaves, and the tables it does not touch.\<close>

lemma mark_frame:
  "ec_routing (upd_task r h c) = ec_routing c" "ec_routing (set_terminated r c) = ec_routing c"
  "ec_routing (discardWorktree r c) = ec_routing c" "ec_routing (syncToStore r env c) = ec_routing c" "ec_routing (stop_timer r c) = ec_routing c"
  "length (ec_execs (upd_task r h c)) = length (ec_execs c)" "length (ec_execs (set_terminated r c)) = length (ec_execs c)"
  "ec_execs (discardWorktree r c) = ec_execs c" "length (ec_execs (syncToStore r env c)) = length (ec_execs c)" "ec_execs (stop_timer r c) = ec_execs c"
  by (simp_all add: upd_task_def set_terminated_def discardWorktree_def syncToStore_def stop_timer_def emit_def Let_def split: option.splits)

lemma mark_error_run:
  assumes "r < length (ec_execs c)" "\<not> tr_terminated (run_of c r)"
  shows "run_of (markErrorLocked r reason env c) r = (run_of c r)\<lparr>tr_terminated := True, tr_task := (task_of c r)\<lparr>te_Stage := ''error'',
    te_ErrorReason := reason, te_ErrorClass := ClassifyErrorReason reason, te_UpdatedAt := xi_now (xe_io env)\<rparr>\<rparr>"
  using assms
  by (simp add: markErrorLocked_def cleanupExecutionLocked_def Let_def mark_frame)
    (simp add: syncToStore_def upd_task_def set_terminated_def mark_frame Let_def)

lemma mark_error_routing:
  assumes "i = te_DeveloperTaskID (task_of c r) \<or> i = te_ReviewerTaskID (task_of c r)" "r < length (ec_execs c)" "\<not> tr_terminated (run_of c r)"
  shows "markErrorLocked r reason env (c\<lparr>ec_routing := AList.delete i (ec_routing c)\<rparr>) = markErrorLocked r reason env c"
proof -
  let ?d = "syncToStore r env (upd_task r (\<lambda>t. t\<lparr>te_Stage := ''error'', te_ErrorReason := reason,
    te_ErrorClass := ClassifyErrorReason reason\<rparr>) (discardWorktree r (set_terminated r c)))"
  have t: "te_DeveloperTaskID (task_of ?d r) = te_DeveloperTaskID (task_of c r)" "te_ReviewerTaskID (task_of ?d r) = te_ReviewerTaskID (task_of c r)"
    using assms(2) by (simp_all add: syncToStore_def upd_task_def set_terminated_def mark_frame Let_def)
  show ?thesis using assms(1,3)
    by (auto simp: markErrorLocked_def routing_commutes cleanupExecutionLocked_def Let_def t mark_frame delete_twist delete_idem)
qed

lemma mark_error_validating:
  "markErrorLocked r reason env (c\<lparr>ec_validating := v\<rparr>) = (markErrorLocked r reason env c)\<lparr>ec_validating := v\<rparr>"
  by (simp add: markErrorLocked_def validating_commutes cleanupExecutionLocked_def Let_def)

text \<open>\<open>j\<close> is a timer of the run that has just fired.\<close>

lemma kill_timer_keeps:
  assumes inv: "xinv c" and r: "r < length (ec_execs c)" "\<not> tr_terminated (run_of c r)" "r \<notin> set (ec_starting c)" "r \<notin> set (ec_created c)"
    and j: "\<And>s. s < length (ec_execs c) \<Longrightarrow> s \<noteq> r \<Longrightarrow> tr_timer (run_of c s) = Some j \<Longrightarrow> (j, s) \<notin> set (ec_timers c)"
  shows "xinv (markErrorLocked r reason env (c\<lparr>ec_timers := filter (\<lambda>x. fst x \<noteq> j) (ec_timers c)\<rparr>))" (is "xinv (markErrorLocked _ _ _ ?b)")
proof -
  obtain k where k: "tokens c r = [k]" "token_ok c r (task_of c r) k" using live_token[OF inv r(1,2)] .
  have "k \<in> set (tokens c r)" using k(1) by simp
  then have nk: "k \<noteq> Starting" "k \<noteq> Created" and kv: "k = Validating \<Longrightarrow> r \<in> set (ec_validating c)"
    using r(3,4) by (auto simp: tokens_def count_list_0_iff split: if_splits)
  show ?thesis
  proof (cases k)
    case (Looping i)
    then have i: "i = te_DeveloperTaskID (task_of ?b r) \<or> i = te_ReviewerTaskID (task_of ?b r)" using k(2) by auto
    have o: "?b\<lparr>ec_routing := x\<rparr> = c\<lparr>ec_routing := x, ec_timers := filter (\<lambda>x. fst x \<noteq> j) (ec_timers c)\<rparr>" for x by simp
    have "xinv (markErrorLocked r reason env (?b\<lparr>ec_routing := AList.delete i (ec_routing ?b)\<rparr>))" unfolding o
      using mark_error_restores[OF idle_mono[OF idle_drop_timer[OF take_loop[OF inv r(1,2)], of i j]]] k(1) Looping j by simp
    then show ?thesis using mark_error_routing[OF i] r(1,2) by simp
  next
    case Validating
    let ?c = "?b\<lparr>ec_validating := remove1 r (ec_validating c)\<rparr>"
    let ?d = "markErrorLocked r reason env ?c"
    have o: "?c = c\<lparr>ec_validating := remove1 r (ec_validating c), ec_timers := filter (\<lambda>x. fst x \<noteq> j) (ec_timers c)\<rparr>" by simp
    have d: "xinv ?d" unfolding o
      using mark_error_restores[OF idle_mono[OF idle_drop_timer[OF take_listed(3)[OF inv r(1,2) kv[OF Validating]], of j]]] j by simp
    have e: "?d\<lparr>ec_validating := ec_validating c\<rparr> = markErrorLocked r reason env ?b"
      by (simp add: mark_error_validating[symmetric])
    have t: "tr_terminated (run_of ?d r)" using mark_error_run[of r ?c reason env] r by simp
    have v: "ec_validating ?d = remove1 r (ec_validating c)" by (simp add: mark_error_validating)
    have l: "r < length (ec_execs ?d)" using r by (simp add: markErrorLocked_def cleanupExecutionLocked_def Let_def mark_frame)
    have "set (ec_validating c) \<subseteq> insert r (set (remove1 r (ec_validating c)))" by (metis in_set_remove1 insertCI insertI1 subsetI)
    then show ?thesis unfolding e[symmetric] by (intro stale_validation[OF d t _ l]) (simp_all add: v count_remove1_other)
  qed (use nk in simp_all)
qed

lemma kill_keeps:
  assumes inv: "xinv c" and r: "r < length (ec_execs c)" "\<not> tr_terminated (run_of c r)" "r \<notin> set (ec_starting c)" "r \<notin> set (ec_created c)"
  shows "xinv (markErrorLocked r reason env c)"
proof -
  have lt: "\<forall>x \<in> set (ec_timers c). fst x < ec_nextTimer c" using inv by (simp add: xinv_def tables_ok_def timers_ok_def)
  then have "filter (\<lambda>x. fst x \<noteq> ec_nextTimer c) (ec_timers c) = ec_timers c" by (intro filter_True) auto
  moreover have "(ec_nextTimer c, s) \<notin> set (ec_timers c)" for s using lt by auto
  ultimately show ?thesis using kill_timer_keeps[OF inv r, of "ec_nextTimer c"] by simp
qed

lemma timer_fired_keeps:
  assumes inv: "xinv c" and i: "(i, r) \<in> set (ec_timers c)"
  shows "xinv (timer_fired i r env c)"
proof -
  let ?b = "c\<lparr>ec_timers := filter (\<lambda>x. fst x \<noteq> i) (ec_timers c)\<rparr>"
  have t: "timers_ok c" and tb: "tables_ok {} c" using inv by (simp_all add: xinv_def tables_ok_def)
  then have len: "r < length (ec_execs c)" using i by (auto simp: timers_ok_def)
  have own: "s = r" if "s < length (ec_execs c)" "tr_timer (run_of c s) = Some i" for s
    using t that i by (auto simp: timers_ok_def)
  show ?thesis
  proof (cases "tr_terminated (run_of c r)")
    case False
    obtain k where k: "tokens c r = [k]" "token_ok c r (task_of c r) k" using live_token[OF inv len False] .
    have "r \<in> snd ` set (ec_timers c)" using i by force
    then have "Starting \<notin> set (tokens c r)" "Created \<notin> set (tokens c r)" using k by (cases k; simp)+
    then have "r \<notin> set (ec_starting c)" "r \<notin> set (ec_created c)" by (auto simp: tokens_def count_list_0_iff)
    then show ?thesis unfolding timer_fired_def
      by (intro kill_timer_keeps[OF inv len False]) (use own in blast)+
  next
    case True
    have f: "dispatched ?b = dispatched c" by (simp add: dispatched_def)
    have "run_ok ?b s" if s: "s < length (ec_execs c)" for s
    proof (cases "s = r")
      case True
      then show ?thesis using inv s \<open>tr_terminated (run_of c r)\<close> by (simp add: xinv_def run_ok_def f)
    next
      case False
      then have "armed ?b s" if "armed c s" using that own[OF s] by (auto simp: armed_def)
      then show ?thesis by (intro run_ok_cong[of ?b c]) (use inv s in \<open>auto simp: xinv_def f tokens_def\<close>)
    qed
    moreover have "timers_ok ?b" using t unfolding timers_ok_def by (simp add: distinct_map_filter)
    then have "tables_ok {} ?b"
      using tb by (simp add: tables_ok_def f routing_ok_def active_ok_def refs_ok_def sent_ok_def task_ids_ok_def)
    ultimately show ?thesis using True by (simp add: timer_fired_def markErrorLocked_def xinv_def)
  qed
qed

subsection \<open>Cancelling the children of a requirement\<close>

text \<open>No child of the requirement is still being set up.\<close>

definition settled :: "bytes \<Rightarrow> bytes \<Rightarrow> XComp \<Rightarrow> bool" where
  "settled slug reqID c \<longleftrightarrow> (\<forall>r \<in> set (ec_starting c) \<union> set (ec_created c).
     \<not> (te_RequirementID (task_of c r) = reqID \<and> te_Slug (task_of c r) = slug))"

lemma mark_error_other:
  assumes "s < length (ec_execs c)" "s \<noteq> r"
  shows "run_of (markErrorLocked r reason env c) s = run_of c s"
  using assms by (simp add: markErrorLocked_def cleanupExecutionLocked_def Let_def mark_frame)
    (simp add: syncToStore_def upd_task_def set_terminated_def mark_frame Let_def)

lemma mark_error_frame:
  "ec_starting (markErrorLocked r reason env c) = ec_starting c" "ec_created (markErrorLocked r reason env c) = ec_created c"
  "length (ec_execs (markErrorLocked r reason env c)) = length (ec_execs c)" "ec_config (markErrorLocked r reason env c) = ec_config c"
  by (simp_all add: markErrorLocked_def cleanupExecutionLocked_def Let_def mark_frame)
    (simp_all add: syncToStore_def upd_task_def set_terminated_def discardWorktree_def stop_timer_def emit_def upd_run_def Let_def split: option.splits)

lemma mark_error_settled:
  assumes "xinv c" "settled slug reqID c" "r < length (ec_execs c)"
  shows "settled slug reqID (markErrorLocked r reason env c)"
proof (cases "tr_terminated (run_of c r)")
  case True
  then show ?thesis using assms(2) by (simp add: markErrorLocked_def)
next
  case False
  have len: "s < length (ec_execs c)" if "s \<in> set (ec_starting c) \<union> set (ec_created c)" for s
    using assms(1) that by (auto simp: xinv_def tables_ok_def refs_ok_def)
  have "te_RequirementID (task_of (markErrorLocked r reason env c) s) = te_RequirementID (task_of c s)"
    "te_Slug (task_of (markErrorLocked r reason env c) s) = te_Slug (task_of c s)" if "s < length (ec_execs c)" for s
    using mark_error_other[OF that, of r reason env] mark_error_run[OF assms(3) False, of reason env] by (cases "s = r"; simp)+
  then show ?thesis using assms(2) len unfolding settled_def mark_error_frame by (metis (no_types, lifting))
qed

lemma cancel_one_keeps:
  assumes inv: "xinv c" and q: "settled slug reqID c"
  shows "xinv (cancel_one slug reqID reason env e c) \<and> settled slug reqID (cancel_one slug reqID reason env e c)"
proof (cases "cancel_one slug reqID reason env e c = c")
  case True
  then show ?thesis using assms by simp
next
  case False
  then obtain r where act: "map_of (ec_active c) e = Some r" and live: "\<not> tr_terminated (run_of c r)"
    and m: "te_RequirementID (task_of c r) = reqID" "te_Slug (task_of c r) = slug"
    by (auto simp: cancel_one_def Let_def split: option.splits if_splits)
  obtain d where d: "cancel_one slug reqID reason env e c = markErrorLocked r reason env d" "same_core c d"
    using act live m by (auto simp: cancel_one_def Let_def split: option.splits)
  have len: "r < length (ec_execs d)" using inv map_of_SomeD[OF act] d(2) by (auto simp: xinv_def tables_ok_def active_ok_def same_core_def)
  have id: "xinv d" by (rule xinv_core[OF inv d(2)])
  have qd: "settled slug reqID d" using q d(2) by (simp add: settled_def same_core_def)
  have "r \<notin> set (ec_starting d)" "r \<notin> set (ec_created d)" using qd m d(2) by (auto simp: settled_def same_core_def)
  then show ?thesis using kill_keeps[OF id len] mark_error_settled[OF id qd len] live d by (simp add: same_core_def)
qed

lemma cancel_children_keeps:
  assumes "xinv c" "settled slug reqID c"
  shows "xinv (cancelChildrenForRequirement slug reqID reason env c)"
proof -
  have "xinv (fold (cancel_one slug reqID reason env) es d)" if "xinv d" "settled slug reqID d" for es d
    using that by (induction es arbitrary: d) (simp_all add: cancel_one_keeps)
  then show ?thesis using assms by (simp add: cancelChildrenForRequirement_def)
qed

subsection \<open>Claiming and setting up a task\<close>

lemma append_run_keeps:
  assumes inv: "xinv c" and new: "map_of (ec_active c) (te_EntityID (tr_task x)) = None"
    and x: "\<not> tr_terminated x" "tr_timer x = None" "te_TDDCycle (tr_task x) = 0" "te_Stage (tr_task x) = ''developing''"
      "te_ReviewRetryCount (tr_task x) = 0" "te_DeveloperTaskID (tr_task x) = []" "te_ReviewerTaskID (tr_task x) = []" "te_ValidatorTaskID (tr_task x) = []"
  shows "xinv (c\<lparr>ec_execs := ec_execs c @ [x], ec_active := AList.update (te_EntityID (tr_task x)) (length (ec_execs c)) (ec_active c),
    ec_starting := ec_starting c @ [length (ec_execs c)]\<rparr>)" (is "xinv ?d")
proof -
  let ?n = "length (ec_execs c)" and ?e = "te_EntityID (tr_task x)"
  have t: "tables_ok {} c" using inv by (simp add: xinv_def)
  have new': "?e \<notin> fst ` set (ec_active c)" using new by (simp add: map_of_eq_None_iff)
  have act: "ec_active ?d = ec_active c @ [(?e, ?n)]" using new' by (simp add: update_new_key)
  have f: "dispatched ?d = dispatched c" by (simp add: dispatched_def)
  have run: "run_of ?d s = run_of c s" if "s < ?n" for s using that by (simp add: nth_append)
  have refs: "\<forall>s \<in> set (ec_starting c) \<union> set (ec_created c) \<union> set (ec_validating c). s < ?n" "\<forall>y \<in> set (ec_timers c). snd y < ?n"
    "\<forall>u \<in> set (dispatched c). fst (snd u) < ?n" using t by (simp_all add: tables_ok_def refs_ok_def timers_ok_def sent_ok_def)
  have live: "te_EntityID (task_of c s) \<noteq> ?e" if "s < ?n" "\<not> tr_terminated (run_of c s)" for s
    using live_token[OF inv that] new by (metis option.distinct(1))
  have "run_ok ?d s" if s: "s < ?n" for s
  proof (cases "tr_terminated (run_of c s)")
    case True
    have "run_ok c s" using inv s by (simp add: xinv_def)
    then show ?thesis using True s by (simp add: run_ok_def f nth_append)
  next
    case False
    show ?thesis by (rule run_ok_cong[of ?d c])
        (use inv s live[OF s False] in \<open>auto simp: xinv_def f nth_append tokens_def armed_def AList.update_conv'\<close>)
  qed
  moreover have "run_ok ?d ?n"
  proof -
    have "snd y \<noteq> ?e" if "y \<in> set (ec_routing c)" for y
      using t that live by (fastforce simp: tables_ok_def routing_ok_def)
    then have rt: "filter (\<lambda>y. snd y = ?e) (ec_routing c) = []" by (simp add: filter_empty_conv)
    have z: "count_list (ec_starting c) ?n = 0" "count_list (ec_created c) ?n = 0" "count_list (ec_validating c) ?n = 0"
      using refs(1) by (auto simp: count_list_0_iff)
    have tok: "tokens ?d ?n = [Starting]" using rt z by (simp add: tokens_def nth_append)
    have "filter (\<lambda>u. fst u = k \<and> fst (snd u) = ?n) (dispatched c) = []" for k using refs(3) by (auto simp: filter_empty_conv)
    then have lp: "loops k (dispatched c) ?n = 0" for k by (simp add: loops_def)
    have "?n \<notin> snd ` set (ec_timers c)" using refs(2) by auto
    then show ?thesis
      using tok lp x retry_bound_nonneg[of "ec_config c"]
      by (simp add: run_ok_def f nth_append in_budget_def developing_def AList.update_conv' less_max_iff_disj)
  qed
  moreover have "tables_ok {} ?d"
  proof -
    have "routing_ok {} ?d" unfolding routing_ok_def
    proof (intro conjI ballI)
      show "distinct (map fst (ec_routing ?d))" using t by (simp add: tables_ok_def routing_ok_def)
      fix y assume "y \<in> set (ec_routing ?d)"
      then obtain s where "s < ?n" "\<not> tr_terminated (run_of c s)" "snd y = te_EntityID (task_of c s)"
        using t by (auto simp: tables_ok_def routing_ok_def)
      then show "\<exists>s < length (ec_execs ?d). s \<notin> {} \<and> \<not> tr_terminated (run_of ?d s) \<and> snd y = te_EntityID (task_of ?d s)"
        by (intro exI[of _ s]) (simp add: nth_append)
    qed
    moreover have "active_ok {} ?d" using t x(1) new' unfolding active_ok_def act
      by (auto simp: tables_ok_def active_ok_def nth_append)
    moreover have "refs_ok ?d" using refs(1) by (auto simp: refs_ok_def less_SucI)
    moreover have "sent_ok ?d" using t x unfolding sent_ok_def f
      by (auto simp: tables_ok_def sent_ok_def task_ids_ok_def nth_append f less_Suc_eq)
    moreover have "timers_ok ?d" using t x(2) unfolding timers_ok_def
      by (auto simp: tables_ok_def timers_ok_def nth_append less_Suc_eq)
    ultimately show ?thesis by (simp add: tables_ok_def)
  qed
  ultimately show ?thesis unfolding xinv_def by (auto simp: less_Suc_eq simp del: nth_append)
qed

lemma claim_core: "claimTaskExecution key a b env c = (ok, d) \<Longrightarrow> \<exists>st. d = c\<lparr>ec_store := st\<rparr>"
  by (auto simp: claimTaskExecution_def split: prod.splits)

lemma pending_keeps:
  assumes inv: "xinv c"
  shows "xinv (handleTaskPending key entry env c)"
proof (cases "handleTaskPending key entry env c = c")
  case True
  then show ?thesis using inv by simp
next
  case False
  then obtain t where t: "entry = Some t" "te_Stage t = ''pending''" by (auto simp: handleTaskPending_def split: option.splits if_splits)
  obtain ok d where cl: "claimTaskExecution key ''pending'' ''developing'' env c = (ok, d)" by fastforce
  have d: "xinv d" using claim_core[OF cl] xinv_core[OF inv] by auto
  let ?x = "new_run key (claimed_task (ec_ids d) (ec_config d) t)"
  have "xinv (d\<lparr>ec_execs := ec_execs d @ [?x], ec_active := AList.update (te_EntityID (tr_task ?x)) (length (ec_execs d)) (ec_active d),
      ec_starting := ec_starting d @ [length (ec_execs d)]\<rparr>)" if "map_of (ec_active d) (te_EntityID (tr_task ?x)) = None"
    by (rule append_run_keeps[OF d that]) (simp_all add: new_run_def claimed_task_def TaskExecution_zero_def)
  then show ?thesis using t cl d by (cases ok) (simp_all add: handleTaskPending_def Let_def new_run_def)
qed

lemma init_worktree_keeps:
  assumes inv: "xinv c" and r: "r \<in> set (ec_starting c)"
  shows "xinv (init_worktree r env c)"
proof -
  let ?g = "ec_config c" and ?U = "dispatched c"
  let ?P = "\<lambda>x. may_develop ?g ?U r x \<and> te_TDDCycle (tr_task x) = 0 \<and> loops True ?U r = 0"
  let ?b = "syncToStore r env (c\<lparr>ec_starting := remove1 r (ec_starting c)\<rparr>)"
  have len: "r < length (ec_execs c)" using inv r by (simp add: xinv_def tables_ok_def refs_ok_def)
  have "run_ok c r" using inv len by (simp add: xinv_def)
  then have live: "\<not> tr_terminated (run_of c r)" using r by (auto simp: run_ok_def)
  have i0: "idle False r ?g ?U (\<lambda>x. ?P x \<and> r \<notin> snd ` set (ec_timers c)) (c\<lparr>ec_starting := remove1 r (ec_starting c)\<rparr>)"
    by (rule idle_mono[OF take_listed(1)[OF inv len live r]]) (simp add: may_develop_def)
  then have nt: "r \<notin> snd ` set (ec_timers c)" by (simp add: idle_def)
  have i1: "idle False r ?g ?U ?P ?b"
    by (rule idle_sync[OF idle_mono[OF i0]])
      (simp, auto simp: clockless_def may_develop_def live_run_def in_budget_def developing_def)
  have i2: "idle False r ?g ?U ?P (emit (CreateWorktree w) ?b)" for w by (rule idle_core[OF i1]) simp
  show ?thesis
  proof (cases "xe_create env")
    case (Inl e)
    have "xinv (markErrorLocked r reason env (emit (CreateWorktree w) ?b))" for reason w
      by (rule mark_error_restores[OF idle_mono[OF i2]]) (simp add: may_develop_def)
    then show ?thesis using Inl by (simp add: init_worktree_def createWorktree_def Let_def)
  next
    case (Inr w)
    obtain dir branch where w: "w = (dir, branch)" by fastforce
    let ?d = "upd_task r (\<lambda>t. t\<lparr>te_WorktreePath := dir, te_WorktreeBranch := branch\<rparr>) (emit (CreateWorktree (te_TaskID (task_of ?b r))) ?b)"
    have "idle False r ?g ?U ?P ?d"
      by (rule idle_task[OF i2]) (auto simp: may_develop_def live_run_def in_budget_def developing_def)
    moreover have "r \<notin> snd ` set (ec_timers ?d)" using nt
      by (simp add: upd_task_def emit_def syncToStore_def Let_def)
    ultimately have "xinv (?d\<lparr>ec_created := ec_created ?d @ [r]\<rparr>)" by (rule created_restores)
    then show ?thesis using Inr w by (simp add: init_worktree_def createWorktree_def Let_def)
  qed
qed

lemma init_dispatch_keeps:
  assumes inv: "xinv c" and r: "r \<in> set (ec_created c)" and u: "fresh_uuid env (dispatched c)"
  shows "xinv (init_dispatch r env c)"
proof -
  have len: "r < length (ec_execs c)" using inv r by (simp add: xinv_def tables_ok_def refs_ok_def)
  have "run_ok c r" using inv len by (simp add: xinv_def)
  then have live: "\<not> tr_terminated (run_of c r)" using r by (auto simp: run_ok_def)
  have "idle False r (ec_config c) (dispatched c) (may_develop (ec_config c) (dispatched c) r) (c\<lparr>ec_created := remove1 r (ec_created c)\<rparr>)"
    by (rule idle_mono[OF take_listed(2)[OF inv len live r]]) (simp add: may_develop_def)
  then show ?thesis unfolding init_dispatch_def
    by (intro dispatch_developer_restores[OF idle_start u])
      (simp_all add: clockless_def may_develop_def live_run_def in_budget_def developing_def)
qed

subsection \<open>Resets\<close>

text \<open>The requirement whose children a reset request cancels, if any.\<close>

definition reset_target :: "ReqResetRequest option \<Rightarrow> XEnv \<Rightarrow> XComp \<Rightarrow> (bytes \<times> bytes) option" where
  "reset_target data env c =
     (case data of
        None \<Rightarrow> None
      | Some req \<Rightarrow>
          if rr_Slug req \<noteq> [] \<and> rr_RequirementID req \<noteq> [] then Some (rr_Slug req, rr_RequirementID req)
          else map_option (\<lambda>e. (re_Slug e, re_RequirementID e)) (fst (getReq (xe_io env) (rr_Key req) (ec_store c))))"

lemma reset_shape:
  "\<exists>st st'. snd (handleReqResetMutation data env c) = (case reset_target data env c of None \<Rightarrow> c\<lparr>ec_store := st\<rparr>
     | Some (slug, reqID) \<Rightarrow> (cancelChildrenForRequirement slug reqID ''requirement_reset'' env (c\<lparr>ec_store := st\<rparr>))\<lparr>ec_store := st'\<rparr>)
   \<or> snd (handleReqResetMutation data env c) = c"
proof (cases data)
  case None
  then show ?thesis by (simp add: handleReqResetMutation_def)
next
  case (Some req)
  show ?thesis
  proof (cases "rr_Slug req \<noteq> [] \<and> rr_RequirementID req \<noteq> []")
    case True
    then show ?thesis using Some
      by (intro exI[of _ "ec_store c"] exI[of _ "snd (delete_family (task_of (cancelChildrenForRequirement (rr_Slug req) (rr_RequirementID req)
            ''requirement_reset'' env c)) (xe_io env) (rr_Slug req) (rr_RequirementID req) (ec_store (cancelChildrenForRequirement (rr_Slug req)
            (rr_RequirementID req) ''requirement_reset'' env c)))"])
        (auto simp: handleReqResetMutation_def resetRequirementFamily_def reset_target_def Let_def split: prod.splits)
  next
    case False
    obtain row st where g: "getReq (xe_io env) (rr_Key req) (ec_store c) = (row, st)" by fastforce
    show ?thesis
    proof (cases row)
      case None
      then show ?thesis using Some False g
        by (intro exI[of _ "snd (deleteReq (xe_io env) (rr_Key req) st)"])
          (auto simp: handleReqResetMutation_def reset_target_def Let_def split: prod.splits)
    next
      case (Some e)
      then show ?thesis using \<open>data = Some req\<close> False g
        by (intro exI[of _ st] exI[of _ "snd (deleteReq (xe_io env) (rr_Key req) (ec_store (cancelChildrenForRequirement (re_Slug e)
              (re_RequirementID e) ''requirement_reset'' env (c\<lparr>ec_store := st\<rparr>))))"])
          (auto simp: handleReqResetMutation_def reset_target_def Let_def split: prod.splits)
    qed
  qed
qed

lemma reset_keeps:
  assumes inv: "xinv c" and q: "\<And>slug reqID. reset_target data env c = Some (slug, reqID) \<Longrightarrow> settled slug reqID c"
  shows "xinv (snd (handleReqResetMutation data env c))"
proof -
  have st: "xinv (d\<lparr>ec_store := st\<rparr>)" if "xinv d" for d st by (rule xinv_core[OF that]) simp
  have "settled slug reqID (c\<lparr>ec_store := st\<rparr>)" if "settled slug reqID c" for slug reqID st using that by (simp add: settled_def)
  then show ?thesis using reset_shape[of data env c] q st[OF inv] st[OF cancel_children_keeps[OF st[OF inv]]] inv
    by (auto split: option.splits)
qed

end
