(* ===== verification/Exec_Machine.thy ===== *)
theory Exec_Machine
  imports Exec_Keeps
begin

text \<open>
  The execution manager as a state machine: its events, its runs from a fresh start, and what holds in
  every state reached.
\<close>

section \<open>The machine\<close>

datatype xmutation = TaskCreate "TaskCreateRequest option" | TaskPhase "TaskPhaseRequest option" | TaskComplete "TaskCompleteRequest option"
  | ReqCreate "ReqCreateRequest option" | ReqPhase "ReqPhaseRequest option" | ReqNode "ReqNodeRequest option"
  | ReqResetNodes "ReqResetNodeResultsRequest option" | ExecClaim "ExecClaimRequest option"

fun mutate :: "xmutation \<Rightarrow> XIO \<Rightarrow> XComp \<Rightarrow> ExecMutationResponse \<times> ExecStore" where
  "mutate (TaskCreate d) io c = handleTaskCreateMutation (ec_ids c) (xg_MaxTDDCycles (ec_config c)) d (task_of c) io (ec_store c)"
| "mutate (TaskPhase d) io c = handleTaskPhaseMutation d (task_of c) io (ec_store c)"
| "mutate (TaskComplete d) io c = handleTaskCompleteMutation d (task_of c) io (ec_store c)"
| "mutate (ReqCreate d) io c = handleReqCreateMutation (ec_ids c) d io (ec_store c)"
| "mutate (ReqPhase d) io c = handleReqPhaseMutation d io (ec_store c)"
| "mutate (ReqNode d) io c = handleReqNodeMutation d io (ec_store c)"
| "mutate (ReqResetNodes d) io c = handleReqResetNodeResultsMutation d io (ec_store c)"
| "mutate (ExecClaim d) io c = handleExecClaimMutation d (task_of c) io (ec_store c)"

text \<open>
  The events.  Their premises: task IDs made with a new UUID are new, a loop reports the step it was
  dispatched with, the component is not shutting down, and no child of a requirement is being set up while it is cancelled
  (theorem \<open>cancel_during_setup\<close> below shows what the code does otherwise).
\<close>

inductive xstep :: "XComp \<Rightarrow> XComp \<Rightarrow> bool" where
  Pending: "xstep c (handleTaskPending key entry env c)"
| Worktree: "r \<in> set (ec_starting c) \<Longrightarrow> xstep c (init_worktree r env c)"
| Dispatch: "r \<in> set (ec_created c) \<Longrightarrow> fresh_uuid env (dispatched c) \<Longrightarrow> xstep c (init_dispatch r env c)"
| Loop: "echoes entry c \<Longrightarrow> fresh_uuid env (dispatched c) \<Longrightarrow> running env \<Longrightarrow> xstep c (handleLoopEntityUpdate entry env c)"
| Validated: "r \<in> set (ec_validating c) \<Longrightarrow> fresh_uuid env (dispatched c) \<Longrightarrow> xstep c (validation_returned r result env c)"
| Timeout: "(i, r) \<in> set (ec_timers c) \<Longrightarrow> xstep c (timer_fired i r env c)"
| Requirement: "settled (re_Slug e) (re_RequirementID e) c \<Longrightarrow> xstep c (handleRequirementUpdate (Some e) env c)"
| Reset: "(\<And>slug reqID. reset_target data env c = Some (slug, reqID) \<Longrightarrow> settled slug reqID c) \<Longrightarrow>
    xstep c (snd (handleReqResetMutation data env c))"
| Mutation: "xstep c (c\<lparr>ec_store := snd (mutate m io c)\<rparr>)"
| Expiry: "xstep c (c\<lparr>ec_store := expire_task key (ec_store c)\<rparr>)"

inductive xreach :: "XComp \<Rightarrow> bool" where
  Start: "start_comp g ids cats kv None env = Some c \<Longrightarrow> xreach c"
| Step: "xreach c \<Longrightarrow> xstep c d \<Longrightarrow> xreach d"

lemma start_inv: "start_comp g ids cats kv None env = Some c \<Longrightarrow> xinv c"
  by (auto simp: start_comp_def reconcileFromGraph_def fresh_comp_def Let_def xinv_def tables_ok_def routing_ok_def active_ok_def
      refs_ok_def sent_ok_def timers_ok_def dispatched_def split: if_splits)

lemma step_inv: "xstep c d \<Longrightarrow> xinv c \<Longrightarrow> xinv d"
proof (induction rule: xstep.induct)
  case (Requirement e c env)
  then show ?case by (auto simp: handleRequirementUpdate_def intro: cancel_children_keeps)
qed (auto intro: pending_keeps init_worktree_keeps init_dispatch_keeps loop_update_keeps validation_returned_keeps
    timer_fired_keeps reset_keeps xinv_core)

lemma reach_inv: "xreach c \<Longrightarrow> xinv c"
  by (induction rule: xreach.induct) (auto intro: start_inv step_inv)

section \<open>Handlers touch one run\<close>

definition only :: "nat \<Rightarrow> XComp \<Rightarrow> XComp \<Rightarrow> bool" where
  "only r c d \<longleftrightarrow> ec_config d = ec_config c \<and> length (ec_execs d) = length (ec_execs c)
     \<and> (\<forall>s < length (ec_execs c). s \<noteq> r \<longrightarrow> run_of d s = run_of c s)"

named_theorems only_intros

lemma only_refl [only_intros]: "only r c c"
  by (simp add: only_def)

lemma only_trans: "only r c d \<Longrightarrow> only r d e \<Longrightarrow> only r c e"
  by (simp add: only_def)

lemma only_core: "only r c d \<Longrightarrow> same_core d e \<Longrightarrow> only r c e"
  by (simp add: only_def same_core_def)

lemma only_upd_run [only_intros]: "only r c d \<Longrightarrow> only r c (upd_run r f d)"
  by (simp add: only_def)

lemma only_upd_task [only_intros]: "only r c d \<Longrightarrow> only r c (upd_task r h d)"
  unfolding upd_task_def by (rule only_upd_run)

lemma only_tables [only_intros]:
  assumes "only r c d"
  shows "only r c (d\<lparr>ec_store := st\<rparr>)" "only r c (d\<lparr>ec_routing := rt\<rparr>)" "only r c (d\<lparr>ec_active := act\<rparr>)" "only r c (d\<lparr>ec_timers := tm\<rparr>)"
    "only r c (d\<lparr>ec_nextTimer := n\<rparr>)" "only r c (d\<lparr>ec_validating := v\<rparr>)" "only r c (d\<lparr>ec_starting := v\<rparr>)" "only r c (d\<lparr>ec_created := v\<rparr>)"
    "only r c (emit e d)"
  using assms by (simp_all add: only_def emit_def)

lemma only_marks [only_intros]:
  assumes o: "only r c d"
  shows "only r c (syncToStore r env d)" "only r c (stop_timer r d)" "only r c (startExecutionTimeout r d)" "only r c (resetTimeoutLocked r d)"
    "only r c (set_terminated r d)" "only r c (discardWorktree r d)" "only r c (cleanupExecutionLocked r d)" "only r c (request_recovery r reason env d)"
proof -
  have s: "only r c (syncToStore r env d)" if "only r c d" for d unfolding syncToStore_def Let_def by (intro only_intros that)
  have p: "only r c (stop_timer r d)" if "only r c d" for d by (simp add: stop_timer_def that only_tables split: option.split)
  have t: "only r c (startExecutionTimeout r d)" if "only r c d" for d unfolding startExecutionTimeout_def by (intro only_intros that)
  show "only r c (syncToStore r env d)" "only r c (stop_timer r d)" "only r c (startExecutionTimeout r d)" by (rule s p t, rule o)+
  show "only r c (resetTimeoutLocked r d)" unfolding resetTimeoutLocked_def by (intro t p o)
  show "only r c (set_terminated r d)" unfolding set_terminated_def by (intro only_intros o)
  show "only r c (discardWorktree r d)" by (rule only_core[OF o]) simp
  show "only r c (cleanupExecutionLocked r d)" unfolding cleanupExecutionLocked_def Let_def by (intro only_intros p o)
  show "only r c (request_recovery r reason env d)" by (rule only_core[OF o]) simp
qed

lemma only_terminal [only_intros]:
  assumes o: "only r c d"
  shows "only r c (markErrorLocked r reason env d)" "only r c (markEscalatedLocked r reason env d)"
  unfolding markErrorLocked_def markEscalatedLocked_def by (auto intro!: only_intros o)

lemma only_guard:
  assumes "only r c d" "dispatch_guard at r env d = (x, e)"
  shows "only r c e"
  by (rule only_core[OF assms(1) guard_core[OF assms(2)]])

lemma only_dispatch [only_intros]:
  assumes o: "only r c d"
  shows "only r c (dispatchDeveloperLocked r env d)" "only r c (dispatchReviewerLocked r env d)" "only r c (dispatchValidatorLocked r env d)"
  unfolding dispatchDeveloperLocked_def dispatchReviewerLocked_def dispatchValidatorLocked_def Let_def
  by (auto split: prod.split option.split intro!: only_intros intro: only_guard[OF o])

lemma only_retry [only_intros]:
  assumes o: "only r c d"
  shows "only r c (routeFixableRejection r fb env d)" "only r c (handleValidationFailedLocked r env d)" "only r c (handleRejectionLocked r result env d)"
proof -
  have r: "only r c (startDeveloperRetryLocked r fb env d)" if "only r c d" for d fb
    unfolding startDeveloperRetryLocked_def Let_def by (intro only_intros that)
  have f: "only r c (routeFixableRejection r fb env d)" if "only r c d" for d fb
    unfolding routeFixableRejection_def by (auto intro!: only_intros r that)
  show "only r c (routeFixableRejection r fb env d)" by (rule f[OF o])
  show "only r c (handleValidationFailedLocked r env d)"
    unfolding handleValidationFailedLocked_def Let_def by (auto intro!: only_intros r o split: option.split)
  show "only r c (handleRejectionLocked r result env d)"
    unfolding handleRejectionLocked_def Let_def by (auto intro!: only_intros f o)
qed

lemma only_merge:
  assumes o: "only r c d" and m: "mergeWorktree r env d = (x, e)"
  shows "only r c e"
proof -
  have "e = d \<or> (\<exists>w f. e = emit w d \<or> e = upd_task r f (emit w d))"
    using m unfolding mergeWorktree_def Let_def by (auto split: if_splits option.splits merge_run.splits simp del: merge_loop.simps)
  then show ?thesis using o by (auto intro!: only_intros)
qed

lemma only_approve [only_intros]:
  assumes o: "only r c d"
  shows "only r c (markApprovedLocked r env d)"
  unfolding markApprovedLocked_def by (auto split: prod.split option.split intro!: only_intros o intro: only_merge[OF o])

lemma only_handlers:
  "only r c (handleDeveloperCompleteLocked r event parsed env c)" "only r c (handleReviewerCompleteLocked r event review env c)"
  "only r c (validation_returned r result env c)" "only r c (init_dispatch r env c)" "only r c (timer_fired i r env c)" "only r c (init_worktree r env c)"
proof -
  show "only r c (handleDeveloperCompleteLocked r event parsed env c)"
    unfolding handleDeveloperCompleteLocked_def Let_def by (auto intro!: only_intros split: option.split)
  show "only r c (handleReviewerCompleteLocked r event review env c)"
    unfolding handleReviewerCompleteLocked_def Let_def by (auto intro!: only_intros split: option.split prod.split)
  show "only r c (validation_returned r result env c)"
    unfolding validation_returned_def Let_def by (auto intro!: only_intros split: sum.split prod.split)
  show "only r c (init_dispatch r env c)" "only r c (timer_fired i r env c)"
    unfolding init_dispatch_def timer_fired_def by (intro only_intros)+
  show "only r c (init_worktree r env c)"
    unfolding init_worktree_def createWorktree_def Let_def by (auto intro!: only_intros split: sum.split prod.split)
qed

section \<open>Terminated runs are final\<close>

definition final :: "XComp \<Rightarrow> XComp \<Rightarrow> bool" where
  "final c d \<longleftrightarrow> ec_config d = ec_config c \<and> length (ec_execs c) \<le> length (ec_execs d)
     \<and> (\<forall>r < length (ec_execs c). tr_terminated (run_of c r) \<longrightarrow> run_of d r = run_of c r)"

lemma final_refl: "final c c"
  by (simp add: final_def)

lemma final_trans: "final c d \<Longrightarrow> final d e \<Longrightarrow> final c e"
  by (auto simp: final_def)

lemma final_only: "only r c d \<Longrightarrow> (r < length (ec_execs c) \<Longrightarrow> \<not> tr_terminated (run_of c r)) \<Longrightarrow> final c d"
  by (auto simp: final_def only_def)

lemma final_store: "final c (c\<lparr>ec_store := st\<rparr>)" "final c d \<Longrightarrow> final c (d\<lparr>ec_store := st\<rparr>)"
  by (simp_all add: final_def)

lemma final_pending: "final c (handleTaskPending key entry env c)"
proof -
  have "final c d" if "claimTaskExecution key a b env c = (ok, d)" for a b ok d
    using claim_core[OF that] by (auto simp: final_store)
  moreover have "final c (d\<lparr>ec_execs := ec_execs d @ [x], ec_active := act, ec_starting := sta\<rparr>)" if "final c d" for d x act sta
    using that by (auto simp: final_def nth_append)
  ultimately show ?thesis
    by (auto simp: handleTaskPending_def Let_def final_refl split: option.splits prod.splits bool.splits)
qed

lemma final_loop: "final c (handleLoopEntityUpdate entry env c)"
proof -
  have "final c (complete_step r l env c)" if "\<not> tr_terminated (run_of c r)" for r l
    using final_only[OF only_handlers(1)] final_only[OF only_handlers(2)] that by (simp add: complete_step_def final_refl)
  then show ?thesis by (auto simp: handleLoopEntityUpdate_def final_refl split: option.splits)
qed

lemma final_cancel: "final c (cancelChildrenForRequirement slug reqID reason env c)"
proof -
  have one: "final d (cancel_one slug reqID reason env e d)" for e d
  proof -
    have "only r d (emit (CancelLoop l reason) d)" for r l by (intro only_intros)
    then show ?thesis unfolding cancel_one_def Let_def
      by (auto intro!: final_only only_terminal(1) only_refl simp: final_refl split: option.split)
  qed
  have "final d (fold (cancel_one slug reqID reason env) es d)" for es d
    by (induction es arbitrary: d) (auto simp: final_refl intro: final_trans[OF one])
  then show ?thesis by (simp add: cancelChildrenForRequirement_def final_refl)
qed

lemma final_reset: "final c (snd (handleReqResetMutation data env c))"
proof -
  have "final c (cancelChildrenForRequirement slug reqID reason env (c\<lparr>ec_store := st\<rparr>))" for slug reqID reason st
    by (rule final_trans[OF final_store(1) final_cancel])
  then show ?thesis using reset_shape[of data env c] by (auto simp: final_store final_refl split: option.splits)
qed

lemma step_final:
  assumes "xstep c d" "xinv c"
  shows "final c d"
  using assms
proof (induction rule: xstep.induct)
  case (Worktree r c env)
  then have "run_ok c r" by (auto simp: xinv_def tables_ok_def refs_ok_def)
  then show ?case using Worktree only_handlers(6) by (auto intro!: final_only simp: run_ok_def)
next
  case (Dispatch r c env)
  then have "run_ok c r" by (auto simp: xinv_def tables_ok_def refs_ok_def)
  then show ?case using Dispatch only_handlers(4) by (auto intro!: final_only simp: run_ok_def)
next
  case (Validated r c env result)
  show ?case
  proof (cases "tr_terminated (run_of c r)")
    case True
    then show ?thesis by (simp add: validation_returned_def Let_def final_def)
  next
    case False
    then show ?thesis using only_handlers(3) by (auto intro!: final_only)
  qed
next
  case (Timeout i r c env)
  show ?case
  proof (cases "tr_terminated (run_of c r)")
    case True
    then show ?thesis by (simp add: timer_fired_def markErrorLocked_def final_def)
  next
    case False
    then show ?thesis using only_handlers(5) by (auto intro!: final_only)
  qed
next
  case (Requirement e c env)
  then show ?case by (simp add: handleRequirementUpdate_def final_cancel final_refl)
qed (simp_all add: final_pending final_loop final_reset final_store)

lemma reach_sandbox: "xreach c \<Longrightarrow> xg_SandboxURL (ec_config c) \<noteq> []"
proof (induction rule: xreach.induct)
  case (Start g ids cats kv env c)
  then show ?case by (auto simp: start_comp_def reconcileFromGraph_def fresh_comp_def Let_def split: if_splits)
next
  case (Step c d)
  then show ?case using step_final[OF Step.hyps(2) reach_inv[OF Step.hyps(1)]] by (simp add: final_def)
qed

section \<open>Loops are consumed once\<close>

definition sent :: "bytes \<Rightarrow> XComp \<Rightarrow> bool" where
  "sent i c \<longleftrightarrow> i \<in> (snd \<circ> snd) ` set (dispatched c)"

text \<open>A loop that was dispatched and whose completion is no longer waited for.\<close>

definition spent :: "bytes \<Rightarrow> XComp \<Rightarrow> bool" where
  "spent i c \<longleftrightarrow> i \<notin> fst ` set (ec_routing c) \<and> sent i c"

definition never_made :: "bytes \<Rightarrow> XEnv \<Rightarrow> bool" where
  "never_made i env \<longleftrightarrow> (\<forall>p. i \<noteq> p @ ''-'' @ xe_uuid env)"

named_theorems spent_intros

lemma spent_core: "spent i c \<Longrightarrow> same_core c d \<Longrightarrow> spent i d"
  by (simp add: spent_def sent_def same_core_def)

lemma spent_tables [spent_intros]:
  assumes "spent i c"
  shows "spent i (upd_run r f c)" "spent i (upd_task r h c)" "spent i (c\<lparr>ec_store := st\<rparr>)" "spent i (c\<lparr>ec_active := act\<rparr>)"
    "spent i (c\<lparr>ec_timers := tm\<rparr>)" "spent i (c\<lparr>ec_nextTimer := n\<rparr>)" "spent i (c\<lparr>ec_validating := v\<rparr>)" "spent i (c\<lparr>ec_starting := v\<rparr>)"
    "spent i (c\<lparr>ec_created := v\<rparr>)" "spent i (emit e c)" "spent i (c\<lparr>ec_execs := x\<rparr>)"
  using assms by (simp_all add: spent_def sent_def upd_task_def dispatched_emit) (auto simp: emit_def dispatched_def)

lemma spent_delete: "spent i c \<or> i = k \<and> sent i c \<Longrightarrow> spent i (c\<lparr>ec_routing := AList.delete k (ec_routing c)\<rparr>)"
  by (auto simp: spent_def sent_def dispatched_def AList.delete_eq)

lemma spent_marks [spent_intros]:
  assumes o: "spent i c"
  shows "spent i (syncToStore r env c)" "spent i (stop_timer r c)" "spent i (startExecutionTimeout r c)" "spent i (resetTimeoutLocked r c)"
    "spent i (set_terminated r c)" "spent i (discardWorktree r c)" "spent i (cleanupExecutionLocked r c)" "spent i (request_recovery r reason env c)"
proof -
  have p: "spent i (stop_timer r d)" if "spent i d" for d by (simp add: stop_timer_def that spent_tables split: option.split)
  have t: "spent i (startExecutionTimeout r d)" if "spent i d" for d unfolding startExecutionTimeout_def by (intro spent_intros that)
  show "spent i (stop_timer r c)" "spent i (startExecutionTimeout r c)" by (rule p t, rule o)+
  show "spent i (syncToStore r env c)" unfolding syncToStore_def Let_def by (intro spent_intros o)
  show "spent i (resetTimeoutLocked r c)" unfolding resetTimeoutLocked_def by (intro t p o)
  show "spent i (set_terminated r c)" unfolding set_terminated_def by (intro spent_intros o)
  show "spent i (discardWorktree r c)" "spent i (request_recovery r reason env c)" by (rule spent_core[OF o], simp)+
  have d: "spent i (d\<lparr>ec_routing := AList.delete k (ec_routing d)\<rparr>)" if "spent i d" for k d using that by (simp add: spent_delete)
  have "spent i (stop_timer r c)" by (rule p[OF o])
  then have "spent i ((stop_timer r c)\<lparr>ec_routing := AList.delete k3 (AList.delete k2 (AList.delete k1 (ec_routing (stop_timer r c))))\<rparr>)" for k1 k2 k3
    using d[OF d[OF d]] by simp
  then show "spent i (cleanupExecutionLocked r c)" unfolding cleanupExecutionLocked_def Let_def by (intro spent_intros)
qed

lemma spent_terminal [spent_intros]:
  assumes "spent i c"
  shows "spent i (markErrorLocked r reason env c)" "spent i (markEscalatedLocked r reason env c)"
  unfolding markErrorLocked_def markEscalatedLocked_def by (auto intro!: spent_intros assms)

lemma spent_update: "spent i c \<Longrightarrow> i \<noteq> k \<Longrightarrow> spent i (c\<lparr>ec_routing := AList.update k e (ec_routing c)\<rparr>)"
  by (simp add: spent_def sent_def dispatched_def dom_update)

lemma spent_guard:
  "spent i c \<Longrightarrow> dispatch_guard at r env c = (x, d) \<Longrightarrow> spent i d"
  by (rule spent_core[OF _ guard_core])

lemma never_made_ids: "never_made i env \<Longrightarrow> i \<noteq> ''dev-'' @ e @ ''-'' @ xe_uuid env \<and> i \<noteq> ''rev-'' @ e @ ''-'' @ xe_uuid env"
  unfolding never_made_def by (metis append.assoc)

lemma spent_dispatch [spent_intros]:
  assumes "spent i c" and n: "never_made i env"
  shows "spent i (dispatchDeveloperLocked r env c)" "spent i (dispatchReviewerLocked r env c)" "spent i (dispatchValidatorLocked r env c)"
proof -
  have u: "spent i ((upd_task r h d)\<lparr>ec_routing := AList.update k e (ec_routing (upd_task r h d))\<rparr>)" if "spent i d" "i \<noteq> k" for h d k e
    by (intro spent_update spent_intros that)
  show "spent i (dispatchDeveloperLocked r env c)" "spent i (dispatchReviewerLocked r env c)" "spent i (dispatchValidatorLocked r env c)"
    unfolding dispatchDeveloperLocked_def dispatchReviewerLocked_def dispatchValidatorLocked_def Let_def
    using never_made_ids[OF n]
    by (auto split: prod.split option.split simp del: append.simps intro!: spent_intros u intro: spent_guard[OF assms(1)])
qed

lemma spent_retry [spent_intros]:
  assumes o: "spent i c" and n: "never_made i env"
  shows "spent i (routeFixableRejection r fb env c)" "spent i (handleValidationFailedLocked r env c)" "spent i (handleRejectionLocked r result env c)"
proof -
  have r: "spent i (startDeveloperRetryLocked r fb env d)" if "spent i d" for d fb
    unfolding startDeveloperRetryLocked_def Let_def by (intro spent_intros that n)
  have f: "spent i (routeFixableRejection r fb env d)" if "spent i d" for d fb
    unfolding routeFixableRejection_def by (auto intro!: spent_intros r that)
  show "spent i (routeFixableRejection r fb env c)" by (rule f[OF o])
  show "spent i (handleValidationFailedLocked r env c)"
    unfolding handleValidationFailedLocked_def Let_def by (auto intro!: spent_intros r o split: option.split)
  show "spent i (handleRejectionLocked r result env c)"
    unfolding handleRejectionLocked_def Let_def by (auto intro!: spent_intros f o)
qed

lemma spent_approve [spent_intros]:
  assumes "spent i c"
  shows "spent i (markApprovedLocked r env c)"
proof -
  have m: "spent i d" if "mergeWorktree r env c = (x, d)" for x d
  proof -
    have "d = c \<or> (\<exists>w f. d = emit w c \<or> d = upd_task r f (emit w c))"
      using that unfolding mergeWorktree_def Let_def by (auto split: if_splits option.splits merge_run.splits simp del: merge_loop.simps)
    then show ?thesis using assms by (auto intro!: spent_intros)
  qed
  show ?thesis unfolding markApprovedLocked_def by (auto split: prod.split option.split intro!: spent_intros assms intro: m)
qed

lemma sent_reset: "sent i (resetTimeoutLocked r c) = sent i c"
  by (simp add: sent_def resetTimeoutLocked_def startExecutionTimeout_def stop_timer_def dispatched_def upd_run_def split: option.split)

lemma spent_developer:
  assumes "spent i c \<or> i = te_DeveloperTaskID (task_of c r) \<and> sent i c \<and> r < length (ec_execs c)" "never_made i env"
  shows "spent i (handleDeveloperCompleteLocked r event parsed env c)"
proof -
  have "spent i ((resetTimeoutLocked r c)\<lparr>ec_routing := AList.delete (te_DeveloperTaskID (task_of (resetTimeoutLocked r c) r))
      (ec_routing (resetTimeoutLocked r c))\<rparr>)"
    by (rule spent_delete) (use assms(1) sent_reset in \<open>auto simp: reset_simps intro: spent_intros\<close>)
  then show ?thesis unfolding handleDeveloperCompleteLocked_def Let_def
    by (auto intro!: spent_intros assms(2) split: option.split)
qed

lemma spent_reviewer:
  assumes "spent i c \<or> i = te_ReviewerTaskID (task_of c r) \<and> sent i c \<and> r < length (ec_execs c)" "never_made i env"
  shows "spent i (handleReviewerCompleteLocked r event parsed env c)"
proof -
  have "spent i ((resetTimeoutLocked r c)\<lparr>ec_routing := AList.delete (te_ReviewerTaskID (task_of (resetTimeoutLocked r c) r))
      (ec_routing (resetTimeoutLocked r c))\<rparr>)"
    by (rule spent_delete) (use assms(1) sent_reset in \<open>auto simp: reset_simps intro: spent_intros\<close>)
  then show ?thesis unfolding handleReviewerCompleteLocked_def Let_def
    by (auto intro!: spent_intros assms(2) split: option.split prod.split)
qed

lemma sent_never_made: "sent i c \<Longrightarrow> fresh_uuid env (dispatched c) \<Longrightarrow> never_made i env"
  by (auto simp: fresh_uuid_def never_made_def sent_def)

lemma spent_cancel: "spent i c \<Longrightarrow> spent i (cancelChildrenForRequirement slug reqID reason env c)"
proof -
  have one: "spent i (cancel_one slug reqID reason env e d)" if "spent i d" for e d
    unfolding cancel_one_def Let_def by (auto intro!: spent_intros that split: option.split)
  have "spent i d \<Longrightarrow> spent i (fold (cancel_one slug reqID reason env) es d)" for es d
    by (induction es arbitrary: d) (simp_all add: one)
  then show "spent i c \<Longrightarrow> ?thesis" by (simp add: cancelChildrenForRequirement_def)
qed

lemma step_spent:
  assumes "xstep c d" "xinv c" "spent i c"
  shows "spent i d"
  using assms
proof (induction rule: xstep.induct)
  case (Pending c key entry env)
  have "spent i d" if "claimTaskExecution key a b env c = (ok, d)" for a b ok d
    using claim_core[OF that] Pending.prems(2) by (auto intro!: spent_intros)
  then show ?case unfolding handleTaskPending_def Let_def
    by (auto intro!: spent_intros Pending.prems(2) split: option.split prod.split bool.split)
next
  case (Worktree r c env)
  then show ?case unfolding init_worktree_def createWorktree_def Let_def
    by (auto intro!: spent_intros split: sum.split prod.split)
next
  case (Dispatch r c env)
  then show ?case unfolding init_dispatch_def
    by (intro spent_intros) (auto simp: spent_def intro: sent_never_made)
next
  case (Loop entry c env)
  then have "never_made i env" by (auto simp: spent_def intro: sent_never_made)
  then show ?case using Loop(5) unfolding handleLoopEntityUpdate_def complete_step_def
    by (auto intro!: spent_developer spent_reviewer split: option.split)
next
  case (Validated r c env result)
  then have "never_made i env" by (auto simp: spent_def intro: sent_never_made)
  then show ?case using Validated(4) unfolding validation_returned_def Let_def
    by (auto intro!: spent_intros split: sum.split prod.split)
next
  case (Timeout j r c env)
  then show ?case unfolding timer_fired_def by (intro spent_intros)
next
  case (Requirement e c env)
  then show ?case by (simp add: handleRequirementUpdate_def spent_cancel)
next
  case (Reset data env c)
  have "spent i (cancelChildrenForRequirement slug reqID reason env (c\<lparr>ec_store := st\<rparr>))" for slug reqID reason st
    by (intro spent_cancel spent_intros Reset.prems(2))
  then show ?case using reset_shape[of data env c] Reset.prems(2) by (auto intro!: spent_intros split: option.splits)
qed (auto intro: spent_intros)

section \<open>An example run\<close>

text \<open>A task is created, claimed and set up; its developer finishes, validation passes, the reviewer approves.\<close>

lemma fresh_uuid_check [code]:
  "fresh_uuid env U \<longleftrightarrow> list_all (\<lambda>u. drop (length (snd (snd u)) - length (''-'' @ xe_uuid env)) (snd (snd u)) \<noteq> ''-'' @ xe_uuid env) U"
proof -
  have "(\<exists>p. i = p @ v) \<longleftrightarrow> drop (length i - length v) i = v" for i v :: bytes
    by (metis append_eq_conv_conj append_take_drop_id length_append add_diff_cancel_right')
  then show ?thesis unfolding fresh_uuid_def list_all_iff by blast
qed

lemma echoes_check [code]:
  "echoes entry c \<longleftrightarrow> (case entry of None \<Rightarrow> True | Some l \<Rightarrow> list_all (\<lambda>u. snd (snd u) = lv_TaskID (le_event l) \<longrightarrow>
     (if fst u then lv_WorkflowStep (le_event l) \<in> {''develop'', ''test'', ''build''} else lv_WorkflowStep (le_event l) = ''review'')) (dispatched c))"
  by (auto simp: echoes_def list_all_iff split: option.splits)

definition ex_xids :: Ids where
  "ex_xids = \<lparr>EntityPrefix = ''e'', sha256 = \<lambda>_. []\<rparr>"

definition ex_io :: XIO where
  "ex_io = \<lparr>xi_now = 0, xi_get = \<lambda>_. True, xi_keys = True, xi_marshal = True, xi_put = True, xi_delete = \<lambda>_. True, xi_perm = \<lambda>x. x\<rparr>"

definition ex_xenv :: "bytes \<Rightarrow> XEnv" where
  "ex_xenv u = \<lparr>xe_io = ex_io, xe_uuid = u, xe_status = \<lambda>_. Some '' M a'', xe_worktree = \<lambda>_. HttpStatus 200, xe_plan = \<lambda>_. None,
     xe_merge = \<lambda>_. WtMerged \<lparr>wm_Commit = ''abc'', wm_NothingToCommit = False, wm_FilesChanged = [''a'']\<rparr>, xe_shutdown = \<lambda>_. False,
     xe_files = None, xe_create = Inr (''/w'', ''b''), xe_loop = \<lambda>_. None, xe_timeout = ''30m'', xe_quote = \<lambda>x. x\<rparr>"

definition ex_xconfig :: XConfig where
  "ex_xconfig = \<lparr>xg_MaxTDDCycles = 2, xg_MaxReviewRetries = 1, xg_SandboxURL = ''s'', xg_RequireMergeObservation = None, xg_RequireDeveloperDiff = None\<rparr>"

definition ex_task_create :: TaskCreateRequest where
  "ex_task_create = \<lparr>tc_Slug = ''p'', tc_TaskID = ''t'', tc_RequirementID = ''A'', tc_Title = [], tc_Description = [], tc_ProjectID = [], tc_Prompt = [],
     tc_Model = [], tc_TraceID = [], tc_LoopID = [], tc_RequestID = [], tc_TaskType = [], tc_MaxTDDCycles = 0, tc_AgentID = [], tc_WorktreePath = [],
     tc_WorktreeBranch = [], tc_ScenarioBranch = [], tc_FileScope = [], tc_Scenarios = []\<rparr>"

definition ex_loop :: "bytes \<Rightarrow> bytes \<Rightarrow> bool \<Rightarrow> bytes list option \<Rightarrow> CodeReview option \<Rightarrow> LoopEntity" where
  "ex_loop i step ok files review = \<lparr>le_Terminal = True, le_WorkflowSlug = ''semspec-task-execution'', le_event = \<lparr>lv_LoopID = ''l'', lv_TaskID = i,
     lv_Success = ok, lv_Outcome = [], lv_Iterations = 0, lv_Error = [], lv_MaxIterations = 0, lv_WorkflowStep = step\<rparr>, le_files = files, le_review = review\<rparr>"

definition ex_started :: XComp where
  "ex_started = the (start_comp ex_xconfig ex_xids None (Some []) None (ex_xenv []))"

definition ex_created_row :: XComp where
  "ex_created_row = ex_started\<lparr>ec_store := snd (mutate (TaskCreate (Some ex_task_create)) ex_io ex_started)\<rparr>"

definition ex_claimed :: XComp where
  "ex_claimed = handleTaskPending ''task.p.t'' (Some (new_task ex_xids 0 2 ex_task_create)) (ex_xenv []) ex_created_row"

definition ex_set_up :: XComp where
  "ex_set_up = init_worktree 0 (ex_xenv []) ex_claimed"

definition ex_developing :: XComp where
  "ex_developing = init_dispatch 0 (ex_xenv ''1'') ex_set_up"

definition ex_dev_done :: LoopEntity where
  "ex_dev_done = ex_loop ''dev-e.exec.task.run.-1'' ''develop'' True (Some [''a'']) None"

definition ex_validating :: XComp where
  "ex_validating = handleLoopEntityUpdate (Some ex_dev_done) (ex_xenv ''2'') ex_developing"

definition ex_reviewing :: XComp where
  "ex_reviewing = validation_returned 0 (Inr (True, [])) (ex_xenv ''3'') ex_validating"

definition ex_approval :: LoopEntity where
  "ex_approval = ex_loop ''rev-e.exec.task.run.-3'' ''review'' True None
     (Some \<lparr>cr_Verdict = ''approved'', cr_RejectionType = [], cr_Feedback = []\<rparr>)"

definition ex_approved :: XComp where
  "ex_approved = handleLoopEntityUpdate (Some ex_approval) (ex_xenv ''4'') ex_reviewing"

lemma ex_xenv_running: "running (ex_xenv u)"
  by (simp add: running_def ex_xenv_def)

lemma ex_reach_created: "xreach ex_created_row"
proof -
  have "start_comp ex_xconfig ex_xids None (Some []) None (ex_xenv []) = Some ex_started"
    by (simp add: ex_started_def start_comp_def Let_def ex_xconfig_def)
  then have "xreach ex_started" by (rule Start)
  then show ?thesis unfolding ex_created_row_def by (rule Step[OF _ Mutation])
qed

lemma ex_reach_developing: "xreach ex_developing"
proof -
  have "xreach ex_claimed" unfolding ex_claimed_def by (rule Step[OF ex_reach_created Pending])
  moreover have "0 \<in> set (ec_starting ex_claimed)" by code_simp
  ultimately have "xreach ex_set_up" unfolding ex_set_up_def by (intro Step[OF _ Worktree])
  moreover have "0 \<in> set (ec_created ex_set_up)" "fresh_uuid (ex_xenv ''1'') (dispatched ex_set_up)" by code_simp+
  ultimately show ?thesis unfolding ex_developing_def by (intro Step[OF _ Dispatch])
qed

lemma ex_reach_validating: "xreach ex_validating"
proof -
  have "echoes (Some ex_dev_done) ex_developing" "fresh_uuid (ex_xenv ''2'') (dispatched ex_developing)" by code_simp+
  then show ?thesis unfolding ex_validating_def by (intro Step[OF ex_reach_developing Loop] ex_xenv_running)
qed

lemma ex_reach_approved: "xreach ex_approved"
proof -
  have "0 \<in> set (ec_validating ex_validating)" "fresh_uuid (ex_xenv ''3'') (dispatched ex_validating)" by code_simp+
  then have r: "xreach ex_reviewing" unfolding ex_reviewing_def by (intro Step[OF ex_reach_validating Validated])
  have "echoes (Some ex_approval) ex_reviewing" "fresh_uuid (ex_xenv ''4'') (dispatched ex_reviewing)" by code_simp+
  then show ?thesis unfolding ex_approved_def by (intro Step[OF r Loop] ex_xenv_running)
qed

lemma mark_approved_stage:
  assumes "r < length (ec_execs c)" "\<not> tr_terminated (run_of c r)" "mergeWorktree r env c = (None, d)"
  shows "te_Stage (task_of (markApprovedLocked r env c) r) = ''approved''"
proof -
  have "r < length (ec_execs d)" using only_merge[OF only_refl assms(3)] assms(1) by (simp add: only_def)
  then show ?thesis using assms(2,3)
    by (simp add: markApprovedLocked_def cleanupExecutionLocked_def Let_def mark_frame)
      (simp add: syncToStore_def upd_task_def set_terminated_def mark_frame Let_def)
qed

lemma ex_approved_stage: "0 < length (ec_execs ex_approved) \<and> te_Stage (task_of ex_approved 0) = ''approved''"
proof -
  have f: "(length (ec_execs ex_reviewing), tr_terminated (run_of ex_reviewing 0), te_FilesModified (task_of ex_reviewing 0), te_WorktreePath (task_of ex_reviewing 0),
      map_of (ec_routing ex_reviewing) ''rev-e.exec.task.run.-3'', map_of (ec_active ex_reviewing) ''e.exec.task.run.'')
    = (1, False, [''a''], ''/w'', Some ''e.exec.task.run.'', Some 0)" by code_simp
  let ?b = "resetTimeoutLocked 0 ex_reviewing"
  let ?c = "upd_task 0 (\<lambda>t. t\<lparr>te_Verdict := ''approved'', te_RejectionType := [], te_Feedback := []\<rparr>)
    (?b\<lparr>ec_routing := AList.delete (te_ReviewerTaskID (task_of ?b 0)) (ec_routing ?b)\<rparr>)"
  have eq: "ex_approved = markApprovedLocked 0 (ex_xenv ''4'') ?c" using f
    by (simp add: ex_approved_def ex_approval_def ex_loop_def handleLoopEntityUpdate_def loop_relevant_def complete_step_def
        handleReviewerCompleteLocked_def parseCodeReviewResult_def ValidateVerdict_def Let_def)
  have len: "length (ec_execs ?c) = 1" and run: "tr_terminated (run_of ?c 0) = tr_terminated (run_of ex_reviewing 0)"
    "te_FilesModified (task_of ?c 0) = te_FilesModified (task_of ex_reviewing 0)" "te_WorktreePath (task_of ?c 0) = te_WorktreePath (task_of ex_reviewing 0)"
    using f by (simp_all add: upd_task_def resetTimeoutLocked_def startExecutionTimeout_def mark_frame)
  have m: "fst (mergeWorktree 0 (ex_xenv ''4'') ?c) = None" using f
    by (simp add: mergeWorktree_def run checkWorktreeExists_def ex_xenv_def Let_def)
  then have "mergeWorktree 0 (ex_xenv ''4'') ?c = (None, snd (mergeWorktree 0 (ex_xenv ''4'') ?c))" by (metis prod.collapse)
  then have "te_Stage (task_of ex_approved 0) = ''approved''" unfolding eq by (intro mark_approved_stage) (use len run f in simp_all)
  moreover have "only 0 ?c ex_approved" unfolding eq by (intro only_intros)
  ultimately show ?thesis using len by (simp add: only_def)
qed

section \<open>Properties\<close>

text \<open>C7: the TDD pipeline of a task is bounded.  In every state the execution manager can reach, whatever the agents
  answer, a task has dispatched at most \<^verbatim>\<open>MaxTDDCycles\<close> developer loops (at least one is allowed), and at most that many times one
  more than the configured number of review retries reviewer loops.
\<close>

theorem pipeline_bounded:
  assumes "xreach c" "r < length (ec_execs c)"
  shows "loops True (dispatched c) r \<le> max 1 (te_MaxTDDCycles (task_of c r))
    \<and> loops False (dispatched c) r \<le> max 1 (te_MaxTDDCycles (task_of c r)) * (retry_bound (ec_config c) + 1)"
proof -
  have b: "in_budget (ec_config c) (dispatched c) r (task_of c r)"
    using reach_inv[OF assms(1)] assms(2) by (simp add: xinv_def run_ok_def)
  have "(te_TDDCycle (task_of c r) + 1) * (retry_bound (ec_config c) + 1)
      \<le> max 1 (te_MaxTDDCycles (task_of c r)) * (retry_bound (ec_config c) + 1)"
    by (rule mult_right_mono) (use b retry_bound_nonneg[of "ec_config c"] in \<open>simp_all add: in_budget_def\<close>)
  then show ?thesis using b unfolding in_budget_def by linarith
qed

theorem pipeline_bounded_witness:
  "loops True (dispatched ex_developing) 0 = 1 \<and> loops True (dispatched ex_developing) 0 \<le> max 1 (te_MaxTDDCycles (task_of ex_developing 0))"
proof -
  have "0 < length (ec_execs ex_developing)" "loops True (dispatched ex_developing) 0 = 1" by code_simp+
  then show ?thesis using pipeline_bounded[OF ex_reach_developing] by blast
qed





text \<open>C19: no execution hangs.  Once it is set up, a live execution always has an armed timer, and when that timer
  fires the execution ends at stage error, with the timeout as its reason.
\<close>

theorem watchdog:
  assumes "xreach c" "r < length (ec_execs c)" "\<not> tr_terminated (run_of c r)" "r \<notin> set (ec_starting c) \<union> set (ec_created c)"
  shows "\<exists>i. tr_timer (run_of c r) = Some i \<and> (i, r) \<in> set (ec_timers c) \<and> xreach (timer_fired i r env c)
    \<and> tr_terminated (run_of (timer_fired i r env c) r) \<and> te_Stage (task_of (timer_fired i r env c) r) = ''error''
    \<and> te_ErrorReason (task_of (timer_fired i r env c) r) = ''execution timed out after '' @ xe_timeout env"
proof -
  obtain k where k: "tokens c r = [k]" "token_ok c r (task_of c r) k" using live_token[OF reach_inv[OF assms(1)] assms(2,3)] .
  have "k \<in> set (tokens c r)" using k(1) by simp
  then have "k \<noteq> Starting" "k \<noteq> Created" using assms(4) by (auto simp: tokens_def count_list_0_iff split: if_splits)
  then have "armed c r" using k(2) by (cases k) auto
  then obtain i where i: "tr_timer (run_of c r) = Some i" "(i, r) \<in> set (ec_timers c)" by (auto simp: armed_def)
  have "run_of (timer_fired i r env c) r = (run_of c r)\<lparr>tr_terminated := True, tr_task := (task_of c r)\<lparr>te_Stage := ''error'',
      te_ErrorReason := ''execution timed out after '' @ xe_timeout env,
      te_ErrorClass := ClassifyErrorReason (''execution timed out after '' @ xe_timeout env), te_UpdatedAt := xi_now (xe_io env)\<rparr>\<rparr>"
    unfolding timer_fired_def by (subst mark_error_run) (use assms(2,3) in simp_all)
  then show ?thesis using i Step[OF assms(1) Timeout[OF i(2)]] by (intro exI[of _ i]) simp
qed

theorem watchdog_witness:
  "\<exists>i. (i, 0) \<in> set (ec_timers ex_developing) \<and> te_Stage (task_of (timer_fired i 0 (ex_xenv []) ex_developing) 0) = ''error''"
proof -
  have "0 < length (ec_execs ex_developing)" "\<not> tr_terminated (run_of ex_developing 0)"
    "0 \<notin> set (ec_starting ex_developing) \<union> set (ec_created ex_developing)" by code_simp+
  then show ?thesis using watchdog[OF ex_reach_developing, of 0 "ex_xenv []"] by blast
qed

text \<open>A terminated execution is final: no later event, in any order, changes its record (its stage, its reason, its
  merge commit).
\<close>

theorem terminal_final:
  assumes "xreach c" "xstep\<^sup>*\<^sup>* c d" "r < length (ec_execs c)" "tr_terminated (run_of c r)"
  shows "run_of d r = run_of c r"
proof -
  have "xreach d \<and> final c d" using assms(2)
    by (induction rule: rtranclp_induct) (use assms(1) in \<open>auto simp: final_refl intro: xreach.Step final_trans step_final reach_inv\<close>)
  then show ?thesis using assms(3,4) by (simp add: final_def)
qed

theorem terminal_final_witness:
  "\<exists>c. tr_terminated (run_of c 0) \<and> te_Stage (task_of c 0) = ''error'' \<and> run_of (handleTaskPending ''task.p.t'' None (ex_xenv []) c) 0 = run_of c 0"
proof -
  let ?c = "timer_fired 0 0 (ex_xenv []) ex_developing"
  have "(0, 0) \<in> set (ec_timers ex_developing)" "0 < length (ec_execs ?c)" "tr_terminated (run_of ?c 0)" "te_Stage (task_of ?c 0) = ''error''" by code_simp+
  then show ?thesis
    using terminal_final[OF Step[OF ex_reach_developing Timeout] r_into_rtranclp[of xstep, OF Pending], of 0 0 0 "ex_xenv []" "''task.p.t''" None "ex_xenv []"] by blast
qed

text \<open>C10: the completion of an agent loop is handled at most once.  Once a completion that was waited for has been
  handled, the same report, delivered again after any number of other events, changes nothing.
\<close>

theorem loop_handled_once:
  assumes "xreach c" "lv_TaskID (le_event l) \<in> fst ` set (ec_routing c)" "loop_relevant l" "echoes (Some l) c"
    "fresh_uuid env (dispatched c)" "running env" "xstep\<^sup>*\<^sup>* (handleLoopEntityUpdate (Some l) env c) d"
  shows "handleLoopEntityUpdate (Some l) env2 d = d"
proof -
  let ?i = "lv_TaskID (le_event l)"
  have inv: "xinv c" by (rule reach_inv[OF assms(1)])
  obtain e where e: "map_of (ec_routing c) ?i = Some e" using assms(2) by (metis map_of_eq_None_iff not_None_eq)
  obtain r where r: "r < length (ec_execs c)" "\<not> tr_terminated (run_of c r)" "e = te_EntityID (task_of c r)"
    using inv map_of_SomeD[OF e] by (fastforce simp: xinv_def tables_ok_def routing_ok_def)
  have ro: "run_ok c r" using inv r(1) by (simp add: xinv_def)
  have act: "map_of (ec_active c) e = Some r" using ro r(2,3) by (simp add: run_ok_def)
  have own: "token_ok c r (task_of c r) (Looping ?i)" using route_owner[OF ro r(2) map_of_SomeD[OF e]] r(3) by simp
  have ids: "task_ids_ok c r" using inv r(1) by (simp add: xinv_def tables_ok_def sent_ok_def)
  have eq: "handleLoopEntityUpdate (Some l) env c = complete_step r l env c"
    using assms(3) e act r(2) by (simp add: handleLoopEntityUpdate_def)
  obtain k where k: "(k, r, ?i) \<in> set (dispatched c)" "if k then ?i = te_DeveloperTaskID (task_of c r) else ?i = te_ReviewerTaskID (task_of c r)"
    using own ids unfolding task_ids_ok_def token_ok.simps by (metis (full_types))
  have s: "sent ?i c" using k(1) by (force simp: sent_def)
  have n: "never_made ?i env" by (rule sent_never_made[OF s assms(5)])
  have "spent ?i (complete_step r l env c)"
  proof (cases k)
    case True
    then have "lv_WorkflowStep (le_event l) \<in> {''develop'', ''test'', ''build''}" using assms(4) k(1) by (auto simp: echoes_def)
    then show ?thesis using spent_developer[of ?i c r env] s n k(2) True r(1) by (simp add: complete_step_def)
  next
    case False
    then have "lv_WorkflowStep (le_event l) = ''review''" using assms(4) k(1) by (auto simp: echoes_def)
    then show ?thesis using spent_reviewer[of ?i c r env] s n k(2) False r(1) by (simp add: complete_step_def)
  qed
  moreover have "xreach (handleLoopEntityUpdate (Some l) env c)" by (rule Step[OF assms(1) Loop[OF assms(4,5,6)]])
  moreover have "xstep\<^sup>*\<^sup>* x y \<Longrightarrow> xreach x \<Longrightarrow> spent ?i x \<Longrightarrow> xreach y \<and> spent ?i y" for x y
    by (induction rule: rtranclp_induct) (auto intro: Step step_spent reach_inv)
  ultimately have "spent ?i d" using assms(7) unfolding eq by blast
  then have "map_of (ec_routing d) ?i = None" by (simp add: spent_def map_of_eq_None_iff)
  then show ?thesis by (simp add: handleLoopEntityUpdate_def)
qed

theorem loop_handled_once_witness:
  "handleLoopEntityUpdate (Some ex_dev_done) (ex_xenv ''3'') ex_validating = ex_validating
   \<and> lv_TaskID (le_event ex_dev_done) \<in> fst ` set (ec_routing ex_developing)"
proof -
  have a: "lv_TaskID (le_event ex_dev_done) \<in> fst ` set (ec_routing ex_developing)" "loop_relevant ex_dev_done" "echoes (Some ex_dev_done) ex_developing"
    "fresh_uuid (ex_xenv ''2'') (dispatched ex_developing)" by code_simp+
  show ?thesis unfolding ex_validating_def
    using loop_handled_once[OF ex_reach_developing a ex_xenv_running rtranclp.rtrancl_refl] a(1) by simp
qed

end
