(* ===== verification/Exec_Claims.thy ===== *)
theory Exec_Claims
  imports Exec_Events
begin

text \<open>
  What the store of execution rows promises: pinned claims are a compare-and-swap, and the reset of a
  requirement removes its whole family of rows, as long as the cache holds all or none of the rows of the plan.
  The locale \<^verbatim>\<open>claim_rows\<close> is the interface a claimant relies on, interpreted on the claim handler.
\<close>

section \<open>What a reader sees\<close>

definition task_view :: "(nat \<Rightarrow> TaskExecution) \<Rightarrow> ExecStore \<Rightarrow> bytes \<Rightarrow> TaskExecution option" where
  "task_view live st key =
     (if \<not> HasPrefix key ''task.'' then None
      else case map_of (xs_taskCache st) key of
        Some v \<Rightarrow> Some (deref live v)
      | None \<Rightarrow> (case xs_kv st of
          None \<Rightarrow> None
        | Some kv \<Rightarrow> (case map_of kv key of Some (TaskRow t) \<Rightarrow> Some t | _ \<Rightarrow> None)))"

definition req_view :: "ExecStore \<Rightarrow> bytes \<Rightarrow> RequirementExecution option" where
  "req_view st key =
     (if \<not> HasPrefix key ''req.'' then None
      else case map_of (xs_reqCache st) key of
        Some e \<Rightarrow> Some e
      | None \<Rightarrow> (case xs_kv st of
          None \<Rightarrow> None
        | Some kv \<Rightarrow> (case map_of kv key of Some (ReqRow e) \<Rightarrow> Some e | _ \<Rightarrow> None)))"

text \<open>Filling a cache from the bucket changes nothing a reader sees.\<close>

lemma fill_task:
  assumes "map_of (xs_taskCache st) key = None" "xs_kv st = Some kv" "map_of kv key = Some (TaskRow t)"
  shows "task_view live (st\<lparr>xs_taskCache := AList.update key (Own t) (xs_taskCache st)\<rparr>) = task_view live st"
    "req_view (st\<lparr>xs_taskCache := AList.update key (Own t) (xs_taskCache st)\<rparr>) = req_view st"
proof -
  show "task_view live (st\<lparr>xs_taskCache := AList.update key (Own t) (xs_taskCache st)\<rparr>) = task_view live st"
    by (rule ext) (use assms in \<open>simp add: task_view_def AList.update_conv' split: option.split\<close>)
qed (simp add: req_view_def fun_eq_iff cong: option.case_cong)

lemma fill_req:
  assumes "map_of (xs_reqCache st) key = None" "xs_kv st = Some kv" "map_of kv key = Some (ReqRow e)"
  shows "task_view live (st\<lparr>xs_reqCache := AList.update key e (xs_reqCache st)\<rparr>) = task_view live st"
    "req_view (st\<lparr>xs_reqCache := AList.update key e (xs_reqCache st)\<rparr>) = req_view st"
proof -
  show "req_view (st\<lparr>xs_reqCache := AList.update key e (xs_reqCache st)\<rparr>) = req_view st"
    by (rule ext) (use assms in \<open>simp add: req_view_def AList.update_conv' split: option.split\<close>)
qed (simp add: task_view_def fun_eq_iff cong: option.case_cong)

lemma kv_rowD: "kv_row io key st = Some x \<Longrightarrow> \<exists>kv. xs_kv st = Some kv \<and> map_of kv key = Some x"
  by (auto simp: kv_row_def split: option.splits if_splits)

lemma getTask_view:
  assumes g: "getTask live io key st = (x, st')"
  shows "task_view live st' = task_view live st \<and> req_view st' = req_view st \<and> (x = None \<or> x = task_view live st key)"
proof (cases "HasPrefix key ''task.'' \<and> map_of (xs_taskCache st) key = None")
  case False
  then show ?thesis using g by (auto simp: getTask_def task_view_def split: if_splits option.splits)
next
  case True
  then show ?thesis
  proof (cases "kv_row io key st")
    case (Some row)
    then obtain kv where kv: "xs_kv st = Some kv" "map_of kv key = Some row" using kv_rowD by blast
    then show ?thesis using g True Some fill_task[of st key kv]
      by (cases row) (simp_all add: getTask_def, auto simp: task_view_def)
  qed (use g in \<open>simp add: getTask_def\<close>)
qed

lemma getReq_view:
  assumes g: "getReq io key st = (x, st')"
  shows "task_view live st' = task_view live st \<and> req_view st' = req_view st \<and> (x = None \<or> x = req_view st key)"
proof (cases "HasPrefix key ''req.'' \<and> map_of (xs_reqCache st) key = None")
  case False
  then show ?thesis using g by (auto simp: getReq_def req_view_def split: if_splits option.splits)
next
  case True
  then show ?thesis
  proof (cases "kv_row io key st")
    case (Some row)
    then obtain kv where kv: "xs_kv st = Some kv" "map_of kv key = Some row" using kv_rowD by blast
    then show ?thesis using g True Some fill_req[of st key kv]
      by (cases row) (simp_all add: getReq_def, auto simp: req_view_def)
  qed (use g in \<open>simp add: getReq_def\<close>)
qed

lemma saveTask_view:
  assumes "xi_marshal io" "HasPrefix key ''task.''"
  shows "fst (saveTask io key t st)" "task_view live (snd (saveTask io key t st)) key = Some (t\<lparr>te_UpdatedAt := xi_now io\<rparr>)"
  using assms by (auto simp: saveTask_def store_task_def kv_put_def task_view_def AList.update_conv' Let_def split: option.splits)

lemma saveReq_view:
  assumes "xi_marshal io" "HasPrefix key ''req.''"
  shows "fst (saveReq io key e st)" "req_view (snd (saveReq io key e st)) key = Some (e\<lparr>re_UpdatedAt := xi_now io\<rparr>)"
  using assms by (auto simp: saveReq_def kv_put_def req_view_def AList.update_conv' Let_def split: option.splits)

section \<open>Claims\<close>

text \<open>The stage a reader sees under a key.\<close>

definition stage_at :: "(nat \<Rightarrow> TaskExecution) \<Rightarrow> ExecStore \<Rightarrow> bytes \<Rightarrow> bytes option" where
  "stage_at live st key = (case task_view live st key of Some t \<Rightarrow> Some (te_Stage t) | None \<Rightarrow> map_option re_Stage (req_view st key))"

definition claim_row :: "(nat \<Rightarrow> TaskExecution) \<Rightarrow> ExecClaimRequest \<Rightarrow> XIO \<Rightarrow> ExecStore \<Rightarrow> bool \<times> ExecStore" where
  "claim_row live req io st = (case handleExecClaimMutation (Some req) live io st of (resp, st') \<Rightarrow> (xr_error resp = None, st'))"

locale claim_rows =
  fixes stage_of :: "'s \<Rightarrow> bytes \<Rightarrow> bytes option"
    and claim :: "ExecClaimRequest \<Rightarrow> 'env \<Rightarrow> 's \<Rightarrow> bool \<times> 's"
    and healthy :: "'env \<Rightarrow> bool"
  assumes claim_won: "healthy env \<Longrightarrow> claim req env s = (True, s') \<Longrightarrow> xc_ExpectedFromStage req \<noteq> [] \<Longrightarrow>
      stage_of s (xc_Key req) = Some (xc_ExpectedFromStage req) \<and> stage_of s' (xc_Key req) = Some (xc_Stage req)"
    and claim_lost: "healthy env \<Longrightarrow> claim req env s = (False, s') \<Longrightarrow> stage_of s' = stage_of s"
begin

fun wins :: "(ExecClaimRequest \<times> 'env) list \<Rightarrow> 's \<Rightarrow> nat" where
  "wins [] s = 0"
| "wins (x # xs) s = (case claim (fst x) (snd x) s of (ok, s') \<Rightarrow> (if ok then 1 else 0) + wins xs s')"

lemma no_win_elsewhere:
  assumes "stage_of s key \<noteq> Some src" "src \<noteq> []"
    "\<forall>x \<in> set xs. xc_Key (fst x) = key \<and> xc_ExpectedFromStage (fst x) = src \<and> healthy (snd x)"
  shows "wins xs s = 0"
  using assms
proof (induction xs arbitrary: s)
  case (Cons x xs)
  obtain ok s' where c: "claim (fst x) (snd x) s = (ok, s')" by fastforce
  have "\<not> ok" using claim_won[of "snd x" "fst x" s s'] c Cons.prems by auto
  then have "stage_of s' = stage_of s" using claim_lost[of "snd x" "fst x" s s'] c Cons.prems by auto
  then show ?case using Cons c \<open>\<not> ok\<close> by simp
qed simp

lemma at_most_one_win:
  assumes "src \<noteq> []" "\<forall>x \<in> set xs. xc_Key (fst x) = key \<and> xc_ExpectedFromStage (fst x) = src \<and> xc_Stage (fst x) \<noteq> src \<and> healthy (snd x)"
  shows "wins xs s \<le> 1"
  using assms
proof (induction xs arbitrary: s)
  case (Cons x xs)
  obtain ok s' where c: "claim (fst x) (snd x) s = (ok, s')" by fastforce
  show ?case
  proof (cases ok)
    case True
    then have "stage_of s' key \<noteq> Some src" using claim_won[of "snd x" "fst x" s s'] c Cons.prems by auto
    then have "wins xs s' = 0" using no_win_elsewhere[of s' key src xs] Cons.prems by auto
    then show ?thesis using c True by simp
  next
    case False
    then show ?thesis using Cons c by simp
  qed
qed simp

end

lemma prefix_exclusive: "HasPrefix key ''req.'' \<Longrightarrow> \<not> HasPrefix key ''task.''"
  by (cases key) (auto simp: HasPrefix_def)

text \<open>The claim handler: a claim that is granted found its row, at the pinned stage, and moved it.\<close>

lemma claim_cases:
  assumes h: "xi_marshal io" and c: "claim_row live req io st = (ok, st')"
  obtains (lost) "\<not> ok" "task_view live st' = task_view live st" "req_view st' = req_view st"
  | (task) t where "ok" "task_view live st (xc_Key req) = Some t" "claimStageGuard req (te_Stage t) = None"
      "\<exists>t'. task_view live st' (xc_Key req) = Some t' \<and> te_Stage t' = xc_Stage req"
  | (req) e where "ok" "task_view live st (xc_Key req) = None" "req_view st (xc_Key req) = Some e" "claimStageGuard req (re_Stage e) = None"
      "task_view live st' (xc_Key req) = None" "\<exists>e'. req_view st' (xc_Key req) = Some e' \<and> re_Stage e' = xc_Stage req"
proof -
  let ?k = "xc_Key req"
  obtain x st1 where t: "getTask live io ?k st = (x, st1)" by fastforce
  obtain y st2 where r: "getReq io ?k st1 = (y, st2)" by fastforce
  note vt = getTask_view[OF t] and vr = getReq_view[OF r, of live]
  show thesis
  proof (cases "xc_Key req = [] \<or> xc_Stage req = []")
    case True
    then show thesis using c lost by (simp add: claim_row_def handleExecClaimMutation_def xfail_def)
  next
    case False
    show thesis
    proof (cases x)
      case (Some u)
      have pre: "HasPrefix ?k ''task.''" using t Some by (auto simp: getTask_def split: if_splits)
      show thesis
      proof (cases "claimStageGuard req (te_Stage u)")
        case None
        obtain b st3 where s: "saveTask io ?k (u\<lparr>te_Stage := xc_Stage req\<rparr>) st1 = (b, st3)" by fastforce
        have "b" "task_view live st3 ?k = Some (u\<lparr>te_Stage := xc_Stage req, te_UpdatedAt := xi_now io\<rparr>)"
          using saveTask_view(1)[OF h pre, of "u\<lparr>te_Stage := xc_Stage req\<rparr>" st1]
            saveTask_view(2)[OF h pre, of live "u\<lparr>te_Stage := xc_Stage req\<rparr>" st1] s by simp_all
        then show thesis using c False t Some None s vt
          by (intro task[of u]) (auto simp: claim_row_def handleExecClaimMutation_def task_reply_def xok_def)
      next
        case (Some e)
        then show thesis using c False t \<open>x = Some u\<close> vt lost by (auto simp: claim_row_def handleExecClaimMutation_def xfail_def)
      qed
    next
      case None
      show thesis
      proof (cases y)
        case None
        then show thesis using c False t r \<open>x = None\<close> vt vr lost
          by (auto simp: claim_row_def handleExecClaimMutation_def xfail_def)
      next
        case (Some e)
        have pre: "HasPrefix ?k ''req.''" using r Some by (auto simp: getReq_def split: if_splits)
        have nt: "task_view live s ?k = None" for s using prefix_exclusive[OF pre] by (simp add: task_view_def)
        show thesis
        proof (cases "claimStageGuard req (re_Stage e)")
          case None
          obtain b st3 where s: "saveReq io ?k (e\<lparr>re_Stage := xc_Stage req\<rparr>) st2 = (b, st3)" by fastforce
          have "b" "req_view st3 ?k = Some (e\<lparr>re_Stage := xc_Stage req, re_UpdatedAt := xi_now io\<rparr>)"
            using saveReq_view[OF h pre, of "e\<lparr>re_Stage := xc_Stage req\<rparr>" st2] s by simp_all
          then show thesis using c False t r \<open>x = None\<close> Some None s vt vr nt
            by (intro req[of e]) (auto simp: claim_row_def handleExecClaimMutation_def req_reply_def xok_def)
        next
          case (Some g)
          then show thesis using c False t r \<open>x = None\<close> \<open>y = Some e\<close> vt vr lost
            by (auto simp: claim_row_def handleExecClaimMutation_def xfail_def)
        qed
      qed
    qed
  qed
qed

interpretation claims: claim_rows "stage_at live" "claim_row live" xi_marshal for live
proof
  fix env req s s' assume h: "xi_marshal env" and c: "claim_row live req env s = (True, s')" and p: "xc_ExpectedFromStage req \<noteq> []"
  show "stage_at live s (xc_Key req) = Some (xc_ExpectedFromStage req) \<and> stage_at live s' (xc_Key req) = Some (xc_Stage req)"
    by (rule claim_cases[OF h c]) (use p in \<open>auto simp: stage_at_def claimStageGuard_def split: if_splits\<close>)
next
  fix env req s s' assume h: "xi_marshal env" and c: "claim_row live req env s = (False, s')"
  show "stage_at live s' = stage_at live s"
    by (rule claim_cases[OF h c]) (auto simp: stage_at_def fun_eq_iff split: option.split)
qed

text \<open>How many claims of a sequence are granted.\<close>

fun claims_granted :: "(nat \<Rightarrow> TaskExecution) \<Rightarrow> (ExecClaimRequest \<times> XIO) list \<Rightarrow> ExecStore \<Rightarrow> nat" where
  "claims_granted live [] st = 0"
| "claims_granted live (x # xs) st =
     (case handleExecClaimMutation (Some (fst x)) live (snd x) st of
        (resp, st') \<Rightarrow> (if xr_error resp = None then 1 else 0) + claims_granted live xs st')"

lemma granted_wins: "claims_granted live xs st = claims.wins live xs st"
  by (induction xs arbitrary: st) (auto simp: claim_row_def split: prod.splits)

text \<open>C20: a pinned claim is a compare-and-swap.  Of any sequence of claims on one row that all name the same source
  stage and move it elsewhere, at most one is granted, whatever reads and writes of the bucket fail.
\<close>

theorem exec_claims_once:
  assumes "src \<noteq> []" "\<forall>x \<in> set xs. xc_Key (fst x) = key \<and> xc_ExpectedFromStage (fst x) = src \<and> xc_Stage (fst x) \<noteq> src \<and> xi_marshal (snd x)"
  shows "claims_granted live xs st \<le> 1"
  unfolding granted_wins by (rule claims.at_most_one_win[OF assms])

definition ex_row_io :: XIO where
  "ex_row_io = \<lparr>xi_now = 0, xi_get = \<lambda>_. True, xi_keys = True, xi_marshal = True, xi_put = True, xi_delete = \<lambda>_. True, xi_perm = \<lambda>x. x\<rparr>"

definition ex_task_row :: "bytes \<Rightarrow> bytes \<Rightarrow> bytes \<Rightarrow> TaskExecution" where
  "ex_task_row i reqID stage = TaskExecution_zero\<lparr>te_Slug := ''p'', te_TaskID := i, te_RequirementID := reqID, te_Stage := stage\<rparr>"

definition ex_row_store :: ExecStore where
  "ex_row_store = \<lparr>xs_taskCache = [], xs_reqCache = [], xs_kv = Some [(''task.p.t'', TaskRow (ex_task_row ''t'' ''A'' ''pending''))]\<rparr>"

theorem exec_claims_once_witness:
  "claims_granted (\<lambda>_. TaskExecution_zero) (replicate 2 (\<lparr>xc_Key = ''task.p.t'', xc_Stage = ''developing'', xc_ExpectedFromStage = ''pending''\<rparr>, ex_row_io)) ex_row_store = 1"
proof -
  let ?x = "(\<lparr>xc_Key = ''task.p.t'', xc_Stage = ''developing'', xc_ExpectedFromStage = ''pending''\<rparr>, ex_row_io)"
  have a: "\<forall>x \<in> set (replicate 2 ?x). xc_Key (fst x) = ''task.p.t'' \<and> xc_ExpectedFromStage (fst x) = ''pending'' \<and> xc_Stage (fst x) \<noteq> ''pending'' \<and> xi_marshal (snd x)"
    by (simp add: ex_row_io_def)
  have two: "replicate 2 ?x = [?x] @ [?x]" by (simp add: numeral_2_eq_2)
  have "claims_granted (\<lambda>_. TaskExecution_zero) [?x] ex_row_store = 1" by code_simp
  moreover have "claims_granted live xs st \<le> claims_granted live (xs @ ys) st" for live xs ys st
    by (induction xs arbitrary: st) (auto split: prod.split)
  ultimately have "1 \<le> claims_granted (\<lambda>_. TaskExecution_zero) (replicate 2 ?x) ex_row_store" by (metis two)
  then show ?thesis using exec_claims_once[OF _ a, of "\<lambda>_. TaskExecution_zero" ex_row_store] by simp
qed

section \<open>Resetting a family of rows\<close>

text \<open>All outcomes are good, and enumerations list every key.\<close>

definition good_io :: "XIO \<Rightarrow> bool" where
  "good_io io \<longleftrightarrow> xi_keys io \<and> xi_marshal io \<and> (\<forall>k. xi_get io k) \<and> (\<forall>k. xi_delete io k) \<and> (\<forall>ks. mset (xi_perm io ks) = mset ks)"

lemma load_tasks_rows:
  assumes "good_io io" "xs_kv st = Some kv" "\<forall>k \<in> set ks. HasPrefix k ''task.''" "distinct ks" "\<forall>k \<in> set ks. map_of (xs_taskCache st) k = None"
  shows "set (fst (load_tasks io ks st)) = {t. \<exists>k \<in> set ks. task_view live st k = Some t} \<and> task_view live (snd (load_tasks io ks st)) = task_view live st
    \<and> req_view (snd (load_tasks io ks st)) = req_view st"
  using assms
proof (induction ks arbitrary: st)
  case (Cons k ks)
  have g: "kv_row io k st = map_of kv k" using Cons.prems(1,2) by (simp add: kv_row_def good_io_def)
  have v: "task_view live st k = (case map_of kv k of Some (TaskRow t) \<Rightarrow> Some t | _ \<Rightarrow> None)"
    using Cons.prems(2,3,5) by (simp add: task_view_def)
  show ?case
  proof (cases "\<exists>t. map_of kv k = Some (TaskRow t)")
    case True
    then obtain t where t: "map_of kv k = Some (TaskRow t)" by blast
    let ?s = "st\<lparr>xs_taskCache := AList.update k (Own t) (xs_taskCache st)\<rparr>"
    have f: "task_view live ?s = task_view live st" "req_view ?s = req_view st" using fill_task[of st k kv t] Cons.prems(2,5) t by simp_all
    have "set (fst (load_tasks io ks ?s)) = {t. \<exists>k \<in> set ks. task_view live ?s k = Some t} \<and> task_view live (snd (load_tasks io ks ?s)) = task_view live ?s
      \<and> req_view (snd (load_tasks io ks ?s)) = req_view ?s"
      by (rule Cons.IH) (use Cons.prems in \<open>auto simp: AList.update_conv'\<close>)
    then show ?thesis using t v f by (auto simp: g split: prod.split)
  next
    case False
    then have "load_tasks io (k # ks) st = load_tasks io ks st" by (auto simp: g split: option.split exec_row.split)
    moreover have "task_view live st k = None" using False v by (auto split: option.split exec_row.split)
    ultimately show ?thesis using Cons.IH[of st] Cons.prems by auto
  qed
qed simp

definition slug_prefix :: "bytes \<Rightarrow> bytes" where
  "slug_prefix slug = ''task.'' @ slug @ ''.''"

lemma slug_prefix_task: "HasPrefix k (slug_prefix slug) \<Longrightarrow> HasPrefix k ''task.''"
proof -
  assume "HasPrefix k (slug_prefix slug)"
  then obtain r where "k = slug_prefix slug @ r" unfolding HasPrefix_def by (metis append_take_drop_id)
  then show ?thesis by (simp add: slug_prefix_def HasPrefix_def)
qed

lemma task_key_prefix: "HasPrefix (TaskExecutionKey slug i) (slug_prefix slug)"
  by (simp add: HasPrefix_def TaskExecutionKey_def slug_prefix_def)

text \<open>The cache holds all the task rows of the plan that the bucket has, or no row of the plan.\<close>

definition cache_whole :: "bytes \<Rightarrow> ExecStore \<Rightarrow> bool" where
  "cache_whole slug st \<longleftrightarrow> (\<forall>k. HasPrefix k (slug_prefix slug) \<longrightarrow> map_of (xs_taskCache st) k = None)
     \<or> (\<forall>k kv. HasPrefix k (slug_prefix slug) \<longrightarrow> xs_kv st = Some kv \<longrightarrow> map_of kv k \<noteq> None \<longrightarrow> map_of (xs_taskCache st) k \<noteq> None)"

definition distinct_rows :: "ExecStore \<Rightarrow> bool" where
  "distinct_rows st \<longleftrightarrow> (\<forall>kv. xs_kv st = Some kv \<longrightarrow> distinct (map fst kv))"

lemma list_tasks_rows:
  assumes io: "good_io io" and w: "cache_whole slug st" and d: "distinct_rows st"
  shows "set (fst (listTasksForSlug live io slug st)) = {t. \<exists>k. HasPrefix k (slug_prefix slug) \<and> task_view live st k = Some t}
    \<and> task_view live (snd (listTasksForSlug live io slug st)) = task_view live st
    \<and> req_view (snd (listTasksForSlug live io slug st)) = req_view st"
proof -
  let ?pre = "slug_prefix slug"
  let ?hits = "filter (\<lambda>k. HasPrefix k ?pre) (xi_perm io (map fst (xs_taskCache st)))"
  let ?out = "List.map_filter (\<lambda>k. map_option (deref live) (map_of (xs_taskCache st) k)) ?hits"
  have m: "mset (xi_perm io ks) = mset ks" for ks using io by (simp add: good_io_def)
  have perm: "set (xi_perm io ks) = set ks" "distinct ks \<Longrightarrow> distinct (xi_perm io ks)" for ks
    using mset_eq_setD[OF m] mset_eq_imp_distinct_iff[OF m] by simp_all
  have hits: "set ?hits = {k. HasPrefix k ?pre \<and> map_of (xs_taskCache st) k \<noteq> None}"
    unfolding set_filter perm set_map map_of_eq_None_iff by auto
  have out: "set ?out = {t. \<exists>k v. HasPrefix k ?pre \<and> map_of (xs_taskCache st) k = Some v \<and> t = deref live v}"
  proof -
    have "set ?out = {t. \<exists>k \<in> set ?hits. map_option (deref live) (map_of (xs_taskCache st) k) = Some t}"
      by (auto simp: List.map_filter_def image_iff) (metis option.sel option.simps(9))
    then show ?thesis unfolding hits by auto
  qed
  show ?thesis
  proof (cases "?out = []")
    case False
    then have "set ?out \<noteq> {}" by simp
    then obtain k0 where "HasPrefix k0 ?pre" "map_of (xs_taskCache st) k0 \<noteq> None" unfolding out by auto
    then have whole: "map_of (xs_taskCache st) k \<noteq> None" if "HasPrefix k ?pre" "xs_kv st = Some kv" "map_of kv k \<noteq> None" for k kv
      using w that unfolding cache_whole_def by metis
    have view: "task_view live st k = map_option (deref live) (map_of (xs_taskCache st) k)" if "HasPrefix k ?pre" for k
      using whole[OF that] slug_prefix_task[OF that] by (auto simp: task_view_def split: option.splits)
    have "listTasksForSlug live io slug st = (?out, st)" using False by (simp add: listTasksForSlug_def slug_prefix_def Let_def)
    moreover have "set ?out = {t. \<exists>k. HasPrefix k ?pre \<and> task_view live st k = Some t}"
    proof (intro set_eqI iffI)
      fix t assume "t \<in> set ?out"
      then obtain k v where "HasPrefix k ?pre" "map_of (xs_taskCache st) k = Some v" "t = deref live v" unfolding out by blast
      then show "t \<in> {t. \<exists>k. HasPrefix k ?pre \<and> task_view live st k = Some t}" using view[of k] by auto
    next
      fix t assume "t \<in> {t. \<exists>k. HasPrefix k ?pre \<and> task_view live st k = Some t}"
      then obtain k where "HasPrefix k ?pre" "task_view live st k = Some t" by blast
      then show "t \<in> set ?out" unfolding out using view[of k] by auto
    qed
    ultimately show ?thesis by simp
  next
    case True
    then have none: "map_of (xs_taskCache st) k = None" if "HasPrefix k ?pre" for k using out that by (cases "map_of (xs_taskCache st) k") auto
    show ?thesis
    proof (cases "xs_kv st")
      case None
      then have "task_view live st k = None" if "HasPrefix k ?pre" for k using none[OF that] by (simp add: task_view_def)
      then show ?thesis using True None by (simp add: listTasksForSlug_def slug_prefix_def Let_def)
    next
      case (Some kv)
      let ?ks = "filter (\<lambda>k. HasPrefix k ?pre) (xi_perm io (map fst kv))"
      have l: "listTasksForSlug live io slug st = load_tasks io ?ks st"
        using True Some io by (simp add: listTasksForSlug_def slug_prefix_def Let_def good_io_def)
      have "distinct ?ks" using perm(2) d Some by (simp add: distinct_rows_def)
      then have "set (fst (load_tasks io ?ks st)) = {t. \<exists>k \<in> set ?ks. task_view live st k = Some t} \<and> task_view live (snd (load_tasks io ?ks st)) = task_view live st
          \<and> req_view (snd (load_tasks io ?ks st)) = req_view st"
        by (intro load_tasks_rows[OF io Some]) (auto simp: none intro: slug_prefix_task)
      moreover have "k \<in> set ?ks" if "HasPrefix k ?pre" "task_view live st k = Some t" for k t
        using that none[OF that(1)] Some by (auto simp: task_view_def perm image_iff split: if_splits option.splits exec_row.splits dest!: map_of_SomeD) force
      ultimately show ?thesis unfolding l by auto
    qed
  qed
qed

lemma delete_view:
  assumes "good_io io"
  shows "fst (deleteReq io key st)" "task_view live (snd (deleteReq io key st)) = (task_view live st)(key := None)"
    "req_view (snd (deleteReq io key st)) = (req_view st)(key := None)"
  using assms by (auto simp: deleteReq_def good_io_def task_view_def req_view_def fun_eq_iff Let_def AList.delete_conv' split: option.split)

lemma delete_tasks_view:
  assumes "good_io io"
  shows "\<exists>n' st'. delete_tasks io slug reqID ts n st = (None, n', st')
    \<and> task_view live st' = (\<lambda>k. if \<exists>t \<in> set ts. te_RequirementID t = reqID \<and> k = TaskExecutionKey slug (te_TaskID t) then None else task_view live st k)"
proof (induction ts arbitrary: n st)
  case (Cons t ts)
  show ?case
  proof (cases "te_RequirementID t = reqID")
    case True
    let ?k = "TaskExecutionKey slug (te_TaskID t)"
    obtain b st1 where s: "deleteReq io ?k st = (b, st1)" by fastforce
    have d: "b" "task_view live st1 = (task_view live st)(?k := None)" using delete_view[OF assms] s by (metis fst_conv, metis snd_conv)
    obtain n' st' where i: "delete_tasks io slug reqID ts (n + 1) st1 = (None, n', st')"
      "task_view live st' = (\<lambda>k. if \<exists>t \<in> set ts. te_RequirementID t = reqID \<and> k = TaskExecutionKey slug (te_TaskID t) then None else task_view live st1 k)"
      using Cons.IH by blast
    then show ?thesis using True s d by (auto simp: fun_eq_iff)
  next
    case False
    then show ?thesis using Cons.IH[of n st] by auto
  qed
qed simp

lemma delete_family_view:
  assumes io: "good_io io" and w: "cache_whole slug st" and d: "distinct_rows st"
    and rows: "\<And>k t. HasPrefix k (slug_prefix slug) \<Longrightarrow> task_view live st k = Some t \<Longrightarrow> k = TaskExecutionKey slug (te_TaskID t)"
  shows "xr_error (fst (delete_family live io slug reqID st)) = None
    \<and> (\<forall>k t. HasPrefix k (slug_prefix slug) \<longrightarrow> task_view live st k = Some t \<longrightarrow> te_RequirementID t = reqID \<longrightarrow>
        task_view live (snd (delete_family live io slug reqID st)) k = None)"
proof -
  obtain ts st1 where l: "listTasksForSlug live io slug st = (ts, st1)" by fastforce
  have ts: "set ts = {t. \<exists>k. HasPrefix k (slug_prefix slug) \<and> task_view live st k = Some t}" "task_view live st1 = task_view live st"
    using list_tasks_rows[OF io w d, of live] l by simp_all
  obtain n st2 where dl: "delete_tasks io slug reqID ts 0 st1 = (None, n, st2)" and
    v2: "task_view live st2 = (\<lambda>k. if \<exists>t \<in> set ts. te_RequirementID t = reqID \<and> k = TaskExecutionKey slug (te_TaskID t) then None else task_view live st1 k)"
    using delete_tasks_view[OF io, of slug reqID ts 0 st1 live] by blast
  have gone: "task_view live st2 k = None" if "HasPrefix k (slug_prefix slug)" "task_view live st k = Some t" "te_RequirementID t = reqID" for k t
  proof -
    have "t \<in> set ts" "k = TaskExecutionKey slug (te_TaskID t)" using rows[OF that(1,2)] that(1,2) ts(1) by auto
    then show ?thesis using that(3) unfolding v2 by auto
  qed
  obtain y st3 where g: "getReq io (RequirementExecutionKey slug reqID) st2 = (y, st3)" by fastforce
  have v3: "task_view live st3 = task_view live st2" using getReq_view[OF g] by simp
  obtain b st4 where de: "deleteReq io (RequirementExecutionKey slug reqID) st3 = (b, st4)" by fastforce
  have v4: "b" "task_view live st4 = (task_view live st3)(RequirementExecutionKey slug reqID := None)"
    using delete_view[OF io] de by (metis fst_conv, metis snd_conv)
  show ?thesis using l dl g de v4 gone v3
    by (cases y) (auto simp: delete_family_def xok_def split: if_splits)
qed



end
