(* ===== verification/Exec_Races.thy ===== *)
theory Exec_Races
  imports Exec_Machine Exec_Claims
begin

text \<open>
  Where the execution manager falls short of what its comments promise: a watchdog that is not stopped, approval
  during shutdown, a reset during set-up, rows a reset leaves behind, and executions that do not survive
  a restart.
\<close>

section \<open>A leaked timer\<close>

lemma guard_timers: "dispatch_guard at r env c = (x, d) \<Longrightarrow> ec_timers d = ec_timers c \<and> ec_execs d = ec_execs c"
  using guard_core by (auto simp: same_core_def)

lemma mark_error_timers:
  assumes "r < length (ec_execs c)" "tr_timer (run_of c r) = Some j" "i \<noteq> j"
  shows "(i, s) \<in> set (ec_timers (markErrorLocked r reason env c)) \<longleftrightarrow> (i, s) \<in> set (ec_timers c)"
    "tr_timer (run_of (markErrorLocked r reason env c) r) = Some j"
proof -
  have t: "ec_timers (syncToStore r env d) = ec_timers d" "ec_timers (upd_task r h d) = ec_timers d" "ec_timers (set_terminated r d) = ec_timers d"
    "ec_timers (discardWorktree r d) = ec_timers d" for d h
    by (simp_all add: syncToStore_def upd_task_def set_terminated_def discardWorktree_def emit_def Let_def)
  let ?d = "syncToStore r env (upd_task r (\<lambda>t. t\<lparr>te_Stage := ''error'', te_ErrorReason := reason,
    te_ErrorClass := ClassifyErrorReason reason\<rparr>) (discardWorktree r (set_terminated r c)))"
  have "tr_timer (run_of ?d r) = Some j"
    using assms(1,2) by (simp add: syncToStore_def upd_task_def set_terminated_def mark_frame Let_def)
  then show "(i, s) \<in> set (ec_timers (markErrorLocked r reason env c)) \<longleftrightarrow> (i, s) \<in> set (ec_timers c)"
    "tr_timer (run_of (markErrorLocked r reason env c) r) = Some j"
    using assms by (simp_all add: markErrorLocked_def cleanupExecutionLocked_def Let_def stop_timer_def t)
qed

lemma dispatch_reviewer_timers:
  assumes "r < length (ec_execs c)" "tr_timer (run_of c r) = Some j" "i \<noteq> j" "(i, s) \<in> set (ec_timers c)"
  shows "(i, s) \<in> set (ec_timers (dispatchReviewerLocked r env c)) \<and> tr_timer (run_of (dispatchReviewerLocked r env c) r) = Some j"
proof -
  obtain x d where g: "dispatch_guard AtReviewer r env c = (x, d)" by fastforce
  have d: "ec_timers d = ec_timers c" "ec_execs d = ec_execs c" using guard_timers[OF g] by simp_all
  have dd: "r < length (ec_execs d)" "tr_timer (run_of d r) = Some j" using assms(1,2) d by simp_all
  note e = mark_error_timers(1)[OF dd assms(3)] mark_error_timers(2)[OF dd assms(3)]
  show ?thesis using g assms e d
    by (auto simp: dispatchReviewerLocked_def Let_def emit_def upd_task_def split: option.split)
qed



section \<open>Approval during shutdown\<close>

text \<open>When the merge of an approved task fails while the component shuts down, the task is still marked approved: the
  failed merge counts as success, and no commit exists.
\<close>

theorem shutdown_approves_unmerged:
  assumes "r < length (ec_execs c)" "\<not> tr_terminated (run_of c r)" "xg_SandboxURL (ec_config c) \<noteq> []" "te_WorktreePath (task_of c r) \<noteq> []"
    "checkWorktreeExists AtMerge r env c = None" "xe_merge env 0 = WtFailed w e" "xe_shutdown env 0"
  shows "te_Stage (task_of (markApprovedLocked r env c) r) = ''approved''
    \<and> te_MergeCommit (task_of (markApprovedLocked r env c) r) = te_MergeCommit (task_of c r)"
proof -
  let ?d = "emit (MergeWorktree (te_TaskID (task_of c r))) c"
  have m: "mergeWorktree r env c = (None, ?d)" using assms(3-7) by (simp add: mergeWorktree_def Let_def)
  have "te_MergeCommit (task_of (markApprovedLocked r env c) r) = te_MergeCommit (task_of c r)"
    using m assms(1,2) by (simp add: markApprovedLocked_def cleanupExecutionLocked_def Let_def mark_frame)
      (simp add: syncToStore_def upd_task_def set_terminated_def mark_frame Let_def, simp add: emit_def)
  then show ?thesis using mark_approved_stage[OF assms(1,2) m] by simp
qed

theorem shutdown_approves_unmerged_witness:
  "\<exists>env. te_Stage (task_of (markApprovedLocked 0 env ex_validating) 0) = ''approved'' \<and> te_MergeCommit (task_of (markApprovedLocked 0 env ex_validating) 0) = []"
proof -
  let ?env = "(ex_xenv ''4'')\<lparr>xe_merge := \<lambda>_. WtFailed False [], xe_shutdown := \<lambda>_. True\<rparr>"
  have f: "(length (ec_execs ex_validating), tr_terminated (run_of ex_validating 0), xg_SandboxURL (ec_config ex_validating), te_WorktreePath (task_of ex_validating 0),
    te_MergeCommit (task_of ex_validating 0)) = (1, False, ''s'', ''/w'', [])" by code_simp
  then have "ec_execs ex_validating \<noteq> []" by auto
  moreover have "checkWorktreeExists AtMerge 0 ?env ex_validating = None" by (simp add: checkWorktreeExists_def ex_xenv_def)
  moreover have "xe_merge ?env 0 = WtFailed False []" "xe_shutdown ?env 0" by simp_all
  ultimately show ?thesis using shutdown_approves_unmerged[of 0 ex_validating ?env False "[]"] f by (intro exI[of _ ?env]) auto
qed

section \<open>A reset during set-up\<close>

definition ex_reset :: ReqResetRequest where
  "ex_reset = \<lparr>rr_Key = [], rr_Slug = ''p'', rr_RequirementID = ''A''\<rparr>"

text \<open>A reset does not stop an execution that is being set up.  The reset of the example, between the creation of the
  worktree and the first dispatch, ends the execution and deletes its row; the goroutine that sets it up goes on
  and dispatches a developer for the ended execution.
\<close>

theorem cancel_during_setup:
  "xr_error (fst (handleReqResetMutation (Some ex_reset) (ex_xenv []) ex_set_up)) = None
   \<and> tr_terminated (run_of (snd (handleReqResetMutation (Some ex_reset) (ex_xenv []) ex_set_up)) 0)
   \<and> ec_active (snd (handleReqResetMutation (Some ex_reset) (ex_xenv []) ex_set_up)) = []
   \<and> map_of (the (xs_kv (ec_store (snd (handleReqResetMutation (Some ex_reset) (ex_xenv []) ex_set_up))))) ''task.p.t'' = None
   \<and> DispatchDeveloper 0 ''dev-e.exec.task.run.-1'' \<in> set (ec_outbox (init_dispatch 0 (ex_xenv ''1'')
       (snd (handleReqResetMutation (Some ex_reset) (ex_xenv []) ex_set_up))))"
  by (intro conjI; code_simp)

section \<open>Restart\<close>

lemma update_entries: "x \<in> set (AList.update k v al) \<Longrightarrow> x = (k, v) \<or> x \<in> set al"
  by (induction al) (auto split: if_splits)

definition dormant :: "XComp \<Rightarrow> bool" where
  "dormant c \<longleftrightarrow> (\<forall>x \<in> set (ec_execs c). tr_timer x = None \<and> te_DeveloperTaskID (tr_task x) = [] \<and> te_ReviewerTaskID (tr_task x) = []
      \<and> te_RequirementID (tr_task x) = [])
     \<and> (\<forall>x \<in> set (ec_active c). snd x < length (ec_execs c)) \<and> ec_routing c = [] \<and> ec_timers c = [] \<and> ec_replay c = []"

lemma recover_fold: "dormant c \<Longrightarrow> dormant (fold (recover_one env) es c)"
proof (induction es arbitrary: c)
  case (Cons e es)
  obtain i g where e: "e = (i, g)" by fastforce
  let ?c = "recover_one env e c"
  have "\<forall>x \<in> set (ec_execs ?c). tr_timer x = None \<and> te_DeveloperTaskID (tr_task x) = [] \<and> te_ReviewerTaskID (tr_task x) = []
      \<and> te_RequirementID (tr_task x) = []"
  proof (cases "gt_Phase g \<in> terminalPhases")
    case True
    then show ?thesis using Cons.prems unfolding dormant_def by (simp add: recover_one_def e)
  next
    case False
    then have "ec_execs ?c = ec_execs c @ [(new_run (TaskExecutionKey (gt_Slug g) (gt_TaskID g)) (recovered_task i g))\<lparr>tr_task :=
        (recovered_task i g)\<lparr>te_UpdatedAt := xi_now (xe_io env)\<rparr>\<rparr>]"
      by (simp add: recover_one_def e Let_def syncToStore_def upd_task_def upd_run_def new_run_def)
    moreover have "te_DeveloperTaskID (recovered_task i g) = []" "te_ReviewerTaskID (recovered_task i g) = []" "te_RequirementID (recovered_task i g) = []"
      by (simp_all add: recovered_task_def TaskExecution_zero_def)
    ultimately show ?thesis using Cons.prems unfolding dormant_def by (simp add: new_run_def)
  qed
  moreover have "\<forall>x \<in> set (ec_active ?c). snd x < length (ec_execs ?c)"
  proof (cases "gt_Phase g \<in> terminalPhases")
    case True
    then show ?thesis using Cons.prems unfolding dormant_def by (simp add: recover_one_def e)
  next
    case False
    then have "ec_active ?c = AList.update i (length (ec_execs c)) (ec_active c)" "length (ec_execs ?c) = length (ec_execs c) + 1"
      by (simp_all add: recover_one_def e Let_def syncToStore_def upd_task_def)
    then show ?thesis using Cons.prems unfolding dormant_def by (auto dest!: update_entries)
  qed
  moreover have "ec_routing ?c = [] \<and> ec_timers ?c = [] \<and> ec_replay ?c = []"
    using Cons.prems unfolding dormant_def by (simp add: recover_one_def e Let_def syncToStore_def upd_task_def upd_run_def)
  ultimately have "dormant ?c" by (simp add: dormant_def)
  then show ?case using Cons.IH[of ?c] by simp
qed simp

text \<open>C40: an execution that was in flight when the component stopped is never taken up again.  After a restart with any
  graph and any bucket, no completion of a loop, live or replayed, moves a recovered execution, no timer is armed that could
  end it, and cancelling the children of its requirement does not reach it.
\<close>

theorem recovered_never_resumes:
  assumes "start_comp g ids cats kv (Some es) env = Some c"
  shows "handleLoopEntityUpdate entry env2 c = c \<and> handleLoopEntityUpdateReplay entry env2 c = c \<and> resumeStuckExecutions order envs c = c
    \<and> ec_timers c = [] \<and> cancelChildrenForRequirement slug reqID reason env2 c = c"
proof -
  let ?b = "fold (recover_one env) es (fresh_comp g ids cats kv)"
  have c: "c = ?b\<lparr>ec_store := reconcile_kv (xe_io env) (ec_store ?b)\<rparr>"
    using assms by (auto simp: start_comp_def reconcileFromGraph_def Let_def split: if_splits)
  have b: "\<forall>x \<in> set (ec_execs c). tr_timer x = None \<and> te_DeveloperTaskID (tr_task x) = [] \<and> te_ReviewerTaskID (tr_task x) = [] \<and> te_RequirementID (tr_task x) = []"
    "\<forall>x \<in> set (ec_active c). snd x < length (ec_execs c)" "ec_routing c = []" "ec_timers c = []" "ec_replay c = []"
  proof -
    have "dormant ?b" by (rule recover_fold) (simp add: dormant_def fresh_comp_def)
    then have "dormant c" by (simp add: dormant_def c)
    then show "\<forall>x \<in> set (ec_execs c). tr_timer x = None \<and> te_DeveloperTaskID (tr_task x) = [] \<and> te_ReviewerTaskID (tr_task x) = [] \<and> te_RequirementID (tr_task x) = []"
      "\<forall>x \<in> set (ec_active c). snd x < length (ec_execs c)" "ec_routing c = []" "ec_timers c = []" "ec_replay c = []"
      by (simp_all add: dormant_def)
  qed
  have run: "currentStageTaskID (task_of c r) = []" "te_RequirementID (task_of c r) = []" if "map_of (ec_active c) e = Some r" for e r
  proof -
    have "run_of c r \<in> set (ec_execs c)" using b(2) map_of_SomeD[OF that] by fastforce
    then show "currentStageTaskID (task_of c r) = []" "te_RequirementID (task_of c r) = []" using b(1) by (auto simp: currentStageTaskID_def)
  qed
  have "handleLoopEntityUpdate entry env2 c = c" using b(3) by (simp add: handleLoopEntityUpdate_def split: option.split)
  moreover have "handleLoopEntityUpdateReplay entry env2 c = c"
  proof -
    have "find_owner c i xs = None" if "i \<noteq> []" for i xs
      using that by (induction xs) (auto simp: run split: option.split)
    then show ?thesis by (auto simp: handleLoopEntityUpdateReplay_def Let_def loop_relevant_def split: option.split)
  qed
  moreover have "resumeStuckExecutions order envs c = c"
  proof -
    have "resume_one envs e c = c" for e by (auto simp: resume_one_def Let_def run split: option.split)
    then have "fold (resume_one envs) order c = c" by (induction order) auto
    then show ?thesis using b(5) by (simp add: resumeStuckExecutions_def)
  qed
  moreover have "cancelChildrenForRequirement slug reqID reason env2 c = c"
  proof (cases "reqID = []")
    case False
    then have "cancel_one slug reqID reason env2 e c = c" for e by (auto simp: cancel_one_def Let_def run split: option.split)
    then have "fold (cancel_one slug reqID reason env2) xs c = c" for xs by (induction xs) auto
    then show ?thesis by (simp add: cancelChildrenForRequirement_def)
  qed (simp add: cancelChildrenForRequirement_def)
  ultimately show ?thesis using b(4) by blast
qed

definition ex_graph_task :: GraphTask where
  "ex_graph_task = \<lparr>gt_Phase = ''developing'', gt_Slug = ''p'', gt_TaskID = ''t'', gt_Title = [], gt_ProjectID = [], gt_TraceID = [], gt_Model = [],
     gt_Prompt = [], gt_AgentID = [], gt_WorktreePath = ''/w'', gt_WorktreeBranch = ''b'', gt_TDDCycle = Some 0, gt_MaxTDDCycles = Some 2\<rparr>"

theorem recovered_never_resumes_witness:
  "\<exists>c. start_comp ex_xconfig ex_xids None (Some []) (Some [(''e'', ex_graph_task)]) (ex_xenv []) = Some c
     \<and> length (ec_execs c) = 1 \<and> \<not> tr_terminated (run_of c 0) \<and> ec_timers c = [] \<and> handleLoopEntityUpdate (Some ex_dev_done) (ex_xenv ''2'') c = c"
proof -
  let ?s = "start_comp ex_xconfig ex_xids None (Some []) (Some [(''e'', ex_graph_task)]) (ex_xenv [])"
  have s: "?s = Some (the ?s)" by (simp add: start_comp_def Let_def ex_xconfig_def)
  have "length (ec_execs (the ?s)) = 1" "\<not> tr_terminated (run_of (the ?s) 0)" by code_simp+
  then show ?thesis using s recovered_never_resumes[OF s] by blast
qed

section \<open>Rows a reset leaves behind\<close>

text \<open>
  After a restart the cache holds the unfinished rows of a plan only: the escalated task of requirement A is in the bucket, the
  running task of requirement B is cached too.
\<close>

definition ex_restarted :: XComp where
  "ex_restarted = the (start_comp ex_xconfig ex_xids None (Some [(''task.p.t'', TaskRow (ex_task_row ''t'' ''A'' ''escalated'')),
     (''task.p.u'', TaskRow (ex_task_row ''u'' ''B'' ''developing''))]) None (ex_xenv []))"

text \<open>A reset can leave rows of the requirement behind.  The listing of the tasks of a plan falls back to the bucket only
  when the cache has no task of the plan at all; in the example the reset of requirement A reports success with no
  entry removed, its escalated task row stays, and the task cannot be created again.
\<close>

theorem reset_strands_rows:
  "xr_error (fst (handleReqResetMutation (Some ex_reset) (ex_xenv []) ex_restarted)) = None
   \<and> xr_ResetCount (fst (handleReqResetMutation (Some ex_reset) (ex_xenv []) ex_restarted)) = 0
   \<and> map_option te_Stage (task_view (task_of ex_restarted) (ec_store (snd (handleReqResetMutation (Some ex_reset) (ex_xenv []) ex_restarted))) ''task.p.t'') = Some ''escalated''
   \<and> xr_error (fst (mutate (TaskCreate (Some ex_task_create)) ex_io (snd (handleReqResetMutation (Some ex_reset) (ex_xenv []) ex_restarted))))
       = Some (XExists ''task.p.t'')"
  by (intro conjI; code_simp)

end
