(* ===== verification/Req_Evidence.thy ===== *)
theory Req_Evidence
  imports Task_Dag Orchestrator Exec_Mutations Exec_Feedback
begin

text \<open>
  The pure functions of \<^verbatim>\<open>src/processor/requirement-executor\<close>: the order of the nodes of a task DAG
  (\<^verbatim>\<open>topo_sort.go\<close>), the scenarios a review is about and its verdicts, the evidence one requirement
  borrows from the owner of a shared story (\<^verbatim>\<open>component.go\<close>), the files a story promised
  (\<^verbatim>\<open>deliverable_gate.go\<close>) and the way back of a story to ready (\<^verbatim>\<open>recover_completed.go\<close>).
  Functions of the code that read an execution take the fields they read.  A Go map of IDs is a list
  or a set.
\<close>

section \<open>Order of nodes\<close>

definition dependents_map :: "TaskNode list \<Rightarrow> bytes \<Rightarrow> bytes list" where
  "dependents_map nodes i = concat (map (\<lambda>n. replicate (count_list (n_DependsOn n) i) (n_ID n)) nodes)"

definition in_degrees :: "TaskNode list \<Rightarrow> bytes \<Rightarrow> int" where
  "in_degrees nodes i = (case fill_map n_ID (\<lambda>n. int (length (n_DependsOn n))) nodes i of Some k \<Rightarrow> k | None \<Rightarrow> 0)"

text \<open>The inner loop: one decrement per dependent, which joins the queue when it reaches zero.\<close>

fun release :: "bytes list \<Rightarrow> (bytes \<Rightarrow> int) \<times> bytes list \<Rightarrow> (bytes \<Rightarrow> int) \<times> bytes list" where
  "release [] st = st"
| "release (d # ds) (indeg, queue) =
     (let k = indeg d - 1 in release ds (indeg(d := k), if k = 0 then queue @ [d] else queue))"

definition pending :: "TaskNode list \<Rightarrow> (bytes \<Rightarrow> int) \<Rightarrow> nat" where
  "pending nodes indeg = card {i \<in> n_ID ` set nodes. 0 < indeg i}"

lemma release_pending:
  "set ds \<subseteq> n_ID ` set nodes \<Longrightarrow> release ds (indeg, queue) = (indeg', queue') \<Longrightarrow>
   pending nodes indeg' + length queue' \<le> pending nodes indeg + length queue"
proof (induction ds arbitrary: indeg queue)
  case (Cons d ds)
  let ?k = "indeg d - 1" and ?A = "\<lambda>f. {i \<in> n_ID ` set nodes. 0 < (f i :: int)}"
  let ?f = "indeg(d := ?k)"
  have sub: "?A ?f \<subseteq> ?A indeg" by auto
  have fin: "finite (?A indeg)" by simp
  have "pending nodes ?f + (if ?k = 0 then 1 else 0) \<le> pending nodes indeg"
  proof (cases "?k = 0")
    case True
    then have "?A ?f = ?A indeg - {d}" "d \<in> ?A indeg" using Cons.prems(1) by auto
    then have "card (?A ?f) + 1 = card (?A indeg)" using fin card_Suc_Diff1[of "?A indeg" d] by simp
    then show ?thesis using True by (simp add: pending_def)
  next
    case False
    then show ?thesis using card_mono[OF fin sub] by (simp add: pending_def)
  qed
  moreover have "pending nodes indeg' + length queue' \<le> pending nodes ?f + length (if ?k = 0 then queue @ [d] else queue)"
    by (rule Cons.IH) (use Cons.prems(1) in simp, use Cons.prems(2) in \<open>simp only: release.simps Let_def\<close>)
  ultimately show ?case by (auto split: if_splits)
qed simp

lemma dependents_nodes: "set (dependents_map nodes i) \<subseteq> n_ID ` set nodes"
  by (auto simp: dependents_map_def set_replicate_conv_if split: if_splits)

function topo_loop :: "TaskNode list \<Rightarrow> bytes list \<Rightarrow> (bytes \<Rightarrow> int) \<Rightarrow> bytes list \<Rightarrow> bytes list" where
  "topo_loop nodes [] indeg order = order"
| "topo_loop nodes (i # queue) indeg order =
     (case release (dependents_map nodes i) (indeg, queue) of
        (indeg', queue') \<Rightarrow> topo_loop nodes queue' indeg' (order @ [i]))"
  by pat_completeness auto

termination
  by (relation "measure (\<lambda>(nodes, queue, indeg, _). pending nodes indeg + length queue)")
    (auto dest!: release_pending[OF dependents_nodes sym])

datatype topo_error = TopoEmpty | TopoCycle nat nat

definition topoSort :: "TaskDAG \<Rightarrow> topo_error + bytes list" where
  "topoSort dag =
     (if dag_Nodes dag = [] then Inl TopoEmpty
      else let nodes = dag_Nodes dag; indeg = in_degrees nodes;
               order = topo_loop nodes (filter (\<lambda>i. indeg i = 0) (map n_ID nodes)) indeg []
        in if length order \<noteq> length nodes then Inl (TopoCycle (length order) (length nodes)) else Inr order)"

section \<open>Scenarios and verdicts\<close>

record requirementReviewScenarioItem =
  ri_ScenarioID :: bytes
  ri_Passed :: "bool option"
  ri_Feedback :: bytes

record requirementReviewResult =
  rw_Verdict :: bytes
  rw_RejectionType :: bytes
  rw_Feedback :: bytes
  rw_ScenarioVerdicts :: "requirementReviewScenarioItem list"

definition toScenarioVerdicts :: "requirementReviewResult \<Rightarrow> ScenarioVerdict list" where
  "toScenarioVerdicts r = map (\<lambda>i. \<lparr>sv_ScenarioID = ri_ScenarioID i,
     sv_Passed = (case ri_Passed i of Some b \<Rightarrow> b | None \<Rightarrow> False), sv_Feedback = ri_Feedback i\<rparr>) (rw_ScenarioVerdicts r)"

definition filterScenariosByIDs :: "Scenario list \<Rightarrow> bytes list \<Rightarrow> Scenario list" where
  "filterScenariosByIDs scenarios ids = filter (\<lambda>s. sc_ID s \<in> set ids) scenarios"

definition story_scenarios :: "Scenario list \<Rightarrow> bytes \<Rightarrow> Scenario list" where
  "story_scenarios scenarios storyID =
     (let out = filter (\<lambda>s. sc_StoryID s = storyID) scenarios; legacy = filter (\<lambda>s. sc_StoryID s = []) scenarios
      in if out = [] \<and> legacy \<noteq> [] then legacy else out)"

definition scopeScenariosToCurrentStory :: "Scenario list \<Rightarrow> bytes list \<Rightarrow> int \<Rightarrow> Scenario list" where
  "scopeScenariosToCurrentStory scenarios storyIDs idx =
     (if idx < 0 \<or> int (length storyIDs) \<le> idx then scenarios
      else let storyID = storyIDs ! nat idx in
        if storyID = [] then scenarios else story_scenarios scenarios storyID)"

definition requiredScenariosForBorrowedStory :: "Scenario list \<Rightarrow> bytes \<Rightarrow> Scenario list" where
  "requiredScenariosForBorrowedStory scenarios storyID =
     (let matched = filter (\<lambda>s. storyID \<noteq> [] \<and> sc_StoryID s = storyID) scenarios;
          legacy = filter (\<lambda>s. \<not> (storyID \<noteq> [] \<and> sc_StoryID s = storyID) \<and> sc_StoryID s = []) scenarios
      in if matched \<noteq> [] then matched else legacy)"

definition scenarioIDs :: "Scenario list \<Rightarrow> bytes list" where
  "scenarioIDs scenarios = rev (remdups (rev (filter (\<lambda>i. i \<noteq> []) (map sc_ID scenarios))))"

definition passed_map :: "ScenarioVerdict list \<Rightarrow> bytes \<Rightarrow> bool" where
  "passed_map verdicts i =
     (fill_map sv_ScenarioID sv_Passed (filter (\<lambda>v. sv_ScenarioID v \<noteq> []) verdicts) i = Some True)"

text \<open>\<open>None\<close> when nothing is missing, otherwise the scenarios without a passing verdict.\<close>

definition validateApprovedScenarioVerdicts :: "Scenario list \<Rightarrow> ScenarioVerdict list \<Rightarrow> bytes list option" where
  "validateApprovedScenarioVerdicts required verdicts =
     (let missingOrFailed = filter (\<lambda>i. \<not> passed_map verdicts i) (scenarioIDs required)
      in if missingOrFailed = [] then None else Some missingOrFailed)"

text \<open>A verdict of the review replaces the stored one of its scenario; of several on one scenario the last
  counts and takes the place of the first.\<close>

definition mergeCurrentStoryScenarioVerdicts :: "Scenario list \<Rightarrow> ScenarioVerdict list \<Rightarrow> ScenarioVerdict list \<Rightarrow> ScenarioVerdict list" where
  "mergeCurrentStoryScenarioVerdicts scoped stored verdicts =
     (let scopedIDs = scenarioIDs scoped;
          fits = filter (\<lambda>v. sv_ScenarioID v \<noteq> [] \<and> (scopedIDs = [] \<or> sv_ScenarioID v \<in> set scopedIDs)) verdicts;
          replacements = fill_map sv_ScenarioID (\<lambda>v. v) fits
      in if fits = [] then stored
         else filter (\<lambda>v. sv_ScenarioID v = [] \<or> replacements (sv_ScenarioID v) = None) stored
           @ map (\<lambda>i. the (replacements i)) (rev (remdups (rev (map sv_ScenarioID fits)))))"

definition countPassedScenarios :: "Scenario list \<Rightarrow> ScenarioVerdict list \<Rightarrow> nat" where
  "countPassedScenarios scenarios verdicts =
     (if scenarios = [] then 0 else if verdicts = [] then length scenarios
      else length (filter (\<lambda>s. passed_map verdicts (sc_ID s)) scenarios))"

section \<open>Evidence\<close>

definition findStoryByID :: "Plan \<Rightarrow> bytes \<Rightarrow> Story option" where
  "findStoryByID plan storyID = find (\<lambda>s. s_ID s = storyID) (p_Stories plan)"

definition storyTaskIDSet :: "Story \<Rightarrow> bytes set" where
  "storyTaskIDSet story = set (filter (\<lambda>i. i \<noteq> []) (map t_ID (s_Tasks story)))"

definition in_story :: "Story \<Rightarrow> NodeResult \<Rightarrow> bool" where
  "in_story story nr \<longleftrightarrow> storyTaskIDSet story = {} \<or> nr_NodeID nr \<in> storyTaskIDSet story"

definition hasCommittedStoryNodeEvidence :: "NodeResult list \<Rightarrow> Story \<Rightarrow> bool" where
  "hasCommittedStoryNodeEvidence owned story =
     list_ex (\<lambda>nr. in_story story nr \<and> nr_FilesModified nr \<noteq> [] \<and> nr_CommitSHA nr \<noteq> []) owned"

definition executionHasStoryEvidence :: "NodeResult list \<Rightarrow> Story \<Rightarrow> bool" where
  "executionHasStoryEvidence results story = list_ex (in_story story) results"

definition nodeEvidenceKey :: "NodeResult \<Rightarrow> bytes" where
  "nodeEvidenceKey nr = nr_NodeID nr @ [CHR 0x00] @ nr_CommitSHA nr"

fun copy_results :: "bytes set \<Rightarrow> NodeResult list \<Rightarrow> NodeResult list" where
  "copy_results seen [] = []"
| "copy_results seen (nr # nrs) =
     (if nodeEvidenceKey nr \<in> seen then copy_results seen nrs
      else nr # copy_results (insert (nodeEvidenceKey nr) seen) nrs)"

text \<open>The node results copied from the owner.\<close>

definition copyStoryEvidence :: "NodeResult list \<Rightarrow> Story \<Rightarrow> NodeResult list \<Rightarrow> NodeResult list" where
  "copyStoryEvidence results story owned =
     copy_results (nodeEvidenceKey ` set results) (filter (in_story story) owned)"

fun copy_verdicts :: "bytes set \<Rightarrow> bytes set \<Rightarrow> ScenarioVerdict list \<Rightarrow> ScenarioVerdict list" where
  "copy_verdicts required seen [] = []"
| "copy_verdicts required seen (v # vs) =
     (if sv_ScenarioID v \<notin> required \<or> sv_ScenarioID v \<in> seen then copy_verdicts required seen vs
      else v # copy_verdicts required (insert (sv_ScenarioID v) seen) vs)"

definition copyScenarioVerdictEvidence :: "Scenario list \<Rightarrow> ScenarioVerdict list \<Rightarrow> ScenarioVerdict list \<Rightarrow> ScenarioVerdict list" where
  "copyScenarioVerdictEvidence required stored owned =
     stored @ copy_verdicts (set (filter (\<lambda>i. i \<noteq> []) (map sc_ID required)))
       (set (filter (\<lambda>i. i \<noteq> []) (map sv_ScenarioID stored))) owned"

datatype evidence_gap = NoCommittedEvidence | NoLinkedScenarios | MissingVerdicts "bytes list"

definition validateBorrowedStoryEvidence :: "Scenario list \<Rightarrow> Story \<Rightarrow> NodeResult list \<Rightarrow> ScenarioVerdict list \<Rightarrow> evidence_gap option" where
  "validateBorrowedStoryEvidence scenarios story owned verdicts =
     (if \<not> hasCommittedStoryNodeEvidence owned story then Some NoCommittedEvidence
      else let required = requiredScenariosForBorrowedStory scenarios (s_ID story) in
        if required = [] then Some NoLinkedScenarios
        else map_option MissingVerdicts (validateApprovedScenarioVerdicts required verdicts))"

definition nodeResultsOutsideCurrentStory :: "NodeResult list \<Rightarrow> bytes list \<Rightarrow> NodeResult list" where
  "nodeResultsOutsideCurrentStory results nodeIDs =
     (if filter (\<lambda>i. i \<noteq> []) nodeIDs = [] then []
      else filter (\<lambda>nr. nr_NodeID nr = [] \<or> nr_NodeID nr \<notin> set nodeIDs) results)"

definition unobserved :: "NodeResult list \<Rightarrow> bytes list" where
  "unobserved results = map nr_NodeID (filter (\<lambda>nr. nr_FilesModified nr \<noteq> [] \<and> nr_CommitSHA nr = []) results)"

fun dedup_files :: "bytes set \<Rightarrow> bytes list \<Rightarrow> bytes list" where
  "dedup_files seen [] = []"
| "dedup_files seen (f # fs) = (if f \<in> seen then dedup_files seen fs else f # dedup_files (insert f seen) fs)"

definition aggregateFiles :: "NodeResult list \<Rightarrow> bytes list" where
  "aggregateFiles results = dedup_files {} (concat (map nr_FilesModified results))"

definition aggregateNodeSummaries :: "NodeResult list \<Rightarrow> bytes" where
  "aggregateNodeSummaries results =
     Join ''; '' (map (\<lambda>nr. ''['' @ nr_NodeID nr @ ''] '' @ nr_Summary nr) (filter (\<lambda>nr. nr_Summary nr \<noteq> []) results))"

section \<open>Deliverables\<close>

definition owned_paths :: "Story list \<Rightarrow> bytes set" where
  "owned_paths stories = set (filter (\<lambda>p. p \<noteq> []) (map NormalizeFilePath (concat (map s_FilesOwned stories))))"

definition create_obligations :: "bytes list \<Rightarrow> bytes set \<Rightarrow> bytes list" where
  "create_obligations create owned = dedup_files {} (filter (\<lambda>p. p \<noteq> [] \<and> p \<in> owned) (map NormalizeFilePath create))"

definition storyScopeCreateObligations :: "Plan \<Rightarrow> Story \<Rightarrow> bytes list" where
  "storyScopeCreateObligations plan story = create_obligations (scope_Create (p_Scope plan)) (owned_paths [story])"

definition requirementScopeCreateObligations :: "Plan \<Rightarrow> bytes list \<Rightarrow> bytes list" where
  "requirementScopeCreateObligations plan storyIDs =
     create_obligations (scope_Create (p_Scope plan))
       (owned_paths (filter (\<lambda>s. s_ID s \<noteq> [] \<and> s_ID s \<in> set storyIDs) (p_Stories plan)))"

definition missingDeliverableFiles :: "bytes list \<Rightarrow> bytes list \<Rightarrow> bytes list" where
  "missingDeliverableFiles expected delivered =
     (let have_files = set (filter (\<lambda>p. p \<noteq> []) (map NormalizeFilePath delivered)) in
      filter (\<lambda>p. p \<notin> have_files) (dedup_files {} (filter (\<lambda>p. p \<noteq> []) (map NormalizeFilePath expected))))"

text \<open>What running \<^verbatim>\<open>git ls-files -z\<close> in the reviewer's worktree gives.\<close>

datatype ls_outcome = LsError bytes | LsNil | LsRun int bytes

definition trim_nul :: "bytes \<Rightarrow> bytes" where
  "trim_nul s = rev (dropWhile (\<lambda>c. c = CHR 0x00) (rev (dropWhile (\<lambda>c. c = CHR 0x00) s)))"

definition ls_exit :: "bytes \<Rightarrow> int \<Rightarrow> bytes" where
  "ls_exit quoted code = ''git ls-files in reviewer worktree '' @ quoted @ '' exited '' @ show_int code"

definition deliveredFilesForReviewerWorktree :: "(bytes \<Rightarrow> bytes) \<Rightarrow> bytes \<Rightarrow> ls_outcome \<Rightarrow> bytes + bytes list" where
  "deliveredFilesForReviewerWorktree quote taskID outcome =
     (if taskID = [] then Inl ''reviewer worktree id is empty''
      else case outcome of
        LsError e \<Rightarrow> Inl e
      | LsNil \<Rightarrow> Inl (ls_exit (quote taskID) (- 1))
      | LsRun code stdout \<Rightarrow>
          if code \<noteq> 0 then Inl (ls_exit (quote taskID) code)
          else let raw = trim_nul stdout in if raw = [] then Inr [] else Inr (split_on CHR 0x00 raw))"

section \<open>The way of a story back to ready\<close>

fun storyStatusWalkToReady :: "StoryStatus \<Rightarrow> StoryStatus list" where
  "storyStatusWalkToReady StoryStatusReady = []"
| "storyStatusWalkToReady StoryStatusPending = [StoryStatusReady]"
| "storyStatusWalkToReady StoryStatusComplete = [StoryStatusReady]"
| "storyStatusWalkToReady StoryStatusFailed = [StoryStatusPending, StoryStatusReady]"
| "storyStatusWalkToReady StoryStatusExecuting = [StoryStatusFailed, StoryStatusPending, StoryStatusReady]"
| "storyStatusWalkToReady (StoryStatusOther _) = []"

definition storiesToReopenForRecovery :: "Plan \<Rightarrow> bytes \<Rightarrow> bytes list" where
  "storiesToReopenForRecovery plan reqID =
     map s_ID (filter (\<lambda>s. DeterministicStoryOwner s = reqID
         \<and> s_Status s \<in> {StoryStatusComplete, StoryStatusExecuting, StoryStatusFailed, StoryStatusPending})
       (StoriesForRequirement plan reqID))"

definition coAffectedDependentSet :: "bytes list \<Rightarrow> Requirement list \<Rightarrow> Story list \<Rightarrow> bytes set" where
  "coAffectedDependentSet affected reqs stories =
     set (concat (map (\<lambda>owner. DependentBranchSubtree owner reqs stories) affected)) \<inter> set affected"

definition isPendingRecoveryDecisionForRequirement :: "PlanDecision \<Rightarrow> bytes \<Rightarrow> bool" where
  "isPendingRecoveryDecisionForRequirement dec reqID \<longleftrightarrow>
     d_Status dec \<in> {PlanDecisionStatusProposed, PlanDecisionStatusUnderReview}
     \<and> d_Kind dec \<in> {PlanDecisionKindRequirementChange, PlanDecisionKindStoryReprepare,
         PlanDecisionKindArchitectureRevise, PlanDecisionKindScopeIncomplete}
     \<and> (d_AffectedReqIDs dec = [] \<or> reqID \<in> set (d_AffectedReqIDs dec))"

definition accepted_recoveries :: "PlanDecision list \<Rightarrow> bytes \<Rightarrow> nat" where
  "accepted_recoveries decisions reqID =
     length (filter (\<lambda>d. d_ProposedBy d = ''recovery-agent'' \<and> d_Status d = PlanDecisionStatusAccepted
       \<and> reqID \<in> set (d_AffectedReqIDs d)) decisions)"

definition selectReqBranchBase :: "bytes \<Rightarrow> bytes \<Rightarrow> bytes" where
  "selectReqBranchBase planBranch baseBranch =
     (if baseBranch \<noteq> [] then baseBranch else if planBranch \<noteq> [] then planBranch else ''HEAD'')"

end
