(* ===== verification/Req_Order.thy ===== *)
theory Req_Order
  imports Req_Evidence
begin

text \<open>
  The order in which the nodes of a story run: the queue of \<^verbatim>\<open>topo_sort.go\<close> yields every node of a
  validated DAG once, each after its dependencies.  The loop keeps for every node the number of its
  dependencies that are not yet sorted; a node enters the queue when that number reaches zero.
\<close>

abbreviation node_deps :: "TaskNode list \<Rightarrow> bytes \<Rightarrow> bytes list" where
  "node_deps nodes \<equiv> dag_adj n_ID n_DependsOn nodes"

definition missing :: "TaskNode list \<Rightarrow> bytes list \<Rightarrow> bytes \<Rightarrow> nat" where
  "missing nodes order i = length (filter (\<lambda>d. d \<notin> set order) (node_deps nodes i))"

section \<open>One round of the loop\<close>

lemma release_spec:
  assumes "\<And>j. int (count_list ds j) \<le> f j \<or> j \<notin> set ds"
  shows "\<exists>new. release ds (f, q) = (\<lambda>j. f j - int (count_list ds j), q @ new) \<and> distinct new
    \<and> set new = {j \<in> set ds. f j = int (count_list ds j)}"
  using assms
proof (induction ds arbitrary: f q)
  case (Cons d ds)
  let ?f = "f(d := f d - 1)" and ?q = "if f d = 1 then q @ [d] else q"
  have d: "int (count_list ds d) \<le> f d - 1" using Cons.prems[of d] by simp
  have "int (count_list ds j) \<le> ?f j \<or> j \<notin> set ds" for j using Cons.prems[of j] d by auto
  from Cons.IH[OF this, of ?q] obtain new where n: "release ds (?f, ?q) = (\<lambda>j. ?f j - int (count_list ds j), ?q @ new)"
    "distinct new" "set new = {j \<in> set ds. ?f j = int (count_list ds j)}" by blast
  have r: "release (d # ds) (f, q) = (\<lambda>j. f j - int (count_list (d # ds) j), ?q @ new)"
  proof -
    have "(\<lambda>j. ?f j - int (count_list ds j)) = (\<lambda>j. f j - int (count_list (d # ds) j))" by (rule ext) simp
    moreover have "release (d # ds) (f, q) = release ds (?f, ?q)" by (simp only: release.simps Let_def right_minus_eq)
    ultimately show ?thesis using n(1) by (simp only:)
  qed
  show ?case
  proof (cases "f d = 1")
    case True
    then have "count_list ds d = 0" using d by simp
    then have no: "d \<notin> set ds" by (simp add: count_list_0_iff)
    then have "j \<in> set (d # new) \<longleftrightarrow> j \<in> set (d # ds) \<and> f j = int (count_list (d # ds) j)" for j
      by (cases "j = d") (simp_all add: True n(3) count_notin)
    then have "set (d # new) = {j \<in> set (d # ds). f j = int (count_list (d # ds) j)}" by blast
    moreover have "distinct (d # new)" using no n(2,3) by simp
    ultimately show ?thesis using r True by (intro exI[of _ "d # new"]) simp
  next
    case False
    have "f d = int (count_list ds d) + 1 \<Longrightarrow> d \<in> set ds" using False by (cases "d \<in> set ds") (simp_all add: count_notin)
    then have "j \<in> set new \<longleftrightarrow> j \<in> set (d # ds) \<and> f j = int (count_list (d # ds) j)" for j
      by (cases "j = d") (simp_all add: n(3), linarith)
    then have "set new = {j \<in> set (d # ds). f j = int (count_list (d # ds) j)}" by blast
    then show ?thesis using r False n(2) by (intro exI[of _ new]) simp
  qed
qed simp

lemma count_rep: "count_list (replicate k x) y = (if x = y then k else 0)"
  by (induction k) auto

lemma count_concat_rep:
  "count_list (concat (map (\<lambda>n. replicate (h n) (n_ID n)) nodes)) j = sum_list (map (\<lambda>n. if n_ID n = j then h n else 0) nodes)"
  by (induction nodes) (simp_all add: count_list_append count_rep)

lemma sum_single: "distinct (map n_ID nodes) \<Longrightarrow> m \<in> set nodes \<Longrightarrow> sum_list (map (\<lambda>n. if n_ID n = n_ID m then h n else 0) nodes) = (h m :: nat)"
proof (induction nodes)
  case (Cons n nodes)
  show ?case
  proof (cases "m = n")
    case True
    have "sum_list (map (\<lambda>n. if n_ID n = n_ID m then h n else 0) nodes) = 0" using Cons.prems True by (induction nodes) auto
    then show ?thesis using True by simp
  next
    case False
    then show ?thesis using Cons by auto
  qed
qed simp

lemma count_dependents:
  assumes "distinct (map n_ID nodes)" "j \<in> n_ID ` set nodes"
  shows "count_list (dependents_map nodes i) j = count_list (node_deps nodes j) i"
proof -
  obtain m where m: "m \<in> set nodes" "j = n_ID m" using assms(2) by auto
  show ?thesis using sum_single[OF assms(1) m(1), of "\<lambda>n. count_list (n_DependsOn n) i"] dag_adj_distinct[OF assms(1) m(1), of n_DependsOn]
    by (simp add: dependents_map_def count_concat_rep m(2))
qed

lemma missing_snoc: "i \<notin> set order \<Longrightarrow> missing nodes order j = missing nodes (order @ [i]) j + count_list (node_deps nodes j) i"
proof -
  assume i: "i \<notin> set order"
  have "length (filter (\<lambda>d. d \<notin> set order) ds) = length (filter (\<lambda>d. d \<notin> set (order @ [i])) ds) + count_list ds i" for ds
    using i by (induction ds) auto
  then show ?thesis by (simp add: missing_def)
qed

section \<open>The loop\<close>

definition kahn :: "TaskNode list \<Rightarrow> bytes list \<Rightarrow> (bytes \<Rightarrow> int) \<Rightarrow> bytes list \<Rightarrow> bool" where
  "kahn nodes queue indeg order \<longleftrightarrow> distinct (order @ queue) \<and> set (order @ queue) \<subseteq> n_ID ` set nodes \<and> topo (node_deps nodes) order
     \<and> (\<forall>j \<in> n_ID ` set nodes. indeg j = int (missing nodes order j) \<and> (j \<in> set (order @ queue) \<longleftrightarrow> indeg j = 0))"

lemma kahn_step:
  assumes ids: "distinct (map n_ID nodes)" and k: "kahn nodes (i # queue) indeg order"
    and r: "release (dependents_map nodes i) (indeg, queue) = (indeg', queue')"
  shows "kahn nodes queue' indeg' (order @ [i])"
proof -
  let ?N = "n_ID ` set nodes" and ?ds = "dependents_map nodes i"
  note k' = k[unfolded kahn_def]
  note k1 = k'[THEN conjunct1] and k2 = k'[THEN conjunct2, THEN conjunct1] and k3 = k'[THEN conjunct2, THEN conjunct2, THEN conjunct1]
    and k4 = k'[THEN conjunct2, THEN conjunct2, THEN conjunct2, THEN bspec, THEN conjunct1]
    and k5 = k'[THEN conjunct2, THEN conjunct2, THEN conjunct2, THEN bspec, THEN conjunct2]
  have i: "i \<notin> set order" "i \<in> ?N" using k1 k2 by simp_all
  have m: "indeg j = int (missing nodes (order @ [i]) j) + int (count_list ?ds j)" if "j \<in> ?N" for j
    using k4[OF that] missing_snoc[OF i(1), of nodes j] count_dependents[OF ids that, of i] by simp
  have N: "j \<in> ?N" if "j \<in> set ?ds" for j using that dependents_nodes by blast
  have "int (count_list ?ds j) \<le> indeg j \<or> j \<notin> set ?ds" for j
    by (cases "j \<in> set ?ds") (simp_all add: m[OF N])
  from release_spec[OF this, of queue] obtain new
    where n: "release ?ds (indeg, queue) = (\<lambda>j. indeg j - int (count_list ?ds j), queue @ new)" "distinct new"
      "set new = {j \<in> set ?ds. indeg j = int (count_list ?ds j)}" by blast
  have new: "indeg' = (\<lambda>j. indeg j - int (count_list ?ds j))" "queue' = queue @ new"
    using trans[OF sym[OF r] n(1)] by simp_all
  note new = new n(2,3)
  have f': "indeg' j = int (missing nodes (order @ [i]) j)" if "j \<in> ?N" for j using m[OF that] new(1) by simp
  have pos: "j \<in> set ?ds \<Longrightarrow> count_list ?ds j \<noteq> 0" for j by (simp add: count_list_0_iff)
  have apart: "set new \<inter> set (order @ i # queue) = {}"
  proof -
    have "j \<notin> set (order @ i # queue)" if "j \<in> set ?ds" "indeg j = int (count_list ?ds j)" for j
      using k5[OF N[OF that(1)]] pos[OF that(1)] that(2) by simp
    then show ?thesis using new(4) by blast
  qed
  have T: "topo (node_deps nodes) (order @ [i])"
  proof -
    have "missing nodes order i = 0" using k4[OF i(2)] k5[OF i(2)] by simp
    then have "set (node_deps nodes i) \<subseteq> set order" by (auto simp: missing_def filter_empty_conv)
    then show ?thesis using k3 by (simp only: topo_snoc)
  qed
  have B: "j \<in> set ((order @ [i]) @ queue') \<longleftrightarrow> indeg' j = 0" if "j \<in> ?N" for j
  proof (cases "j \<in> set (order @ i # queue)")
    case True
    then have "indeg' j = 0" using k5[OF that] m[OF that] f'[OF that] by simp
    then show ?thesis using True new(2) by auto
  next
    case False
    then have "indeg' j = 0 \<longleftrightarrow> j \<in> set new" using k5[OF that] new(1,4) by (auto simp: count_notin)
    then show ?thesis using False new(2) by auto
  qed
  have C: "distinct ((order @ [i]) @ queue')" using k1 apart new(2,3) by (simp only: new(2) distinct_append append_assoc distinct.simps set_append list.set) blast
  have D: "set ((order @ [i]) @ queue') \<subseteq> ?N" using k2 N new(2,4) by (simp only: new(2) set_append list.set) blast
  show ?thesis unfolding kahn_def by (rule conjI[OF C conjI[OF D conjI[OF T ballI]]], rule conjI[OF f' B])
qed

lemma kahn_loop:
  assumes "distinct (map n_ID nodes)" "kahn nodes queue indeg order"
  shows "\<exists>f. kahn nodes [] f (topo_loop nodes queue indeg order)"
  using assms
proof (induction nodes queue indeg order rule: topo_loop.induct)
  case (2 nodes i queue indeg order)
  obtain f' q' where r: "release (dependents_map nodes i) (indeg, queue) = (f', q')" by fastforce
  show ?case using 2(1)[OF r[symmetric] 2(2) kahn_step[OF 2(2,3) r]] r by simp
qed auto

lemma kahn_start:
  assumes "distinct (map n_ID nodes)"
  shows "kahn nodes (filter (\<lambda>i. in_degrees nodes i = 0) (map n_ID nodes)) (in_degrees nodes) []"
proof -
  have "in_degrees nodes (n_ID n) = int (missing nodes [] (n_ID n))" if "n \<in> set nodes" for n
    using fill_map_distinct[OF assms that, of "\<lambda>n. int (length (n_DependsOn n))"] dag_adj_distinct[OF assms that, of n_DependsOn]
    by (simp add: in_degrees_def missing_def)
  then show ?thesis using assms by (auto simp: kahn_def)
qed

section \<open>The order of a validated DAG\<close>

lemma topoSort_valid:
  assumes v: "TaskDAG_Validate d = None"
  shows "\<exists>order. topoSort d = Inr order \<and> distinct order \<and> set order = n_ID ` set (dag_Nodes d) \<and> topo (node_deps (dag_Nodes d)) order"
proof -
  let ?nodes = "dag_Nodes d"
  have ids: "distinct (map n_ID ?nodes)" and ne: "?nodes \<noteq> []" using v by (simp_all add: TaskDAG_Validate_None)
  let ?order = "topo_loop ?nodes (filter (\<lambda>i. in_degrees ?nodes i = 0) (map n_ID ?nodes)) (in_degrees ?nodes) []"
  obtain f where k: "kahn ?nodes [] f ?order" using kahn_loop[OF ids kahn_start[OF ids]] by blast
  have "\<lparr>dag_Nodes = ?nodes\<rparr> = d" by (cases d) simp
  then have d: "TaskDAG_Validate \<lparr>dag_Nodes = ?nodes\<rparr> = None" by (metis v)
  have "n_ID ` set ?nodes \<subseteq> set ?order"
  proof (rule ccontr)
    assume "\<not> n_ID ` set ?nodes \<subseteq> set ?order"
    then obtain n where n: "n \<in> set ?nodes" "n_ID n \<notin> set ?order" "set (n_DependsOn n) \<subseteq> set ?order"
      using node_dag.ready_exists[OF d] by blast
    then have "missing ?nodes ?order (n_ID n) = 0"
      using dag_adj_distinct[OF ids n(1), of n_DependsOn] by (auto simp: missing_def filter_empty_conv)
    then show False using k n by (auto simp: kahn_def)
  qed
  then have s: "set ?order = n_ID ` set ?nodes" "distinct ?order" "topo (node_deps ?nodes) ?order" using k by (auto simp: kahn_def)
  then have "length ?order = length ?nodes" using distinct_card[of ?order] distinct_card[OF ids] by simp
  then show ?thesis using s ne by (simp add: topoSort_def Let_def)
qed

end
