(* ===== verification/Req_State.thy ===== *)
theory Req_State
  imports Req_Evidence
begin

text \<open>
  The state of a requirement execution of \<^verbatim>\<open>src/processor/requirement-executor\<close>
  (\<^verbatim>\<open>execution_state.go\<close>), what it sends, and its terminal operations.  The operations named
  \<^verbatim>\<open>...Locked\<close> run under the mutex of one execution and change only that execution, so they are
  functions on the record \<open>reqRun\<close>; it also holds the messages the execution has sent, in order, its
  armed timers, and whether its clean-up has removed it from the table of active executions.  Requests
  to the execution manager are the request records of \<open>Exec_Mutations\<close>, as that component decodes them:
  fields it does not know (\<^verbatim>\<open>retry_count\<close>, \<^verbatim>\<open>dirty_nodes\<close>) are not part of them.  \<open>REnv\<close> holds what
  the outside world answers during one operation.  Texts of prompts, lessons, parse incidents and graph
  entities are left out, and so are the fields only they read; a component that was started has a NATS
  client.  The node index of the code is the nodes of the DAG, with which it is always set.
\<close>

section \<open>Configuration\<close>

record RConfig =
  rg_ids :: Ids
  rg_SandboxURL :: bytes
  rg_Model :: bytes
  rg_TimeoutSeconds :: int
  rg_MaxRequirementRetries :: int
  rg_MaxReviewRetries :: int
  rg_DeferTerminalOnRecovery :: bool
  rg_RecoveryTimeoutSeconds :: int
  rg_MaxRecoveryRestarts :: int
  rg_RequireCommitObservation :: "bool option"

definition withDefaults :: "RConfig \<Rightarrow> RConfig" where
  "withDefaults g = g\<lparr>
     rg_TimeoutSeconds := (if rg_TimeoutSeconds g \<le> 0 then 3600 else rg_TimeoutSeconds g),
     rg_MaxRequirementRetries := (if rg_MaxRequirementRetries g < 0 then 2 else rg_MaxRequirementRetries g),
     rg_MaxReviewRetries := (if rg_MaxReviewRetries g = 0 then 3 else rg_MaxReviewRetries g),
     rg_RecoveryTimeoutSeconds := (if rg_RecoveryTimeoutSeconds g = 0 then 60 else rg_RecoveryTimeoutSeconds g),
     rg_MaxRecoveryRestarts := (if rg_MaxRecoveryRestarts g = 0 then 1 else rg_MaxRecoveryRestarts g)\<rparr>"

definition requireCommitObservation :: "RConfig \<Rightarrow> bool" where
  "requireCommitObservation g = (case rg_RequireCommitObservation g of None \<Rightarrow> True | Some b \<Rightarrow> b)"

text \<open>Seconds; \<open>caps\<close> are the per-call limits the model registry resolves for the recovery capabilities.\<close>

definition recoveryCapFloor :: "int list \<Rightarrow> int" where
  "recoveryCapFloor caps = (let maxCap = fold max caps 0 in if maxCap \<le> 0 then 0 else maxCap + 300)"

definition recoveryTimeout :: "RConfig \<Rightarrow> int list \<Rightarrow> int" where
  "recoveryTimeout g caps =
     (let base = (if rg_RecoveryTimeoutSeconds g \<le> 0 then 60 else rg_RecoveryTimeoutSeconds g)
      in if base < recoveryCapFloor caps then recoveryCapFloor caps else base)"

section \<open>State\<close>

record ReqRecovery =
  rk_Slug :: bytes
  rk_RequirementID :: bytes
  rk_AffectedStoryIDs :: "bytes list"
  rk_LoopID :: bytes
  rk_EscalationReason :: bytes
  rk_LastFailureFeedback :: bytes

record RequirementExecutionCompleteEvent =
  ce_Slug :: bytes
  ce_RequirementID :: bytes
  ce_Title :: bytes
  ce_Description :: bytes
  ce_ProjectID :: bytes
  ce_TraceID :: bytes
  ce_Outcome :: bytes
  ce_NodeCount :: nat
  ce_FilesModified :: "bytes list"
  ce_Summary :: bytes
  ce_ScenariosTotal :: nat
  ce_ScenariosPassed :: nat

datatype reffect = SendReqPhase ReqPhaseRequest | SendReqNode ReqNodeRequest
  | SendNodeResults ReqResetNodeResultsRequest | SendReqReset bytes | SendTaskCreate TaskCreateRequest
  | SendReviewTask bytes | ClaimStory bytes bytes StoryStatus | AddReviewWorktree bytes bytes | DropWorktree bytes
  | AddBranch bytes bytes | DropBranch bytes | SendPlanDecision bytes PlanDecision | SendRecovery ReqRecovery
  | SendComplete RequirementExecutionCompleteEvent

datatype timer_kind = ExecutionTimer | RecoveryTimer

record reqRun =
  ru_terminated :: bool
  ru_storeKey :: bytes
  ru_EntityID :: bytes
  ru_Slug :: bytes
  ru_RequirementID :: bytes
  ru_Title :: bytes
  ru_Description :: bytes
  ru_Scenarios :: "Scenario list"
  ru_ProjectID :: bytes
  ru_TraceID :: bytes
  ru_LoopID :: bytes
  ru_SortedStoryIDs :: "bytes list"
  ru_CurrentStoryIdx :: int
  ru_DAG :: "TaskDAG option"
  ru_SortedNodeIDs :: "bytes list"
  ru_CurrentNodeIdx :: int
  ru_CurrentNodeTaskID :: bytes
  ru_VisitedNodes :: "bytes list"
  ru_NodeResults :: "NodeResult list"
  ru_NodeTaskIDs :: "bytes list"
  ru_RequirementBranch :: bytes
  ru_BaseBranch :: bytes
  ru_ReviewerTaskID :: bytes
  ru_ReviewVerdict :: bytes
  ru_ReviewFeedback :: bytes
  ru_ReviewRetryCount :: int
  ru_RetryCount :: int
  ru_MaxRetries :: int
  ru_DirtyNodeIDs :: "bytes list"
  ru_LastReviewFeedback :: bytes
  ru_ScenarioVerdicts :: "ScenarioVerdict list"
  ru_timeoutTimer :: "nat option"
  ru_awaitingRecovery :: bool
  ru_recoveryTimer :: "nat option"
  ru_recoveryReason :: bytes
  ru_recoveryRestarts :: int
  ru_recoveryInfraRetries :: int
  ru_armed :: "(nat \<times> timer_kind) list"
  ru_nextTimer :: nat
  ru_forgotten :: bool
  ru_out :: "reffect list"

definition reqRun_zero :: reqRun where
  "reqRun_zero = \<lparr>ru_terminated = False, ru_storeKey = [], ru_EntityID = [], ru_Slug = [], ru_RequirementID = [], ru_Title = [],
     ru_Description = [], ru_Scenarios = [], ru_ProjectID = [], ru_TraceID = [], ru_LoopID = [], ru_SortedStoryIDs = [],
     ru_CurrentStoryIdx = 0, ru_DAG = None, ru_SortedNodeIDs = [], ru_CurrentNodeIdx = 0, ru_CurrentNodeTaskID = [],
     ru_VisitedNodes = [], ru_NodeResults = [], ru_NodeTaskIDs = [], ru_RequirementBranch = [], ru_BaseBranch = [],
     ru_ReviewerTaskID = [], ru_ReviewVerdict = [], ru_ReviewFeedback = [], ru_ReviewRetryCount = 0, ru_RetryCount = 0,
     ru_MaxRetries = 0, ru_DirtyNodeIDs = [], ru_LastReviewFeedback = [], ru_ScenarioVerdicts = [], ru_timeoutTimer = None,
     ru_awaitingRecovery = False, ru_recoveryTimer = None, ru_recoveryReason = [], ru_recoveryRestarts = 0,
     ru_recoveryInfraRetries = 0, ru_armed = [], ru_nextTimer = 0, ru_forgotten = False, ru_out = []\<rparr>"

datatype plan_load = PlanUnreadable bytes | PlanMissing | PlanLoaded Plan

datatype plan_site = AtSynthesis | AtAdvance | AtStoryGate | AtRequirementGate | AtRestructure | AtReopen | AtInvalidate | AtAccept

datatype row_load = RowError | RowMissing | RowLoaded RequirementExecution

datatype branch_outcome = BranchMade | BranchStale bytes | BranchFailed bytes

record REnv =
  ev_now :: nat
  ev_uuid :: bytes
  ev_plan :: "plan_site \<Rightarrow> plan_load"
  ev_claim :: "bytes \<Rightarrow> StoryStatus \<Rightarrow> bool"
  ev_owner :: "bytes \<Rightarrow> row_load"
  ev_files :: "plan_site \<Rightarrow> ls_outcome"
  ev_publish :: "bytes option"
  ev_taskCreate :: "bytes option"
  ev_addDecision :: bool
  ev_decisions :: "PlanDecision list option"
  ev_timeout :: bytes
  ev_block :: "Scenario list \<Rightarrow> bytes"
  ev_text :: "dag_error \<Rightarrow> bytes"
  ev_quote :: "bytes \<Rightarrow> bytes"
  ev_perm :: "bytes list \<Rightarrow> bytes list"
  ev_claimReq :: bool
  ev_branch :: "nat \<Rightarrow> branch_outcome"
  ev_row :: "bytes \<Rightarrow> row_load"

definition send :: "reffect \<Rightarrow> reqRun \<Rightarrow> reqRun" where
  "send e x = x\<lparr>ru_out := ru_out x @ [e]\<rparr>"

definition phase_req :: "bytes \<Rightarrow> bytes \<Rightarrow> ReqPhaseRequest" where
  "phase_req key stage = \<lparr>rp_Key = key, rp_Stage = stage, rp_NodeCount = None, rp_CurrentNodeIdx = None, rp_ReviewVerdict = [],
     rp_ReviewFeedback = [], rp_ErrorReason = [], rp_ErrorClass = [], rp_CurrentNodeTaskID = [], rp_ReviewerTaskID = [],
     rp_RequirementBranch = [], rp_DAGRaw = None, rp_SortedNodeIDs = [], rp_SortedStoryIDs = [], rp_CurrentStoryIdx = None,
     rp_NodeResults = [], rp_ScenarioVerdicts = []\<rparr>"

section \<open>Timers and clean-up\<close>

definition stop_armed :: "nat option \<Rightarrow> reqRun \<Rightarrow> reqRun" where
  "stop_armed h x = (case h of None \<Rightarrow> x | Some i \<Rightarrow> x\<lparr>ru_armed := filter (\<lambda>t. fst t \<noteq> i) (ru_armed x)\<rparr>)"

definition startExecutionTimeoutLocked :: "reqRun \<Rightarrow> reqRun" where
  "startExecutionTimeoutLocked x = x\<lparr>ru_armed := ru_armed x @ [(ru_nextTimer x, ExecutionTimer)],
     ru_timeoutTimer := Some (ru_nextTimer x), ru_nextTimer := ru_nextTimer x + 1\<rparr>"

definition arm_recovery :: "reqRun \<Rightarrow> reqRun" where
  "arm_recovery x = x\<lparr>ru_armed := ru_armed x @ [(ru_nextTimer x, RecoveryTimer)],
     ru_recoveryTimer := Some (ru_nextTimer x), ru_nextTimer := ru_nextTimer x + 1\<rparr>"

definition stop_recovery :: "reqRun \<Rightarrow> reqRun" where
  "stop_recovery x = (stop_armed (ru_recoveryTimer x) x)\<lparr>ru_recoveryTimer := None\<rparr>"

definition cleanupExecutionLocked :: "RConfig \<Rightarrow> bool \<Rightarrow> reqRun \<Rightarrow> reqRun" where
  "cleanupExecutionLocked g success x =
     (let x1 = stop_recovery (stop_armed (ru_timeoutTimer x) x);
          worktrees = (if rg_SandboxURL g = [] then []
                       else (if success then ru_NodeTaskIDs x else [])
                         @ (if ru_ReviewerTaskID x \<noteq> [] then [ru_ReviewerTaskID x] else []))
      in x1\<lparr>ru_out := ru_out x1 @ map DropWorktree worktrees, ru_forgotten := True\<rparr>)"

section \<open>Terminal states\<close>

definition node_count :: "reqRun \<Rightarrow> nat" where
  "node_count x = (if ru_NodeResults x = [] then length (ru_VisitedNodes x) else length (ru_NodeResults x))"

definition publishRequirementCompleteEvent :: "bytes \<Rightarrow> reqRun \<Rightarrow> reqRun" where
  "publishRequirementCompleteEvent outcome x = send (SendComplete \<lparr>ce_Slug = ru_Slug x, ce_RequirementID = ru_RequirementID x,
     ce_Title = ru_Title x, ce_Description = ru_Description x, ce_ProjectID = ru_ProjectID x, ce_TraceID = ru_TraceID x,
     ce_Outcome = outcome, ce_NodeCount = node_count x, ce_FilesModified = aggregateFiles (ru_NodeResults x),
     ce_Summary = aggregateNodeSummaries (ru_NodeResults x), ce_ScenariosTotal = length (ru_Scenarios x),
     ce_ScenariosPassed = (if outcome \<noteq> ''completed'' then 0 else countPassedScenarios (ru_Scenarios x) (ru_ScenarioVerdicts x))\<rparr>) x"

definition markCompletedLocked :: "RConfig \<Rightarrow> reqRun \<Rightarrow> reqRun" where
  "markCompletedLocked g x =
     (if ru_terminated x then x
      else let x1 = send (SendReqPhase ((phase_req (ru_storeKey x) ''completed'')\<lparr>rp_NodeCount := Some (int (node_count x)),
                rp_ReviewVerdict := ru_ReviewVerdict x, rp_ReviewFeedback := ru_ReviewFeedback x,
                rp_NodeResults := ru_NodeResults x, rp_ScenarioVerdicts := ru_ScenarioVerdicts x\<rparr>)) (x\<lparr>ru_terminated := True\<rparr>)
        in cleanupExecutionLocked g True (publishRequirementCompleteEvent ''completed'' x1))"

definition current_story :: "reqRun \<Rightarrow> bytes option" where
  "current_story x = (if 0 \<le> ru_CurrentStoryIdx x \<and> ru_CurrentStoryIdx x < int (length (ru_SortedStoryIDs x))
     then Some (ru_SortedStoryIDs x ! nat (ru_CurrentStoryIdx x)) else None)"

definition markFailedLocked :: "RConfig \<Rightarrow> bytes \<Rightarrow> reqRun \<Rightarrow> reqRun" where
  "markFailedLocked g reason x =
     (if ru_terminated x then x
      else let x1 = send (SendReqPhase ((phase_req (ru_storeKey x) ''failed'')\<lparr>rp_ErrorReason := reason\<rparr>)) (x\<lparr>ru_terminated := True\<rparr>);
               x2 = (case current_story x1 of None \<Rightarrow> x1 | Some s \<Rightarrow> send (ClaimStory (ru_Slug x) s StoryStatusFailed) x1)
        in cleanupExecutionLocked g False (publishRequirementCompleteEvent ''failed'' x2))"

definition markErrorLocked :: "RConfig \<Rightarrow> bytes \<Rightarrow> reqRun \<Rightarrow> reqRun" where
  "markErrorLocked g reason x =
     (if ru_terminated x then x
      else let x1 = send (SendReqPhase ((phase_req (ru_storeKey x) ''error'')\<lparr>rp_ErrorReason := reason,
                rp_ErrorClass := ClassifyErrorReason reason\<rparr>)) (x\<lparr>ru_terminated := True\<rparr>)
        in cleanupExecutionLocked g False (publishRequirementCompleteEvent ''error'' x1))"

section \<open>Recovery\<close>

definition shortID :: "bytes \<Rightarrow> bytes" where
  "shortID i = (if 16 < length i then drop (length i - 16) i else i)"

definition exhaustion_decision :: "RConfig \<Rightarrow> REnv \<Rightarrow> bytes \<Rightarrow> bytes \<Rightarrow> reqRun \<Rightarrow> PlanDecision" where
  "exhaustion_decision g ev verdict feedback x = PlanDecision_zero\<lparr>
     d_ID := ''plan-decision.'' @ ru_Slug x @ ''.exhaust.'' @ shortID (ru_RequirementID x) @ ''.'' @ show_nat (ev_now ev),
     d_PlanID := PlanEntityID (rg_ids g) (ru_Slug x), d_Kind := PlanDecisionKindExecutionExhausted,
     d_Title := ''Requirement '' @ ru_RequirementID x @ '' exhausted retries'',
     d_Rationale := ''retries='' @ show_int (ru_RetryCount x) @ ''/'' @ show_int (ru_MaxRetries x) @ '' last_verdict=''
       @ ev_quote ev verdict @ '' last_feedback='' @ feedback,
     d_Status := PlanDecisionStatusProposed, d_ProposedBy := ''requirement-executor'',
     d_AffectedReqIDs := [ru_RequirementID x],
     d_ArtifactReferences := (if ru_LoopID x \<noteq> []
        then [\<lparr>ar_Path = ''/trajectories/'' @ ru_LoopID x, ar_Type = ''trajectory'',
               ar_Purpose = ''Final loop on requirement '' @ ru_RequirementID x\<rparr>] else []),
     d_CreatedAt := ev_now ev\<rparr>"

definition emitExhaustionDecision :: "RConfig \<Rightarrow> REnv \<Rightarrow> bytes \<Rightarrow> bytes \<Rightarrow> reqRun \<Rightarrow> reqRun" where
  "emitExhaustionDecision g ev verdict feedback x =
     (if \<not> ev_addDecision ev then x
      else let x1 = send (SendPlanDecision (ru_Slug x) (exhaustion_decision g ev verdict feedback x)) x in
        if ru_Slug x = [] then x1
        else send (SendRecovery \<lparr>rk_Slug = ru_Slug x, rk_RequirementID = ru_RequirementID x,
            rk_AffectedStoryIDs = ru_SortedStoryIDs x, rk_LoopID = ru_LoopID x,
            rk_EscalationReason = ''requirement retries exhausted ('' @ show_int (ru_RetryCount x) @ ''/''
              @ show_int (ru_MaxRetries x) @ ''); last verdict='' @ ev_quote ev verdict,
            rk_LastFailureFeedback = feedback\<rparr>) x1)"

text \<open>\<open>None\<close> when the execution cannot wait for recovery.\<close>

definition deferToAwaitingRecoveryLocked :: "RConfig \<Rightarrow> bytes \<Rightarrow> reqRun \<Rightarrow> reqRun option" where
  "deferToAwaitingRecoveryLocked g reason x =
     (if \<not> rg_DeferTerminalOnRecovery g \<or> ru_terminated x \<or> rg_MaxRecoveryRestarts g \<le> ru_recoveryRestarts x then None
      else let x1 = stop_recovery x in
        Some (arm_recovery (send (SendReqPhase (phase_req (ru_storeKey x) ''awaiting-recovery''))
          (x1\<lparr>ru_awaitingRecovery := True, ru_recoveryReason := reason\<rparr>))))"

definition defer_or_fail :: "RConfig \<Rightarrow> bytes \<Rightarrow> reqRun \<Rightarrow> reqRun" where
  "defer_or_fail g reason x =
     (case deferToAwaitingRecoveryLocked g reason x of Some y \<Rightarrow> y | None \<Rightarrow> markFailedLocked g reason x)"

section \<open>Rows\<close>

text \<open>A row of EXECUTION_STATES as an execution.\<close>

definition rebuildExecFromKV :: "RConfig \<Rightarrow> bytes \<Rightarrow> RequirementExecution \<Rightarrow> reqRun" where
  "rebuildExecFromKV g key e = reqRun_zero\<lparr>ru_EntityID := re_EntityID e, ru_Slug := re_Slug e, ru_RequirementID := re_RequirementID e,
     ru_Title := re_Title e, ru_Description := re_Description e, ru_TraceID := re_TraceID e, ru_LoopID := re_LoopID e,
     ru_ProjectID := re_ProjectID e, ru_Scenarios := re_Scenarios e, ru_CurrentNodeTaskID := re_CurrentNodeTaskID e,
     ru_ReviewerTaskID := re_ReviewerTaskID e, ru_RequirementBranch := re_RequirementBranch e, ru_BaseBranch := re_BaseBranch e,
     ru_CurrentNodeIdx := re_CurrentNodeIdx e, ru_SortedNodeIDs := re_SortedNodeIDs e, ru_SortedStoryIDs := re_SortedStoryIDs e,
     ru_CurrentStoryIdx := re_CurrentStoryIdx e, ru_ScenarioVerdicts := re_ScenarioVerdicts e, ru_RetryCount := re_RetryCount e,
     ru_MaxRetries := (if re_MaxRetries e = 0 then rg_MaxRequirementRetries g else re_MaxRetries e), ru_storeKey := key,
     ru_DAG := re_DAGRaw e,
     ru_VisitedNodes := remdups (map nr_NodeID (filter (\<lambda>nr. re_SortedNodeIDs e = [] \<or> nr_NodeID nr \<in> set (re_SortedNodeIDs e)) (re_NodeResults e))),
     ru_NodeResults := re_NodeResults e\<rparr>"

end
