(* ===== verification/Req_Executor.thy ===== *)
theory Req_Executor
  imports Req_State
begin

text \<open>
  The execution of a requirement, story by story and node by node
  (\<^verbatim>\<open>src/processor/requirement-executor/component.go\<close>, \<^verbatim>\<open>deliverable_gate.go\<close>): the nodes of the
  current story are dispatched one after the other to the execution manager, the requirement reviewer
  judges the story, an approved story leads to the next one or to completion, a rejected one to a retry
  of the story, a fresh start, or recovery.  A gate returns \<open>Some\<close> when it has dealt with the
  execution.  \<^verbatim>\<open>checkRequirementBranch\<close> always succeeds and is left out.
\<close>

section \<open>Dispatch of nodes and of the reviewer\<close>

definition dispatchRequirementReviewerLocked :: "RConfig \<Rightarrow> REnv \<Rightarrow> reqRun \<Rightarrow> reqRun" where
  "dispatchRequirementReviewerLocked g ev x =
     (let taskID = ''requirement-rev-'' @ ru_EntityID x @ ''-'' @ ev_uuid ev;
          x1 = x\<lparr>ru_ReviewerTaskID := taskID\<rparr>;
          x2 = (if rg_SandboxURL g \<noteq> [] \<and> ru_RequirementBranch x \<noteq> [] then send (AddReviewWorktree taskID (ru_RequirementBranch x)) x1 else x1);
          x3 = send (SendReqPhase ((phase_req (ru_storeKey x) ''reviewing'')\<lparr>rp_ReviewerTaskID := taskID\<rparr>)) x2
      in case ev_publish ev of
           Some e \<Rightarrow> markErrorLocked g (''dispatch requirement reviewer: '' @ e) x3
         | None \<Rightarrow> send (SendReviewTask taskID) x3)"

definition isNodeDirty :: "reqRun \<Rightarrow> bytes \<Rightarrow> bool" where
  "isNodeDirty x nodeID \<longleftrightarrow> ru_RetryCount x = 0 \<or> ru_DirtyNodeIDs x = [] \<or> nodeID \<in> set (ru_DirtyNodeIDs x)"

fun next_node :: "reqRun \<Rightarrow> bytes list \<Rightarrow> int \<Rightarrow> int" where
  "next_node x [] i = i"
| "next_node x (n # ns) i = (if isNodeDirty x n then i else next_node x ns (i + 1))"

definition node_prompt :: "reqRun \<Rightarrow> TaskNode \<Rightarrow> bytes" where
  "node_prompt x node = n_Prompt node @
     (if ru_RetryCount x > 0 \<and> ru_LastReviewFeedback x \<noteq> []
      then nl @ nl @ ''---'' @ nl @ nl @ ''REVISION REQUEST: The requirement reviewer rejected the previous attempt.'' @ nl @ nl
        @ ru_LastReviewFeedback x @ nl @ nl
        @ ''Your workspace contains files from the previous attempt. Review what exists before making changes.''
      else [])"

definition task_request :: "bytes \<Rightarrow> TaskNode \<Rightarrow> reqRun \<Rightarrow> TaskCreateRequest" where
  "task_request taskID node x = \<lparr>tc_Slug = ru_Slug x, tc_TaskID = taskID, tc_RequirementID = ru_RequirementID x,
     tc_Title = n_Prompt node, tc_Description = [], tc_ProjectID = ru_ProjectID x, tc_Prompt = node_prompt x node, tc_Model = [],
     tc_TraceID = ru_TraceID x, tc_LoopID = ru_LoopID x, tc_RequestID = ''node-'' @ ru_RequirementID x @ ''-'' @ n_ID node,
     tc_TaskType = [], tc_MaxTDDCycles = 0, tc_AgentID = [], tc_WorktreePath = [], tc_WorktreeBranch = [],
     tc_ScenarioBranch = ru_RequirementBranch x, tc_FileScope = n_FileScope node,
     tc_Scenarios = filterScenariosByIDs (ru_Scenarios x) (n_ScenarioIDs node)\<rparr>"

definition node_index :: "reqRun \<Rightarrow> bytes \<Rightarrow> TaskNode option" where
  "node_index x nodeID = (case ru_DAG x of None \<Rightarrow> None | Some d \<Rightarrow> fill_map n_ID (\<lambda>n. n) (dag_Nodes d) nodeID)"

definition dispatchNextNodeLocked :: "RConfig \<Rightarrow> REnv \<Rightarrow> reqRun \<Rightarrow> reqRun" where
  "dispatchNextNodeLocked g ev x =
     (let i = next_node x (drop (nat (ru_CurrentNodeIdx x + 1)) (ru_SortedNodeIDs x)) (ru_CurrentNodeIdx x + 1);
          x1 = x\<lparr>ru_CurrentNodeIdx := i\<rparr>
      in if int (length (ru_SortedNodeIDs x)) \<le> i then dispatchRequirementReviewerLocked g ev x1
         else let nodeID = ru_SortedNodeIDs x ! nat i in
           case node_index x nodeID of
             None \<Rightarrow> markErrorLocked g (''node '' @ ev_quote ev nodeID @ '' not found in index'') x1
           | Some node \<Rightarrow>
               let taskID = ''node-'' @ HashInstanceID (rg_ids g) [ru_EntityID x, nodeID] @ ''-'' @ ev_uuid ev;
                   x2 = x1\<lparr>ru_CurrentNodeTaskID := taskID, ru_NodeTaskIDs := ru_NodeTaskIDs x @ [taskID]\<rparr>;
                   x3 = send (SendReqNode \<lparr>rq_Key = ru_storeKey x, rq_CurrentNodeIdx = Some i, rq_NodeResult = None,
                                rq_CurrentNodeTaskID = taskID\<rparr>) x2
               in case ev_taskCreate ev of
                    Some e \<Rightarrow> markErrorLocked g (''dispatch node '' @ ev_quote ev nodeID @ '' failed: '' @ e) x3
                  | None \<Rightarrow> send (SendTaskCreate (task_request taskID node x)) x3)"

definition topo_text :: "topo_error \<Rightarrow> bytes" where
  "topo_text e = (case e of TopoEmpty \<Rightarrow> ''empty DAG''
     | TopoCycle a b \<Rightarrow> ''cycle detected: sorted '' @ show_nat a @ '' of '' @ show_nat b @ '' nodes'')"

definition applyParsedDAGLocked :: "RConfig \<Rightarrow> REnv \<Rightarrow> TaskDAG \<Rightarrow> reqRun \<Rightarrow> reqRun" where
  "applyParsedDAGLocked g ev dag x =
     (case topoSort dag of
        Inl e \<Rightarrow> markFailedLocked g (''topological sort failed: '' @ topo_text e) x
      | Inr order \<Rightarrow>
          let x1 = x\<lparr>ru_DAG := Some dag, ru_SortedNodeIDs := order\<rparr>;
              req = (phase_req (ru_storeKey x) ''executing'')\<lparr>rp_NodeCount := Some (int (length order)), rp_DAGRaw := Some dag,
                rp_SortedNodeIDs := order\<rparr>;
              req1 = (if ru_SortedStoryIDs x \<noteq> []
                      then req\<lparr>rp_SortedStoryIDs := ru_SortedStoryIDs x, rp_CurrentStoryIdx := Some (ru_CurrentStoryIdx x)\<rparr> else req)
          in dispatchNextNodeLocked g ev (send (SendReqPhase req1) x1))"

section \<open>Files a requirement promised\<close>

definition handleRequirementDeliverableGapForPlanLocked :: "RConfig \<Rightarrow> REnv \<Rightarrow> Plan \<Rightarrow> reqRun \<Rightarrow> reqRun option" where
  "handleRequirementDeliverableGapForPlanLocked g ev plan x =
     (if rg_SandboxURL g = [] \<or> ru_SortedStoryIDs x = [] \<or> ru_ReviewerTaskID x = [] then None
      else let expected = requirementScopeCreateObligations plan (ru_SortedStoryIDs x) in
        if expected = [] then None
        else case deliveredFilesForReviewerWorktree (ev_quote ev) (ru_ReviewerTaskID x) (ev_files ev AtRequirementGate) of
          Inl e \<Rightarrow> Some (markFailedLocked g (''requirement deliverable closure gate could not inspect requirement branch: '' @ e) x)
        | Inr delivered \<Rightarrow>
            let missing = missingDeliverableFiles expected delivered in
            if missing = [] then None
            else let feedback = ''Requirement '' @ ru_RequirementID x @ '' cannot complete because '' @ show_nat (length missing)
                   @ '' accepted scope.create file(s) assigned to its Stories are still missing from the requirement branch: ''
                   @ Join '', '' missing @ ''.''
              in Some (defer_or_fail g (''requirement deliverable closure gate failed: '' @ feedback)
                   (emitExhaustionDecision g ev ''scope_incomplete'' feedback x)))"

definition handleRequirementDeliverableGapLocked :: "RConfig \<Rightarrow> REnv \<Rightarrow> reqRun \<Rightarrow> reqRun option" where
  "handleRequirementDeliverableGapLocked g ev x =
     (if rg_SandboxURL g = [] \<or> ru_SortedStoryIDs x = [] \<or> ru_ReviewerTaskID x = [] then None
      else case ev_plan ev AtRequirementGate of
        PlanUnreadable e \<Rightarrow> Some (markFailedLocked g (''requirement deliverable closure gate could not load plan: '' @ e) x)
      | PlanMissing \<Rightarrow> Some (markFailedLocked g ''requirement deliverable closure gate could not load plan from PLAN_STATES'' x)
      | PlanLoaded plan \<Rightarrow> handleRequirementDeliverableGapForPlanLocked g ev plan x)"

section \<open>Stories\<close>

definition resetPerStoryExecutionState :: "reqRun \<Rightarrow> reqRun" where
  "resetPerStoryExecutionState x = x\<lparr>ru_DAG := None, ru_SortedNodeIDs := [], ru_CurrentNodeIdx := - 1, ru_CurrentNodeTaskID := [],
     ru_VisitedNodes := [], ru_ReviewVerdict := [], ru_ReviewFeedback := [], ru_ReviewRetryCount := 0, ru_RetryCount := 0,
     ru_DirtyNodeIDs := []\<rparr>"

definition loadCompletedReqExecFromKV :: "RConfig \<Rightarrow> bytes \<Rightarrow> row_load \<Rightarrow> reqRun option" where
  "loadCompletedReqExecFromKV g key row =
     (case row of RowLoaded e \<Rightarrow> if re_Stage e = ''completed'' then Some (rebuildExecFromKV g key e) else None | _ \<Rightarrow> None)"

definition applyCompletedStoryEvidenceLocked :: "RConfig \<Rightarrow> REnv \<Rightarrow> Story \<Rightarrow> reqRun \<Rightarrow> bool \<times> reqRun" where
  "applyCompletedStoryEvidenceLocked g ev story x =
     (let ownerID = DeterministicStoryOwner story in
      if ownerID = [] then (False, x)
      else if ownerID = ru_RequirementID x then (executionHasStoryEvidence (ru_NodeResults x) story, x)
      else case loadCompletedReqExecFromKV g (RequirementExecutionKey (ru_Slug x) ownerID) (ev_owner ev (s_ID story)) of
        None \<Rightarrow> (False, x)
      | Some owner \<Rightarrow>
          if validateBorrowedStoryEvidence (ru_Scenarios x) story (ru_NodeResults owner) (ru_ScenarioVerdicts owner) \<noteq> None then (False, x)
          else let copied = copyStoryEvidence (ru_NodeResults x) story (ru_NodeResults owner);
                   x1 = x\<lparr>ru_NodeResults := ru_NodeResults x @ copied,
                     ru_VisitedNodes := fold List.insert (map nr_NodeID copied) (ru_VisitedNodes x)\<rparr>
            in if copied = [] \<and> \<not> executionHasStoryEvidence (ru_NodeResults x) story then (False, x1)
               else (True, x1\<lparr>ru_ScenarioVerdicts := copyScenarioVerdictEvidence
                  (requiredScenariosForBorrowedStory (ru_Scenarios x) (s_ID story)) (ru_ScenarioVerdicts x) (ru_ScenarioVerdicts owner)\<rparr>))"

text \<open>\<open>dispatch_stories\<close> is \<^verbatim>\<open>dispatchCurrentStoryLocked\<close> and \<^verbatim>\<open>advancePastSkippedStoryLocked\<close>, which call each other,
  on the stories from the current one on.\<close>

fun dispatch_stories :: "RConfig \<Rightarrow> REnv \<Rightarrow> Plan \<Rightarrow> bytes list \<Rightarrow> reqRun \<Rightarrow> reqRun" where
  "dispatch_stories g ev plan [] x = x"
| "dispatch_stories g ev plan (storyID # rest) x =
     (case findStoryByID plan storyID of
        None \<Rightarrow> markFailedLocked g (''story '' @ ev_quote ev storyID
          @ '' not found on plan (planning regression '' @ dash @ '' Sarah output drifted from SortedStoryIDs)'') x
      | Some story \<Rightarrow>
          let skip = (\<lambda>reason y. case applyCompletedStoryEvidenceLocked g ev story y of
                (False, y1) \<Rightarrow> markFailedLocked g reason y1
              | (True, y1) \<Rightarrow>
                  if rest \<noteq> []
                  then dispatch_stories g ev plan rest (resetPerStoryExecutionState (y1\<lparr>ru_CurrentStoryIdx := ru_CurrentStoryIdx y1 + 1\<rparr>))
                  else case handleRequirementDeliverableGapForPlanLocked g ev plan y1 of Some z \<Rightarrow> z | None \<Rightarrow> markCompletedLocked g y1)
          in if s_Status story = StoryStatusComplete
             then skip (''completed Story '' @ storyID @ '' has no completed owner execution evidence for requirement '' @ ru_RequirementID x) x
             else let x1 = send (ClaimStory (p_Slug plan) storyID StoryStatusExecuting) x in
               if \<not> ev_claim ev storyID StoryStatusExecuting
               then skip (''Story '' @ storyID @ '' reservation was unavailable and no completed owner execution evidence exists for requirement ''
                      @ ru_RequirementID x) x1
               else case synthesizeTaskDAGForStory (ev_block ev) (Some plan) story of
                 Inl e \<Rightarrow> markFailedLocked g (''synthesize DAG for story '' @ storyID @ '' failed: '' @ ev_text ev e) x1
               | Inr dag \<Rightarrow> applyParsedDAGLocked g ev dag x1)"

definition dispatchCurrentStoryLocked :: "RConfig \<Rightarrow> REnv \<Rightarrow> Plan \<Rightarrow> reqRun \<Rightarrow> reqRun" where
  "dispatchCurrentStoryLocked g ev plan x =
     (if ru_CurrentStoryIdx x < 0 \<or> int (length (ru_SortedStoryIDs x)) \<le> ru_CurrentStoryIdx x
      then markFailedLocked g (''CurrentStoryIdx '' @ show_int (ru_CurrentStoryIdx x) @ '' out of range [0, ''
             @ show_nat (length (ru_SortedStoryIDs x)) @ '')'') x
      else dispatch_stories g ev plan (drop (nat (ru_CurrentStoryIdx x)) (ru_SortedStoryIDs x)) x)"

definition dispatchSynthesizerLocked :: "RConfig \<Rightarrow> REnv \<Rightarrow> reqRun \<Rightarrow> reqRun" where
  "dispatchSynthesizerLocked g ev x =
     (case ev_plan ev AtSynthesis of
        PlanUnreadable e \<Rightarrow> markFailedLocked g (''load plan from KV failed: '' @ e) x
      | PlanMissing \<Rightarrow> markFailedLocked g (''plan not found in PLAN_STATES '' @ dash @ '' cannot synthesize DAG without Stories'') x
      | PlanLoaded plan \<Rightarrow>
          if ru_SortedStoryIDs x \<noteq> [] then dispatchCurrentStoryLocked g ev plan x
          else let stories = StoriesForRequirement plan (ru_RequirementID x) in
            if stories = [] then markFailedLocked g (''no Stories on plan for requirement '' @ ru_RequirementID x @ '' '' @ dash
                @ '' story-preparer must run before execution'') x
            else case topoSortStoryIDs stories of
              Inl e \<Rightarrow> markFailedLocked g (''topo-sort stories failed: '' @ ev_text ev e) x
            | Inr ids \<Rightarrow> dispatchCurrentStoryLocked g ev plan (x\<lparr>ru_SortedStoryIDs := ids, ru_CurrentStoryIdx := 0\<rparr>))"

definition advanceToNextStoryLocked :: "RConfig \<Rightarrow> REnv \<Rightarrow> reqRun \<Rightarrow> reqRun" where
  "advanceToNextStoryLocked g ev x =
     (let x1 = resetPerStoryExecutionState (x\<lparr>ru_CurrentStoryIdx := ru_CurrentStoryIdx x + 1\<rparr>) in
      case ev_plan ev AtAdvance of
        PlanUnreadable e \<Rightarrow> markFailedLocked g (''load plan from KV failed mid-requirement: '' @ e) x1
      | PlanMissing \<Rightarrow> markFailedLocked g ''plan disappeared from PLAN_STATES mid-requirement'' x1
      | PlanLoaded plan \<Rightarrow> dispatchCurrentStoryLocked g ev plan x1)"

section \<open>Retries\<close>

definition startFixableRetryLocked :: "RConfig \<Rightarrow> REnv \<Rightarrow> bytes \<Rightarrow> reqRun \<Rightarrow> reqRun" where
  "startFixableRetryLocked g ev feedback x =
     (let kept = nodeResultsOutsideCurrentStory (ru_NodeResults x) (ru_SortedNodeIDs x);
          x1 = x\<lparr>ru_RetryCount := ru_RetryCount x + 1, ru_LastReviewFeedback := feedback, ru_ReviewRetryCount := 0,
                 ru_terminated := False, ru_DirtyNodeIDs := [], ru_VisitedNodes := [], ru_NodeResults := kept, ru_CurrentNodeIdx := - 1\<rparr>;
          x2 = send (SendNodeResults \<lparr>rs_Key = ru_storeKey x, rs_NodeResults = kept\<rparr>) x1
      in dispatchNextNodeLocked g ev (send (SendReqPhase (phase_req (ru_storeKey x) ''executing'')) x2))"

fun walk_story :: "REnv \<Rightarrow> bytes \<Rightarrow> bytes \<Rightarrow> StoryStatus list \<Rightarrow> reqRun \<Rightarrow> bool \<times> reqRun" where
  "walk_story ev slug storyID [] x = (True, x)"
| "walk_story ev slug storyID (t # ts) x =
     (let x1 = send (ClaimStory slug storyID t) x in
      if ev_claim ev storyID t then walk_story ev slug storyID ts x1 else (False, x1))"

text \<open>How many of the stories reached ready.\<close>

fun reopenStoriesFromPlan :: "REnv \<Rightarrow> bytes \<Rightarrow> Plan \<Rightarrow> bytes list \<Rightarrow> reqRun \<Rightarrow> nat \<times> reqRun" where
  "reopenStoriesFromPlan ev slug plan [] x = (0, x)"
| "reopenStoriesFromPlan ev slug plan (storyID # ids) x =
     (case findStoryByID plan storyID of
        None \<Rightarrow> reopenStoriesFromPlan ev slug plan ids x
      | Some story \<Rightarrow>
          (case walk_story ev slug storyID (storyStatusWalkToReady (s_Status story)) x of
             (ok, x1) \<Rightarrow> (case reopenStoriesFromPlan ev slug plan ids x1 of (n, x2) \<Rightarrow> ((if ok then 1 else 0) + n, x2))))"

text \<open>Whether the current story is ready again.\<close>

definition resetCurrentStoryForRestructureLocked :: "REnv \<Rightarrow> reqRun \<Rightarrow> bool \<times> reqRun" where
  "resetCurrentStoryForRestructureLocked ev x =
     (case current_story x of
        None \<Rightarrow> (True, x)
      | Some storyID \<Rightarrow>
          if storyID = [] then (True, x)
          else case ev_plan ev AtRestructure of
            PlanLoaded plan \<Rightarrow>
              (case findStoryByID plan storyID of
                 None \<Rightarrow> (False, x)
               | Some story \<Rightarrow>
                   if s_Status story \<noteq> StoryStatusOther [] \<and> \<not> StoryStatus_IsValid (s_Status story) then (False, x)
                   else if DeterministicStoryOwner story \<noteq> [] \<and> DeterministicStoryOwner story \<noteq> ru_RequirementID x then (False, x)
                   else case reopenStoriesFromPlan ev (ru_Slug x) plan [storyID] x of (n, x1) \<Rightarrow> (n = 1, x1))
          | _ \<Rightarrow> (False, x))"

definition recreate_branch :: "RConfig \<Rightarrow> reqRun \<Rightarrow> reqRun" where
  "recreate_branch g x =
     (if rg_SandboxURL g \<noteq> [] \<and> ru_RequirementBranch x \<noteq> []
      then send (AddBranch (ru_RequirementBranch x) (selectReqBranchBase [] (ru_BaseBranch x))) (send (DropBranch (ru_RequirementBranch x)) x)
      else x)"

definition reset_dag :: "reqRun \<Rightarrow> reqRun" where
  "reset_dag x = x\<lparr>ru_DAG := None, ru_SortedNodeIDs := [], ru_CurrentNodeIdx := - 1, ru_CurrentNodeTaskID := [], ru_VisitedNodes := [],
     ru_NodeResults := []\<rparr>"

definition reset_review :: "reqRun \<Rightarrow> reqRun" where
  "reset_review x = x\<lparr>ru_DirtyNodeIDs := [], ru_ReviewVerdict := [], ru_ReviewFeedback := [], ru_ReviewRetryCount := 0,
     ru_ScenarioVerdicts := []\<rparr>"

definition startRestructureRetryLocked :: "RConfig \<Rightarrow> REnv \<Rightarrow> bytes \<Rightarrow> reqRun \<Rightarrow> reqRun" where
  "startRestructureRetryLocked g ev feedback x =
     (let x1 = x\<lparr>ru_RetryCount := ru_RetryCount x + 1, ru_LastReviewFeedback := feedback, ru_terminated := False\<rparr> in
      case resetCurrentStoryForRestructureLocked ev x1 of
        (False, x2) \<Rightarrow> markFailedLocked g ''restructure retry could not reset Story reservation (0/1 stories ready)'' x2
      | (True, x2) \<Rightarrow>
          let x3 = reset_dag (recreate_branch g x2);
              x4 = reset_review (send (SendNodeResults \<lparr>rs_Key = ru_storeKey x, rs_NodeResults = []\<rparr>) x3)
          in dispatchSynthesizerLocked g ev (send (SendReqPhase (phase_req (ru_storeKey x) ''decomposing'')) x4))"

section \<open>The review of a story\<close>

datatype review_raw = ReviewEmpty | ReviewUnreadable bytes | ReviewRead requirementReviewResult

definition parseRequirementReviewResultLocked :: "REnv \<Rightarrow> review_raw \<Rightarrow> bytes + requirementReviewResult" where
  "parseRequirementReviewResultLocked ev raw =
     (case raw of
        ReviewEmpty \<Rightarrow> Inl ''empty review result''
      | ReviewUnreadable e \<Rightarrow> Inl (''parse review JSON: '' @ e)
      | ReviewRead result \<Rightarrow>
          if ValidateVerdict (ev_quote ev) (rw_Verdict result) \<noteq> None then Inl (''invalid verdict: '' @ rw_Verdict result)
          else if rw_Verdict result = ''approved'' then Inr result
          else let r = (if rw_RejectionType result = [] then result\<lparr>rw_RejectionType := ''fixable''\<rparr> else result) in
            if rw_RejectionType r = ''fixable'' \<or> rw_RejectionType r = ''restructure'' then Inr r
            else Inl (''invalid rejection_type: '' @ rw_RejectionType r))"

definition review_budget :: "RConfig \<Rightarrow> int" where
  "review_budget g = (if rg_MaxReviewRetries g = 0 then 3 else rg_MaxReviewRetries g)"

definition handleInvalidRequirementReviewResultLocked :: "RConfig \<Rightarrow> REnv \<Rightarrow> bytes \<Rightarrow> reqRun \<Rightarrow> reqRun" where
  "handleInvalidRequirementReviewResultLocked g ev reason x =
     (if ru_ReviewRetryCount x < review_budget g
      then dispatchRequirementReviewerLocked g ev (x\<lparr>ru_ReviewRetryCount := ru_ReviewRetryCount x + 1\<rparr>)
      else markFailedLocked g (''requirement reviewer returned invalid result after max retries: '' @ reason) x)"

definition handleApprovedClaimMismatchLocked :: "RConfig \<Rightarrow> reqRun \<Rightarrow> reqRun option" where
  "handleApprovedClaimMismatchLocked g x =
     (if \<not> requireCommitObservation g \<or> unobserved (ru_NodeResults x) = [] then None
      else Some (markFailedLocked g (''requirement claim/observation mismatch: nodes ['' @ Join '' '' (unobserved (ru_NodeResults x))
             @ ''] claimed files_modified but produced no commit observation'') x))"

definition can_retry :: "reqRun \<Rightarrow> bool" where
  "can_retry x \<longleftrightarrow> ru_RetryCount x < ru_MaxRetries x \<and> ru_MaxRetries x > 0"

definition handleApprovedDeliverableGapForPlanLocked :: "RConfig \<Rightarrow> REnv \<Rightarrow> Plan \<Rightarrow> reqRun \<Rightarrow> reqRun option" where
  "handleApprovedDeliverableGapForPlanLocked g ev plan x =
     (if rg_SandboxURL g = [] \<or> ru_SortedStoryIDs x = [] then None
      else case current_story x of
        None \<Rightarrow> Some (markFailedLocked g (''deliverable closure gate could not resolve CurrentStoryIdx '' @ show_int (ru_CurrentStoryIdx x)
                  @ '' in '' @ show_nat (length (ru_SortedStoryIDs x)) @ '' stories'') x)
      | Some storyID \<Rightarrow>
          (case findStoryByID plan storyID of
             None \<Rightarrow> Some (markFailedLocked g (''deliverable closure gate could not find Story '' @ storyID @ '' on plan'') x)
           | Some story \<Rightarrow>
               let expected = storyScopeCreateObligations plan story in
               if expected = [] then None
               else case deliveredFilesForReviewerWorktree (ev_quote ev) (ru_ReviewerTaskID x) (ev_files ev AtStoryGate) of
                 Inl e \<Rightarrow> Some (markFailedLocked g (''deliverable closure gate could not inspect requirement branch: '' @ e) x)
               | Inr delivered \<Rightarrow>
                   let missing = missingDeliverableFiles expected delivered in
                   if missing = [] then None
                   else let feedback = ''Reviewer approved scenarios, but Story '' @ s_ID story @ '' has not delivered ''
                          @ show_nat (length missing) @ '' accepted scope.create file(s): '' @ Join '', '' missing
                          @ ''. These paths remain required by the plan contract. Implement the missing files inside the declared Story file scope and resubmit.''
                     in Some (if can_retry x then startFixableRetryLocked g ev feedback x
                          else defer_or_fail g (''deliverable closure gate retries exhausted: '' @ feedback)
                                 (emitExhaustionDecision g ev ''scope_incomplete'' feedback x))))"

definition handleApprovedDeliverableGapLocked :: "RConfig \<Rightarrow> REnv \<Rightarrow> reqRun \<Rightarrow> reqRun option" where
  "handleApprovedDeliverableGapLocked g ev x =
     (if rg_SandboxURL g = [] \<or> ru_SortedStoryIDs x = [] then None
      else case ev_plan ev AtStoryGate of
        PlanUnreadable e \<Rightarrow> Some (markFailedLocked g (''deliverable closure gate could not load plan: '' @ e) x)
      | PlanMissing \<Rightarrow> Some (markFailedLocked g ''deliverable closure gate could not load plan from PLAN_STATES'' x)
      | PlanLoaded plan \<Rightarrow> handleApprovedDeliverableGapForPlanLocked g ev plan x)"

text \<open>A negative cursor would make the code panic; it never is negative when a review completes.\<close>

definition publishStoryCompleteLocked :: "reqRun \<Rightarrow> reqRun" where
  "publishStoryCompleteLocked x =
     (case current_story x of None \<Rightarrow> x | Some s \<Rightarrow> send (ClaimStory (ru_Slug x) s StoryStatusComplete) x)"

definition handleApprovedVerdictLocked :: "RConfig \<Rightarrow> REnv \<Rightarrow> reqRun \<Rightarrow> reqRun" where
  "handleApprovedVerdictLocked g ev x =
     (case handleApprovedClaimMismatchLocked g x of Some y \<Rightarrow> y | None \<Rightarrow>
      (case handleApprovedDeliverableGapLocked g ev x of Some y \<Rightarrow> y | None \<Rightarrow>
       (let x1 = publishStoryCompleteLocked x in
        if ru_CurrentStoryIdx x1 + 1 < int (length (ru_SortedStoryIDs x1)) then advanceToNextStoryLocked g ev x1
        else case handleRequirementDeliverableGapLocked g ev x1 of Some y \<Rightarrow> y | None \<Rightarrow> markCompletedLocked g x1)))"

definition current_scope :: "reqRun \<Rightarrow> Scenario list" where
  "current_scope x = scopeScenariosToCurrentStory (ru_Scenarios x) (ru_SortedStoryIDs x) (ru_CurrentStoryIdx x)"

definition handleRequirementReviewerCompleteLocked :: "RConfig \<Rightarrow> REnv \<Rightarrow> LoopEvent \<Rightarrow> review_raw \<Rightarrow> reqRun \<Rightarrow> reqRun" where
  "handleRequirementReviewerCompleteLocked g ev event raw x =
     (if \<not> lv_Success event then markFailedLocked g (''requirement reviewer failed: outcome='' @ lv_Outcome event) x
      else case parseRequirementReviewResultLocked ev raw of
        Inl reason \<Rightarrow> handleInvalidRequirementReviewResultLocked g ev reason x
      | Inr result \<Rightarrow>
          let x1 = x\<lparr>ru_ReviewVerdict := rw_Verdict result, ru_ReviewFeedback := rw_Feedback result\<rparr> in
          if rw_Verdict result = ''approved''
          then handleApprovedVerdictLocked g ev (x1\<lparr>ru_ScenarioVerdicts :=
                 mergeCurrentStoryScenarioVerdicts (current_scope x) (ru_ScenarioVerdicts x) (toScenarioVerdicts result)\<rparr>)
          else if ru_MaxRetries x \<le> ru_RetryCount x \<or> ru_MaxRetries x = 0
          then defer_or_fail g (''requirement rejected (retries exhausted): '' @ rw_Feedback result)
                 (emitExhaustionDecision g ev (rw_Verdict result) (rw_Feedback result) x1)
          else if rw_RejectionType result = ''restructure'' then startRestructureRetryLocked g ev (rw_Feedback result) x1
          else startFixableRetryLocked g ev (rw_Feedback result) x1)"

section \<open>The end of a node\<close>

record nodeResultPayload =
  np_FilesModified :: "bytes list"
  np_FilesCreated :: "bytes list"
  np_Summary :: bytes
  np_MergeCommit :: bytes

datatype node_raw = NodeEmpty | NodeUnreadable bytes | NodeRead nodeResultPayload

record NodeEvent =
  ne_Success :: bool
  ne_Outcome :: bytes
  ne_Result :: node_raw
  ne_TaskStage :: bytes
  ne_EscalationReason :: bytes

definition parseNodeResultPayload :: "node_raw \<Rightarrow> bytes + nodeResultPayload option" where
  "parseNodeResultPayload raw =
     (case raw of
        NodeEmpty \<Rightarrow> Inr None
      | NodeUnreadable e \<Rightarrow> Inl e
      | NodeRead p \<Rightarrow>
          if np_FilesModified p = [] \<and> np_FilesCreated p = [] \<and> np_Summary p = [] \<and> np_MergeCommit p = []
          then Inl (''payload has no files_modified, files_created, changes_summary, or merge_commit '' @ dash
                 @ '' node produced no recordable output'')
          else Inr (Some p))"

definition retryNodeAtRequirementLevelLocked :: "RConfig \<Rightarrow> REnv \<Rightarrow> bytes \<Rightarrow> bytes \<Rightarrow> reqRun \<Rightarrow> reqRun" where
  "retryNodeAtRequirementLevelLocked g ev nodeID feedback x =
     (let x1 = x\<lparr>ru_RetryCount := ru_RetryCount x + 1, ru_LastReviewFeedback := feedback, ru_terminated := False,
                 ru_DirtyNodeIDs := [nodeID], ru_VisitedNodes := removeAll nodeID (ru_VisitedNodes x)\<rparr>;
          x2 = send (SendReqPhase (phase_req (ru_storeKey x) ''executing'')) x1
      in dispatchNextNodeLocked g ev (x2\<lparr>ru_CurrentNodeIdx := ru_CurrentNodeIdx x - 1\<rparr>))"

definition handleNodeFailureLocked :: "RConfig \<Rightarrow> REnv \<Rightarrow> NodeEvent \<Rightarrow> bytes \<Rightarrow> reqRun \<Rightarrow> reqRun" where
  "handleNodeFailureLocked g ev event nodeID x =
     (if ne_TaskStage event = ''escalated''
      then defer_or_fail g (''node '' @ ev_quote ev nodeID @ '' TDD budget exhausted at task level: '' @ ne_EscalationReason event) x
      else if can_retry x
      then retryNodeAtRequirementLevelLocked g ev nodeID (''Node '' @ ev_quote ev nodeID @ '' failed (outcome='' @ ne_Outcome event
             @ ''). Retry the implementation.'') x
      else markFailedLocked g (''node '' @ ev_quote ev nodeID @ '' failed: outcome='' @ ne_Outcome event) x)"

definition recordNodeSuccessLocked :: "RConfig \<Rightarrow> REnv \<Rightarrow> bytes \<Rightarrow> nodeResultPayload option \<Rightarrow> reqRun \<Rightarrow> reqRun" where
  "recordNodeSuccessLocked g ev nodeID parsed x =
     (let result = (case parsed of
            None \<Rightarrow> \<lparr>nr_NodeID = nodeID, nr_FilesModified = [], nr_Summary = [], nr_CommitSHA = []\<rparr>
          | Some p \<Rightarrow> \<lparr>nr_NodeID = nodeID, nr_FilesModified = np_FilesModified p @ np_FilesCreated p,
                       nr_Summary = np_Summary p, nr_CommitSHA = np_MergeCommit p\<rparr>);
          x1 = send (SendReqNode \<lparr>rq_Key = ru_storeKey x, rq_CurrentNodeIdx = Some (ru_CurrentNodeIdx x), rq_NodeResult = Some result,
                 rq_CurrentNodeTaskID = []\<rparr>) (x\<lparr>ru_NodeResults := ru_NodeResults x @ [result]\<rparr>)
      in if length (ru_SortedNodeIDs x1) \<le> length (ru_VisitedNodes x1) then dispatchRequirementReviewerLocked g ev x1
         else dispatchNextNodeLocked g ev x1)"

definition node_unreadable :: "bytes \<Rightarrow> bytes \<Rightarrow> bytes" where
  "node_unreadable quoted e = ''Node '' @ quoted @ '' completed but its result payload was unrecoverable: '' @ e
     @ ''. Re-run the same scope; ensure submit_work returns valid JSON containing files_modified (and/or files_created), changes_summary, and merge_commit fields.''"

definition handleNodeCompleteLocked :: "RConfig \<Rightarrow> REnv \<Rightarrow> NodeEvent \<Rightarrow> reqRun \<Rightarrow> reqRun" where
  "handleNodeCompleteLocked g ev event x =
     (if ru_CurrentNodeIdx x < 0 \<or> int (length (ru_SortedNodeIDs x)) \<le> ru_CurrentNodeIdx x
      then markErrorLocked g ''node completion received but no active node'' x
      else let nodeID = ru_SortedNodeIDs x ! nat (ru_CurrentNodeIdx x);
               x1 = x\<lparr>ru_VisitedNodes := List.insert nodeID (ru_VisitedNodes x)\<rparr>
        in if \<not> ne_Success event then handleNodeFailureLocked g ev event nodeID x1
           else case parseNodeResultPayload (ne_Result event) of
             Inr parsed \<Rightarrow> recordNodeSuccessLocked g ev nodeID parsed x1
           | Inl e \<Rightarrow>
               if can_retry x1 then retryNodeAtRequirementLevelLocked g ev nodeID (node_unreadable (ev_quote ev nodeID) e) x1
               else markFailedLocked g (''node '' @ ev_quote ev nodeID @ '' result parse failed and retries exhausted: '' @ e) x1)"

section \<open>Waiting for recovery\<close>

definition maxRecoveryInfraRetries :: int where "maxRecoveryInfraRetries = 6"

definition handleRecoveryTimeout :: "RConfig \<Rightarrow> REnv \<Rightarrow> reqRun \<Rightarrow> reqRun" where
  "handleRecoveryTimeout g ev x =
     (if \<not> ru_awaitingRecovery x then x
      else let give_up = (\<lambda>y. markFailedLocked g (ru_recoveryReason y) (y\<lparr>ru_awaitingRecovery := False, ru_recoveryTimer := None\<rparr>)) in
        case ev_decisions ev of
          None \<Rightarrow>
            let y = x\<lparr>ru_recoveryInfraRetries := ru_recoveryInfraRetries x + 1\<rparr> in
            if ru_recoveryInfraRetries y > maxRecoveryInfraRetries then give_up y else arm_recovery y
        | Some decisions \<Rightarrow>
            let y = x\<lparr>ru_recoveryInfraRetries := 0\<rparr> in
            if list_ex (\<lambda>d. isPendingRecoveryDecisionForRequirement d (ru_RequirementID x)) decisions then arm_recovery y else give_up y)"

definition reopenOwnedStoriesForRecoveryLocked :: "REnv \<Rightarrow> reqRun \<Rightarrow> bool \<times> reqRun" where
  "reopenOwnedStoriesForRecoveryLocked ev x =
     (case ev_plan ev AtReopen of
        PlanLoaded plan \<Rightarrow>
          let ids = storiesToReopenForRecovery plan (ru_RequirementID x) in
          (case reopenStoriesFromPlan ev (ru_Slug x) plan ids x of (n, x1) \<Rightarrow> (n = length ids, x1))
      | _ \<Rightarrow> (True, x))"

definition resumeFromRecoveryLocked :: "RConfig \<Rightarrow> REnv \<Rightarrow> reqRun \<Rightarrow> reqRun" where
  "resumeFromRecoveryLocked g ev x =
     (case reopenOwnedStoriesForRecoveryLocked ev x of
        (False, x1) \<Rightarrow> arm_recovery (x1\<lparr>ru_awaitingRecovery := True\<rparr>)
      | (True, x1) \<Rightarrow>
          let x2 = (stop_recovery x1)\<lparr>ru_awaitingRecovery := False, ru_terminated := False, ru_recoveryRestarts := ru_recoveryRestarts x1 + 1\<rparr>;
              x3 = (reset_dag x2)\<lparr>ru_CurrentStoryIdx := 0, ru_SortedStoryIDs := []\<rparr>;
              x4 = (reset_review (send (SendNodeResults \<lparr>rs_Key = ru_storeKey x, rs_NodeResults = []\<rparr>) x3))\<lparr>ru_RetryCount := 0\<rparr>;
              x5 = recreate_branch g x4
          in dispatchSynthesizerLocked g ev (send (SendReqPhase (phase_req (ru_storeKey x) ''decomposing'')) x5))"

definition abandon :: "RConfig \<Rightarrow> reqRun \<Rightarrow> reqRun" where
  "abandon g x = cleanupExecutionLocked g False (x\<lparr>ru_terminated := True, ru_awaitingRecovery := False\<rparr>)"

end
