(* ===== verification/Req_Events.thy ===== *)
theory Req_Events
  imports Req_Executor
begin

text \<open>
  What drives the executions of theory \<open>Req_Executor\<close>: the claim of pending requirements
  (\<^verbatim>\<open>req_watcher.go\<close>), the completions of reviewer loops and tasks and the resumption after a restart
  (\<^verbatim>\<open>req_completions.go\<close>), accepted plan decisions (\<^verbatim>\<open>awaiting_recovery.go\<close>, \<^verbatim>\<open>recover_completed.go\<close>),
  timers, start and stop (\<^verbatim>\<open>component.go\<close>).  \<open>RComp\<close> is the component: the executions it has made, as a
  list that only grows, the table of active executions by entity ID, and the goroutines that set
  claimed requirements up.  Such a goroutine takes the mutex of its execution only at its end, so it is
  two operations, \<open>init_branch\<close> and \<open>init_dispatch\<close>.  The expiry of the table and the counters of
  the component are left out.
\<close>

section \<open>The component\<close>

record RComp =
  rx_config :: RConfig
  rx_execs :: "reqRun list"
  rx_active :: "(bytes \<times> nat) list"
  rx_starting :: "(nat \<times> bytes \<times> bytes) list"
  rx_created :: "nat list"

text \<open>\<open>locked r f\<close> runs \<open>f\<close> under the mutex of execution \<open>r\<close>.\<close>

definition locked :: "nat \<Rightarrow> (reqRun \<Rightarrow> reqRun) \<Rightarrow> RComp \<Rightarrow> RComp" where
  "locked r f c =
     (let x = f ((rx_execs c ! r)\<lparr>ru_forgotten := False\<rparr>) in
      c\<lparr>rx_execs := (rx_execs c)[r := x],
        rx_active := (if ru_forgotten x then AList.delete (ru_EntityID x) (rx_active c) else rx_active c)\<rparr>)"

definition active_keys :: "REnv \<Rightarrow> RComp \<Rightarrow> bytes list" where
  "active_keys ev c = ev_perm ev (map fst (rx_active c))"

fun find_exec :: "(reqRun \<Rightarrow> bool) \<Rightarrow> RComp \<Rightarrow> bytes list \<Rightarrow> nat option" where
  "find_exec P c [] = None"
| "find_exec P c (k # ks) =
     (case map_of (rx_active c) k of
        None \<Rightarrow> find_exec P c ks
      | Some r \<Rightarrow> if P (rx_execs c ! r) then Some r else find_exec P c ks)"

definition findExecByTaskID :: "bytes \<Rightarrow> REnv \<Rightarrow> RComp \<Rightarrow> nat option" where
  "findExecByTaskID taskID ev c =
     find_exec (\<lambda>x. ru_CurrentNodeTaskID x = taskID \<or> ru_ReviewerTaskID x = taskID) c (active_keys ev c)"

definition findAwaitingByRequirement :: "bytes \<Rightarrow> bytes \<Rightarrow> REnv \<Rightarrow> RComp \<Rightarrow> nat option" where
  "findAwaitingByRequirement slug reqID ev c =
     find_exec (\<lambda>x. ru_awaitingRecovery x \<and> ru_Slug x = slug \<and> ru_RequirementID x = reqID) c (active_keys ev c)"

section \<open>Claiming a pending requirement\<close>

definition run_entity :: "RConfig \<Rightarrow> bytes \<Rightarrow> bytes \<Rightarrow> bytes" where
  "run_entity g slug reqID = EntityPrefix (rg_ids g) @ ''.exec.req.run.''
     @ map (\<lambda>ch. if ch = CHR ''.'' then CHR ''-'' else ch) (slug @ ''-'' @ reqID)"

definition new_exec :: "RConfig \<Rightarrow> bytes \<Rightarrow> RequirementExecution \<Rightarrow> reqRun" where
  "new_exec g key e = reqRun_zero\<lparr>ru_EntityID := run_entity g (re_Slug e) (re_RequirementID e), ru_Slug := re_Slug e,
     ru_RequirementID := re_RequirementID e, ru_Title := re_Title e, ru_Description := re_Description e,
     ru_Scenarios := re_Scenarios e, ru_BaseBranch := re_BaseBranch e, ru_ProjectID := re_ProjectID e, ru_TraceID := re_TraceID e,
     ru_LoopID := re_LoopID e, ru_CurrentNodeIdx := - 1, ru_MaxRetries := rg_MaxRequirementRetries g, ru_storeKey := key\<rparr>"

definition handleReqPending :: "bytes \<Rightarrow> RequirementExecution option \<Rightarrow> REnv \<Rightarrow> RComp \<Rightarrow> RComp" where
  "handleReqPending key entry ev c =
     (case entry of
        None \<Rightarrow> c
      | Some e \<Rightarrow>
          if re_Stage e \<noteq> ''pending'' \<or> \<not> ev_claimReq ev then c
          else let x = new_exec (rx_config c) key e; r = length (rx_execs c) in
            if map_of (rx_active c) (ru_EntityID x) \<noteq> None then c
            else c\<lparr>rx_execs := rx_execs c @ [x], rx_active := AList.update (ru_EntityID x) r (rx_active c),
                   rx_starting := rx_starting c @ [(r, re_PlanBranch e, re_BaseBranch e)]\<rparr>)"

definition branch_name :: "bytes \<Rightarrow> bytes" where
  "branch_name reqID = ''semspec/requirement-'' @ reqID"

text \<open>The creation of the branch, and once more when a stale one is in the way.\<close>

definition branch_error :: "REnv \<Rightarrow> bytes option" where
  "branch_error ev =
     (case ev_branch ev 0 of
        BranchMade \<Rightarrow> None
      | BranchFailed e \<Rightarrow> Some e
      | BranchStale _ \<Rightarrow> (case ev_branch ev 1 of BranchMade \<Rightarrow> None | BranchStale e \<Rightarrow> Some e | BranchFailed e \<Rightarrow> Some e))"

definition try_branch :: "REnv \<Rightarrow> bytes \<Rightarrow> bytes \<Rightarrow> reqRun \<Rightarrow> reqRun" where
  "try_branch ev name base x =
     (let x1 = send (AddBranch name base) x in
      case ev_branch ev 0 of BranchStale _ \<Rightarrow> send (AddBranch name base) (send (DropBranch name) x1) | _ \<Rightarrow> x1)"

definition init_branch :: "nat \<Rightarrow> bytes \<Rightarrow> bytes \<Rightarrow> REnv \<Rightarrow> RComp \<Rightarrow> RComp" where
  "init_branch r planBranch baseBranch ev c0 =
     (let c = c0\<lparr>rx_starting := remove1 (r, planBranch, baseBranch) (rx_starting c0)\<rparr>;
          g = rx_config c; name = branch_name (ru_RequirementID (rx_execs c ! r)); base = selectReqBranchBase planBranch baseBranch
      in if rg_SandboxURL g = [] then c\<lparr>rx_created := rx_created c @ [r]\<rparr>
         else case branch_error ev of
           Some e \<Rightarrow> locked r (\<lambda>x. markErrorLocked g (''create requirement branch '' @ ev_quote ev name @ '': '' @ e)
                       (try_branch ev name base x)) c
         | None \<Rightarrow> (locked r (\<lambda>x. (try_branch ev name base x)\<lparr>ru_RequirementBranch := name\<rparr>) c)\<lparr>rx_created := rx_created c @ [r]\<rparr>)"

definition init_dispatch :: "nat \<Rightarrow> REnv \<Rightarrow> RComp \<Rightarrow> RComp" where
  "init_dispatch r ev c =
     locked r (\<lambda>x. dispatchSynthesizerLocked (rx_config c) ev (startExecutionTimeoutLocked x))
       (c\<lparr>rx_created := remove1 r (rx_created c)\<rparr>)"

section \<open>Completions\<close>

record ReviewLoop =
  rl_Terminal :: bool
  rl_event :: LoopEvent
  rl_result :: review_raw

definition handleLoopEntityUpdate :: "ReviewLoop option \<Rightarrow> REnv \<Rightarrow> RComp \<Rightarrow> RComp" where
  "handleLoopEntityUpdate entry ev c =
     (case entry of
        None \<Rightarrow> c
      | Some l \<Rightarrow>
          let taskID = lv_TaskID (rl_event l) in
          if \<not> rl_Terminal l \<or> taskID = [] then c
          else case findExecByTaskID taskID ev c of
            None \<Rightarrow> c
          | Some r \<Rightarrow>
              if ru_terminated (rx_execs c ! r) \<or> taskID \<noteq> ru_ReviewerTaskID (rx_execs c ! r) then c
              else locked r (handleRequirementReviewerCompleteLocked (rx_config c) ev (rl_event l) (rl_result l)) c)"

definition stop_timers :: "reqRun \<Rightarrow> reqRun" where
  "stop_timers x = stop_armed (ru_recoveryTimer x) (stop_armed (ru_timeoutTimer x) x)"

text \<open>The recovered execution is \<open>r\<close>, just made and not yet active.\<close>

definition replace_one :: "nat \<Rightarrow> bytes \<Rightarrow> RComp \<Rightarrow> RComp" where
  "replace_one r k c =
     (case map_of (rx_active c) k of
        None \<Rightarrow> c
      | Some i \<Rightarrow>
          if i \<noteq> r \<and> ru_Slug (rx_execs c ! i) = ru_Slug (rx_execs c ! r) \<and> ru_RequirementID (rx_execs c ! i) = ru_RequirementID (rx_execs c ! r)
          then c\<lparr>rx_execs := (rx_execs c)[i := stop_timers ((rx_execs c ! i)\<lparr>ru_terminated := True\<rparr>)],
                 rx_active := AList.delete k (rx_active c)\<rparr>
          else c)"

definition replaceActiveExecForRequirement :: "nat \<Rightarrow> REnv \<Rightarrow> RComp \<Rightarrow> RComp" where
  "replaceActiveExecForRequirement r ev c =
     (let d = fold (replace_one r) (active_keys ev c) c in
      d\<lparr>rx_active := AList.update (ru_EntityID (rx_execs d ! r)) r (rx_active d)\<rparr>)"

definition loadNonTerminalReqExecFromKV :: "RConfig \<Rightarrow> bytes \<Rightarrow> row_load \<Rightarrow> reqRun option" where
  "loadNonTerminalReqExecFromKV g key row =
     (case row of RowLoaded e \<Rightarrow> if IsTerminalReqStage (re_Stage e) then None else Some (rebuildExecFromKV g key e) | _ \<Rightarrow> None)"

definition recoverExecForTerminalTaskCompletion :: "TaskExecution \<Rightarrow> REnv \<Rightarrow> RComp \<Rightarrow> nat option \<times> RComp" where
  "recoverExecForTerminalTaskCompletion t ev c =
     (let key = RequirementExecutionKey (te_Slug t) (te_RequirementID t); r = length (rx_execs c) in
      if te_Slug t = [] \<or> te_RequirementID t = [] then (None, c)
      else case loadNonTerminalReqExecFromKV (rx_config c) key (ev_row ev key) of
        None \<Rightarrow> (None, c)
      | Some x \<Rightarrow>
          if ru_CurrentNodeTaskID x \<noteq> te_TaskID t then (None, c)
          else (Some r, replaceActiveExecForRequirement r ev (c\<lparr>rx_execs := rx_execs c @ [x]\<rparr>)))"

definition task_event :: "TaskExecution \<Rightarrow> NodeEvent" where
  "task_event t = \<lparr>ne_Success = (te_Stage t = ''approved''), ne_Outcome = (if te_Stage t = ''approved'' then ''success'' else ''failed''),
     ne_Result = NodeRead \<lparr>np_FilesModified = te_FilesModified t, np_FilesCreated = [], np_Summary = [], np_MergeCommit = te_MergeCommit t\<rparr>,
     ne_TaskStage = te_Stage t, ne_EscalationReason = te_EscalationReason t\<rparr>"

definition handleTaskStateChange :: "TaskExecution option \<Rightarrow> REnv \<Rightarrow> RComp \<Rightarrow> RComp" where
  "handleTaskStateChange entry ev c =
     (case entry of
        None \<Rightarrow> c
      | Some t \<Rightarrow>
          if \<not> IsTerminalTaskStage (te_Stage t) \<or> te_TaskID t = [] then c
          else case (case findExecByTaskID (te_TaskID t) ev c of
                       Some r \<Rightarrow> (Some r, c) | None \<Rightarrow> recoverExecForTerminalTaskCompletion t ev c) of
            (None, c1) \<Rightarrow> c1
          | (Some r, c1) \<Rightarrow>
              if ru_terminated (rx_execs c1 ! r) \<or> te_TaskID t \<noteq> ru_CurrentNodeTaskID (rx_execs c1 ! r) then c1
              else locked r (handleNodeCompleteLocked (rx_config c1) ev (task_event t)) c1)"

section \<open>Timers\<close>

definition fire :: "RConfig \<Rightarrow> nat \<Rightarrow> timer_kind \<Rightarrow> REnv \<Rightarrow> reqRun \<Rightarrow> reqRun" where
  "fire g i kind ev x =
     (let y = x\<lparr>ru_armed := filter (\<lambda>t. fst t \<noteq> i) (ru_armed x)\<rparr> in
      case kind of
        ExecutionTimer \<Rightarrow> markErrorLocked g (''execution timed out after '' @ ev_timeout ev) y
      | RecoveryTimer \<Rightarrow> handleRecoveryTimeout g ev y)"

definition timer_fired :: "nat \<Rightarrow> nat \<Rightarrow> timer_kind \<Rightarrow> REnv \<Rightarrow> RComp \<Rightarrow> RComp" where
  "timer_fired r i kind ev c = locked r (fire (rx_config c) i kind ev) c"

section \<open>Accepted plan decisions\<close>

definition abandonLiveExecForRequirement :: "bytes \<Rightarrow> bytes \<Rightarrow> REnv \<Rightarrow> RComp \<Rightarrow> RComp" where
  "abandonLiveExecForRequirement slug reqID ev c =
     (case find_exec (\<lambda>x. ru_Slug x = slug \<and> ru_RequirementID x = reqID) c (active_keys ev c) of
        None \<Rightarrow> c | Some r \<Rightarrow> locked r (abandon (rx_config c)) c)"

definition abandon_one :: "bytes \<Rightarrow> bytes \<Rightarrow> RComp \<Rightarrow> RComp" where
  "abandon_one slug k c =
     (case map_of (rx_active c) k of
        None \<Rightarrow> c
      | Some r \<Rightarrow> if ru_Slug (rx_execs c ! r) = slug then locked r (abandon (rx_config c)) c else c)"

definition abandonExecsForSlug :: "bytes \<Rightarrow> REnv \<Rightarrow> RComp \<Rightarrow> RComp" where
  "abandonExecsForSlug slug ev c = fold (abandon_one slug) (active_keys ev c) c"

definition abandonExecsForRequirements :: "bytes \<Rightarrow> bytes list \<Rightarrow> REnv \<Rightarrow> RComp \<Rightarrow> RComp" where
  "abandonExecsForRequirements slug reqIDs ev c =
     (if reqIDs = [] then abandonExecsForSlug slug ev c
      else fold (\<lambda>q. abandonLiveExecForRequirement slug q ev) (rev (remdups (rev (filter (\<lambda>q. q \<noteq> []) reqIDs)))) c)"

definition loadTerminalReqExecFromKV :: "RConfig \<Rightarrow> bytes \<Rightarrow> row_load \<Rightarrow> reqRun option" where
  "loadTerminalReqExecFromKV g key row =
     (case row of RowLoaded e \<Rightarrow> if IsTerminalReqStage (re_Stage e) then Some (rebuildExecFromKV g key e) else None | _ \<Rightarrow> None)"

definition countAcceptedRecoveryCyclesForReq :: "bytes \<Rightarrow> REnv \<Rightarrow> nat" where
  "countAcceptedRecoveryCyclesForReq reqID ev =
     (case ev_decisions ev of None \<Rightarrow> 0 | Some ds \<Rightarrow> accepted_recoveries ds reqID)"

text \<open>The messages about the dependents are kept in the outbox of the reopened execution \<open>r\<close>.\<close>

definition reset_dependent :: "nat \<Rightarrow> bytes \<Rightarrow> REnv \<Rightarrow> bytes \<Rightarrow> RComp \<Rightarrow> RComp" where
  "reset_dependent r slug ev dep c =
     (let c1 = abandonLiveExecForRequirement slug dep ev c in
      locked r (\<lambda>x. let y = send (SendReqReset (RequirementExecutionKey slug dep)) x in
        if rg_SandboxURL (rx_config c) = [] then y
        else send (DropBranch (''semspec/reqbase-'' @ dep)) (send (DropBranch (branch_name dep)) y)) c1)"

definition resetDependentBranchSubtree :: "nat \<Rightarrow> bytes \<Rightarrow> bytes \<Rightarrow> Plan \<Rightarrow> REnv \<Rightarrow> RComp \<Rightarrow> RComp" where
  "resetDependentBranchSubtree r slug reopenedID plan ev c =
     fold (reset_dependent r slug ev) (DependentBranchSubtree reopenedID (p_Requirements plan) (p_Stories plan)) c"

definition invalidateDependentBranchSubtreeLocked :: "nat \<Rightarrow> REnv \<Rightarrow> RComp \<Rightarrow> RComp" where
  "invalidateDependentBranchSubtreeLocked r ev c =
     (case ev_plan ev AtInvalidate of
        PlanLoaded plan \<Rightarrow> resetDependentBranchSubtree r (ru_Slug (rx_execs c ! r)) (ru_RequirementID (rx_execs c ! r)) plan ev c
      | _ \<Rightarrow> c)"

definition resumeTerminalForRecoveryLocked :: "nat \<Rightarrow> bytes \<Rightarrow> REnv \<Rightarrow> RComp \<Rightarrow> RComp" where
  "resumeTerminalForRecoveryLocked r proposalID ev c =
     invalidateDependentBranchSubtreeLocked r ev
       (locked r (\<lambda>x. resumeFromRecoveryLocked (rx_config c) ev (x\<lparr>ru_awaitingRecovery := True,
          ru_recoveryReason := ''QA-recovery: completed req re-dispatched (proposal '' @ proposalID @ '')''\<rparr>)) c)"

record PlanDecisionAcceptedEvent =
  pe_ProposalID :: bytes
  pe_Slug :: bytes
  pe_TraceID :: bytes
  pe_Kind :: PlanDecisionKind
  pe_AffectedRequirementIDs :: "bytes list"
  pe_AffectedScenarioIDs :: "bytes list"

definition coAffectedDependents :: "bytes list \<Rightarrow> plan_load \<Rightarrow> bytes set" where
  "coAffectedDependents affected load =
     (if length affected < 2 then {}
      else case load of PlanLoaded plan \<Rightarrow> coAffectedDependentSet affected (p_Requirements plan) (p_Stories plan) | _ \<Rightarrow> {})"

definition accept_for :: "PlanDecisionAcceptedEvent \<Rightarrow> (bytes \<Rightarrow> REnv) \<Rightarrow> bytes set \<Rightarrow> bytes \<Rightarrow> RComp \<Rightarrow> RComp" where
  "accept_for evt envs skip reqID c =
     (let ev = envs reqID; slug = pe_Slug evt; key = RequirementExecutionKey slug reqID in
      if reqID \<in> skip then c
      else case findAwaitingByRequirement slug reqID ev c of
        Some r \<Rightarrow> locked r (resumeFromRecoveryLocked (rx_config c) ev) c
      | None \<Rightarrow>
          (case loadTerminalReqExecFromKV (rx_config c) key (ev_row ev key) of
             None \<Rightarrow> c
           | Some x \<Rightarrow>
               if rg_MaxRecoveryRestarts (rx_config c) < int (countAcceptedRecoveryCyclesForReq reqID ev) then c
               else let r = length (rx_execs c) in
                 resumeTerminalForRecoveryLocked r (pe_ProposalID evt) ev
                   (c\<lparr>rx_execs := rx_execs c @ [x], rx_active := AList.update (ru_EntityID x) r (rx_active c)\<rparr>)))"

definition handlePlanDecisionAccepted :: "PlanDecisionAcceptedEvent option \<Rightarrow> REnv \<Rightarrow> (bytes \<Rightarrow> REnv) \<Rightarrow> RComp \<Rightarrow> RComp" where
  "handlePlanDecisionAccepted msg ev envs c =
     (case msg of
        None \<Rightarrow> c
      | Some evt \<Rightarrow>
          if pe_ProposalID evt = [] then c
          else if pe_Kind evt \<in> {PlanDecisionKindArchitectureRevise, PlanDecisionKindStoryReprepare, PlanDecisionKindScopeIncomplete}
          then abandonExecsForRequirements (pe_Slug evt) (pe_AffectedRequirementIDs evt) ev c
          else fold (accept_for evt envs (coAffectedDependents (pe_AffectedRequirementIDs evt) (ev_plan ev AtAccept)))
                 (pe_AffectedRequirementIDs evt) c)"

section \<open>Start and stop\<close>

text \<open>\<open>rows\<close> are the keys of the bucket with what is read under them, in the order they are listed.\<close>

definition reconcile_row :: "bytes \<times> row_load \<Rightarrow> RComp \<Rightarrow> RComp" where
  "reconcile_row kr c =
     (case kr of (key, row) \<Rightarrow>
        if \<not> HasPrefix key ''req.'' then c
        else case loadNonTerminalReqExecFromKV (rx_config c) key row of
          None \<Rightarrow> c
        | Some x \<Rightarrow> c\<lparr>rx_execs := rx_execs c @ [x], rx_active := AList.update (ru_EntityID x) (length (rx_execs c)) (rx_active c)\<rparr>)"

definition reconcileFromKV :: "(bytes \<times> row_load) list \<Rightarrow> RComp \<Rightarrow> bool \<times> RComp" where
  "reconcileFromKV rows c =
     (let d = fold reconcile_row rows c in (length (rx_execs c) < length (rx_execs d), d))"

record GraphReq =
  gq_Phase :: bytes
  gq_Slug :: bytes
  gq_TraceID :: bytes

definition reconcile_entity :: "bytes \<times> GraphReq \<Rightarrow> RComp \<Rightarrow> RComp" where
  "reconcile_entity e c =
     (if gq_Phase (snd e) \<in> {''completed'', ''failed'', ''error'', ''awaiting-recovery''} then c
      else c\<lparr>rx_execs := rx_execs c @ [reqRun_zero\<lparr>ru_EntityID := fst e, ru_Slug := gq_Slug (snd e), ru_TraceID := gq_TraceID (snd e),
               ru_CurrentNodeIdx := - 1\<rparr>],
             rx_active := AList.update (fst e) (length (rx_execs c)) (rx_active c)\<rparr>)"

definition reconcileFromGraph :: "(bytes \<times> row_load) list \<Rightarrow> (bytes \<times> GraphReq) list option \<Rightarrow> RComp \<Rightarrow> RComp" where
  "reconcileFromGraph rows entities c =
     (case reconcileFromKV rows c of
        (True, d) \<Rightarrow> d
      | (False, d) \<Rightarrow> (case entities of None \<Rightarrow> d | Some es \<Rightarrow> fold reconcile_entity es d))"

definition resume_run :: "RConfig \<Rightarrow> REnv \<Rightarrow> reqRun \<Rightarrow> reqRun" where
  "resume_run g ev x =
     (if ru_DAG x = None then dispatchSynthesizerLocked g ev (startExecutionTimeoutLocked x)
      else if ru_CurrentNodeIdx x < int (length (ru_SortedNodeIDs x))
      then if 0 \<le> ru_CurrentNodeIdx x
           then if ru_SortedNodeIDs x ! nat (ru_CurrentNodeIdx x) \<in> set (ru_VisitedNodes x) then dispatchNextNodeLocked g ev x
                else if ru_CurrentNodeTaskID x \<noteq> [] then x
                else dispatchNextNodeLocked g ev (startExecutionTimeoutLocked x)
           else dispatchNextNodeLocked g ev (startExecutionTimeoutLocked x)
      else if ru_ReviewerTaskID x = [] then dispatchRequirementReviewerLocked g ev (startExecutionTimeoutLocked x)
      else x)"

definition resume_key :: "(bytes \<Rightarrow> REnv) \<Rightarrow> bytes \<Rightarrow> RComp \<Rightarrow> RComp" where
  "resume_key envs k c =
     (case map_of (rx_active c) k of
        None \<Rightarrow> c
      | Some r \<Rightarrow> if ru_terminated (rx_execs c ! r) then c else locked r (resume_run (rx_config c) (envs k)) c)"

definition resumeInterruptedExecutions :: "REnv \<Rightarrow> (bytes \<Rightarrow> REnv) \<Rightarrow> RComp \<Rightarrow> RComp" where
  "resumeInterruptedExecutions ev envs c = fold (resume_key envs) (active_keys ev c) c"

definition stop_one :: "bytes \<Rightarrow> RComp \<Rightarrow> RComp" where
  "stop_one k c =
     (case map_of (rx_active c) k of None \<Rightarrow> c | Some r \<Rightarrow> c\<lparr>rx_execs := (rx_execs c)[r := stop_timers (rx_execs c ! r)]\<rparr>)"

definition Stop :: "REnv \<Rightarrow> RComp \<Rightarrow> RComp" where
  "Stop ev c = fold stop_one (active_keys ev c) c"

end
