(* ===== verification/Req_Invariant.thy ===== *)
theory Req_Invariant
  imports Req_Events
begin

text \<open>
  What every operation of the requirement executor keeps of an execution: its cursors point into its
  lists, its counters stay within their budgets, it reports its end at most once, and the timers it
  relies on are armed.  \<open>rrun_ok g t i x\<close> is the invariant of execution \<open>x\<close> with entity ID \<open>i\<close> under
  configuration \<open>g\<close>, during an operation at whose start \<open>t\<close> said whether \<open>x\<close> had ended.
\<close>

section \<open>The invariant\<close>

definition is_report :: "reffect \<Rightarrow> bool" where
  "is_report e = (case e of SendComplete _ \<Rightarrow> True | _ \<Rightarrow> False)"

definition reports :: "reqRun \<Rightarrow> nat" where
  "reports x = length (filter is_report (ru_out x))"

definition cursors_ok :: "reqRun \<Rightarrow> bool" where
  "cursors_ok x \<longleftrightarrow> - 1 \<le> ru_CurrentNodeIdx x \<and> 0 \<le> ru_CurrentStoryIdx x
     \<and> set (ru_SortedNodeIDs x) \<subseteq> (case ru_DAG x of None \<Rightarrow> {} | Some d \<Rightarrow> n_ID ` set (dag_Nodes d))"

definition budgets_ok :: "RConfig \<Rightarrow> reqRun \<Rightarrow> bool" where
  "budgets_ok g x \<longleftrightarrow> 0 \<le> ru_RetryCount x \<and> ru_RetryCount x \<le> max 0 (ru_MaxRetries x)
     \<and> 0 \<le> ru_ReviewRetryCount x \<and> ru_ReviewRetryCount x \<le> max 0 (review_budget g)
     \<and> 0 \<le> ru_recoveryRestarts x \<and> ru_recoveryRestarts x \<le> rg_MaxRecoveryRestarts g
     \<and> (ru_awaitingRecovery x \<longrightarrow> ru_recoveryRestarts x < rg_MaxRecoveryRestarts g)"

text \<open>What is sent to the execution manager about the cursors and the DAG is consistent; the branch is not sent.\<close>

definition phase_ok :: "ReqPhaseRequest \<Rightarrow> bool" where
  "phase_ok r \<longleftrightarrow> rp_RequirementBranch r = [] \<and> rp_CurrentNodeIdx r = None \<and> (case rp_CurrentStoryIdx r of None \<Rightarrow> True | Some k \<Rightarrow> 0 \<le> k)
     \<and> (case rp_DAGRaw r of None \<Rightarrow> rp_SortedNodeIDs r = []
        | Some d \<Rightarrow> rp_SortedNodeIDs r \<noteq> [] \<and> set (rp_SortedNodeIDs r) \<subseteq> n_ID ` set (dag_Nodes d))"

fun rsent_ok :: "reffect \<Rightarrow> bool" where
  "rsent_ok (SendReqPhase r) = phase_ok r"
| "rsent_ok (SendReqNode r) = (case rq_CurrentNodeIdx r of None \<Rightarrow> True | Some k \<Rightarrow> - 1 \<le> k)"
| "rsent_ok _ = True"

lemma phase_ok_req [simp]:
  "phase_ok (phase_req k st)" "phase_ok (r\<lparr>rp_NodeCount := nc\<rparr>) = phase_ok r" "phase_ok (r\<lparr>rp_ReviewVerdict := a\<rparr>) = phase_ok r"
  "phase_ok (r\<lparr>rp_ReviewFeedback := a\<rparr>) = phase_ok r" "phase_ok (r\<lparr>rp_ErrorReason := a\<rparr>) = phase_ok r"
  "phase_ok (r\<lparr>rp_ErrorClass := a\<rparr>) = phase_ok r" "phase_ok (r\<lparr>rp_ReviewerTaskID := a\<rparr>) = phase_ok r"
  "phase_ok (r\<lparr>rp_NodeResults := nrs\<rparr>) = phase_ok r" "phase_ok (r\<lparr>rp_ScenarioVerdicts := svs\<rparr>) = phase_ok r"
  "phase_ok (r\<lparr>rp_SortedStoryIDs := ids\<rparr>) = phase_ok r"
  by (simp_all add: phase_ok_def phase_req_def split: option.split)

lemma phase_ok_dag:
  assumes "phase_ok r" "ids \<noteq> []" "set ids \<subseteq> n_ID ` set (dag_Nodes d)" "0 \<le> k"
  shows "phase_ok (r\<lparr>rp_DAGRaw := Some d, rp_SortedNodeIDs := ids\<rparr>)"
    "phase_ok (r\<lparr>rp_DAGRaw := Some d, rp_SortedNodeIDs := ids, rp_SortedStoryIDs := ss, rp_CurrentStoryIdx := Some k\<rparr>)"
  using assms by (simp_all add: phase_ok_def)

lemma rsent_ok_drops [simp]: "list_all rsent_ok (map DropWorktree ws)" by (induction ws) simp_all

text \<open>The armed timers, the number of the next one, the handles of the recovery and of the execution timer, and whether
  the execution has ended and waits for recovery.\<close>

definition rtimers_ok :: "(nat \<times> timer_kind) list \<Rightarrow> nat \<Rightarrow> nat option \<Rightarrow> nat option \<Rightarrow> bool \<Rightarrow> bool \<Rightarrow> bool" where
  "rtimers_ok armed n rec tm ended waiting \<longleftrightarrow> (\<forall>i k. (i, k) \<in> set armed \<longrightarrow> i < n) \<and> (\<forall>j. rec = Some j \<longrightarrow> j < n)
     \<and> (\<forall>j. tm = Some j \<longrightarrow> j < n \<and> (j, RecoveryTimer) \<notin> set armed \<and> rec \<noteq> Some j \<and> (ended \<or> (j, ExecutionTimer) \<in> set armed))
     \<and> (waiting \<and> \<not> ended \<longrightarrow> (\<exists>j. rec = Some j \<and> (j, RecoveryTimer) \<in> set armed))"

definition rrun_ok :: "RConfig \<Rightarrow> bool \<Rightarrow> bytes \<Rightarrow> reqRun \<Rightarrow> bool" where
  "rrun_ok g t i x \<longleftrightarrow> ru_EntityID x = i \<and> (ru_terminated x \<longrightarrow> t \<or> ru_forgotten x)
     \<and> reports x \<le> (if ru_terminated x then 1 else 0) \<and> list_all rsent_ok (ru_out x) \<and> cursors_ok x \<and> budgets_ok g x
     \<and> rtimers_ok (ru_armed x) (ru_nextTimer x) (ru_recoveryTimer x) (ru_timeoutTimer x) (ru_terminated x) (ru_awaitingRecovery x)"

lemmas rrun_ok_defs = rrun_ok_def reports_def cursors_ok_def budgets_ok_def

lemma timers_start: "rtimers_ok a n r tm e w \<Longrightarrow> rtimers_ok (a @ [(n, ExecutionTimer)]) (Suc n) r (Some n) e w"
  by (auto simp: rtimers_ok_def less_SucI)

lemma timers_arm: "rtimers_ok a n r tm e w \<Longrightarrow> rtimers_ok (a @ [(n, RecoveryTimer)]) (Suc n) (Some n) tm e w'"
  by (auto simp: rtimers_ok_def less_SucI)

lemma timers_end: "rtimers_ok a n r tm e w \<Longrightarrow> rtimers_ok (filter P a) n r tm True w'" "rtimers_ok a n r tm e w \<Longrightarrow> rtimers_ok (filter P a) n None tm True w'"
  "rtimers_ok a n r tm e w \<Longrightarrow> rtimers_ok a n r tm True w'" "rtimers_ok a n r tm e w \<Longrightarrow> rtimers_ok a n None tm True w'"
  by (auto simp: rtimers_ok_def)

lemma timers_stop_recovery:
  "rtimers_ok a n (Some j) tm e w \<Longrightarrow> rtimers_ok (filter (\<lambda>t. fst t \<noteq> j) a) n None tm e False"
  "rtimers_ok a n None tm e w \<Longrightarrow> rtimers_ok a n None tm e False"
  "rtimers_ok a n r tm e w \<Longrightarrow> rtimers_ok a n r tm e False"
  by (auto simp: rtimers_ok_def)

lemma timers_defer:
  "rtimers_ok a n (Some j) tm e w \<Longrightarrow> rtimers_ok (filter (\<lambda>t. fst t \<noteq> j) a @ [(n, RecoveryTimer)]) (Suc n) (Some n) tm e w'"
  "rtimers_ok a n None tm e w \<Longrightarrow> rtimers_ok (a @ [(n, RecoveryTimer)]) (Suc n) (Some n) tm e w'"
  by (auto simp: rtimers_ok_def less_SucI)

named_theorems keeps_ok \<open>operations that keep the invariant of an execution\<close>

text \<open>The invariant does not read these fields.\<close>

lemma rrun_ok_other [simp]:
  "rrun_ok g t i (x\<lparr>ru_CurrentNodeTaskID := a\<rparr>) = rrun_ok g t i x" "rrun_ok g t i (x\<lparr>ru_VisitedNodes := b\<rparr>) = rrun_ok g t i x"
  "rrun_ok g t i (x\<lparr>ru_NodeResults := nr\<rparr>) = rrun_ok g t i x" "rrun_ok g t i (x\<lparr>ru_NodeTaskIDs := b\<rparr>) = rrun_ok g t i x"
  "rrun_ok g t i (x\<lparr>ru_ReviewerTaskID := a\<rparr>) = rrun_ok g t i x" "rrun_ok g t i (x\<lparr>ru_ReviewVerdict := a\<rparr>) = rrun_ok g t i x"
  "rrun_ok g t i (x\<lparr>ru_ReviewFeedback := a\<rparr>) = rrun_ok g t i x" "rrun_ok g t i (x\<lparr>ru_LastReviewFeedback := a\<rparr>) = rrun_ok g t i x"
  "rrun_ok g t i (x\<lparr>ru_ScenarioVerdicts := sv\<rparr>) = rrun_ok g t i x" "rrun_ok g t i (x\<lparr>ru_RequirementBranch := a\<rparr>) = rrun_ok g t i x"
  "rrun_ok g t i (x\<lparr>ru_recoveryReason := a\<rparr>) = rrun_ok g t i x" "rrun_ok g t i (x\<lparr>ru_DirtyNodeIDs := b\<rparr>) = rrun_ok g t i x"
  "rrun_ok g t i (x\<lparr>ru_SortedStoryIDs := b\<rparr>) = rrun_ok g t i x" "rrun_ok g t i (x\<lparr>ru_recoveryInfraRetries := n\<rparr>) = rrun_ok g t i x"
  by (simp_all add: rrun_ok_defs)

lemma rrun_ok_cursors [keeps_ok]:
  "rrun_ok g t i x \<Longrightarrow> - 1 \<le> k \<Longrightarrow> rrun_ok g t i (x\<lparr>ru_CurrentNodeIdx := k\<rparr>)"
  "rrun_ok g t i x \<Longrightarrow> 0 \<le> k \<Longrightarrow> rrun_ok g t i (x\<lparr>ru_CurrentStoryIdx := k\<rparr>)"
  by (simp_all add: rrun_ok_defs)

lemma rrun_ok_node_idx: "rrun_ok g t i x \<Longrightarrow> - 1 \<le> ru_CurrentNodeIdx x"
  by (simp add: rrun_ok_defs)

lemma rrun_ok_send [keeps_ok]: "rrun_ok g t i x \<Longrightarrow> \<not> is_report e \<Longrightarrow> rsent_ok e \<Longrightarrow> rrun_ok g t i (send e x)"
  by (simp add: rrun_ok_defs send_def)

lemma not_report [simp]:
  "\<not> is_report (SendReqPhase a)" "\<not> is_report (SendReqNode b)" "\<not> is_report (SendNodeResults d)" "\<not> is_report (SendReqReset k)"
  "\<not> is_report (SendTaskCreate e)" "\<not> is_report (SendReviewTask k)" "\<not> is_report (ClaimStory k l s)"
  "\<not> is_report (AddReviewWorktree k l)" "\<not> is_report (DropWorktree k)" "\<not> is_report (AddBranch k l)" "\<not> is_report (DropBranch k)"
  "\<not> is_report (SendPlanDecision k p)" "\<not> is_report (SendRecovery q)" "is_report (SendComplete f)"
  by (simp_all add: is_report_def)

section \<open>Timers and terminal states\<close>

lemma rrun_ok_start_timeout [keeps_ok]: "rrun_ok g t i x \<Longrightarrow> rrun_ok g t i (startExecutionTimeoutLocked x)"
  by (simp add: rrun_ok_defs startExecutionTimeoutLocked_def) (elim conjE, erule timers_start)

lemma rrun_ok_arm: "rrun_ok g t i x \<Longrightarrow> (a \<longrightarrow> ru_recoveryRestarts x < rg_MaxRecoveryRestarts g) \<Longrightarrow>
  rrun_ok g t i (arm_recovery (x\<lparr>ru_awaitingRecovery := a\<rparr>))"
  by (simp add: rrun_ok_defs arm_recovery_def) (elim conjE, erule timers_arm)

lemma arm_same: "arm_recovery x = arm_recovery (x\<lparr>ru_awaitingRecovery := ru_awaitingRecovery x\<rparr>)" by simp

lemma reports_drop [simp]: "filter is_report (map DropWorktree ws) = []" by (induction ws) simp_all

lemma rrun_ok_end:
  "rrun_ok g t i x \<Longrightarrow> \<not> ru_terminated x \<Longrightarrow> \<not> is_report e \<Longrightarrow> rsent_ok e \<Longrightarrow>
   rrun_ok g t i (cleanupExecutionLocked g ok (publishRequirementCompleteEvent out (send e (x\<lparr>ru_terminated := True\<rparr>))))"
  "rrun_ok g t i x \<Longrightarrow> \<not> ru_terminated x \<Longrightarrow> \<not> is_report e \<Longrightarrow> \<not> is_report e2 \<Longrightarrow> rsent_ok e \<Longrightarrow> rsent_ok e2 \<Longrightarrow>
   rrun_ok g t i (cleanupExecutionLocked g ok (publishRequirementCompleteEvent out (send e2 (send e (x\<lparr>ru_terminated := True\<rparr>)))))"
  by (cases "ru_recoveryTimer x"; cases "ru_timeoutTimer x"; simp add: rrun_ok_defs cleanupExecutionLocked_def
      publishRequirementCompleteEvent_def send_def Let_def stop_recovery_def stop_armed_def; elim conjE; blast intro: timers_end)+

lemma rrun_ok_mark [keeps_ok]:
  assumes "rrun_ok g t i x"
  shows "rrun_ok g t i (markCompletedLocked g x)" "rrun_ok g t i (markFailedLocked g reason x)" "rrun_ok g t i (markErrorLocked g reason x)"
  using assms by (auto simp: markCompletedLocked_def markFailedLocked_def markErrorLocked_def Let_def intro!: rrun_ok_end split: option.split)

lemma rrun_ok_emit [keeps_ok]: "rrun_ok g t i x \<Longrightarrow> rrun_ok g t i (emitExhaustionDecision g ev v f x)"
  by (auto simp: emitExhaustionDecision_def Let_def intro!: keeps_ok)

lemma rrun_ok_stop_recovery: "rrun_ok g t i x \<Longrightarrow> rrun_ok g t i ((stop_recovery x)\<lparr>ru_awaitingRecovery := False\<rparr>)"
  by (cases "ru_recoveryTimer x") (auto simp: rrun_ok_defs stop_recovery_def stop_armed_def intro: timers_stop_recovery)

lemma rrun_ok_defer_or_fail [keeps_ok]:
  assumes "rrun_ok g t i x" shows "rrun_ok g t i (defer_or_fail g reason x)"
proof (cases "deferToAwaitingRecoveryLocked g reason x")
  case None
  then show ?thesis using assms by (simp add: defer_or_fail_def keeps_ok)
next
  case (Some y)
  then show ?thesis using assms
    by (cases "ru_recoveryTimer x"; simp add: defer_or_fail_def deferToAwaitingRecoveryLocked_def Let_def rrun_ok_defs arm_recovery_def send_def
        stop_recovery_def stop_armed_def split: if_splits; elim conjE; hypsubst; simp; blast intro: timers_defer)
qed

section \<open>Dispatch\<close>

lemma rrun_ok_reviewer [keeps_ok]: "rrun_ok g t i x \<Longrightarrow> rrun_ok g t i (dispatchRequirementReviewerLocked g ev x)"
  by (simp add: dispatchRequirementReviewerLocked_def Let_def keeps_ok split: option.split)

lemma next_node_ge: "i \<le> next_node x ns i"
proof (induction ns arbitrary: i)
  case (Cons n ns)
  have "i + 1 \<le> next_node x ns (i + 1)" by (rule Cons.IH)
  then show ?case by simp
qed simp

lemma rrun_ok_next_node [keeps_ok]: "rrun_ok g t i x \<Longrightarrow> rrun_ok g t i (dispatchNextNodeLocked g ev x)"
proof -
  assume x: "rrun_ok g t i x"
  have "- 1 \<le> next_node x ns (ru_CurrentNodeIdx x + 1)" for ns
    using next_node_ge[of "ru_CurrentNodeIdx x + 1" x ns] rrun_ok_node_idx[OF x] by linarith
  then show ?thesis using x by (simp add: dispatchNextNodeLocked_def Let_def keeps_ok split: option.split)
qed

lemma release_queue: "release ds (f, q) = (f', q') \<Longrightarrow> set q' \<subseteq> set q \<union> set ds"
proof (induction ds arbitrary: f q)
  case (Cons d ds)
  then show ?case by (fastforce simp: Let_def split: if_splits)
qed simp

lemma topo_loop_nodes:
  "set q \<union> set order \<subseteq> n_ID ` set nodes \<Longrightarrow> set (topo_loop nodes q indeg order) \<subseteq> n_ID ` set nodes"
proof (induction nodes q indeg order rule: topo_loop.induct)
  case (2 nodes i queue indeg order)
  obtain f' q' where r: "release (dependents_map nodes i) (indeg, queue) = (f', q')" by fastforce
  have "set q' \<subseteq> n_ID ` set nodes" using release_queue[OF r] dependents_nodes[of nodes i] 2(2) by auto
  then show ?case using 2(1)[OF r[symmetric]] 2(2) r by simp
qed simp

lemma topoSort_nodes: "topoSort dag = Inr order \<Longrightarrow> set order \<subseteq> n_ID ` set (dag_Nodes dag)"
  by (auto simp: topoSort_def Let_def dest!: subsetD[OF topo_loop_nodes, rotated] split: if_splits)

lemma rrun_ok_dag: "rrun_ok g t i x \<Longrightarrow> set order \<subseteq> n_ID ` set (dag_Nodes dag) \<Longrightarrow>
  rrun_ok g t i (x\<lparr>ru_DAG := Some dag, ru_SortedNodeIDs := order\<rparr>)"
  by (simp add: rrun_ok_defs)

lemma topoSort_some: "topoSort dag = Inr order \<Longrightarrow> order \<noteq> []"
  by (auto simp: topoSort_def Let_def split: if_splits)

lemma rrun_ok_apply_dag [keeps_ok]: "rrun_ok g t i x \<Longrightarrow> rrun_ok g t i (applyParsedDAGLocked g ev dag x)"
proof -
  assume x: "rrun_ok g t i x"
  then have "0 \<le> ru_CurrentStoryIdx x" by (simp add: rrun_ok_defs)
  then show ?thesis using x
    by (simp add: applyParsedDAGLocked_def Let_def keeps_ok rrun_ok_dag topoSort_nodes topoSort_some phase_ok_dag split: sum.split)
qed

lemma rrun_ok_gap:
  "rrun_ok g t i x \<Longrightarrow> handleRequirementDeliverableGapForPlanLocked g ev plan x = Some y \<Longrightarrow> rrun_ok g t i y"
  "rrun_ok g t i x \<Longrightarrow> handleRequirementDeliverableGapLocked g ev x = Some y \<Longrightarrow> rrun_ok g t i y"
proof -
  show a: "rrun_ok g t i x \<Longrightarrow> handleRequirementDeliverableGapForPlanLocked g ev plan x = Some y \<Longrightarrow> rrun_ok g t i y" for plan
    by (auto simp: handleRequirementDeliverableGapForPlanLocked_def Let_def keeps_ok split: if_splits sum.splits)
  show "rrun_ok g t i x \<Longrightarrow> handleRequirementDeliverableGapLocked g ev x = Some y \<Longrightarrow> rrun_ok g t i y"
    by (auto simp: handleRequirementDeliverableGapLocked_def keeps_ok split: if_splits plan_load.splits intro: a)
qed

lemma rrun_ok_reset_story [keeps_ok]: "rrun_ok g t i x \<Longrightarrow> rrun_ok g t i (resetPerStoryExecutionState x)"
  by (simp add: resetPerStoryExecutionState_def rrun_ok_defs)

lemma rrun_ok_evidence: "rrun_ok g t i x \<Longrightarrow> rrun_ok g t i (snd (applyCompletedStoryEvidenceLocked g ev story x))"
  by (simp add: applyCompletedStoryEvidenceLocked_def Let_def split: option.split)

lemma rrun_ok_story_idx: "rrun_ok g t i x \<Longrightarrow> 0 \<le> ru_CurrentStoryIdx x"
  by (simp add: rrun_ok_defs)

lemma rrun_ok_dispatch_stories [keeps_ok]: "rrun_ok g t i x \<Longrightarrow> rrun_ok g t i (dispatch_stories g ev plan ids x)"
proof (induction ids arbitrary: x)
  case (Cons storyID rest)
  have skip: "rrun_ok g t i (case applyCompletedStoryEvidenceLocked g ev story y of
      (False, y1) \<Rightarrow> markFailedLocked g reason y1
    | (True, y1) \<Rightarrow> if rest \<noteq> []
        then dispatch_stories g ev plan rest (resetPerStoryExecutionState (y1\<lparr>ru_CurrentStoryIdx := ru_CurrentStoryIdx y1 + 1\<rparr>))
        else case handleRequirementDeliverableGapForPlanLocked g ev plan y1 of Some z \<Rightarrow> z | None \<Rightarrow> markCompletedLocked g y1)"
    if y: "rrun_ok g t i y" for story y reason
  proof (cases "applyCompletedStoryEvidenceLocked g ev story y")
    case (Pair b y1)
    have y1: "rrun_ok g t i y1" using rrun_ok_evidence[OF y, of ev story] Pair by simp
    show ?thesis using rrun_ok_story_idx[OF y1] rrun_ok_gap(1)[OF y1]
      by (cases b; simp add: Pair; auto split: option.split intro!: keeps_ok Cons.IH y1)
  qed
  show ?case using Cons.prems
    by (simp only: dispatch_stories.simps Let_def split: option.split sum.split if_split)
      (intro conjI allI impI; (rule skip | rule keeps_ok); simp add: keeps_ok)
qed simp

lemma rrun_ok_current_story [keeps_ok]: "rrun_ok g t i x \<Longrightarrow> rrun_ok g t i (dispatchCurrentStoryLocked g ev plan x)"
  by (simp add: dispatchCurrentStoryLocked_def keeps_ok)

lemma rrun_ok_synthesizer [keeps_ok]: "rrun_ok g t i x \<Longrightarrow> rrun_ok g t i (dispatchSynthesizerLocked g ev x)"
  by (simp add: dispatchSynthesizerLocked_def Let_def keeps_ok split: plan_load.split sum.split)

lemma rrun_ok_advance [keeps_ok]: "rrun_ok g t i x \<Longrightarrow> rrun_ok g t i (advanceToNextStoryLocked g ev x)"
  using rrun_ok_story_idx[of g t i x] by (simp add: advanceToNextStoryLocked_def Let_def keeps_ok split: plan_load.split)

section \<open>Retries\<close>

lemma rrun_ok_retry: "rrun_ok g t i x \<Longrightarrow> \<not> ru_terminated x \<Longrightarrow> ru_RetryCount x < ru_MaxRetries x \<Longrightarrow>
  rrun_ok g t i (x\<lparr>ru_RetryCount := ru_RetryCount x + 1, ru_LastReviewFeedback := f, ru_terminated := False\<rparr>)"
  by (simp add: rrun_ok_defs)

lemma rrun_ok_review_retry: "rrun_ok g t i x \<Longrightarrow> ru_ReviewRetryCount x < review_budget g \<Longrightarrow>
  rrun_ok g t i (x\<lparr>ru_ReviewRetryCount := ru_ReviewRetryCount x + 1\<rparr>)"
  by (simp add: rrun_ok_defs)

lemma rrun_ok_fixable [keeps_ok]:
  assumes "rrun_ok g t i x" "\<not> ru_terminated x" "can_retry x"
  shows "rrun_ok g t i (startFixableRetryLocked g ev f x)"
proof -
  have "rrun_ok g t i (x\<lparr>ru_RetryCount := ru_RetryCount x + 1, ru_LastReviewFeedback := f, ru_ReviewRetryCount := 0,
      ru_terminated := False, ru_DirtyNodeIDs := [], ru_VisitedNodes := [], ru_NodeResults := kept, ru_CurrentNodeIdx := - 1\<rparr>)" for kept
    using assms by (simp add: rrun_ok_defs can_retry_def)
  then show ?thesis by (simp add: startFixableRetryLocked_def Let_def keeps_ok)
qed

lemma rrun_ok_walk [keeps_ok]: "rrun_ok g t i x \<Longrightarrow> rrun_ok g t i (snd (walk_story ev slug s ts x))"
  by (induction ts arbitrary: x) (simp_all add: Let_def keeps_ok)

lemma walk_terminated: "ru_terminated (snd (walk_story ev slug s ts x)) = ru_terminated x"
  by (induction ts arbitrary: x) (simp_all add: Let_def send_def)

lemma rrun_ok_reopen [keeps_ok]: "rrun_ok g t i x \<Longrightarrow> rrun_ok g t i (snd (reopenStoriesFromPlan ev slug plan ids x))"
proof (induction ids arbitrary: x)
  case (Cons s ids)
  then show ?case using rrun_ok_walk[OF Cons.prems] by (fastforce simp: split_beta split: option.split)
qed simp

lemma reopen_terminated: "ru_terminated (snd (reopenStoriesFromPlan ev slug plan ids x)) = ru_terminated x"
  by (induction ids arbitrary: x) (simp_all add: split_beta walk_terminated split: option.split)

lemma rrun_ok_restructure_story [keeps_ok]: "rrun_ok g t i x \<Longrightarrow> rrun_ok g t i (snd (resetCurrentStoryForRestructureLocked ev x))"
  by (simp add: resetCurrentStoryForRestructureLocked_def split_beta keeps_ok split: option.split plan_load.split)

lemma rrun_ok_recreate [keeps_ok]: "rrun_ok g t i x \<Longrightarrow> rrun_ok g t i (recreate_branch g x)"
  by (simp add: recreate_branch_def keeps_ok)

lemma rrun_ok_reset_dag [keeps_ok]: "rrun_ok g t i x \<Longrightarrow> rrun_ok g t i (reset_dag x)"
  by (simp add: reset_dag_def rrun_ok_defs)

lemma rrun_ok_reset_review [keeps_ok]: "rrun_ok g t i x \<Longrightarrow> rrun_ok g t i (reset_review x)"
  by (simp add: reset_review_def rrun_ok_defs)

lemma rrun_ok_restructure [keeps_ok]:
  assumes "rrun_ok g t i x" "\<not> ru_terminated x" "can_retry x"
  shows "rrun_ok g t i (startRestructureRetryLocked g ev f x)"
proof -
  let ?x = "x\<lparr>ru_RetryCount := ru_RetryCount x + 1, ru_LastReviewFeedback := f, ru_terminated := False\<rparr>"
  have "rrun_ok g t i ?x" using assms by (intro rrun_ok_retry) (simp_all add: can_retry_def)
  from rrun_ok_restructure_story[OF this, of ev] show ?thesis
    by (cases "resetCurrentStoryForRestructureLocked ev ?x") (simp add: startRestructureRetryLocked_def Let_def keeps_ok split: bool.split)
qed

section \<open>Reviews and nodes\<close>

lemma rrun_ok_invalid [keeps_ok]: "rrun_ok g t i x \<Longrightarrow> rrun_ok g t i (handleInvalidRequirementReviewResultLocked g ev r x)"
  by (simp add: handleInvalidRequirementReviewResultLocked_def keeps_ok rrun_ok_review_retry)

lemma rrun_ok_approved_gap:
  assumes "rrun_ok g t i x" "\<not> ru_terminated x"
  shows "handleApprovedClaimMismatchLocked g x = Some y \<Longrightarrow> rrun_ok g t i y"
    "handleApprovedDeliverableGapLocked g ev x = Some y \<Longrightarrow> rrun_ok g t i y"
proof -
  show "handleApprovedClaimMismatchLocked g x = Some y \<Longrightarrow> rrun_ok g t i y"
    using assms by (auto simp: handleApprovedClaimMismatchLocked_def keeps_ok split: if_splits)
  have "handleApprovedDeliverableGapForPlanLocked g ev plan x = Some y \<Longrightarrow> rrun_ok g t i y" for plan
    using assms by (auto simp: handleApprovedDeliverableGapForPlanLocked_def Let_def keeps_ok split: if_splits option.splits sum.splits)
  then show "handleApprovedDeliverableGapLocked g ev x = Some y \<Longrightarrow> rrun_ok g t i y"
    using assms(1) by (auto simp: handleApprovedDeliverableGapLocked_def keeps_ok split: if_splits plan_load.splits)
qed

lemma rrun_ok_approved [keeps_ok]:
  assumes "rrun_ok g t i x" "\<not> ru_terminated x"
  shows "rrun_ok g t i (handleApprovedVerdictLocked g ev x)"
proof -
  have "rrun_ok g t i (publishStoryCompleteLocked x)"
    using assms(1) by (simp add: publishStoryCompleteLocked_def keeps_ok split: option.split)
  then show ?thesis using rrun_ok_approved_gap[OF assms] rrun_ok_gap(2)
    by (auto simp: handleApprovedVerdictLocked_def Let_def keeps_ok split: option.split)
qed

lemma rrun_ok_review [keeps_ok]:
  assumes "rrun_ok g t i x" "\<not> ru_terminated x" "0 \<le> ru_RetryCount x"
  shows "rrun_ok g t i (handleRequirementReviewerCompleteLocked g ev event raw x)"
  using assms by (simp add: handleRequirementReviewerCompleteLocked_def Let_def keeps_ok can_retry_def split: sum.split)

lemma rrun_ok_node_retry:
  assumes "rrun_ok g t i x" "\<not> ru_terminated x" "can_retry x" "0 \<le> ru_CurrentNodeIdx x"
  shows "rrun_ok g t i (retryNodeAtRequirementLevelLocked g ev n f x)"
proof -
  have "rrun_ok g t i (x\<lparr>ru_RetryCount := ru_RetryCount x + 1, ru_LastReviewFeedback := f, ru_terminated := False,
      ru_DirtyNodeIDs := [n], ru_VisitedNodes := v\<rparr>)" for v
    using assms(1-3) by (simp add: rrun_ok_retry can_retry_def)
  then show ?thesis using assms(4) by (simp add: retryNodeAtRequirementLevelLocked_def Let_def keeps_ok)
qed

lemma rrun_ok_node [keeps_ok]:
  assumes "rrun_ok g t i x" "\<not> ru_terminated x"
  shows "rrun_ok g t i (handleNodeCompleteLocked g ev event x)"
  using assms
  by (simp add: handleNodeCompleteLocked_def handleNodeFailureLocked_def recordNodeSuccessLocked_def Let_def keeps_ok rrun_ok_node_retry
      can_retry_def split: sum.split option.split)

section \<open>Recovery\<close>

lemma rrun_ok_arm_again [keeps_ok]: "rrun_ok g t i x \<Longrightarrow> rrun_ok g t i (arm_recovery x)"
  by (subst arm_same, rule rrun_ok_arm) (simp_all add: rrun_ok_defs)

lemma rrun_ok_give_up: "rrun_ok g t i x \<Longrightarrow> rrun_ok g t i (x\<lparr>ru_awaitingRecovery := False, ru_recoveryTimer := None\<rparr>)"
  by (simp add: rrun_ok_defs) (simp add: rtimers_ok_def)

lemma rrun_ok_recovery_timeout [keeps_ok]: "rrun_ok g t i x \<Longrightarrow> rrun_ok g t i (handleRecoveryTimeout g ev x)"
  by (simp add: handleRecoveryTimeout_def Let_def keeps_ok rrun_ok_give_up split: option.split)

lemma walk_recovery: "ru_recoveryRestarts (snd (walk_story ev slug s ts x)) = ru_recoveryRestarts x"
  "ru_awaitingRecovery (snd (walk_story ev slug s ts x)) = ru_awaitingRecovery x"
  by (induction ts arbitrary: x) (simp_all add: Let_def send_def)

lemma reopen_recovery: "ru_recoveryRestarts (snd (reopenStoriesFromPlan ev slug plan ids x)) = ru_recoveryRestarts x"
  "ru_awaitingRecovery (snd (reopenStoriesFromPlan ev slug plan ids x)) = ru_awaitingRecovery x"
  by (induction ids arbitrary: x) (simp_all add: split_beta walk_recovery split: option.split)

lemma reopen_owned:
  "rrun_ok g t i x \<Longrightarrow> rrun_ok g t i (snd (reopenOwnedStoriesForRecoveryLocked ev x))"
  "ru_terminated (snd (reopenOwnedStoriesForRecoveryLocked ev x)) = ru_terminated x"
  "ru_recoveryRestarts (snd (reopenOwnedStoriesForRecoveryLocked ev x)) = ru_recoveryRestarts x"
  by (simp_all add: reopenOwnedStoriesForRecoveryLocked_def Let_def split_beta keeps_ok reopen_terminated reopen_recovery split: plan_load.split)

lemma send_waiting: "send e (x\<lparr>ru_awaitingRecovery := a\<rparr>) = (send e x)\<lparr>ru_awaitingRecovery := a\<rparr>"
  by (simp add: send_def)

lemma walk_waiting: "walk_story ev slug s ts (x\<lparr>ru_awaitingRecovery := a\<rparr>) = apsnd (\<lambda>y. y\<lparr>ru_awaitingRecovery := a\<rparr>) (walk_story ev slug s ts x)"
  by (induction ts arbitrary: x) (simp_all add: Let_def send_waiting)

lemma reopen_waiting:
  "reopenStoriesFromPlan ev slug plan ids (x\<lparr>ru_awaitingRecovery := a\<rparr>) = apsnd (\<lambda>y. y\<lparr>ru_awaitingRecovery := a\<rparr>) (reopenStoriesFromPlan ev slug plan ids x)"
  by (induction ids arbitrary: x) (simp_all add: walk_waiting split_beta apsnd_def map_prod_def split: option.split)

lemma reopen_owned_waiting:
  "reopenOwnedStoriesForRecoveryLocked ev (x\<lparr>ru_awaitingRecovery := a\<rparr>) = apsnd (\<lambda>y. y\<lparr>ru_awaitingRecovery := a\<rparr>) (reopenOwnedStoriesForRecoveryLocked ev x)"
  by (simp add: reopenOwnedStoriesForRecoveryLocked_def Let_def reopen_waiting split_beta apsnd_def map_prod_def split: plan_load.split)

text \<open>The execution may be marked as waiting before its timer is armed.\<close>

lemma rrun_ok_resume:
  assumes "rrun_ok g t i (x\<lparr>ru_awaitingRecovery := False\<rparr>)" "\<not> ru_terminated x" "ru_recoveryRestarts x < rg_MaxRecoveryRestarts g"
  shows "rrun_ok g t i (resumeFromRecoveryLocked g ev x)"
proof -
  obtain ok y where r: "reopenOwnedStoriesForRecoveryLocked ev x = (ok, y)" by fastforce
  have y: "rrun_ok g t i (y\<lparr>ru_awaitingRecovery := False\<rparr>)" "\<not> ru_terminated y" "ru_recoveryRestarts y < rg_MaxRecoveryRestarts g"
    using reopen_owned(1)[OF assms(1), of ev] reopen_owned(2,3)[of ev x] assms(2,3) r by (simp_all add: reopen_owned_waiting)
  have "rrun_ok g t i ((stop_recovery y)\<lparr>ru_awaitingRecovery := False, ru_terminated := False, ru_recoveryRestarts := ru_recoveryRestarts y + 1\<rparr>)"
    using rrun_ok_stop_recovery[OF y(1)] y(2,3) by (simp add: rrun_ok_defs stop_recovery_def stop_armed_def split: option.splits)
  moreover have "rrun_ok g t i z \<Longrightarrow> rrun_ok g t i (z\<lparr>ru_RetryCount := 0\<rparr>)" for z by (simp add: rrun_ok_defs)
  moreover have "rrun_ok g t i (arm_recovery (y\<lparr>ru_awaitingRecovery := True\<rparr>))" using rrun_ok_arm[OF y(1), of True] y(3) by simp
  ultimately show ?thesis
    by (simp add: resumeFromRecoveryLocked_def r Let_def keeps_ok split: bool.split)
qed

lemma rrun_ok_not_waiting: "rrun_ok g t i x \<Longrightarrow> rrun_ok g t i (x\<lparr>ru_awaitingRecovery := False\<rparr>)"
  by (simp add: rrun_ok_defs) (elim conjE, erule timers_stop_recovery(3))

lemma rrun_ok_abandon [keeps_ok]: "rrun_ok g t i x \<Longrightarrow> rrun_ok g t i (abandon g x)"
  by (cases "ru_recoveryTimer x"; cases "ru_timeoutTimer x"; simp add: rrun_ok_defs abandon_def cleanupExecutionLocked_def
      Let_def stop_recovery_def stop_armed_def split: if_splits; elim conjE; blast intro: timers_end)

lemma rrun_ok_fire [keeps_ok]:
  assumes "rrun_ok g t i x" "(j, k) \<in> set (ru_armed x)"
  shows "rrun_ok g t i (fire g j k ev x)"
proof (cases k)
  case ExecutionTimer
  show ?thesis
  proof (cases "ru_terminated x")
    case True
    then show ?thesis using assms ExecutionTimer
      by (simp add: fire_def markErrorLocked_def rrun_ok_defs) (auto simp: rtimers_ok_def)
  next
    case False
    then show ?thesis using assms ExecutionTimer
      by (cases "ru_recoveryTimer x"; cases "ru_timeoutTimer x"; simp add: fire_def markErrorLocked_def rrun_ok_defs cleanupExecutionLocked_def
        publishRequirementCompleteEvent_def send_def Let_def stop_recovery_def stop_armed_def; elim conjE; blast intro: timers_end)
  qed
next
  case RecoveryTimer
  let ?y = "x\<lparr>ru_armed := filter (\<lambda>t. fst t \<noteq> j) (ru_armed x)\<rparr>"
  have y: "rrun_ok g t i (?y\<lparr>ru_awaitingRecovery := False\<rparr>)"
    using assms RecoveryTimer by (simp add: rrun_ok_defs) (auto simp: rtimers_ok_def)
  show ?thesis
  proof (cases "ru_awaitingRecovery x")
    case False
    then show ?thesis using y RecoveryTimer by (simp add: fire_def handleRecoveryTimeout_def rrun_ok_defs)
  next
    case True
    then have "ru_recoveryRestarts x < rg_MaxRecoveryRestarts g" using assms(1) by (simp add: rrun_ok_defs)
    then have "rrun_ok g t i (arm_recovery (?y\<lparr>ru_awaitingRecovery := False, ru_recoveryInfraRetries := n, ru_awaitingRecovery := True\<rparr>))" for n
      using y by (intro rrun_ok_arm) simp_all
    then have a: "rrun_ok g t i (arm_recovery (?y\<lparr>ru_recoveryInfraRetries := n\<rparr>))" for n
      using True by (simp add: rrun_ok_defs arm_recovery_def)
    have "rrun_ok g t i (?y\<lparr>ru_recoveryInfraRetries := n, ru_awaitingRecovery := False, ru_recoveryTimer := None\<rparr>)" for n
      using rrun_ok_give_up[OF y] by (simp add: rrun_ok_defs)
    then show ?thesis using True RecoveryTimer a by (simp add: fire_def handleRecoveryTimeout_def Let_def keeps_ok split: option.split)
  qed
qed

end
