(* ===== verification/Req_Machine.thy ===== *)
theory Req_Machine
  imports Req_Invariant
begin

text \<open>
  The requirement executor as a transition system.  An event of theory \<open>Req_Events\<close> is a sequence of
  operations that each run under the mutex of one execution; locale \<open>locked_operation\<close> is what such
  an operation promises, interpreted on every operation the events run, and the invariant of the
  component follows once for all of them.  A step may be any event with any answer of the outside
  world; rows read from EXECUTION_STATES are assumed to hold what this component put into them
  (\<open>row_ok\<close>).  Shutting down is not a step.
\<close>

section \<open>The invariant of the component\<close>

definition table_ok :: "RComp \<Rightarrow> bool" where
  "table_ok c \<longleftrightarrow> (\<forall>k r. map_of (rx_active c) k = Some r \<longrightarrow> r < length (rx_execs c) \<and> ru_EntityID (rx_execs c ! r) = k
     \<and> \<not> ru_terminated (rx_execs c ! r))"

definition comp_ok :: "RComp \<Rightarrow> bool" where
  "comp_ok c \<longleftrightarrow> 1 \<le> rg_MaxRecoveryRestarts (rx_config c) \<and> table_ok c
     \<and> (\<forall>r < length (rx_execs c). rrun_ok (rx_config c) True (ru_EntityID (rx_execs c ! r)) (rx_execs c ! r))
     \<and> (\<forall>q \<in> set (rx_starting c). fst q < length (rx_execs c))
     \<and> (\<forall>r \<in> set (rx_created c). r < length (rx_execs c))"

lemma locked_frame [simp]:
  "rx_config (locked r f c) = rx_config c" "length (rx_execs (locked r f c)) = length (rx_execs c)"
  "rx_starting (locked r f c) = rx_starting c" "rx_created (locked r f c) = rx_created c"
  by (simp_all add: locked_def Let_def)

lemma comp_ok_run: "comp_ok c \<Longrightarrow> r < length (rx_execs c) \<Longrightarrow> rrun_ok (rx_config c) True (ru_EntityID (rx_execs c ! r)) (rx_execs c ! r)"
  by (simp add: comp_ok_def)

lemma comp_ok_locked:
  assumes c: "comp_ok c" "r < length (rx_execs c)"
    and f: "\<And>t i. rrun_ok (rx_config c) t i ((rx_execs c ! r)\<lparr>ru_forgotten := False\<rparr>)
      \<Longrightarrow> rrun_ok (rx_config c) t i (f ((rx_execs c ! r)\<lparr>ru_forgotten := False\<rparr>))"
  shows "comp_ok (locked r f c)"
proof -
  let ?x = "rx_execs c ! r" and ?g = "rx_config c"
  let ?y = "f (?x\<lparr>ru_forgotten := False\<rparr>)"
  have "rrun_ok ?g (ru_terminated ?x) (ru_EntityID ?x) (?x\<lparr>ru_forgotten := False\<rparr>)"
    using comp_ok_run[OF c] by (simp add: rrun_ok_defs)
  then have y: "rrun_ok ?g (ru_terminated ?x) (ru_EntityID ?x) ?y" by (rule f)
  then have yt: "rrun_ok ?g True (ru_EntityID ?y) ?y" and i: "ru_EntityID ?y = ru_EntityID ?x"
    and gone: "ru_terminated ?y \<Longrightarrow> \<not> ru_terminated ?x \<Longrightarrow> ru_forgotten ?y"
    by (auto simp: rrun_ok_def)
  have "table_ok (locked r f c)"
    using c gone i unfolding table_ok_def comp_ok_def
    by (auto simp: locked_def Let_def nth_list_update delete_conv split: if_splits)
  moreover have "rrun_ok ?g True (ru_EntityID (rx_execs (locked r f c) ! q)) (rx_execs (locked r f c) ! q)" if "q < length (rx_execs c)" for q
    using that comp_ok_run[OF c(1) that] yt c(2) by (auto simp: locked_def Let_def nth_list_update)
  ultimately show ?thesis using c(1) by (simp add: comp_ok_def)
qed

locale locked_operation =
  fixes op :: "RConfig \<Rightarrow> reqRun \<Rightarrow> reqRun" and pre :: "RConfig \<Rightarrow> reqRun \<Rightarrow> bool"
  assumes keeps: "rrun_ok g t i x \<Longrightarrow> pre g x \<Longrightarrow> rrun_ok g t i (op g x)"
begin

lemma keeps_comp:
  "comp_ok c \<Longrightarrow> r < length (rx_execs c) \<Longrightarrow> pre (rx_config c) ((rx_execs c ! r)\<lparr>ru_forgotten := False\<rparr>)
   \<Longrightarrow> comp_ok (locked r (op (rx_config c)) c)"
  by (rule comp_ok_locked) (simp_all add: keeps)

end

interpretation review: locked_operation "\<lambda>g. handleRequirementReviewerCompleteLocked g ev event raw" "\<lambda>g x. \<not> ru_terminated x"
  for ev event raw
  by unfold_locales (rule rrun_ok_review; simp add: rrun_ok_defs)

interpretation node: locked_operation "\<lambda>g. handleNodeCompleteLocked g ev event" "\<lambda>g x. \<not> ru_terminated x" for ev event
  by unfold_locales (rule rrun_ok_node)

interpretation resume: locked_operation "\<lambda>g. resumeFromRecoveryLocked g ev"
  "\<lambda>g x. \<not> ru_terminated x \<and> ru_recoveryRestarts x < rg_MaxRecoveryRestarts g" for ev
  by unfold_locales (simp add: rrun_ok_resume rrun_ok_not_waiting)

interpretation fired: locked_operation "\<lambda>g. fire g j k ev" "\<lambda>g x. (j, k) \<in> set (ru_armed x)" for j k ev
  by unfold_locales (rule rrun_ok_fire)

interpretation abandoned: locked_operation abandon "\<lambda>g x. True"
  by unfold_locales (rule rrun_ok_abandon)

interpretation synthesis: locked_operation "\<lambda>g x. dispatchSynthesizerLocked g ev (startExecutionTimeoutLocked x)" "\<lambda>g x. True" for ev
  by unfold_locales (intro keeps_ok)

lemma rrun_ok_resume_run [keeps_ok]: "rrun_ok g t i x \<Longrightarrow> rrun_ok g t i (resume_run g ev x)"
  by (simp add: resume_run_def keeps_ok)

interpretation restarted: locked_operation "\<lambda>g. resume_run g ev" "\<lambda>g x. True" for ev
  by unfold_locales (rule rrun_ok_resume_run)

lemma rrun_ok_try_branch [keeps_ok]: "rrun_ok g t i x \<Longrightarrow> rrun_ok g t i (try_branch ev name base x)"
  by (simp add: try_branch_def Let_def keeps_ok split: branch_outcome.split)

interpretation branched: locked_operation "\<lambda>g x. (try_branch ev name base x)\<lparr>ru_RequirementBranch := name\<rparr>" "\<lambda>g x. True" for ev name base
  by unfold_locales (simp add: keeps_ok)

interpretation unbranched: locked_operation "\<lambda>g x. markErrorLocked g reason (try_branch ev name base x)" "\<lambda>g x. True" for reason ev name base
  by unfold_locales (intro keeps_ok)

section \<open>Every event keeps it\<close>

lemma find_exec_active: "find_exec P c ks = Some r \<Longrightarrow> (\<exists>k. map_of (rx_active c) k = Some r) \<and> P (rx_execs c ! r)"
  by (induction ks) (auto split: option.splits if_splits)

lemma active_live: "comp_ok c \<Longrightarrow> map_of (rx_active c) k = Some r \<Longrightarrow> r < length (rx_execs c) \<and> \<not> ru_terminated (rx_execs c ! r)"
  by (auto simp: comp_ok_def table_ok_def)

lemma find_exec_live: "comp_ok c \<Longrightarrow> find_exec P c ks = Some r \<Longrightarrow> r < length (rx_execs c) \<and> \<not> ru_terminated (rx_execs c ! r) \<and> P (rx_execs c ! r)"
  using find_exec_active active_live by fastforce

text \<open>A new execution.\<close>

definition add_exec :: "reqRun \<Rightarrow> RComp \<Rightarrow> RComp" where
  "add_exec x c = c\<lparr>rx_execs := rx_execs c @ [x], rx_active := AList.update (ru_EntityID x) (length (rx_execs c)) (rx_active c)\<rparr>"

lemma comp_ok_add:
  "comp_ok c \<Longrightarrow> rrun_ok (rx_config c) True (ru_EntityID x) x \<Longrightarrow> \<not> ru_terminated x \<Longrightarrow> comp_ok (add_exec x c)"
  by (auto simp: comp_ok_def table_ok_def add_exec_def nth_append update_conv less_Suc_eq split: if_splits)

lemma reports_zero [simp]: "reports reqRun_zero = 0" by (simp add: reports_def reqRun_zero_def)

definition fresh_run :: "reqRun \<Rightarrow> bool" where
  "fresh_run x \<longleftrightarrow> \<not> ru_terminated x \<and> ru_out x = [] \<and> reports x = 0 \<and> cursors_ok x \<and> 0 \<le> ru_RetryCount x \<and> ru_RetryCount x \<le> max 0 (ru_MaxRetries x)
     \<and> ru_ReviewRetryCount x = 0 \<and> ru_recoveryRestarts x = 0 \<and> \<not> ru_awaitingRecovery x
     \<and> ru_armed x = [] \<and> ru_recoveryTimer x = None \<and> ru_timeoutTimer x = None"

lemma comp_ok_fresh: "comp_ok c \<Longrightarrow> fresh_run x \<Longrightarrow> comp_ok (add_exec x c)"
  by (rule comp_ok_add) (simp_all add: fresh_run_def rrun_ok_def budgets_ok_def comp_ok_def rtimers_ok_def)

lemma new_exec_fresh: "fresh_run (new_exec g key e)"
  by (simp add: fresh_run_def new_exec_def reqRun_zero_def cursors_ok_def reports_def)

text \<open>What rows hold: the cursors, nodes and counters an execution has put into them.\<close>

definition row_ok :: "RConfig \<Rightarrow> RequirementExecution \<Rightarrow> bool" where
  "row_ok g e \<longleftrightarrow> - 1 \<le> re_CurrentNodeIdx e \<and> 0 \<le> re_CurrentStoryIdx e
     \<and> set (re_SortedNodeIDs e) \<subseteq> (case re_DAGRaw e of None \<Rightarrow> {} | Some d \<Rightarrow> n_ID ` set (dag_Nodes d))
     \<and> 0 \<le> re_RetryCount e \<and> re_RetryCount e \<le> max 0 (if re_MaxRetries e = 0 then rg_MaxRequirementRetries g else re_MaxRetries e)"

definition load_ok :: "RConfig \<Rightarrow> row_load \<Rightarrow> bool" where
  "load_ok g row = (case row of RowLoaded e \<Rightarrow> row_ok g e | _ \<Rightarrow> True)"

lemma rebuilt_fresh: "row_ok g e \<Longrightarrow> fresh_run (rebuildExecFromKV g key e)"
  by (simp add: fresh_run_def rebuildExecFromKV_def reqRun_zero_def cursors_ok_def reports_def row_ok_def)

lemma loaded_fresh:
  "load_ok g row \<Longrightarrow> loadNonTerminalReqExecFromKV g key row = Some x \<Longrightarrow> fresh_run x"
  "load_ok g row \<Longrightarrow> loadTerminalReqExecFromKV g key row = Some x \<Longrightarrow> fresh_run x"
  by (auto simp: load_ok_def loadNonTerminalReqExecFromKV_def loadTerminalReqExecFromKV_def rebuilt_fresh split: row_load.splits if_splits)

lemma comp_ok_lists: "comp_ok c \<Longrightarrow> set s \<subseteq> set (rx_starting c) \<Longrightarrow> comp_ok (c\<lparr>rx_starting := s\<rparr>)"
  "comp_ok c \<Longrightarrow> set q \<subseteq> {..<length (rx_execs c)} \<Longrightarrow> comp_ok (c\<lparr>rx_created := q\<rparr>)"
  by (auto simp: comp_ok_def table_ok_def)

named_theorems event_ok \<open>events that keep the invariant of the component\<close>

lemma pending_ok [event_ok]:
  assumes "comp_ok c" shows "comp_ok (handleReqPending key entry ev c)"
proof -
  have "comp_ok ((add_exec (new_exec (rx_config c) key e) c)\<lparr>rx_starting := rx_starting c @ [(length (rx_execs c), p, b)]\<rparr>)" for e p b
    using comp_ok_fresh[OF assms new_exec_fresh] by (auto simp: comp_ok_def table_ok_def add_exec_def)
  then show ?thesis using assms by (auto simp: handleReqPending_def Let_def add_exec_def split: option.split)
qed

lemma branch_ok [event_ok]:
  assumes c: "comp_ok c" "(r, p, b) \<in> set (rx_starting c)"
  shows "comp_ok (init_branch r p b ev c)"
proof -
  let ?c = "c\<lparr>rx_starting := remove1 (r, p, b) (rx_starting c)\<rparr>"
  have d: "comp_ok ?c" "r < length (rx_execs ?c)"
    using c comp_ok_lists(1)[OF c(1) set_remove1_subset] by (simp_all add: comp_ok_def) fastforce
  have more: "comp_ok (x\<lparr>rx_created := rx_created x @ [r]\<rparr>)" if "comp_ok x" "r < length (rx_execs x)" for x
    by (rule comp_ok_lists(2)) (use that in \<open>auto simp: comp_ok_def\<close>)
  show ?thesis using more[OF d] more[OF branched.keeps_comp[OF d]] unbranched.keeps_comp[OF d] d(2)
    by (simp add: init_branch_def Let_def split: option.split)
qed

lemma dispatch_ok [event_ok]:
  assumes "comp_ok c" "r \<in> set (rx_created c)" shows "comp_ok (init_dispatch r ev c)"
proof -
  have r: "set (rx_created c) \<subseteq> {..<length (rx_execs c)}" using assms(1) by (auto simp: comp_ok_def)
  have d: "comp_ok (c\<lparr>rx_created := remove1 r (rx_created c)\<rparr>)"
    using r set_remove1_subset[of r "rx_created c"] by (intro comp_ok_lists(2)[OF assms(1)]) blast
  show ?thesis using synthesis.keeps_comp[OF d, of r ev] assms(2) r by (auto simp: init_dispatch_def)
qed

lemma loop_ok [event_ok]: "comp_ok c \<Longrightarrow> comp_ok (handleLoopEntityUpdate entry ev c)"
  by (auto simp: handleLoopEntityUpdate_def Let_def findExecByTaskID_def split: option.split
      intro!: review.keeps_comp dest: find_exec_live)

lemma timer_ok [event_ok]: "comp_ok c \<Longrightarrow> r < length (rx_execs c) \<Longrightarrow> (j, k) \<in> set (ru_armed (rx_execs c ! r)) \<Longrightarrow> comp_ok (timer_fired r j k ev c)"
  unfolding timer_fired_def by (rule fired.keeps_comp) simp_all

lemma comp_ok_append: "comp_ok c \<Longrightarrow> fresh_run x \<Longrightarrow> comp_ok (c\<lparr>rx_execs := rx_execs c @ [x]\<rparr>)"
  using comp_ok_fresh[of c x]
  by (fastforce simp: comp_ok_def table_ok_def add_exec_def nth_append less_Suc_eq)

lemma rrun_ok_stop_timers: "rrun_ok g True i x \<Longrightarrow> rrun_ok g True i (stop_timers (x\<lparr>ru_terminated := True\<rparr>))"
  by (cases "ru_recoveryTimer x"; cases "ru_timeoutTimer x"; simp add: rrun_ok_defs stop_timers_def stop_armed_def split: if_splits;
      elim conjE; blast intro: timers_end)

lemma stop_timers_same [simp]: "ru_EntityID (stop_timers x) = ru_EntityID x" "ru_terminated (stop_timers x) = ru_terminated x"
  by (simp_all add: stop_timers_def stop_armed_def split: option.split)

lemma comp_ok_replace_one:
  assumes "comp_ok c" shows "comp_ok (replace_one r k c)"
proof (cases "map_of (rx_active c) k")
  case (Some i)
  let ?y = "stop_timers ((rx_execs c ! i)\<lparr>ru_terminated := True\<rparr>)"
  let ?d = "c\<lparr>rx_execs := (rx_execs c)[i := ?y], rx_active := AList.delete k (rx_active c)\<rparr>"
  have i: "i < length (rx_execs c)" "ru_EntityID (rx_execs c ! i) = k" using Some assms by (auto simp: comp_ok_def table_ok_def)
  have "rrun_ok (rx_config c) True (ru_EntityID (rx_execs ?d ! q)) (rx_execs ?d ! q)" if "q < length (rx_execs c)" for q
    using that comp_ok_run[OF assms that] rrun_ok_stop_timers i by (auto simp: nth_list_update)
  moreover have "table_ok ?d"
    using assms i by (auto simp: comp_ok_def table_ok_def delete_conv nth_list_update split: if_splits)
  ultimately have "comp_ok ?d" using assms by (simp add: comp_ok_def)
  then show ?thesis using assms Some by (simp add: replace_one_def)
qed (use assms in \<open>simp add: replace_one_def\<close>)

lemma replace_one_frame [simp]: "length (rx_execs (replace_one r k c)) = length (rx_execs c)" "rx_execs (replace_one r k c) ! r = rx_execs c ! r"
  by (auto simp: replace_one_def nth_list_update split: option.split)

lemma replace_fold:
  "comp_ok c \<Longrightarrow> comp_ok (fold (replace_one r) ks c) \<and> length (rx_execs (fold (replace_one r) ks c)) = length (rx_execs c)
    \<and> rx_execs (fold (replace_one r) ks c) ! r = rx_execs c ! r"
  by (induction ks arbitrary: c) (simp_all add: comp_ok_replace_one)

lemma replace_ok: "comp_ok c \<Longrightarrow> r < length (rx_execs c) \<Longrightarrow> \<not> ru_terminated (rx_execs c ! r) \<Longrightarrow> comp_ok (replaceActiveExecForRequirement r ev c)"
  using replace_fold[of c r "active_keys ev c"]
  by (auto simp: replaceActiveExecForRequirement_def Let_def comp_ok_def table_ok_def update_conv split: if_splits)

lemma recover_ok:
  assumes "comp_ok c" "\<forall>k. load_ok (rx_config c) (ev_row ev k)" "recoverExecForTerminalTaskCompletion t ev c = (o1, d)"
  shows "comp_ok d \<and> (\<forall>r. o1 = Some r \<longrightarrow> r < length (rx_execs d))"
proof -
  have *: "comp_ok (replaceActiveExecForRequirement (length (rx_execs c)) ev (c\<lparr>rx_execs := rx_execs c @ [x]\<rparr>))
      \<and> length (rx_execs c) < length (rx_execs (replaceActiveExecForRequirement (length (rx_execs c)) ev (c\<lparr>rx_execs := rx_execs c @ [x]\<rparr>)))"
    if "fresh_run x" for x
  proof -
    let ?c = "c\<lparr>rx_execs := rx_execs c @ [x]\<rparr>"
    have c: "comp_ok ?c" by (rule comp_ok_append[OF assms(1) that])
    show ?thesis using replace_ok[OF c, of "length (rx_execs c)" ev] replace_fold[OF c, of "length (rx_execs c)" "active_keys ev ?c"] that
      by (simp add: fresh_run_def replaceActiveExecForRequirement_def Let_def)
  qed
  have f: "loadNonTerminalReqExecFromKV (rx_config c) key (ev_row ev key) = Some x \<Longrightarrow> fresh_run x" for key x
    using loaded_fresh(1) assms(2) by blast
  show ?thesis using assms(1,3)
    by (auto simp: recoverExecForTerminalTaskCompletion_def Let_def * split: if_splits option.splits dest!: f)
qed

lemma task_ok [event_ok]:
  assumes "comp_ok c" "\<forall>k. load_ok (rx_config c) (ev_row ev k)"
  shows "comp_ok (handleTaskStateChange entry ev c)"
proof (cases entry)
  case (Some t)
  obtain o1 d where d: "(case findExecByTaskID (te_TaskID t) ev c of Some r \<Rightarrow> (Some r, c)
      | None \<Rightarrow> recoverExecForTerminalTaskCompletion t ev c) = (o1, d)" by fastforce
  have "comp_ok d \<and> (\<forall>r. o1 = Some r \<longrightarrow> r < length (rx_execs d))"
    using d recover_ok[OF assms, of t] assms(1) find_exec_live[OF assms(1)] by (auto simp: findExecByTaskID_def split: option.splits)
  then show ?thesis using assms(1) Some d
    by (auto simp: handleTaskStateChange_def split: option.split intro!: node.keeps_comp)
qed (use assms in \<open>simp add: handleTaskStateChange_def\<close>)

lemma abandon_live_ok: "comp_ok c \<Longrightarrow> comp_ok (abandonLiveExecForRequirement slug q ev c)"
  by (auto simp: abandonLiveExecForRequirement_def split: option.split intro!: abandoned.keeps_comp dest: find_exec_live)

lemma abandon_live_len [simp]: "length (rx_execs (abandonLiveExecForRequirement slug q ev c)) = length (rx_execs c)"
  "rx_config (abandonLiveExecForRequirement slug q ev c) = rx_config c"
  by (simp_all add: abandonLiveExecForRequirement_def split: option.split)

lemma abandon_one_ok: "comp_ok c \<Longrightarrow> comp_ok (abandon_one slug k c)"
  by (auto simp: abandon_one_def split: option.split intro!: abandoned.keeps_comp dest: active_live)

lemma fold_keeps: "(\<And>k c. P c \<Longrightarrow> P (f k c)) \<Longrightarrow> P c \<Longrightarrow> P (fold f ks c)"
  by (induction ks arbitrary: c) simp_all

lemma abandon_requirements_ok: "comp_ok c \<Longrightarrow> comp_ok (abandonExecsForRequirements slug qs ev c)"
  by (simp add: abandonExecsForRequirements_def abandonExecsForSlug_def fold_keeps[where P = comp_ok] abandon_one_ok abandon_live_ok)

lemma reset_dependent_ok: "comp_ok c \<and> r < length (rx_execs c) \<Longrightarrow> comp_ok (reset_dependent r slug ev dep c) \<and> r < length (rx_execs (reset_dependent r slug ev dep c))"
  by (auto simp: reset_dependent_def Let_def intro!: comp_ok_locked abandon_live_ok keeps_ok)

lemma invalidate_ok:
  assumes "comp_ok c" "r < length (rx_execs c)" shows "comp_ok (invalidateDependentBranchSubtreeLocked r ev c)"
proof -
  have "comp_ok (fold (reset_dependent r slug ev) ks c) \<and> r < length (rx_execs (fold (reset_dependent r slug ev) ks c))" for slug ks
    by (rule fold_keeps[where P = "\<lambda>c. comp_ok c \<and> r < length (rx_execs c)"]) (use reset_dependent_ok assms in auto)
  then show ?thesis using assms by (simp add: invalidateDependentBranchSubtreeLocked_def resetDependentBranchSubtree_def split: plan_load.split)
qed

lemma resume_terminal_ok:
  assumes "comp_ok c" "fresh_run x"
  shows "comp_ok (resumeTerminalForRecoveryLocked (length (rx_execs c)) proposal ev (add_exec x c))"
proof -
  let ?r = "length (rx_execs c)" and ?d = "add_exec x c"
  have d: "comp_ok ?d" "?r < length (rx_execs ?d)" "rx_execs ?d ! ?r = x" "1 \<le> rg_MaxRecoveryRestarts (rx_config ?d)"
    using comp_ok_fresh[OF assms] by (simp_all add: add_exec_def comp_ok_def)
  have "rrun_ok g t i y \<Longrightarrow> ru_recoveryRestarts y = 0 \<Longrightarrow> \<not> ru_terminated y \<Longrightarrow> 1 \<le> rg_MaxRecoveryRestarts g \<Longrightarrow>
      rrun_ok g t i (resumeFromRecoveryLocked g ev (y\<lparr>ru_awaitingRecovery := True, ru_recoveryReason := a\<rparr>))" for g t i y a
    by (rule rrun_ok_resume) (simp_all add: rrun_ok_not_waiting)
  then have "comp_ok (locked ?r (\<lambda>x. resumeFromRecoveryLocked (rx_config ?d) ev (x\<lparr>ru_awaitingRecovery := True,
      ru_recoveryReason := ''QA-recovery: completed req re-dispatched (proposal '' @ proposal @ '')''\<rparr>)) ?d)"
    by (intro comp_ok_locked d(1,2)) (use assms(2) d in \<open>simp add: fresh_run_def\<close>)
  from invalidate_ok[OF this] d(2) show ?thesis by (simp add: resumeTerminalForRecoveryLocked_def)
qed

lemma accept_for_ok:
  assumes "comp_ok c" "\<forall>q k. load_ok (rx_config c) (ev_row (envs q) k)"
  shows "comp_ok (accept_for evt envs skip q c)"
proof -
  let ?ev = "envs q" and ?key = "RequirementExecutionKey (pe_Slug evt) q"
  have waiting: "comp_ok (locked r (resumeFromRecoveryLocked (rx_config c) ?ev) c)"
    if "findAwaitingByRequirement (pe_Slug evt) q ?ev c = Some r" for r
  proof -
    have r: "r < length (rx_execs c)" "\<not> ru_terminated (rx_execs c ! r)" "ru_awaitingRecovery (rx_execs c ! r)"
      using find_exec_live[OF assms(1)] that by (auto simp: findAwaitingByRequirement_def)
    then show ?thesis using comp_ok_run[OF assms(1) r(1)] by (intro resume.keeps_comp[OF assms(1)]) (simp_all add: rrun_ok_defs)
  qed
  have "comp_ok (resumeTerminalForRecoveryLocked (length (rx_execs c)) p ?ev (add_exec x c))"
    if "loadTerminalReqExecFromKV (rx_config c) ?key (ev_row ?ev ?key) = Some x" for x p
    using resume_terminal_ok[OF assms(1)] loaded_fresh(2) assms(2) that by blast
  then show ?thesis using assms(1) waiting by (simp add: accept_for_def Let_def add_exec_def split: option.split)
qed

lemma config_same [simp]:
  "rx_config (reset_dependent r slug ev dep c) = rx_config c" "rx_config (accept_for evt envs skip q c) = rx_config c"
proof -
  show a: "rx_config (reset_dependent r slug ev dep c) = rx_config c" for dep c by (simp add: reset_dependent_def Let_def)
  have "rx_config (fold (reset_dependent r slug ev) ks c) = rx_config c" for r slug ev ks c
    by (induction ks arbitrary: c) (simp_all add: reset_dependent_def Let_def)
  then show "rx_config (accept_for evt envs skip q c) = rx_config c"
    by (simp add: accept_for_def Let_def resumeTerminalForRecoveryLocked_def invalidateDependentBranchSubtreeLocked_def
        resetDependentBranchSubtree_def split: option.split plan_load.split)
qed

lemma accept_ok [event_ok]:
  assumes "comp_ok c" "\<forall>q k. load_ok (rx_config c) (ev_row (envs q) k)"
  shows "comp_ok (handlePlanDecisionAccepted msg ev envs c)"
proof -
  have "comp_ok (fold (accept_for evt envs skip) qs c) \<and> rx_config (fold (accept_for evt envs skip) qs c) = rx_config c" for evt skip qs
    by (rule fold_keeps[where P = "\<lambda>d. comp_ok d \<and> rx_config d = rx_config c"]) (use accept_for_ok assms in auto)
  then show ?thesis using assms(1) by (simp add: handlePlanDecisionAccepted_def abandon_requirements_ok split: option.split)
qed

lemma resume_ok [event_ok]:
  assumes "comp_ok c" shows "comp_ok (resumeInterruptedExecutions ev envs c)"
proof -
  have "comp_ok (resume_key envs k d)" if "comp_ok d" for k d
    using that by (auto simp: resume_key_def split: option.split intro!: restarted.keeps_comp dest: active_live)
  then show ?thesis using assms by (simp add: resumeInterruptedExecutions_def fold_keeps[where P = comp_ok])
qed

lemma reconcile_ok:
  assumes "comp_ok c" "\<forall>k row. (k, row) \<in> set rows \<longrightarrow> load_ok (rx_config c) row"
  shows "comp_ok (reconcileFromGraph rows entities c)"
proof -
  have a: "comp_ok (fold reconcile_row rs d)" if "comp_ok d" "rx_config d = rx_config c" "set rs \<subseteq> set rows" for rs d
    using that
  proof (induction rs arbitrary: d)
    case (Cons kr rs)
    obtain k row where k: "kr = (k, row)" by fastforce
    have "load_ok (rx_config d) row" using Cons.prems(2,3) k assms(2) by auto
    then have "comp_ok (reconcile_row kr d) \<and> rx_config (reconcile_row kr d) = rx_config c"
      using Cons.prems(1,2) comp_ok_fresh[OF Cons.prems(1)] loaded_fresh(1) k
      by (auto simp: reconcile_row_def add_exec_def split: option.split)
    then show ?case using Cons by simp
  qed simp
  have "fresh_run (reqRun_zero\<lparr>ru_EntityID := i, ru_Slug := s, ru_TraceID := tr, ru_CurrentNodeIdx := - 1\<rparr>)" for i s tr
    by (simp add: fresh_run_def reqRun_zero_def cursors_ok_def reports_def)
  from comp_ok_fresh[OF _ this] have "comp_ok (reconcile_entity e d)" if "comp_ok d" for e d
    using that by (simp add: reconcile_entity_def add_exec_def)
  then have "comp_ok (fold reconcile_entity es d)" if "comp_ok d" for es d using that by (simp add: fold_keeps[where P = comp_ok])
  then show ?thesis using a[OF assms(1)] by (simp add: reconcileFromGraph_def reconcileFromKV_def Let_def split: option.split bool.split)
qed

section \<open>The transition system\<close>

text \<open>The component as \<^verbatim>\<open>Start\<close> leaves it.\<close>

definition started :: "RConfig \<Rightarrow> (bytes \<times> row_load) list \<Rightarrow> (bytes \<times> GraphReq) list option \<Rightarrow> RComp" where
  "started g rows entities = reconcileFromGraph rows entities
     \<lparr>rx_config = g, rx_execs = [], rx_active = [], rx_starting = [], rx_created = []\<rparr>"

text \<open>\<open>L\<close> says which rows may be read from EXECUTION_STATES.\<close>

inductive req_step :: "(RConfig \<Rightarrow> row_load \<Rightarrow> bool) \<Rightarrow> RComp \<Rightarrow> RComp \<Rightarrow> bool" for L where
  step_pending: "req_step L c (handleReqPending key entry ev c)"
| step_branch: "(r, p, b) \<in> set (rx_starting c) \<Longrightarrow> req_step L c (init_branch r p b ev c)"
| step_dispatch: "r \<in> set (rx_created c) \<Longrightarrow> req_step L c (init_dispatch r ev c)"
| step_loop: "req_step L c (handleLoopEntityUpdate l ev c)"
| step_task: "\<forall>k. L (rx_config c) (ev_row ev k) \<Longrightarrow> req_step L c (handleTaskStateChange t ev c)"
| step_timer: "r < length (rx_execs c) \<Longrightarrow> (j, k) \<in> set (ru_armed (rx_execs c ! r)) \<Longrightarrow> req_step L c (timer_fired r j k ev c)"
| step_accept: "\<forall>q k. L (rx_config c) (ev_row (envs q) k) \<Longrightarrow> req_step L c (handlePlanDecisionAccepted msg ev envs c)"
| step_resume: "req_step L c (resumeInterruptedExecutions ev envs c)"

inductive req_reach :: "RConfig \<Rightarrow> RComp \<Rightarrow> bool" where
  reach_start: "\<forall>k row. (k, row) \<in> set rows \<longrightarrow> load_ok g row \<Longrightarrow> req_reach g (started g rows entities)"
| reach_step: "req_reach g c \<Longrightarrow> req_step load_ok c d \<Longrightarrow> req_reach g d"

lemma req_step_mono: "req_step L c d \<Longrightarrow> (\<And>g row. L g row \<Longrightarrow> M g row) \<Longrightarrow> req_step M c d"
  by (induction rule: req_step.induct) (auto intro: req_step.intros)

lemma req_step_ok: "req_step load_ok c d \<Longrightarrow> comp_ok c \<Longrightarrow> comp_ok d"
  by (induction rule: req_step.induct) (simp_all add: event_ok)

lemma req_reach_ok: "req_reach g c \<Longrightarrow> 1 \<le> rg_MaxRecoveryRestarts g \<Longrightarrow> comp_ok c"
proof (induction rule: req_reach.induct)
  case (reach_start rows g entities)
  then show ?case unfolding started_def
    by (intro reconcile_ok) (simp_all add: comp_ok_def table_ok_def)
qed (rule req_step_ok)

end
