(* ===== verification/Req_Complete.thy ===== *)
theory Req_Complete
  imports Req_Machine
begin

text \<open>
  When a requirement is reported as completed: what a review that ends an execution this way has
  established.  Most operations never report completion; \<open>unreported\<close> says that an execution has not.
\<close>

section \<open>Operations that do not report completion\<close>

definition unreported :: "reqRun \<Rightarrow> bool" where
  "unreported x \<longleftrightarrow> (\<forall>e. SendComplete e \<in> set (ru_out x) \<longrightarrow> ce_Outcome e \<noteq> ''completed'')"

named_theorems quiet \<open>operations that do not report completion\<close>

lemma unreported_send [quiet]: "unreported x \<Longrightarrow> \<not> is_report e \<Longrightarrow> unreported (send e x)"
  by (auto simp: unreported_def send_def)

lemma unreported_cong: "ru_out y = ru_out x \<Longrightarrow> unreported y = unreported x"
  by (simp add: unreported_def)

lemma unreported_upd [simp]:
  "unreported (x\<lparr>ru_CurrentNodeIdx := a\<rparr>) = unreported x" "unreported (x\<lparr>ru_CurrentStoryIdx := a\<rparr>) = unreported x"
  "unreported (x\<lparr>ru_CurrentNodeTaskID := b\<rparr>) = unreported x" "unreported (x\<lparr>ru_NodeTaskIDs := c\<rparr>) = unreported x"
  "unreported (x\<lparr>ru_ReviewerTaskID := b\<rparr>) = unreported x" "unreported (x\<lparr>ru_SortedNodeIDs := c\<rparr>) = unreported x"
  "unreported (x\<lparr>ru_DAG := d\<rparr>) = unreported x" "unreported (x\<lparr>ru_NodeResults := n\<rparr>) = unreported x"
  "unreported (x\<lparr>ru_VisitedNodes := c\<rparr>) = unreported x" "unreported (x\<lparr>ru_ScenarioVerdicts := v\<rparr>) = unreported x"
  "unreported (x\<lparr>ru_ReviewVerdict := b\<rparr>) = unreported x" "unreported (x\<lparr>ru_ReviewFeedback := b\<rparr>) = unreported x"
  "unreported (x\<lparr>ru_RetryCount := a\<rparr>) = unreported x" "unreported (x\<lparr>ru_ReviewRetryCount := a\<rparr>) = unreported x"
  "unreported (x\<lparr>ru_LastReviewFeedback := b\<rparr>) = unreported x" "unreported (x\<lparr>ru_terminated := t\<rparr>) = unreported x"
  "unreported (x\<lparr>ru_DirtyNodeIDs := c\<rparr>) = unreported x" "unreported (x\<lparr>ru_SortedStoryIDs := c\<rparr>) = unreported x"
  "unreported (x\<lparr>ru_awaitingRecovery := t\<rparr>) = unreported x" "unreported (x\<lparr>ru_recoveryReason := b\<rparr>) = unreported x"
  by (simp_all add: unreported_def)

lemma unreported_cleanup: "unreported (cleanupExecutionLocked g ok x) = unreported x"
  by (auto simp: unreported_def cleanupExecutionLocked_def Let_def stop_recovery_def stop_armed_def split: option.split)

lemma unreported_publish: "out \<noteq> ''completed'' \<Longrightarrow> unreported (publishRequirementCompleteEvent out x) = unreported x"
  by (auto simp: unreported_def publishRequirementCompleteEvent_def send_def)

lemma unreported_mark [quiet]:
  "unreported x \<Longrightarrow> unreported (markFailedLocked g reason x)" "unreported x \<Longrightarrow> unreported (markErrorLocked g reason x)"
  by (simp_all add: markFailedLocked_def markErrorLocked_def Let_def unreported_cleanup unreported_publish quiet split: option.split)

lemma unreported_emit [quiet]: "unreported x \<Longrightarrow> unreported (emitExhaustionDecision g ev v f x)"
  by (simp add: emitExhaustionDecision_def Let_def quiet)

lemma unreported_defer [quiet]: "unreported x \<Longrightarrow> unreported (defer_or_fail g reason x)"
proof -
  assume x: "unreported x"
  have "unreported y" if "deferToAwaitingRecoveryLocked g reason x = Some y" for y
  proof -
    have "ru_out y = ru_out x @ [SendReqPhase (phase_req (ru_storeKey x) ''awaiting-recovery'')]"
      using that by (auto simp: deferToAwaitingRecoveryLocked_def Let_def arm_recovery_def send_def stop_recovery_def stop_armed_def
          split: if_splits option.splits)
    then show ?thesis using x by (auto simp: unreported_def)
  qed
  then show ?thesis using x by (auto simp: defer_or_fail_def quiet split: option.split)
qed

lemma unreported_reviewer [quiet]: "unreported x \<Longrightarrow> unreported (dispatchRequirementReviewerLocked g ev x)"
  by (simp add: dispatchRequirementReviewerLocked_def Let_def quiet split: option.split)

lemma unreported_next [quiet]: "unreported x \<Longrightarrow> unreported (dispatchNextNodeLocked g ev x)"
  by (simp add: dispatchNextNodeLocked_def Let_def quiet split: option.split)

lemma unreported_dag [quiet]: "unreported x \<Longrightarrow> unreported (applyParsedDAGLocked g ev dag x)"
  by (simp add: applyParsedDAGLocked_def Let_def quiet split: sum.split)

lemma unreported_gap:
  "unreported x \<Longrightarrow> handleRequirementDeliverableGapForPlanLocked g ev plan x = Some y \<Longrightarrow> unreported y"
  "unreported x \<Longrightarrow> handleRequirementDeliverableGapLocked g ev x = Some y \<Longrightarrow> unreported y"
proof -
  show a: "unreported x \<Longrightarrow> handleRequirementDeliverableGapForPlanLocked g ev plan x = Some y \<Longrightarrow> unreported y" for plan
    by (auto simp: handleRequirementDeliverableGapForPlanLocked_def Let_def quiet split: if_splits sum.splits)
  show "unreported x \<Longrightarrow> handleRequirementDeliverableGapLocked g ev x = Some y \<Longrightarrow> unreported y"
    by (auto simp: handleRequirementDeliverableGapLocked_def quiet split: if_splits plan_load.splits intro: a)
qed

lemma unreported_reset [quiet]: "unreported x \<Longrightarrow> unreported (resetPerStoryExecutionState x)"
  by (simp add: resetPerStoryExecutionState_def)

lemma unreported_fixable [quiet]: "unreported x \<Longrightarrow> unreported (startFixableRetryLocked g ev f x)"
  by (simp add: startFixableRetryLocked_def Let_def quiet)

lemma unreported_walk: "unreported x \<Longrightarrow> unreported (snd (walk_story ev slug s ts x))"
  by (induction ts arbitrary: x) (simp_all add: Let_def quiet)

lemma unreported_reopen: "unreported x \<Longrightarrow> unreported (snd (reopenStoriesFromPlan ev slug plan ids x))"
proof (induction ids arbitrary: x)
  case (Cons s ids)
  then show ?case using unreported_walk[OF Cons.prems] by (fastforce simp: split_beta split: option.split)
qed simp

section \<open>What completion means\<close>

text \<open>Rows of completed owners claim no file without a commit.\<close>

definition owners_committed :: "REnv \<Rightarrow> bool" where
  "owners_committed ev \<longleftrightarrow> (\<forall>s e. ev_owner ev s = RowLoaded e \<and> re_Stage e = ''completed'' \<longrightarrow> unobserved (re_NodeResults e) = [])"

definition delivered :: "RConfig \<Rightarrow> REnv \<Rightarrow> reqRun \<Rightarrow> bool" where
  "delivered g ev y \<longleftrightarrow> rg_SandboxURL g = [] \<or> ru_SortedStoryIDs y = [] \<or> ru_ReviewerTaskID y = []
     \<or> (\<exists>site plan. ev_plan ev site = PlanLoaded plan \<and>
          (let expected = requirementScopeCreateObligations plan (ru_SortedStoryIDs y) in
           expected = [] \<or> (\<exists>files. deliveredFilesForReviewerWorktree (ev_quote ev) (ru_ReviewerTaskID y) (ev_files ev AtRequirementGate) = Inr files
             \<and> missingDeliverableFiles expected files = [])))"

definition complete_ok :: "RConfig \<Rightarrow> REnv \<Rightarrow> reqRun \<Rightarrow> bool" where
  "complete_ok g ev y \<longleftrightarrow> unreported y \<or> (int (length (ru_SortedStoryIDs y)) \<le> ru_CurrentStoryIdx y + 1
     \<and> unobserved (ru_NodeResults y) = [] \<and> delivered g ev y)"

lemma mark_completed_fields:
  "ru_SortedStoryIDs (markCompletedLocked g x) = ru_SortedStoryIDs x" "ru_CurrentStoryIdx (markCompletedLocked g x) = ru_CurrentStoryIdx x"
  "ru_NodeResults (markCompletedLocked g x) = ru_NodeResults x" "ru_ReviewerTaskID (markCompletedLocked g x) = ru_ReviewerTaskID x"
  by (simp_all add: markCompletedLocked_def Let_def cleanupExecutionLocked_def publishRequirementCompleteEvent_def send_def stop_recovery_def
      stop_armed_def split: option.split)

lemma gate_passed: "handleRequirementDeliverableGapForPlanLocked g ev plan x = None \<Longrightarrow> ev_plan ev site = PlanLoaded plan \<Longrightarrow> delivered g ev x"
  by (auto simp: handleRequirementDeliverableGapForPlanLocked_def delivered_def Let_def split: if_splits sum.splits)

lemma gap_locked_none: "handleRequirementDeliverableGapLocked g ev x = None \<Longrightarrow> delivered g ev x"
  by (auto simp: handleRequirementDeliverableGapLocked_def delivered_def[of g ev x] split: if_splits plan_load.splits
      dest: gate_passed[unfolded delivered_def])

lemma copy_results_unobserved: "unobserved nrs = [] \<Longrightarrow> unobserved (copy_results seen nrs) = []"
  by (induction seen nrs rule: copy_results.induct) (auto simp: unobserved_def split: if_splits)

lemma evidence_fields:
  assumes "applyCompletedStoryEvidenceLocked g ev story x = (b, y)" "owners_committed ev" "unobserved (ru_NodeResults x) = []"
  shows "unobserved (ru_NodeResults y) = [] \<and> ru_SortedStoryIDs y = ru_SortedStoryIDs x \<and> ru_CurrentStoryIdx y = ru_CurrentStoryIdx x
    \<and> ru_out y = ru_out x"
proof -
  have "unobserved (copyStoryEvidence (ru_NodeResults x) story (ru_NodeResults o1)) = []"
    if "loadCompletedReqExecFromKV g k (ev_owner ev s) = Some o1" for o1 k s
  proof -
    have "unobserved (ru_NodeResults o1) = []"
      using that assms(2) by (auto simp: loadCompletedReqExecFromKV_def owners_committed_def rebuildExecFromKV_def split: row_load.splits if_splits)
    then have "unobserved (filter (in_story story) (ru_NodeResults o1)) = []" by (auto simp: unobserved_def filter_empty_conv)
    then show ?thesis by (simp add: copyStoryEvidence_def copy_results_unobserved)
  qed
  then show ?thesis using assms(1,3)
    by (auto simp: applyCompletedStoryEvidenceLocked_def Let_def unobserved_def split: if_splits option.splits)
qed

lemma quiet_complete: "unreported y \<Longrightarrow> complete_ok g ev y"
  by (simp add: complete_ok_def)

lemma complete_mark:
  assumes "handleRequirementDeliverableGapForPlanLocked g ev plan x = None" "ev_plan ev site = PlanLoaded plan"
    and "unobserved (ru_NodeResults x) = []" "int (length (ru_SortedStoryIDs x)) \<le> ru_CurrentStoryIdx x + 1"
  shows "complete_ok g ev (markCompletedLocked g x)"
  using assms(3,4) gate_passed[OF assms(1,2)] by (simp add: complete_ok_def delivered_def mark_completed_fields)

lemma drop_last: "0 \<le> k \<Longrightarrow> [s] = drop (nat k) xs \<Longrightarrow> int (length xs) \<le> k + 1"
  by (drule arg_cong[where f = length]) auto

lemma drop_next: "0 \<le> k \<Longrightarrow> s # rest = drop (nat k) xs \<Longrightarrow> rest = drop (nat (k + 1)) xs"
  by (metis Suc_nat_eq_nat_zadd1 add.commute drop_Suc list.sel(3) tl_drop)

lemma stories_complete:
  assumes o: "owners_committed ev" and p: "ev_plan ev site = PlanLoaded plan"
  shows "unreported x \<Longrightarrow> unobserved (ru_NodeResults x) = [] \<Longrightarrow> 0 \<le> ru_CurrentStoryIdx x \<Longrightarrow>
    ids = drop (nat (ru_CurrentStoryIdx x)) (ru_SortedStoryIDs x) \<Longrightarrow> complete_ok g ev (dispatch_stories g ev plan ids x)"
proof (induction ids arbitrary: x)
  case Nil
  then show ?case by (simp add: quiet_complete)
next
  case (Cons storyID rest)
  have skip: "complete_ok g ev (case applyCompletedStoryEvidenceLocked g ev story y of
      (False, y1) \<Rightarrow> markFailedLocked g reason y1
    | (True, y1) \<Rightarrow> if rest \<noteq> []
        then dispatch_stories g ev plan rest (resetPerStoryExecutionState (y1\<lparr>ru_CurrentStoryIdx := ru_CurrentStoryIdx y1 + 1\<rparr>))
        else case handleRequirementDeliverableGapForPlanLocked g ev plan y1 of Some z \<Rightarrow> z | None \<Rightarrow> markCompletedLocked g y1)"
    if y: "unreported y" "ru_NodeResults y = ru_NodeResults x" "ru_CurrentStoryIdx y = ru_CurrentStoryIdx x" "ru_SortedStoryIDs y = ru_SortedStoryIDs x"
    for story y reason
  proof (cases "applyCompletedStoryEvidenceLocked g ev story y")
    case (Pair b y1)
    have f: "unobserved (ru_NodeResults y1) = []" "ru_SortedStoryIDs y1 = ru_SortedStoryIDs x" "ru_CurrentStoryIdx y1 = ru_CurrentStoryIdx x" "unreported y1"
      using evidence_fields[OF Pair o] y Cons.prems(2) by (auto simp: unreported_def)
    let ?z = "resetPerStoryExecutionState (y1\<lparr>ru_CurrentStoryIdx := ru_CurrentStoryIdx y1 + 1\<rparr>)"
    have "complete_ok g ev (dispatch_stories g ev plan rest ?z)"
      by (rule Cons.IH) (use f Cons.prems(3) drop_next[OF Cons.prems(3,4)] in \<open>simp_all add: resetPerStoryExecutionState_def\<close>)
    moreover have "complete_ok g ev (case handleRequirementDeliverableGapForPlanLocked g ev plan y1 of Some z \<Rightarrow> z | None \<Rightarrow> markCompletedLocked g y1)"
      if "rest = []"
      using complete_mark[OF _ p f(1), of g] drop_last[OF Cons.prems(3), of storyID "ru_SortedStoryIDs x"] Cons.prems(4) f that
      by (auto split: option.split intro: quiet_complete unreported_gap(1)[OF f(4)])
    ultimately show ?thesis using Pair by (cases b) (simp_all add: quiet_complete quiet f(4))
  qed
  let ?x = "send (ClaimStory (p_Slug plan) storyID StoryStatusExecuting) x"
  have x: "unreported ?x" "ru_NodeResults ?x = ru_NodeResults x" "ru_CurrentStoryIdx ?x = ru_CurrentStoryIdx x"
    "ru_SortedStoryIDs ?x = ru_SortedStoryIDs x" using Cons.prems(1) by (simp_all add: quiet) (simp_all add: send_def)
  show ?case
  proof (cases "findStoryByID plan storyID")
    case None
    then show ?thesis using Cons.prems(1) by (simp add: quiet_complete quiet)
  next
    case (Some story)
    show ?thesis
    proof (cases "s_Status story = StoryStatusComplete \<or> \<not> ev_claim ev storyID StoryStatusExecuting")
      case True
      then show ?thesis using Some skip[OF Cons.prems(1) refl refl refl] skip[OF x] by (elim disjE) (simp_all add: Let_def)
    next
      case False
      then show ?thesis using Some x(1) by (simp add: Let_def quiet_complete quiet split: sum.split)
    qed
  qed
qed

lemma current_complete:
  assumes "owners_committed ev" "ev_plan ev site = PlanLoaded plan" "unreported x" "unobserved (ru_NodeResults x) = []"
  shows "complete_ok g ev (dispatchCurrentStoryLocked g ev plan x)"
  using assms stories_complete[OF assms(1,2,3,4)] by (simp add: dispatchCurrentStoryLocked_def quiet_complete quiet)

lemma synthesizer_complete:
  assumes "owners_committed ev" "unreported x" "unobserved (ru_NodeResults x) = []"
  shows "complete_ok g ev (dispatchSynthesizerLocked g ev x)"
  using assms by (simp add: dispatchSynthesizerLocked_def Let_def quiet_complete quiet current_complete split: plan_load.split sum.split)

lemma advance_complete:
  assumes "owners_committed ev" "unreported x" "unobserved (ru_NodeResults x) = []"
  shows "complete_ok g ev (advanceToNextStoryLocked g ev x)"
  using assms by (simp add: advanceToNextStoryLocked_def Let_def quiet_complete quiet resetPerStoryExecutionState_def current_complete
      split: plan_load.split)

lemma unreported_reset_story: "unreported x \<Longrightarrow> unreported (snd (resetCurrentStoryForRestructureLocked ev x))"
  by (simp add: resetCurrentStoryForRestructureLocked_def split_beta unreported_reopen unreported_walk split: option.split plan_load.split)

lemma restructure_complete:
  assumes "owners_committed ev" "unreported x"
  shows "complete_ok g ev (startRestructureRetryLocked g ev f x)"
proof -
  let ?x = "x\<lparr>ru_RetryCount := ru_RetryCount x + 1, ru_LastReviewFeedback := f, ru_terminated := False\<rparr>"
  obtain b y where y: "resetCurrentStoryForRestructureLocked ev ?x = (b, y)" by fastforce
  have u: "unreported y" using unreported_reset_story[of ?x ev] y assms(2) by simp
  let ?z = "send (SendReqPhase (phase_req (ru_storeKey x) ''decomposing'')) (reset_review (send (SendNodeResults
      \<lparr>rs_Key = ru_storeKey x, rs_NodeResults = []\<rparr>) (reset_dag (recreate_branch g y))))"
  have "unreported ?z" using u by (intro quiet) (simp_all add: reset_review_def reset_dag_def recreate_branch_def quiet)
  moreover have "unobserved (ru_NodeResults ?z) = []" by (simp add: reset_review_def reset_dag_def send_def unobserved_def)
  ultimately have "complete_ok g ev (dispatchSynthesizerLocked g ev ?z)" by (rule synthesizer_complete[OF assms(1)])
  then show ?thesis using y u by (cases b) (simp_all add: startRestructureRetryLocked_def Let_def quiet_complete quiet)
qed

lemma approved_complete:
  assumes o: "owners_committed ev" and u: "unreported x" and g: "requireCommitObservation g" 
  shows "complete_ok g ev (handleApprovedVerdictLocked g ev x)"
proof -
  have dg: "unreported y" if "handleApprovedDeliverableGapLocked g ev x = Some y" for y
    using that u by (auto simp: handleApprovedDeliverableGapLocked_def handleApprovedDeliverableGapForPlanLocked_def Let_def quiet
        split: if_splits plan_load.splits option.splits sum.splits)
  let ?x = "publishStoryCompleteLocked x"
  have x: "unreported ?x" "ru_NodeResults ?x = ru_NodeResults x"
    using u by (simp_all add: publishStoryCompleteLocked_def quiet send_def split: option.split) (simp add: unreported_def)
  show ?thesis
  proof (cases "unobserved (ru_NodeResults x) = []")
    case False
    then show ?thesis using g u by (simp add: handleApprovedVerdictLocked_def handleApprovedClaimMismatchLocked_def quiet_complete quiet)
  next
    case True
    then have "complete_ok g ev (markCompletedLocked g ?x)"
      if "handleRequirementDeliverableGapLocked g ev ?x = None" "int (length (ru_SortedStoryIDs ?x)) \<le> ru_CurrentStoryIdx ?x + 1"
      using that gap_locked_none[OF that(1)] x(2) by (simp add: complete_ok_def delivered_def mark_completed_fields)
    then show ?thesis using True dg advance_complete[OF o x(1)] x
      by (auto simp: handleApprovedVerdictLocked_def handleApprovedClaimMismatchLocked_def Let_def split: option.split
          intro: quiet_complete unreported_gap(2)[OF x(1)])
  qed
qed

end
