(* ===== verification/Req_Claims.thy ===== *)
theory Req_Claims
  imports Req_Order Req_Complete
begin

text \<open>
  The properties of the requirement executor as a whole, over every reachable state of the transition
  system of theory \<open>Req_Machine\<close>, and the order of nodes.
\<close>

section \<open>Ended executions\<close>

text \<open>An execution that is not in the table and not being set up is out of reach of every event but its own timers.\<close>

definition apart :: "nat \<Rightarrow> RComp \<Rightarrow> bool" where
  "apart r c \<longleftrightarrow> r < length (rx_execs c) \<and> (\<forall>k. map_of (rx_active c) k \<noteq> Some r)"

definition same_run :: "nat \<Rightarrow> RComp \<Rightarrow> RComp \<Rightarrow> bool" where
  "same_run r c d \<longleftrightarrow> (apart r c \<longrightarrow> apart r d \<and> rx_execs d ! r = rx_execs c ! r)"

lemma same_run_refl [simp]: "same_run r c c" by (simp add: same_run_def)

lemma same_run_trans: "same_run r c d \<Longrightarrow> same_run r d e \<Longrightarrow> same_run r c e"
  by (simp add: same_run_def)

lemma same_run_fold: "(\<And>k c. same_run r c (f k c)) \<Longrightarrow> same_run r c (fold f ks c)"
  by (induction ks arbitrary: c) (auto intro: same_run_trans)

lemma same_run_locked: "map_of (rx_active c) k = Some q \<Longrightarrow> same_run r c (locked q f c)"
  by (cases "q = r") (auto simp: same_run_def apart_def locked_def Let_def delete_conv)

lemma same_run_find: "find_exec P c ks = Some q \<Longrightarrow> same_run r c (locked q f c)"
  using find_exec_active same_run_locked by blast

lemma same_run_add: "same_run r c (add_exec x c)"
  by (auto simp: same_run_def apart_def add_exec_def nth_append update_conv)

lemma same_run_new: "same_run r c d \<Longrightarrow> length (rx_execs c) \<le> q \<Longrightarrow> r < length (rx_execs c) \<Longrightarrow> same_run r c (locked q f d)"
  by (auto simp: same_run_def apart_def locked_def Let_def delete_conv)

lemma same_run_abandon: "same_run r c (abandonLiveExecForRequirement slug q ev c)"
  by (auto simp: abandonLiveExecForRequirement_def same_run_find split: option.split)

lemma same_run_replace: "same_run r c (replaceActiveExecForRequirement (length (rx_execs c)) ev (c\<lparr>rx_execs := rx_execs c @ [x]\<rparr>))"
proof -
  let ?c = "c\<lparr>rx_execs := rx_execs c @ [x]\<rparr>"
  have one: "same_run r c (replace_one q k c)" for q k c
    by (cases "map_of (rx_active c) k = Some r") (auto simp: same_run_def apart_def replace_one_def delete_conv split: option.split)
  have "same_run r ?c (fold (replace_one q) ks ?c)" for q ks by (rule same_run_fold) (rule one)
  moreover have "same_run r c ?c" by (auto simp: same_run_def apart_def nth_append)
  ultimately have "same_run r c (fold (replace_one q) ks ?c)" for q ks by (rule same_run_trans[rotated])
  then show ?thesis
    by (auto simp: same_run_def apart_def replaceActiveExecForRequirement_def Let_def update_conv)
qed

lemma same_run_resume_terminal:
  assumes "r < length (rx_execs c)"
  shows "same_run r c (resumeTerminalForRecoveryLocked (length (rx_execs c)) p ev (add_exec x c))"
proof -
  let ?q = "length (rx_execs c)"
  have one: "same_run r c (reset_dependent ?q slug ev dep d)" if "same_run r c d" for slug dep d
    unfolding reset_dependent_def Let_def
    by (rule same_run_new[OF same_run_trans[OF that same_run_abandon] le_refl assms])
  have "same_run r c (fold (reset_dependent ?q slug ev) ks d)" if "same_run r c d" for slug ks d
    using that by (induction ks arbitrary: d) (simp_all add: one)
  then show ?thesis using same_run_new[OF same_run_add le_refl assms]
    by (simp add: resumeTerminalForRecoveryLocked_def invalidateDependentBranchSubtreeLocked_def resetDependentBranchSubtree_def
        split: plan_load.split)
qed

lemma same_run_accept:
  assumes "r < length (rx_execs c)" shows "same_run r c (accept_for evt envs skip q c)"
  using same_run_resume_terminal[OF assms] same_run_find
  by (auto simp: accept_for_def Let_def findAwaitingByRequirement_def add_exec_def split: option.split)

lemma accept_fold_run: "apart r c \<Longrightarrow> apart r (fold (accept_for evt envs skip) qs c) \<and> rx_execs (fold (accept_for evt envs skip) qs c) ! r = rx_execs c ! r"
proof (induction qs arbitrary: c)
  case (Cons q qs)
  have "same_run r c (accept_for evt envs skip q c)" using Cons.prems by (intro same_run_accept) (simp add: apart_def)
  then show ?case using Cons by (simp add: same_run_def)
qed simp

lemma same_run_task:
  assumes "r < length (rx_execs c)" shows "same_run r c (handleTaskStateChange entry ev c)"
proof (cases entry)
  case (Some t)
  have new: "same_run r c (locked (length (rx_execs c)) f (replaceActiveExecForRequirement (length (rx_execs c)) ev (c\<lparr>rx_execs := rx_execs c @ [x]\<rparr>)))" for f x
    by (rule same_run_new[OF same_run_replace le_refl assms])
  show ?thesis using Some new same_run_replace[of r c ev]
    by (simp add: handleTaskStateChange_def recoverExecForTerminalTaskCompletion_def findExecByTaskID_def Let_def same_run_find
        split: option.split)
qed (simp add: handleTaskStateChange_def)

lemma fire_ended:
  assumes "ru_terminated x"
  shows "ru_terminated (fire g j k ev x)" "ru_out (fire g j k ev x) = ru_out x"
  using assms by (cases k; simp add: fire_def markErrorLocked_def handleRecoveryTimeout_def markFailedLocked_def arm_recovery_def Let_def
      split: option.split)+

lemma ended_step:
  assumes "req_step L c d" "comp_ok c" "r < length (rx_execs c)" "ru_terminated (rx_execs c ! r)"
    and "r \<notin> fst ` set (rx_starting c)" "r \<notin> set (rx_created c)"
  shows "r < length (rx_execs d) \<and> ru_terminated (rx_execs d ! r) \<and> ru_out (rx_execs d ! r) = ru_out (rx_execs c ! r)"
proof -
  have a: "apart r c" using assms(2-4) active_live by (fastforce simp: apart_def)
  have s: "?thesis" if "same_run r c d" using that a assms(4) by (simp add: same_run_def apart_def)
  show ?thesis using assms(1)
  proof cases
    case (step_pending key entry ev)
    have "same_run r c d" unfolding step_pending
      by (auto simp: same_run_def apart_def handleReqPending_def Let_def nth_append update_conv split: option.split)
    then show ?thesis by (rule s)
  next
    case (step_branch q p b ev)
    then have "q \<noteq> r" using assms(5) by force
    then show ?thesis unfolding step_branch using a assms(4)
      by (auto simp: init_branch_def Let_def locked_def apart_def split: option.split)
  next
    case (step_dispatch q ev)
    then have "q \<noteq> r" using assms(6) by auto
    then show ?thesis unfolding step_dispatch using a assms(4) by (simp add: init_dispatch_def Let_def locked_def apart_def)
  next
    case (step_loop l ev)
    have "same_run r c d" unfolding step_loop
      by (auto simp: handleLoopEntityUpdate_def Let_def findExecByTaskID_def same_run_find split: option.split)
    then show ?thesis by (rule s)
  next
    case (step_task ev t)
    have "same_run r c d" unfolding step_task(1) by (rule same_run_task[OF assms(3)])
    then show ?thesis by (rule s)
  next
    case (step_timer q j k ev)
    then show ?thesis using a assms(4) fire_ended[of "(rx_execs c ! r)\<lparr>ru_forgotten := False\<rparr>"]
      by (cases "q = r") (auto simp: timer_fired_def locked_def Let_def apart_def)
  next
    case (step_accept envs msg ev)
    have "same_run r c (fold (abandon_one slug) ks c)" for slug ks
      by (rule same_run_fold) (auto simp: abandon_one_def same_run_locked split: option.split)
    moreover have "same_run r c (fold (\<lambda>q. abandonLiveExecForRequirement slug q ev) ks c)" for slug ks
      by (rule same_run_fold) (rule same_run_abandon)
    moreover have "same_run r c (fold (accept_for evt envs skip) qs c)" for evt skip qs using accept_fold_run by (simp add: same_run_def)
    ultimately have "same_run r c d" unfolding step_accept(1)
      by (simp add: handlePlanDecisionAccepted_def abandonExecsForRequirements_def abandonExecsForSlug_def split: option.split)
    then show ?thesis by (rule s)
  next
    case (step_resume ev envs)
    have "same_run r c d" unfolding step_resume resumeInterruptedExecutions_def
      by (rule same_run_fold) (auto simp: resume_key_def same_run_locked split: option.split)
    then show ?thesis by (rule s)
  qed
qed

lemma marked: "ru_terminated (markFailedLocked h reason y)" "ru_terminated (markErrorLocked h reason y)"
  "ru_awaitingRecovery (markFailedLocked h reason y) = ru_awaitingRecovery y"
  by (simp_all add: markFailedLocked_def markErrorLocked_def Let_def cleanupExecutionLocked_def publishRequirementCompleteEvent_def
      send_def stop_recovery_def stop_armed_def split: option.split)

lemma cursors_index:
  assumes "cursors_ok x" "n \<in> set (ru_SortedNodeIDs x)" shows "node_index x n \<noteq> None"
proof (cases "ru_DAG x")
  case (Some d)
  then have "n \<in> dom (fill_map n_ID (\<lambda>n. n) (dag_Nodes d))" using assms by (auto simp: cursors_ok_def)
  then show ?thesis using Some by (simp add: node_index_def domIff del: dom_fill_map)
qed (use assms in \<open>simp add: cursors_ok_def\<close>)

section \<open>An example\<close>

text \<open>One requirement with a story of two tasks: claimed, set up, dispatched, and waiting for recovery after its first task
  was escalated.\<close>

definition ex_rg :: RConfig where
  "ex_rg = \<lparr>rg_ids = \<lparr>EntityPrefix = ''e'', sha256 = \<lambda>_. []\<rparr>, rg_SandboxURL = [], rg_Model = [], rg_TimeoutSeconds = 3600,
     rg_MaxRequirementRetries = 1, rg_MaxReviewRetries = 3, rg_DeferTerminalOnRecovery = True, rg_RecoveryTimeoutSeconds = 60,
     rg_MaxRecoveryRestarts = 1, rg_RequireCommitObservation = None\<rparr>"

definition ex_rplan :: Plan where
  "ex_rplan = Plan_zero\<lparr>p_Slug := ''p'', p_Stories := [(ex_story ''s'' ''c'' [''r''] [''a.go''])\<lparr>s_Status := StoryStatusReady,
     s_Tasks := [Task_zero\<lparr>t_ID := ''t1''\<rparr>, Task_zero\<lparr>t_ID := ''t2'', t_DependsOn := [''t1'']\<rparr>]\<rparr>]\<rparr>"

definition ex_rev :: REnv where
  "ex_rev = \<lparr>ev_now = 1, ev_uuid = ''u'', ev_plan = \<lambda>_. PlanLoaded ex_rplan, ev_claim = \<lambda>_ _. True, ev_owner = \<lambda>_. RowMissing,
     ev_files = \<lambda>_. LsNil, ev_publish = None, ev_taskCreate = None, ev_addDecision = True, ev_decisions = Some [], ev_timeout = [],
     ev_block = \<lambda>_. [], ev_text = \<lambda>_. [], ev_quote = id, ev_perm = id, ev_claimReq = True, ev_branch = \<lambda>_. BranchMade,
     ev_row = \<lambda>_. RowMissing\<rparr>"

definition ex_rrow :: RequirementExecution where
  "ex_rrow = RequirementExecution_zero\<lparr>re_Slug := ''p'', re_RequirementID := ''r'', re_Stage := ''pending''\<rparr>"

definition ex_c1 :: RComp where
  "ex_c1 = handleReqPending ''req.p.r'' (Some ex_rrow) ex_rev (started ex_rg [] None)"

definition ex_c2 :: RComp where
  "ex_c2 = init_branch 0 [] [] ex_rev ex_c1"

definition ex_c3 :: RComp where
  "ex_c3 = init_dispatch 0 ex_rev ex_c2"

definition ex_c4 :: RComp where
  "ex_c4 = handleTaskStateChange (Some (TaskExecution_zero\<lparr>te_TaskID := ru_CurrentNodeTaskID (rx_execs ex_c3 ! 0),
     te_Stage := ''escalated''\<rparr>)) ex_rev ex_c3"

lemma ex_reach: "req_reach ex_rg ex_c3" "req_reach ex_rg ex_c4"
proof -
  have a: "rx_starting ex_c1 = [(0, [], [])] \<and> rx_created ex_c2 = [0]" by code_simp
  have "req_reach ex_rg ex_c1" unfolding ex_c1_def by (rule reach_step[OF reach_start step_pending]) simp
  then have "req_reach ex_rg ex_c2" unfolding ex_c2_def by (rule reach_step) (rule step_branch, simp add: a)
  then show c3: "req_reach ex_rg ex_c3" unfolding ex_c3_def by (rule reach_step) (rule step_dispatch, simp add: a)
  show "req_reach ex_rg ex_c4" unfolding ex_c4_def
    by (rule reach_step[OF c3]) (rule step_task, simp add: ex_rev_def load_ok_def)
qed

section \<open>Properties\<close>



text \<open>C14: an execution reports its end at most once, and none that is still running has; only running executions are in
  the table, under their own ID; and once an execution has ended and its set-up is over, no event makes it send
  anything or run again.
\<close>

theorem requirement_reports_once:
  assumes "req_reach g c" "1 \<le> rg_MaxRecoveryRestarts g" "r < length (rx_execs c)"
  defines "x \<equiv> rx_execs c ! r"
  shows "reports x \<le> (if ru_terminated x then 1 else 0)
    \<and> (\<forall>k. map_of (rx_active c) k = Some r \<longrightarrow> k = ru_EntityID x \<and> \<not> ru_terminated x)
    \<and> (\<forall>d. req_step load_ok c d \<and> ru_terminated x \<and> r \<notin> fst ` set (rx_starting c) \<and> r \<notin> set (rx_created c)
        \<longrightarrow> ru_terminated (rx_execs d ! r) \<and> ru_out (rx_execs d ! r) = ru_out x)"
proof -
  have ok: "comp_ok c" by (rule req_reach_ok[OF assms(1,2)])
  have "map_of (rx_active c) k = Some r \<longrightarrow> k = ru_EntityID x \<and> \<not> ru_terminated x" for k
    using ok by (auto simp: comp_ok_def table_ok_def x_def)
  then show ?thesis using comp_ok_run[OF ok assms(3)] ended_step[OF _ ok assms(3)] by (auto simp: x_def rrun_ok_def)
qed

theorem requirement_reports_once_witness:
  "1 \<le> rg_MaxRecoveryRestarts ex_rg \<and> 0 < length (rx_execs ex_c4) \<and> reports (rx_execs ex_c4 ! 0) = 0"
proof -
  have c: "length (rx_execs ex_c4) = 1 \<and> \<not> ru_terminated (rx_execs ex_c4 ! 0)" by code_simp
  then show ?thesis using requirement_reports_once[OF ex_reach(2), of 0] by (simp add: ex_rg_def)
qed

text \<open>C15: an execution that waits for recovery has an armed timer, which ends the execution when no decision is pending any
  more; and an execution whose watchdog has been started and that has not ended has it armed, and it ends the execution.
\<close>

theorem requirement_watchdog:
  assumes "req_reach g c" "1 \<le> rg_MaxRecoveryRestarts g" "r < length (rx_execs c)" "\<not> ru_terminated (rx_execs c ! r)"
  defines "x \<equiv> rx_execs c ! r"
  shows "(ru_awaitingRecovery x \<longrightarrow> (\<exists>j. (j, RecoveryTimer) \<in> set (ru_armed x) \<and> (\<forall>ev ds. ev_decisions ev = Some ds
        \<and> list_all (\<lambda>d. \<not> isPendingRecoveryDecisionForRequirement d (ru_RequirementID x)) ds
        \<longrightarrow> ru_terminated (rx_execs (timer_fired r j RecoveryTimer ev c) ! r))))
    \<and> (\<forall>j. ru_timeoutTimer x = Some j \<longrightarrow> (j, ExecutionTimer) \<in> set (ru_armed x)
        \<and> (\<forall>ev. ru_terminated (rx_execs (timer_fired r j ExecutionTimer ev c) ! r)))"
proof -
  have t: "rtimers_ok (ru_armed x) (ru_nextTimer x) (ru_recoveryTimer x) (ru_timeoutTimer x) False (ru_awaitingRecovery x)"
    using comp_ok_run[OF req_reach_ok[OF assms(1,2)] assms(3)] assms(4) by (simp add: rrun_ok_def x_def)
  have e: "ru_terminated (rx_execs (timer_fired r j ExecutionTimer ev c) ! r)" for j ev
    using assms(3) by (simp add: timer_fired_def locked_def Let_def fire_def marked)
  have w: "ru_terminated (rx_execs (timer_fired r j RecoveryTimer ev c) ! r)" if "ru_awaitingRecovery x" "ev_decisions ev = Some ds"
      "list_all (\<lambda>d. \<not> isPendingRecoveryDecisionForRequirement d (ru_RequirementID x)) ds" for j ev ds
    using that assms(3) by (simp add: x_def timer_fired_def locked_def Let_def fire_def handleRecoveryTimeout_def marked list_ex_iff list_all_iff)
  show ?thesis using t e w unfolding rtimers_ok_def by blast
qed

theorem requirement_watchdog_witness:
  "1 \<le> rg_MaxRecoveryRestarts ex_rg \<and> 0 < length (rx_execs ex_c4) \<and> \<not> ru_terminated (rx_execs ex_c4 ! 0)
    \<and> (\<exists>j. (j, RecoveryTimer) \<in> set (ru_armed (rx_execs ex_c4 ! 0)) \<and> ru_terminated (rx_execs (timer_fired 0 j RecoveryTimer ex_rev ex_c4) ! 0))"
proof -
  have c: "length (rx_execs ex_c4) = 1 \<and> \<not> ru_terminated (rx_execs ex_c4 ! 0) \<and> ru_awaitingRecovery (rx_execs ex_c4 ! 0)" by code_simp
  have g: "1 \<le> rg_MaxRecoveryRestarts ex_rg" and e: "ev_decisions ex_rev = Some []" by (simp_all add: ex_rev_def ex_rg_def)
  have "0 < length (rx_execs ex_c4)" using c by simp
  with requirement_watchdog[OF ex_reach(2) g this] c obtain j where "(j, RecoveryTimer) \<in> set (ru_armed (rx_execs ex_c4 ! 0))"
    "\<And>ev ds. ev_decisions ev = Some ds \<Longrightarrow> list_all (\<lambda>d. \<not> isPendingRecoveryDecisionForRequirement d (ru_RequirementID (rx_execs ex_c4 ! 0))) ds
      \<Longrightarrow> ru_terminated (rx_execs (timer_fired 0 j RecoveryTimer ev ex_c4) ! 0)" by blast
  then show ?thesis using c g e by (intro conjI exI[of _ j]) simp_all
qed

text \<open>While PLAN_STATES cannot be read, a waiting execution is extended, but only so often.\<close>

lemma recovery_gives_up:
  assumes "ru_awaitingRecovery x" "\<not> ru_terminated x" "ru_recoveryInfraRetries x + int (length evs) > maxRecoveryInfraRetries" "evs \<noteq> []"
    and "\<forall>ev \<in> set evs. ev_decisions ev = None"
  shows "ru_terminated (fold (handleRecoveryTimeout g) evs x)"
  using assms
proof (induction evs arbitrary: x)
  case (Cons ev evs)
  have stuck: "ru_terminated (fold (handleRecoveryTimeout g) evs y)" if "ru_terminated y" "\<not> ru_awaitingRecovery y" for y evs
    using that by (induction evs arbitrary: y) (simp_all add: handleRecoveryTimeout_def)
  show ?case
  proof (cases "ru_recoveryInfraRetries x + 1 > maxRecoveryInfraRetries")
    case True
    then have "\<exists>y. handleRecoveryTimeout g ev x = markFailedLocked g (ru_recoveryReason x) (y\<lparr>ru_awaitingRecovery := False, ru_recoveryTimer := None\<rparr>)"
      using Cons.prems by (auto simp: handleRecoveryTimeout_def Let_def)
    then show ?thesis by (auto simp: marked intro!: stuck)
  next
    case False
    then have "handleRecoveryTimeout g ev x = arm_recovery (x\<lparr>ru_recoveryInfraRetries := ru_recoveryInfraRetries x + 1\<rparr>)"
      using Cons.prems by (simp add: handleRecoveryTimeout_def Let_def)
    then show ?thesis using Cons.prems False by (cases "evs = []") (auto simp: arm_recovery_def intro!: Cons.IH)
  qed
qed simp

text \<open>The nodes of a synthesized DAG are the tasks of the story, and its check has passed.\<close>

lemma synthesized:
  assumes "synthesizeTaskDAGForStory block p story = Inr d"
  shows "TaskDAG_Validate d = None" "\<exists>b f s. dag_Nodes d = map (task_node b f s) (s_Tasks story)"
    "n_ID ` set (dag_Nodes d) = t_ID ` set (s_Tasks story)"
proof -
  show "TaskDAG_Validate d = None" and n: "\<exists>b f s. dag_Nodes d = map (task_node b f s) (s_Tasks story)"
    using assms by (auto simp: synthesizeTaskDAGForStory_def Let_def simp del: map_eq_conv split: if_splits option.splits) blast+
  obtain b f s where "dag_Nodes d = map (task_node b f s) (s_Tasks story)" using n by blast
  then show "n_ID ` set (dag_Nodes d) = t_ID ` set (s_Tasks story)" by (simp add: image_image map_node_fields)
qed

text \<open>C17: the DAG synthesized for a story is sorted without an error, so that a story is never failed by its node order:
  the order has every task of the story once, each after the tasks it depends on.
\<close>

theorem node_order_correct:
  assumes "synthesizeTaskDAGForStory block p story = Inr d"
  shows "\<exists>order. topoSort d = Inr order \<and> distinct order \<and> set order = t_ID ` set (s_Tasks story)
    \<and> (\<forall>t \<in> set (s_Tasks story). \<forall>ys zs. order = ys @ t_ID t # zs \<longrightarrow> set (t_DependsOn t) \<subseteq> set ys)"
proof -
  let ?ns = "dag_Nodes d"
  note v = synthesized(1)[OF assms] and n = synthesized(2)[OF assms]
  obtain order where o: "topoSort d = Inr order" "distinct order" "set order = n_ID ` set ?ns" "topo (node_deps ?ns) order"
    using topoSort_valid[OF v] by blast
  have ids: "distinct (map n_ID ?ns)" using v by (simp add: TaskDAG_Validate_None)
  have "set (t_DependsOn t) \<subseteq> set ys" if t: "t \<in> set (s_Tasks story)" "order = ys @ t_ID t # zs" for t ys zs
  proof -
    obtain b f s where "?ns = map (task_node b f s) (s_Tasks story)" using n by blast
    then have "task_node b f s t \<in> set ?ns" using t(1) by simp
    from dag_adj_distinct[OF ids this, of n_DependsOn] have "node_deps ?ns (t_ID t) = t_DependsOn t" by (simp add: map_node_fields)
    then show ?thesis using o(4)[unfolded topo_def, rule_format, OF t(2)] by simp
  qed
  then show ?thesis using o(1,2,3) synthesized(3)[OF assms] by (intro exI[of _ order] conjI) simp_all
qed

theorem node_order_correct_witness:
  "\<exists>d order. synthesizeTaskDAGForStory (\<lambda>_. []) (Some Plan_zero) ex_task_story = Inr d \<and> topoSort d = Inr order \<and> set order = {''t1'', ''t2''}"
proof -
  have "case synthesizeTaskDAGForStory (\<lambda>_. []) (Some Plan_zero) ex_task_story of Inr _ \<Rightarrow> True | Inl _ \<Rightarrow> False" by code_simp
  then obtain d where "synthesizeTaskDAGForStory (\<lambda>_. []) (Some Plan_zero) ex_task_story = Inr d" by (auto split: sum.splits)
  with node_order_correct[OF this] show ?thesis by (auto simp: ex_task_story_def)
qed


text \<open>A requirement with one story of one task; the reviewer's worktree has the file the plan promises.\<close>

definition ex_done :: reqRun where
  "ex_done = reqRun_zero\<lparr>ru_RequirementID := ''r'', ru_SortedStoryIDs := [''s''], ru_ReviewerTaskID := ''v'',
     ru_NodeResults := [\<lparr>nr_NodeID = ''t1'', nr_FilesModified = [''a.go''], nr_Summary = [], nr_CommitSHA = ''h''\<rparr>]\<rparr>"

definition ex_promised :: REnv where
  "ex_promised = ex_rev\<lparr>ev_plan := \<lambda>_. PlanLoaded (ex_rplan\<lparr>p_Scope := (p_Scope ex_rplan)\<lparr>scope_Create := [''a.go'']\<rparr>\<rparr>), ev_files := \<lambda>_. LsRun 0 ''a.go''\<rparr>"

definition ex_rloop :: LoopEvent where
  "ex_rloop = \<lparr>lv_LoopID = [], lv_TaskID = ''v'', lv_Success = True, lv_Outcome = ''success'', lv_Iterations = 0, lv_Error = [],
     lv_MaxIterations = 0, lv_WorkflowStep = []\<rparr>"

definition ex_verdict :: review_raw where
  "ex_verdict = ReviewRead \<lparr>rw_Verdict = ''approved'', rw_RejectionType = [], rw_Feedback = [], rw_ScenarioVerdicts = []\<rparr>"

lemma unreported_code [code]:
  "unreported x = list_all (\<lambda>e. case e of SendComplete q \<Rightarrow> ce_Outcome q \<noteq> ''completed'' | _ \<Rightarrow> True) (ru_out x)"
  by (force simp: unreported_def list_all_iff split: reffect.splits)


end
