(* ===== verification/Req_Flaws.thy ===== *)
theory Req_Flaws
  imports Req_Claims
begin

text \<open>
  Where the requirement executor falls short of what its comments promise: nodes that a retry makes it
  skip, stories whose work a restructure discards, and executions that a restart strands.
\<close>

section \<open>Nodes skipped after a retry\<close>

definition is_task :: "reffect \<Rightarrow> bool" where
  "is_task e = (case e of SendTaskCreate _ \<Rightarrow> True | _ \<Rightarrow> False)"

lemma next_node_clean: "\<forall>n \<in> set ns. \<not> isNodeDirty x n \<Longrightarrow> next_node x ns i = i + int (length ns)"
  by (induction ns arbitrary: i) auto

lemma review_when_clean:
  assumes "\<forall>n \<in> set (drop (nat (ru_CurrentNodeIdx x + 1)) (ru_SortedNodeIDs x)). \<not> isNodeDirty x n" "- 1 \<le> ru_CurrentNodeIdx x"
    and "ru_CurrentNodeIdx x < int (length (ru_SortedNodeIDs x))"
  shows "dispatchNextNodeLocked g ev x = dispatchRequirementReviewerLocked g ev (x\<lparr>ru_CurrentNodeIdx := int (length (ru_SortedNodeIDs x))\<rparr>)"
  using assms next_node_clean[OF assms(1)] by (simp add: dispatchNextNodeLocked_def Let_def of_nat_diff)

lemma cleanup_fields:
  "ru_CurrentNodeIdx (cleanupExecutionLocked g ok x) = ru_CurrentNodeIdx x" "ru_NodeResults (cleanupExecutionLocked g ok x) = ru_NodeResults x"
  "filter is_task (ru_out (cleanupExecutionLocked g ok x)) = filter is_task (ru_out x)"
proof -
  have out: "filter is_task (map DropWorktree ws) = []" for ws by (induction ws) (simp_all add: is_task_def)
  have stop: "ru_CurrentNodeIdx (stop_armed h y) = ru_CurrentNodeIdx y" "ru_NodeResults (stop_armed h y) = ru_NodeResults y"
    "ru_out (stop_armed h y) = ru_out y" for h y by (simp_all add: stop_armed_def split: option.split)
  show "ru_CurrentNodeIdx (cleanupExecutionLocked g ok x) = ru_CurrentNodeIdx x" "ru_NodeResults (cleanupExecutionLocked g ok x) = ru_NodeResults x"
    "filter is_task (ru_out (cleanupExecutionLocked g ok x)) = filter is_task (ru_out x)"
    by (simp_all add: cleanupExecutionLocked_def Let_def stop_recovery_def stop out del: map_append)
qed

lemma send_fields:
  "ru_CurrentNodeIdx (send e x) = ru_CurrentNodeIdx x" "ru_NodeResults (send e x) = ru_NodeResults x" "ru_terminated (send e x) = ru_terminated x"
  "ru_ReviewerTaskID (send e x) = ru_ReviewerTaskID x" "ru_out (send e x) = ru_out x @ [e]"
  by (simp_all add: send_def)

lemma error_fields:
  "ru_CurrentNodeIdx (markErrorLocked g reason x) = ru_CurrentNodeIdx x" "ru_NodeResults (markErrorLocked g reason x) = ru_NodeResults x"
  "filter is_task (ru_out (markErrorLocked g reason x)) = filter is_task (ru_out x)"
  by (simp_all add: markErrorLocked_def Let_def cleanup_fields publishRequirementCompleteEvent_def send_fields is_task_def)

lemma review_fields:
  fixes g :: RConfig and ev :: REnv and x :: reqRun
  defines "d \<equiv> dispatchRequirementReviewerLocked g ev x"
  shows "ru_CurrentNodeIdx d = ru_CurrentNodeIdx x" "ru_NodeResults d = ru_NodeResults x" "filter is_task (ru_out d) = filter is_task (ru_out x)"
    "ev_publish ev = None \<Longrightarrow> ru_terminated d = ru_terminated x \<and> last (ru_out d) = SendReviewTask (ru_ReviewerTaskID d)"
  by (simp_all add: d_def dispatchRequirementReviewerLocked_def Let_def error_fields send_fields is_task_def split: option.split)

text \<open>The execution of a node that has failed and is run again.\<close>

lemma retried:
  fixes g :: RConfig
  assumes "ru_CurrentNodeIdx x = int k" "k < length (ru_SortedNodeIDs x)" "node_index x (ru_SortedNodeIDs x ! k) \<noteq> None"
    and "can_retry x" "0 \<le> ru_RetryCount x" "ev_taskCreate ev = None" "\<not> ne_Success event" "ne_TaskStage event \<noteq> ''escalated''"
  defines "y \<equiv> handleNodeCompleteLocked g ev event x"
  shows "ru_CurrentNodeIdx y = int k" "ru_SortedNodeIDs y = ru_SortedNodeIDs x" "ru_RetryCount y = ru_RetryCount x + 1"
    "ru_DirtyNodeIDs y = [ru_SortedNodeIDs x ! k]" "ru_NodeResults y = ru_NodeResults x"
    "ru_VisitedNodes y = removeAll (ru_SortedNodeIDs x ! k) (ru_VisitedNodes x)" "\<not> ru_terminated y"
proof -
  let ?n = "ru_SortedNodeIDs x ! k"
  let ?f = "''Node '' @ ev_quote ev ?n @ '' failed (outcome='' @ ne_Outcome event @ ''). Retry the implementation.''"
  define z where "z = (send (SendReqPhase (phase_req (ru_storeKey x) ''executing'')) (x\<lparr>ru_RetryCount := ru_RetryCount x + 1,
     ru_LastReviewFeedback := ?f, ru_terminated := False, ru_DirtyNodeIDs := [?n], ru_VisitedNodes := removeAll ?n (ru_VisitedNodes x)\<rparr>))\<lparr>ru_CurrentNodeIdx := int k - 1\<rparr>"
  have rm: "removeAll ?n (List.insert ?n vs) = removeAll ?n vs" for vs by (simp add: List.insert_def)
  have y: "y = dispatchNextNodeLocked g ev z"
    using assms(1,2,4,7,8) unfolding y_def z_def
    by (simp add: handleNodeCompleteLocked_def handleNodeFailureLocked_def retryNodeAtRequirementLevelLocked_def Let_def can_retry_def rm)
  have z: "ru_CurrentNodeIdx z = int k - 1" "ru_SortedNodeIDs z = ru_SortedNodeIDs x" "ru_RetryCount z = ru_RetryCount x + 1" "ru_DirtyNodeIDs z = [?n]"
    "ru_NodeResults z = ru_NodeResults x" "ru_VisitedNodes z = removeAll ?n (ru_VisitedNodes x)" "\<not> ru_terminated z" "ru_DAG z = ru_DAG x"
    by (simp_all add: z_def send_def)
  have "next_node z (drop k (ru_SortedNodeIDs x)) (int k) = int k"
    using assms(2) z(3,4) by (simp add: Cons_nth_drop_Suc[symmetric] isNodeDirty_def)
  moreover have "node_index z ?n = node_index x ?n" using z(8) by (simp add: node_index_def)
  ultimately show "ru_CurrentNodeIdx y = int k" "ru_SortedNodeIDs y = ru_SortedNodeIDs x" "ru_RetryCount y = ru_RetryCount x + 1"
    "ru_DirtyNodeIDs y = [?n]" "ru_NodeResults y = ru_NodeResults x" "ru_VisitedNodes y = removeAll ?n (ru_VisitedNodes x)" "\<not> ru_terminated y"
    using assms(2,3,6) z by (auto simp: y dispatchNextNodeLocked_def Let_def send_def)
qed

text \<open>C36: when a node fails once and its retry succeeds, the nodes after it are never run: only the retried node is marked
  as having to run, and the mark is not taken back.  The review of the story starts with their results missing.
\<close>

theorem retry_skips_nodes:
  fixes g :: RConfig and ev2 :: REnv
  assumes "ru_CurrentNodeIdx x = int k" "k < length (ru_SortedNodeIDs x)" "distinct (ru_SortedNodeIDs x)"
    and "node_index x (ru_SortedNodeIDs x ! k) \<noteq> None" "can_retry x" "0 \<le> ru_RetryCount x"
    and "length (List.insert (ru_SortedNodeIDs x ! k) (ru_VisitedNodes x)) < length (ru_SortedNodeIDs x)" "distinct (ru_VisitedNodes x)"
    and "ev_taskCreate ev1 = None" "\<not> ne_Success failed" "ne_TaskStage failed \<noteq> ''escalated''"
    and "ne_Success ok" "parseNodeResultPayload (ne_Result ok) = Inr p"
  defines "y \<equiv> handleNodeCompleteLocked g ev1 failed x"
  defines "z \<equiv> handleNodeCompleteLocked g ev2 ok y"
  shows "ru_CurrentNodeIdx z = int (length (ru_SortedNodeIDs x)) \<and> filter is_task (ru_out z) = filter is_task (ru_out y)
    \<and> map nr_NodeID (ru_NodeResults z) = map nr_NodeID (ru_NodeResults x) @ [ru_SortedNodeIDs x ! k]
    \<and> (ev_publish ev2 = None \<longrightarrow> last (ru_out z) = SendReviewTask (ru_ReviewerTaskID z) \<and> \<not> ru_terminated z)"
proof -
  let ?n = "ru_SortedNodeIDs x ! k"
  note y = retried[OF assms(1,2,4,5,6,9,10,11), of g, folded y_def]
  have vis: "length (List.insert ?n (removeAll ?n (ru_VisitedNodes x))) = length (List.insert ?n (ru_VisitedNodes x))"
    using assms(8) length_pos_if_in_set[of ?n "ru_VisitedNodes x"]
    by (cases "?n \<in> set (ru_VisitedNodes x)") (auto simp: List.insert_def distinct_remove1_removeAll[symmetric] length_remove1 removeAll_id)
  define w where "w = (case p of None \<Rightarrow> \<lparr>nr_NodeID = ?n, nr_FilesModified = [], nr_Summary = [], nr_CommitSHA = []\<rparr>
     | Some q \<Rightarrow> \<lparr>nr_NodeID = ?n, nr_FilesModified = np_FilesModified q @ np_FilesCreated q, nr_Summary = np_Summary q, nr_CommitSHA = np_MergeCommit q\<rparr>)"
  let ?y = "send (SendReqNode \<lparr>rq_Key = ru_storeKey y, rq_CurrentNodeIdx = Some (int k), rq_NodeResult = Some w, rq_CurrentNodeTaskID = []\<rparr>)
     (y\<lparr>ru_VisitedNodes := List.insert ?n (ru_VisitedNodes y), ru_NodeResults := ru_NodeResults y @ [w]\<rparr>)"
  have "z = dispatchNextNodeLocked g ev2 ?y"
    using assms(2,7,12,13) y vis unfolding z_def
    by (simp add: handleNodeCompleteLocked_def recordNodeSuccessLocked_def Let_def w_def) (simp add: send_def)
  also have "\<dots> = dispatchRequirementReviewerLocked g ev2 (?y\<lparr>ru_CurrentNodeIdx := int (length (ru_SortedNodeIDs ?y))\<rparr>)"
  proof (rule review_when_clean)
    have "n \<noteq> ?n" if "n \<in> set (drop (Suc k) (ru_SortedNodeIDs x))" for n
      using that assms(2,3) by (metis id_take_nth_drop disjoint_insert(1) distinct_append distinct.simps(2) )
    then show "\<forall>n \<in> set (drop (nat (ru_CurrentNodeIdx ?y + 1)) (ru_SortedNodeIDs ?y)). \<not> isNodeDirty ?y n"
      using y assms(6) by (simp add: isNodeDirty_def send_def nat_add_distrib)
  qed (use y assms(2) in \<open>simp_all add: send_def\<close>)
  finally have z: "z = dispatchRequirementReviewerLocked g ev2 (?y\<lparr>ru_CurrentNodeIdx := int (length (ru_SortedNodeIDs x))\<rparr>)"
    using y(2) by (simp add: send_def)
  have w: "nr_NodeID w = ?n" by (simp add: w_def split: option.split)
  show ?thesis unfolding z using w y(5,7) by (simp add: review_fields) (simp add: send_def is_task_def)
qed

definition ex_fail :: NodeEvent where
  "ex_fail = \<lparr>ne_Success = False, ne_Outcome = ''failed'', ne_Result = NodeEmpty, ne_TaskStage = ''failed'', ne_EscalationReason = []\<rparr>"

definition ex_good :: NodeEvent where
  "ex_good = \<lparr>ne_Success = True, ne_Outcome = ''success'', ne_Result = NodeEmpty, ne_TaskStage = ''approved'', ne_EscalationReason = []\<rparr>"

text \<open>In the example the first of the two tasks fails once; the second is never run.\<close>

theorem retry_skips_nodes_witness:
  "ru_SortedNodeIDs (rx_execs ex_c3 ! 0) = [''t1'', ''t2'']
    \<and> map nr_NodeID (ru_NodeResults (handleNodeCompleteLocked ex_rg ex_rev ex_good (handleNodeCompleteLocked ex_rg ex_rev ex_fail (rx_execs ex_c3 ! 0))))
      = [''t1'']"
proof -
  let ?x = "rx_execs ex_c3 ! 0"
  have x: "ru_SortedNodeIDs ?x = [''t1'', ''t2''] \<and> ru_CurrentNodeIdx ?x = int 0 \<and> can_retry ?x \<and> ru_RetryCount ?x = 0
    \<and> ru_VisitedNodes ?x = [] \<and> ru_NodeResults ?x = []" by code_simp
  have n: "node_index ?x ''t1'' \<noteq> None" by code_simp
  have "map nr_NodeID (ru_NodeResults (handleNodeCompleteLocked ex_rg ex_rev ex_good (handleNodeCompleteLocked ex_rg ex_rev ex_fail ?x)))
    = map nr_NodeID (ru_NodeResults ?x) @ [ru_SortedNodeIDs ?x ! 0]"
    using x n by (intro retry_skips_nodes[where k = 0 and p = None, THEN conjunct2, THEN conjunct2, THEN conjunct1])
      (simp_all add: ex_rev_def ex_fail_def ex_good_def parseNodeResultPayload_def)
  then show ?thesis using x by simp
qed

section \<open>Stories dropped by a restructure\<close>

text \<open>Operations that leave the stories and their results alone and only add messages.\<close>

definition story_kept :: "reqRun \<Rightarrow> reqRun \<Rightarrow> bool" where
  "story_kept x y \<longleftrightarrow> ru_CurrentStoryIdx y = ru_CurrentStoryIdx x \<and> ru_SortedStoryIDs y = ru_SortedStoryIDs x \<and> ru_NodeResults y = ru_NodeResults x
     \<and> ru_ScenarioVerdicts y = ru_ScenarioVerdicts x \<and> ru_SortedNodeIDs y = ru_SortedNodeIDs x \<and> set (ru_out x) \<subseteq> set (ru_out y)"

lemma story_kept_trans: "story_kept x y \<Longrightarrow> story_kept y z \<Longrightarrow> story_kept x z"
  by (auto simp: story_kept_def)

lemma story_kept_send: "story_kept x (send e x)"
  by (auto simp: story_kept_def send_def)

lemma story_kept_error: "story_kept x (markErrorLocked g reason x)"
  by (auto simp: story_kept_def markErrorLocked_def Let_def cleanupExecutionLocked_def publishRequirementCompleteEvent_def send_def
      stop_recovery_def stop_armed_def split: option.split)

lemma story_kept_reviewer: "story_kept x (dispatchRequirementReviewerLocked g ev x)"
proof -
  have "story_kept x z \<Longrightarrow> story_kept x (markErrorLocked g r z)" "story_kept x z \<Longrightarrow> story_kept x (send e z)" for z r e
    by (blast intro: story_kept_trans story_kept_error story_kept_send)+
  moreover have "story_kept x (x\<lparr>ru_ReviewerTaskID := t\<rparr>)" for t by (simp add: story_kept_def)
  ultimately show ?thesis by (simp add: dispatchRequirementReviewerLocked_def Let_def split: option.split)
qed

lemma story_kept_next: "story_kept x (dispatchNextNodeLocked g ev x)"
proof -
  have "story_kept x z \<Longrightarrow> story_kept x (markErrorLocked g r z)" "story_kept x z \<Longrightarrow> story_kept x (send e z)"
    "story_kept x z \<Longrightarrow> story_kept x (dispatchRequirementReviewerLocked g ev z)" for z r e
    by (blast intro: story_kept_trans story_kept_error story_kept_send story_kept_reviewer)+
  moreover have "story_kept x (x\<lparr>ru_CurrentNodeIdx := i\<rparr>)" "story_kept x (x\<lparr>ru_CurrentNodeIdx := i, ru_CurrentNodeTaskID := t, ru_NodeTaskIDs := ts\<rparr>)" for i t ts
    by (simp_all add: story_kept_def)
  ultimately show ?thesis by (simp add: dispatchNextNodeLocked_def Let_def split: option.split)
qed

lemma story_kept_dag:
  assumes "topoSort d = Inr order"
  shows "story_kept (x\<lparr>ru_DAG := Some d, ru_SortedNodeIDs := order\<rparr>) (applyParsedDAGLocked g ev d x)"
  using assms by (simp add: applyParsedDAGLocked_def Let_def) (blast intro: story_kept_trans story_kept_send story_kept_next)

lemma walk_kept: "\<forall>t. ev_claim ev s t \<Longrightarrow> \<exists>ms. walk_story ev slug s ts x = (True, x\<lparr>ru_out := ru_out x @ ms\<rparr>)"
proof (induction ts arbitrary: x)
  case (Cons t ts)
  from Cons.IH[OF Cons.prems, of "send (ClaimStory slug s t) x"] Cons.prems show ?case by (auto simp: send_def)
qed (auto intro: exI[of _ "[]"])

text \<open>C37: when the review of a later story asks for a restructure, the branch with the work of all stories is deleted and all
  results and verdicts are dropped, but the cursor stays at the story: only the tasks of this story are run again, and
  the work of the stories before it is lost.
\<close>

theorem restructure_drops_stories:
  fixes feedback :: bytes
  assumes "current_story x = Some s" "s \<noteq> []" "rg_SandboxURL g \<noteq> []" "ru_RequirementBranch x \<noteq> []"
    and "ev_plan ev AtRestructure = PlanLoaded p" "findStoryByID p s = Some story" "StoryStatus_IsValid (s_Status story)"
      "DeterministicStoryOwner story = ru_RequirementID x" "\<forall>t. ev_claim ev s t"
    and "ev_plan ev AtSynthesis = PlanLoaded q" "findStoryByID q s = Some again" "s_Status again \<noteq> StoryStatusComplete"
      "synthesizeTaskDAGForStory (ev_block ev) (Some q) again = Inr d"
  defines "y \<equiv> startRestructureRetryLocked g ev feedback x"
  shows "DropBranch (ru_RequirementBranch x) \<in> set (ru_out y) \<and> ru_NodeResults y = [] \<and> ru_ScenarioVerdicts y = []
    \<and> ru_CurrentStoryIdx y = ru_CurrentStoryIdx x \<and> set (ru_SortedNodeIDs y) = t_ID ` set (s_Tasks again)"
proof -
  have reopen: "\<exists>ms. reopenStoriesFromPlan ev slug p [s] z = (1, z\<lparr>ru_out := ru_out z @ ms\<rparr>)" for z slug
    using walk_kept[OF assms(9), of slug "storyStatusWalkToReady (s_Status story)" z] assms(6) by auto
  let ?x = "x\<lparr>ru_RetryCount := ru_RetryCount x + 1, ru_LastReviewFeedback := feedback, ru_terminated := False\<rparr>"
  have cur: "current_story ?x = Some s" using assms(1) by (auto simp: current_story_def split: if_splits)
  obtain ms where r: "resetCurrentStoryForRestructureLocked ev ?x = (True, ?x\<lparr>ru_out := ru_out x @ ms\<rparr>)"
    using reopen[of "ru_Slug x" ?x] cur assms(2,5-8) by (auto simp: resetCurrentStoryForRestructureLocked_def)
  let ?z = "send (SendReqPhase (phase_req (ru_storeKey x) ''decomposing'')) (reset_review (send (SendNodeResults
      \<lparr>rs_Key = ru_storeKey x, rs_NodeResults = []\<rparr>) (reset_dag (recreate_branch g (?x\<lparr>ru_out := ru_out x @ ms\<rparr>)))))"
  have y: "y = dispatchSynthesizerLocked g ev ?z" unfolding y_def by (simp add: startRestructureRetryLocked_def r Let_def)
  have z: "ru_SortedStoryIDs ?z = ru_SortedStoryIDs x" "ru_CurrentStoryIdx ?z = ru_CurrentStoryIdx x" "ru_NodeResults ?z = []"
    "ru_ScenarioVerdicts ?z = []" "DropBranch (ru_RequirementBranch x) \<in> set (ru_out ?z)"
    using assms(3,4) by (simp_all add: send_def reset_review_def reset_dag_def recreate_branch_def)
  obtain order where o: "topoSort d = Inr order" "set order = t_ID ` set (s_Tasks again)" 
    using topoSort_valid[OF synthesized(1)[OF assms(13)]] synthesized(3)[OF assms(13)] by metis
  have "0 \<le> ru_CurrentStoryIdx x" "ru_CurrentStoryIdx x < int (length (ru_SortedStoryIDs x))" "ru_SortedStoryIDs x ! nat (ru_CurrentStoryIdx x) = s"
    using assms(1) by (auto simp: current_story_def split: if_splits)
  then have "drop (nat (ru_CurrentStoryIdx x)) (ru_SortedStoryIDs x) = s # drop (Suc (nat (ru_CurrentStoryIdx x))) (ru_SortedStoryIDs x)"
    "ru_SortedStoryIDs x \<noteq> []"
    by (auto simp: Cons_nth_drop_Suc[symmetric])
  then have "y = applyParsedDAGLocked g ev d (send (ClaimStory (p_Slug q) s StoryStatusExecuting) ?z)"
    using assms(9-13) z \<open>0 \<le> ru_CurrentStoryIdx x\<close> \<open>ru_CurrentStoryIdx x < int (length (ru_SortedStoryIDs x))\<close>
    unfolding y by (simp add: dispatchSynthesizerLocked_def dispatchCurrentStoryLocked_def Let_def)
  then have "story_kept ((send (ClaimStory (p_Slug q) s StoryStatusExecuting) ?z)\<lparr>ru_DAG := Some d, ru_SortedNodeIDs := order\<rparr>) y"
    using story_kept_dag[OF o(1)] by simp
  then show ?thesis using z o(2) by (auto simp: story_kept_def send_def)
qed

text \<open>The second story of a requirement is restructured; the result of the first is gone.\<close>

definition ex_second :: reqRun where
  "ex_second = reqRun_zero\<lparr>ru_RequirementID := ''r'', ru_RequirementBranch := ''b'', ru_SortedStoryIDs := [''s0'', ''s''], ru_CurrentStoryIdx := 1,
     ru_NodeResults := [\<lparr>nr_NodeID = ''t0'', nr_FilesModified = [''z.go''], nr_Summary = [], nr_CommitSHA = ''h''\<rparr>]\<rparr>"

theorem restructure_drops_stories_witness:
  "\<exists>y. y = startRestructureRetryLocked (ex_rg\<lparr>rg_SandboxURL := ''u''\<rparr>) ex_rev [] ex_second \<and> DropBranch ''b'' \<in> set (ru_out y)
    \<and> ru_NodeResults y = [] \<and> ru_CurrentStoryIdx y = 1 \<and> set (ru_SortedNodeIDs y) = {''t1'', ''t2''}"
proof -
  let ?g = "ex_rg\<lparr>rg_SandboxURL := ''u''\<rparr>"
  obtain story where s: "findStoryByID ex_rplan ''s'' = Some story" "StoryStatus_IsValid (s_Status story)" "s_Status story \<noteq> StoryStatusComplete"
    "DeterministicStoryOwner story = ''r''" "map t_ID (s_Tasks story) = [''t1'', ''t2'']"
  proof -
    have "case findStoryByID ex_rplan ''s'' of None \<Rightarrow> False | Some s \<Rightarrow> StoryStatus_IsValid (s_Status s) \<and> s_Status s \<noteq> StoryStatusComplete
      \<and> DeterministicStoryOwner s = ''r'' \<and> map t_ID (s_Tasks s) = [''t1'', ''t2'']" by code_simp
    then show thesis by (auto split: option.splits intro: that)
  qed
  have "case findStoryByID ex_rplan ''s'' of None \<Rightarrow> False | Some s \<Rightarrow> \<not> isl (synthesizeTaskDAGForStory (\<lambda>_. []) (Some ex_rplan) s)" by code_simp
  then obtain d where d: "synthesizeTaskDAGForStory (ev_block ex_rev) (Some ex_rplan) story = Inr d"
    using s(1) by (auto simp: ex_rev_def isl_def split: sum.splits) (metis sum.exhaust)
  have t: "t_ID ` set (s_Tasks story) = {''t1'', ''t2''}" using arg_cong[OF s(5), of set] by simp
  show ?thesis
    using restructure_drops_stories[of ex_second "''s''" ?g ex_rev ex_rplan story ex_rplan story d "[]"] s d t
    by (simp add: ex_rev_def ex_rg_def ex_second_def current_story_def reqRun_zero_def)
qed

end
