(* ===== verification/Req_Rows.thy ===== *)
theory Req_Rows
  imports Req_Flaws
begin

text \<open>
  The requirement executor together with the rows the execution manager keeps for it.  The executor
  reads the rows of EXECUTION_STATES when it starts, when a task ends that it does not know, and when
  a decision reopens a finished requirement; the rows are written by the mutation handlers of
  theory \<open>Exec_Mutations\<close> from what executors have sent.  In theory \<open>Req_Machine\<close> the rows are
  assumed to be sound; here this is proved: a message may be delivered at any time after it was sent,
  again and out of order, also by an executor that has crashed since.
\<close>

section \<open>Rows of the execution manager\<close>

definition row_sound :: "RequirementExecution \<Rightarrow> bool" where
  "row_sound e \<longleftrightarrow> - 1 \<le> re_CurrentNodeIdx e \<and> 0 \<le> re_CurrentStoryIdx e
     \<and> set (re_SortedNodeIDs e) \<subseteq> (case re_DAGRaw e of None \<Rightarrow> {} | Some d \<Rightarrow> n_ID ` set (dag_Nodes d))
     \<and> re_RetryCount e = 0 \<and> re_RequirementBranch e = []"

definition rows_sound :: "ExecStore \<Rightarrow> bool" where
  "rows_sound st \<longleftrightarrow> (\<forall>k e. map_of (xs_reqCache st) k = Some e \<longrightarrow> row_sound e)
     \<and> (\<forall>kv k e. xs_kv st = Some kv \<and> map_of kv k = Some (ReqRow e) \<longrightarrow> row_sound e)"

text \<open>The rows an executor can read.\<close>

definition stored :: "ExecStore \<Rightarrow> row_load \<Rightarrow> bool" where
  "stored st row = (case row of RowLoaded e \<Rightarrow> \<exists>kv k. xs_kv st = Some kv \<and> map_of kv k = Some (ReqRow e) | _ \<Rightarrow> True)"

lemma sound_row_ok: "row_sound e \<Longrightarrow> row_ok g e"
  by (simp add: row_sound_def row_ok_def)

lemma stored_load_ok: "rows_sound st \<Longrightarrow> stored st row \<Longrightarrow> load_ok g row"
  by (auto simp: rows_sound_def stored_def load_ok_def sound_row_ok split: row_load.splits)

lemma sound_get:
  assumes "rows_sound st"
  shows "rows_sound (snd (getReq io key st))" "fst (getReq io key st) = Some e \<Longrightarrow> row_sound e"
  using assms
  by (auto simp: getReq_def kv_row_def rows_sound_def update_conv split: if_splits option.splits exec_row.splits)

lemma sound_put: "rows_sound st \<Longrightarrow> kv_put io key r st = Some st1 \<Longrightarrow> (\<And>e. r = ReqRow e \<Longrightarrow> row_sound e) \<Longrightarrow> rows_sound st1"
  by (auto simp: kv_put_def rows_sound_def update_conv split: option.splits if_splits)

lemma sound_save:
  assumes "rows_sound st" "row_sound e" shows "rows_sound (snd (saveReq io key e st))"
proof -
  let ?e = "e\<lparr>re_UpdatedAt := xi_now io\<rparr>" and ?st = "st\<lparr>xs_reqCache := AList.update key (e\<lparr>re_UpdatedAt := xi_now io\<rparr>) (xs_reqCache st)\<rparr>"
  have e: "row_sound ?e" using assms(2) by (simp add: row_sound_def)
  then have "rows_sound ?st" using assms(1) by (auto simp: rows_sound_def update_conv)
  then show ?thesis using sound_put[of ?st io key "ReqRow ?e"] e by (auto simp: saveReq_def Let_def split: option.split)
qed

lemma sound_reply: "rows_sound st \<Longrightarrow> row_sound e \<Longrightarrow> rows_sound (snd (req_reply io key ret e st))"
  using sound_save[of st e io key] by (simp add: req_reply_def split_beta)

lemma sound_with:
  assumes "rows_sound st" "\<And>e. row_sound e \<Longrightarrow> row_sound (f e)" shows "rows_sound (snd (with_req key f io st))"
proof (cases "getReq io key st")
  case (Pair o1 st1)
  then show ?thesis using sound_get[OF assms(1), of io key] sound_reply[of st1] assms(2) by (auto simp: with_req_def split: option.split)
qed

lemma sound_delete: "rows_sound st \<Longrightarrow> rows_sound (snd (deleteReq io key st))"
  by (auto simp: deleteReq_def Let_def rows_sound_def delete_conv split: option.split if_splits)

lemma sound_task: "rows_sound st \<Longrightarrow> rows_sound (snd (store_task io key v t st))"
proof -
  assume st: "rows_sound st"
  then have "rows_sound (st\<lparr>xs_taskCache := c\<rparr>)" for c by (auto simp: rows_sound_def)
  then show ?thesis using sound_put[of _ io key "TaskRow t"] by (auto simp: store_task_def Let_def split: option.split)
qed

lemma sound_phase:
  assumes "rows_sound st" "phase_ok r" shows "rows_sound (snd (handleReqPhaseMutation (Some r) io st))"
proof (cases "rp_Key r = [] \<or> rp_Stage r = []")
  case False
  show ?thesis unfolding handleReqPhaseMutation_def option.case if_not_P[OF False]
  proof (rule sound_with[OF assms(1)])
    fix e assume e: "row_sound e"
    let ?f = "e\<lparr>re_Stage := rp_Stage r, re_NodeCount := set_if (rp_NodeCount r) (re_NodeCount e),
      re_CurrentNodeIdx := set_if (rp_CurrentNodeIdx r) (re_CurrentNodeIdx e), re_ReviewVerdict := given (rp_ReviewVerdict r) (re_ReviewVerdict e),
      re_ReviewFeedback := given (rp_ReviewFeedback r) (re_ReviewFeedback e), re_ErrorReason := given (rp_ErrorReason r) (re_ErrorReason e),
      re_ErrorClass := given (rp_ErrorClass r) (re_ErrorClass e), re_CurrentNodeTaskID := given (rp_CurrentNodeTaskID r) (re_CurrentNodeTaskID e),
      re_ReviewerTaskID := given (rp_ReviewerTaskID r) (re_ReviewerTaskID e), re_RequirementBranch := given (rp_RequirementBranch r) (re_RequirementBranch e),
      re_DAGRaw := (case rp_DAGRaw r of Some d \<Rightarrow> Some d | None \<Rightarrow> re_DAGRaw e), re_SortedNodeIDs := given (rp_SortedNodeIDs r) (re_SortedNodeIDs e),
      re_SortedStoryIDs := given (rp_SortedStoryIDs r) (re_SortedStoryIDs e), re_CurrentStoryIdx := set_if (rp_CurrentStoryIdx r) (re_CurrentStoryIdx e),
      re_NodeResults := given (rp_NodeResults r) (re_NodeResults e), re_ScenarioVerdicts := given (rp_ScenarioVerdicts r) (re_ScenarioVerdicts e)\<rparr>"
    have "re_RetryCount ?f = re_RetryCount e" "re_RequirementBranch ?f = re_RequirementBranch e" "re_CurrentNodeIdx ?f = re_CurrentNodeIdx e"
      "re_CurrentStoryIdx ?f = set_if (rp_CurrentStoryIdx r) (re_CurrentStoryIdx e)"
      "re_DAGRaw ?f = (case rp_DAGRaw r of Some d \<Rightarrow> Some d | None \<Rightarrow> re_DAGRaw e)" "re_SortedNodeIDs ?f = given (rp_SortedNodeIDs r) (re_SortedNodeIDs e)"
      using assms(2) by (simp_all add: phase_ok_def)
    then show "row_sound ?f" using e assms(2) unfolding row_sound_def phase_ok_def by (simp split: option.splits)
  qed
qed (use assms in \<open>simp add: handleReqPhaseMutation_def\<close>)

lemma sound_node: "rows_sound st \<Longrightarrow> rsent_ok (SendReqNode r) \<Longrightarrow> rows_sound (snd (handleReqNodeMutation (Some r) io st))"
  by (auto simp: handleReqNodeMutation_def intro!: sound_with) (auto simp: row_sound_def split: option.splits)

lemma sound_results: "rows_sound st \<Longrightarrow> rows_sound (snd (handleReqResetNodeResultsMutation (Some r) io st))"
proof (cases "getReq io (rs_Key r) st")
  case (Pair o1 st1)
  assume "rows_sound st"
  note g = sound_get[OF this, of io "rs_Key r", unfolded Pair, simplified]
  have "row_sound e \<Longrightarrow> row_sound (e\<lparr>re_NodeResults := n\<rparr>)" for e n by (simp add: row_sound_def)
  then show ?thesis using Pair g \<open>rows_sound st\<close> by (auto simp: handleReqResetNodeResultsMutation_def intro!: sound_reply split: option.split)
qed

lemma sound_create: "rows_sound st \<Longrightarrow> rows_sound (snd (handleReqCreateMutation ids data io st))"
proof (cases data)
  case (Some req)
  assume st: "rows_sound st"
  let ?key = "RequirementExecutionKey (rc_Slug req) (rc_RequirementID req)"
  have n: "row_sound (new_req ids now req)" for now by (simp add: row_sound_def new_req_def RequirementExecution_zero_def)
  obtain o1 st1 where g: "getReq io ?key st = (o1, st1)" by fastforce
  have s1: "rows_sound st1" using sound_get(1)[OF st, of io ?key] g by simp
  obtain ok st2 where d: "deleteReq io ?key st1 = (ok, st2)" by fastforce
  have "rows_sound st2" using sound_delete[OF s1, of io ?key] d by simp
  then show ?thesis using Some st g d s1 sound_reply n
    by (cases o1; cases ok) (simp_all add: handleReqCreateMutation_def Let_def)
qed (simp add: handleReqCreateMutation_def)

lemma sound_claim: "rows_sound st \<Longrightarrow> rows_sound (snd (handleExecClaimMutation data live io st))"
proof (cases data)
  case (Some req)
  assume st: "rows_sound st"
  obtain t st1 where t: "getTask live io (xc_Key req) st = (t, st1)" by fastforce
  have s1: "rows_sound st1" using st t by (auto simp: getTask_def rows_sound_def split: if_splits option.splits exec_row.splits)
  obtain o1 st2 where g: "getReq io (xc_Key req) st1 = (o1, st2)" by fastforce
  note s2 = sound_get[OF s1, of io "xc_Key req", unfolded g, simplified]
  have "row_sound e \<Longrightarrow> row_sound (e\<lparr>re_Stage := a\<rparr>)" for e a by (simp add: row_sound_def)
  then show ?thesis using Some t g s1 s2 st sound_task[OF s1]
    by (auto simp: handleExecClaimMutation_def task_reply_def saveTask_def Let_def split_beta intro!: sound_reply split: option.split)
qed (simp add: handleExecClaimMutation_def)

lemma sound_reconcile:
  assumes "rows_sound st" shows "rows_sound (reconcile_kv io st)"
proof -
  have one: "rows_sound (Exec_Store.reconcile_row (k, r) s)" if "rows_sound s" "kv_row io k st = Some r" for k r s
  proof (cases r)
    case (ReqRow e)
    then have "row_sound e" using that(2) assms by (auto simp: kv_row_def rows_sound_def split: option.splits if_splits)
    then show ?thesis using that(1) ReqRow by (auto simp: rows_sound_def update_conv)
  qed (use that in \<open>auto simp: rows_sound_def\<close>)
  have "rows_sound (foldl (\<lambda>s k. case kv_row io k st of None \<Rightarrow> s | Some r \<Rightarrow> Exec_Store.reconcile_row (k, r) s) s ks)" if "rows_sound s" for s ks
    using that by (induction ks arbitrary: s) (auto simp: one split: option.split)
  then show ?thesis using assms by (simp add: reconcile_kv_def split: option.split)
qed

section \<open>The two components\<close>

text \<open>What a delivered message does to the rows of requirements.  Resetting a requirement also cancels its tasks, which is left
  out here.\<close>

fun deliver :: "XIO \<Rightarrow> reffect \<Rightarrow> ExecStore \<Rightarrow> ExecStore" where
  "deliver io (SendReqPhase r) st = snd (handleReqPhaseMutation (Some r) io st)"
| "deliver io (SendReqNode r) st = snd (handleReqNodeMutation (Some r) io st)"
| "deliver io (SendNodeResults r) st = snd (handleReqResetNodeResultsMutation (Some r) io st)"
| "deliver io (SendReqReset key) st = snd (deleteReq io key st)"
| "deliver io _ st = st"

text \<open>The executor, what executors have sent so far, and the store of the execution manager.\<close>

inductive sys_step :: "RConfig \<Rightarrow> RComp \<times> reffect list \<times> ExecStore \<Rightarrow> RComp \<times> reffect list \<times> ExecStore \<Rightarrow> bool" for g where
  sys_run: "req_step (\<lambda>_. stored st) c d \<Longrightarrow> sys_step g (c, m, st) (d, m @ concat (map ru_out (rx_execs d)), st)"
| sys_restart: "\<forall>k row. (k, row) \<in> set rows \<longrightarrow> stored st row \<Longrightarrow> sys_step g (c, m, st) (started g rows entities, m, st)"
| sys_deliver: "e \<in> set m \<Longrightarrow> sys_step g (c, m, st) (c, m, deliver io e st)"
| sys_create: "sys_step g (c, m, st) (c, m, snd (handleReqCreateMutation ids req io st))"
| sys_claim: "sys_step g (c, m, st) (c, m, snd (handleExecClaimMutation claim live io st))"
| sys_task: "sys_step g (c, m, st) (c, m, snd (store_task io key v t st))"
| sys_manager: "sys_step g (c, m, st) (c, m, reconcile_kv io (st\<lparr>xs_taskCache := [], xs_reqCache := []\<rparr>))"

inductive sys_reach :: "RConfig \<Rightarrow> RComp \<times> reffect list \<times> ExecStore \<Rightarrow> bool" for g where
  sys_start: "sys_reach g (started g [] None, [], \<lparr>xs_taskCache = [], xs_reqCache = [], xs_kv = Some []\<rparr>)"
| sys_next: "sys_reach g s \<Longrightarrow> sys_step g s s1 \<Longrightarrow> sys_reach g s1"

definition sys_ok :: "RComp \<times> reffect list \<times> ExecStore \<Rightarrow> bool" where
  "sys_ok s \<longleftrightarrow> (case s of (c, m, st) \<Rightarrow> comp_ok c \<and> list_all rsent_ok m \<and> rows_sound st)"

lemma sound_deliver: "rows_sound st \<Longrightarrow> rsent_ok e \<Longrightarrow> rows_sound (deliver io e st)"
  by (cases e) (simp_all add: sound_phase sound_node sound_results sound_delete)

lemma comp_ok_sent: "comp_ok c \<Longrightarrow> list_all rsent_ok (concat (map ru_out (rx_execs c)))"
proof -
  assume "comp_ok c"
  then have "list_all rsent_ok (ru_out x)" if "x \<in> set (rx_execs c)" for x
    using that comp_ok_run by (fastforce simp: rrun_ok_def in_set_conv_nth)
  then show ?thesis by (auto simp: list_all_iff)
qed

lemma started_ok: "1 \<le> rg_MaxRecoveryRestarts g \<Longrightarrow> \<forall>k row. (k, row) \<in> set rows \<longrightarrow> load_ok g row \<Longrightarrow> comp_ok (started g rows entities)"
  by (rule req_reach_ok[OF reach_start])

lemma sys_step_ok:
  assumes "sys_step g s s1" "1 \<le> rg_MaxRecoveryRestarts g" "sys_ok s" shows "sys_ok s1"
  using assms(1)
proof cases
  case (sys_run st c d m)
  have "req_step load_ok c d" using req_step_mono[OF sys_run(3)] stored_load_ok assms(3) sys_run(1) by (fastforce simp: sys_ok_def)
  then have "comp_ok d" using req_step_ok assms(3) sys_run(1) by (auto simp: sys_ok_def)
  then show ?thesis using assms(3) sys_run comp_ok_sent[OF \<open>comp_ok d\<close>] by (simp add: sys_ok_def)
next
  case (sys_restart rows st c m entities)
  then show ?thesis using assms(2,3) stored_load_ok by (auto simp: sys_ok_def intro!: started_ok)
next
  case (sys_manager c m st io)
  have "rows_sound (st\<lparr>xs_taskCache := [], xs_reqCache := []\<rparr>)" using assms(3) sys_manager(1) by (auto simp: sys_ok_def rows_sound_def)
  then show ?thesis using assms(3) sys_manager by (simp add: sys_ok_def sound_reconcile)
qed (use assms(3) in \<open>auto simp: sys_ok_def list_all_iff sound_deliver sound_create sound_claim sound_task\<close>)

lemma sys_reach_ok: "sys_reach g s \<Longrightarrow> 1 \<le> rg_MaxRecoveryRestarts g \<Longrightarrow> sys_ok s"
proof (induction rule: sys_reach.induct)
  case sys_start
  then show ?case using started_ok[of g "[]" None] by (simp add: sys_ok_def rows_sound_def)
next
  case (sys_next s s1)
  then show ?case using sys_step_ok by blast
qed

section \<open>An example\<close>

definition ex_rio :: XIO where
  "ex_rio = \<lparr>xi_now = 1, xi_get = \<lambda>_. True, xi_keys = True, xi_marshal = True, xi_put = True, xi_delete = \<lambda>_. True, xi_perm = id\<rparr>"

text \<open>The requirement of \<open>ex_c3\<close>, with a sandbox: its row after everything it has sent has arrived.\<close>

definition ex_g :: RConfig where "ex_g = ex_rg\<lparr>rg_SandboxURL := ''u''\<rparr>"

definition ex_create :: ReqCreateRequest where
  "ex_create = \<lparr>rc_Slug = ''p'', rc_RequirementID = ''r'', rc_Title = [], rc_Description = [], rc_ProjectID = [], rc_TraceID = [], rc_LoopID = [],
     rc_RequestID = [], rc_Model = [], rc_Scenarios = [], rc_DependsOn = [], rc_Prompt = [], rc_Role = [], rc_PlanBranch = [], rc_BaseBranch = [],
     rc_Force = False\<rparr>"

definition ex_run1 :: RComp where "ex_run1 = handleReqPending ''req.p.r'' (Some ex_rrow) ex_rev (started ex_g [] None)"

definition ex_run2 :: RComp where "ex_run2 = init_branch 0 [] [] ex_rev ex_run1"

definition ex_run :: RComp where "ex_run = init_dispatch 0 ex_rev ex_run2"

definition ex_created :: ExecStore where
  "ex_created = snd (handleReqCreateMutation (rg_ids ex_rg) (Some ex_create) ex_rio \<lparr>xs_taskCache = [], xs_reqCache = [], xs_kv = Some []\<rparr>)"

definition ex_stored :: ExecStore where "ex_stored = fold (deliver ex_rio) (ru_out (rx_execs ex_run ! 0)) ex_created"

lemma sys_deliver_all: "sys_reach g (c, m, st) \<Longrightarrow> set es \<subseteq> set m \<Longrightarrow> sys_reach g (c, m, fold (deliver io) es st)"
proof (induction es arbitrary: st)
  case (Cons e es)
  then have "sys_reach g (c, m, deliver io e st)" by (intro sys_next[OF Cons.prems(1)] sys_deliver) simp
  then show ?case using Cons by simp
qed simp

lemma ex_sys_reach: "\<exists>m. sys_reach ex_g (ex_run, m, ex_stored)"
proof -
  have a: "rx_starting ex_run1 = [(0, [], [])] \<and> rx_created ex_run2 = [0] \<and> length (rx_execs ex_run) = 1" by code_simp
  let ?st = "\<lparr>xs_taskCache = [], xs_reqCache = [], xs_kv = Some []\<rparr> :: ExecStore"
  have 1: "sys_reach ex_g (started ex_g [] None, [], ex_created)" unfolding ex_created_def by (rule sys_next[OF sys_start sys_create])
  obtain m1 where 2: "sys_reach ex_g (ex_run1, m1, ex_created)"
    using sys_next[OF 1 sys_run] step_pending unfolding ex_run1_def by blast
  obtain m2 where 3: "sys_reach ex_g (ex_run2, m2, ex_created)"
    using sys_next[OF 2 sys_run] step_branch[of 0 "[]" "[]" ex_run1] a unfolding ex_run2_def by fastforce
  have 4: "sys_reach ex_g (ex_run, m2 @ concat (map ru_out (rx_execs ex_run)), ex_created)"
    by (rule sys_next[OF 3], rule sys_run, unfold ex_run_def, rule step_dispatch) (simp add: a)
  have "rx_execs ex_run ! 0 \<in> set (rx_execs ex_run)" using a by (metis nth_mem zero_less_one)
  then have "set (ru_out (rx_execs ex_run ! 0)) \<subseteq> set (m2 @ concat (map ru_out (rx_execs ex_run)))" by auto
  from sys_deliver_all[OF 4 this] show ?thesis unfolding ex_stored_def by blast
qed

section \<open>Properties\<close>



lemma next_node_tasks:
  assumes "SendTaskCreate t \<in> set (ru_out (dispatchNextNodeLocked g ev x))" "\<forall>e \<in> set (ru_out x). \<not> is_task e"
  shows "tc_ScenarioBranch t = ru_RequirementBranch x"
proof -
  let ?d = "dispatchNextNodeLocked g ev x"
  have is_task: "is_task (SendTaskCreate q)" "\<not> is_task (SendReqNode r)" for q r by (simp_all add: is_task_def)
  have "SendTaskCreate t \<in> set (filter is_task (ru_out ?d))" using assms(1) by (simp add: is_task_def)
  moreover have "filter is_task (ru_out x) = []" using assms(2) by (simp add: filter_empty_conv)
  ultimately show ?thesis
    by (auto simp: dispatchNextNodeLocked_def Let_def review_fields error_fields send_fields is_task task_request_def
        simp del: set_filter split: if_splits option.splits)
qed

text \<open>C38: an execution rebuilt from its row has no requirement branch and has forgotten its retries: the branch is never sent
  to the execution manager, which does not know the retry count either.  The tasks dispatched after a restart name no
  branch to work on and to merge into.
\<close>

theorem restart_loses_branch:
  assumes "sys_reach g (c, m, st)" "1 \<le> rg_MaxRecoveryRestarts g" "xs_kv st = Some kv" "map_of kv k = Some (ReqRow e)"
  defines "x \<equiv> rebuildExecFromKV g k e"
  shows "ru_RequirementBranch x = [] \<and> ru_RetryCount x = 0
    \<and> (\<forall>ev t. SendTaskCreate t \<in> set (ru_out (dispatchNextNodeLocked g ev x)) \<longrightarrow> tc_ScenarioBranch t = [])"
proof -
  have "row_sound e" using sys_reach_ok[OF assms(1,2)] assms(3,4) by (auto simp: sys_ok_def rows_sound_def)
  then have "ru_RequirementBranch x = [] \<and> ru_RetryCount x = 0" "ru_out x = []"
    by (simp_all add: x_def rebuildExecFromKV_def row_sound_def reqRun_zero_def)
  then show ?thesis using next_node_tasks by fastforce
qed

theorem restart_loses_branch_witness:
  "ru_RequirementBranch (rx_execs ex_run ! 0) = ''semspec/requirement-r'' \<and> (\<exists>kv e. xs_kv ex_stored = Some kv
    \<and> map_of kv ''req.p.r'' = Some (ReqRow e) \<and> ru_RequirementBranch (rebuildExecFromKV ex_g ''req.p.r'' e) = [])"
proof -
  have b: "ru_RequirementBranch (rx_execs ex_run ! 0) = ''semspec/requirement-r''" by code_simp
  have "case xs_kv ex_stored of None \<Rightarrow> False | Some kv \<Rightarrow> (case map_of kv ''req.p.r'' of Some (ReqRow e) \<Rightarrow> True | _ \<Rightarrow> False)"
    by code_simp
  then obtain kv e where e: "xs_kv ex_stored = Some kv" "map_of kv ''req.p.r'' = Some (ReqRow e)"
    by (auto split: option.splits exec_row.splits)
  obtain m where m: "sys_reach ex_g (ex_run, m, ex_stored)" using ex_sys_reach by blast
  have "ru_RequirementBranch (rebuildExecFromKV ex_g ''req.p.r'' e) = []"
    using restart_loses_branch[OF m _ e] by (simp add: ex_g_def ex_rg_def)
  then show ?thesis using b e by blast
qed

end
