(* ===== verification/Req_Stories.thy ===== *)
theory Req_Stories
  imports Req_Rows Mutations
begin

text \<open>
  The requirement executor together with the plan manager: the reservation of stories.  What
  \<open>walk_story\<close> and \<open>dispatch_stories\<close> of theory \<open>Req_Executor\<close> send as \<open>ClaimStory\<close> is answered by
  \<open>handleStoryStatusMutation\<close> of theory \<open>Mutations\<close>.
\<close>

section \<open>Claims of stories\<close>

definition story_req :: "bytes \<Rightarrow> bytes \<Rightarrow> StoryStatus \<Rightarrow> StoryStatusMutationRequest" where
  "story_req slug s t = \<lparr>ss_Slug = slug, ss_StoryID = s, ss_Target = t\<rparr>"

text \<open>The claims of \<open>walk_story\<close>, each with the environment it is answered in.\<close>

fun story_claims :: "bytes \<Rightarrow> bytes \<Rightarrow> (Env \<times> StoryStatus) list \<Rightarrow> Comp \<Rightarrow> bool \<times> Comp" where
  "story_claims slug s [] c = (True, c)"
| "story_claims slug s ((env, t) # ts) c =
     (case handleStoryStatusMutation (Some (story_req slug s t)) env c of
        (None, c1) \<Rightarrow> story_claims slug s ts c1
      | (Some _, c1) \<Rightarrow> (False, c1))"

text \<open>The plan can be read and saved.\<close>

definition works :: "Env \<Rightarrow> bool" where
  "works e \<longleftrightarrow> en_read e \<and> sv_ctx (en_save e 0) \<and> sv_marshal (en_save e 0) \<and> sv_graph (en_save e 0)"

definition status_at :: "bytes \<Rightarrow> bytes \<Rightarrow> StoryStatus \<Rightarrow> Comp \<Rightarrow> bool" where
  "status_at slug s t c \<longleftrightarrow> store_inv (co_plans c) \<and> (\<exists>p story i. vis c slug = Some p \<and> FindStory p s = Some (story, i) \<and> s_Status story = t)"

lemma find_story_at: "findStoryByID p s = Some story \<longleftrightarrow> (\<exists>i. FindStory p s = Some (story, i))"
proof -
  have "find P xs = Some x \<longleftrightarrow> (\<exists>i. find_at P n xs = Some (x, i))" for P n and xs :: "Story list" and x
    by (induction xs arbitrary: n) auto
  then show ?thesis by (simp add: findStoryByID_def FindStory_def)
qed

lemma get_visible: "en_read e \<Longrightarrow> vis c slug = Some p \<Longrightarrow> store_inv (co_plans c) \<Longrightarrow>
  \<exists>st. plan_get (en_read e) slug (co_plans c) = (Some p, st) \<and> visible st = vis c \<and> store_inv st"
  using plan_get_result[of slug "co_plans c"] plan_get_visible[of "co_plans c" True slug]
  by (metis prod.collapse)

lemma claim_accepted:
  assumes "status_at slug s t c" "works e" "StoryStatus_CanTransitionTo t u" "slug \<noteq> []" "s \<noteq> []"
  shows "\<exists>c1. handleStoryStatusMutation (Some (story_req slug s u)) e c = (None, c1) \<and> status_at slug s u c1"
proof -
  obtain p story i where p: "store_inv (co_plans c)" "vis c slug = Some p" "FindStory p s = Some (story, i)" "s_Status story = t"
    using assms(1) by (auto simp: status_at_def)
  have t: "t \<noteq> StoryStatusOther []" "u \<noteq> StoryStatusOther []" "StoryStatus_IsValid u" using assms(3) by (cases t; auto)+
  obtain st where st: "plan_get (en_read e) slug (co_plans c) = (Some p, st)" "visible st = vis c" "store_inv st"
    using get_visible[OF _ p(2,1), of e] assms(2) by (auto simp: works_def)
  let ?story = "story\<lparr>s_Status := u, s_UpdatedAt := en_now e\<rparr>"
  let ?p = "p\<lparr>p_Stories := (p_Stories p)[i := ?story]\<rparr>"
  have slug: "p_Slug p = slug" "ValidateSlug slug = None" using visible_slug[OF p(1,2)] by simp_all
  obtain st2 where save: "plan_save (en_save e 0) ?p st = (None, st2)"
    using assms(2) slug by (auto simp: plan_save_def works_def Let_def)
  have v: "visible st2 slug = Some ?p" using plan_save_ok[OF save] slug by simp
  have inv: "store_inv st2" using save st(3) slug by (auto simp: plan_save_def store_inv_def Let_def split: if_splits option.splits)
  have f: "FindStory ?p s = Some (?story, i)"
    using find_at_update[of "\<lambda>s'. s_ID s' = s" 0 "p_Stories p" story i ?story] p(3) find_at_0_SomeD[of "\<lambda>s'. s_ID s' = s"]
    by (fastforce simp: FindStory_def)
  let ?c = "c\<lparr>co_plans := st2\<rparr>"
  have ok: "status_at slug s u d" if "co_plans d = st2" for d using that v inv f by (auto simp: status_at_def)
  have "handleStoryStatusMutation (Some (story_req slug s u)) e c = save_and_wake e u ?p (c\<lparr>co_plans := st\<rparr>)"
    using p assms(3-5) t st(1) by (simp add: handleStoryStatusMutation_def story_req_def with_plan_def Let_def)
  also have "\<dots> = (None, if (u = StoryStatusComplete \<or> u = StoryStatusFailed) \<and> EffectiveStatus ?p = StatusImplementing
      then snd (publishScenarioOrchestrator e ?p [] ?c) else ?c)"
    using save by (simp add: save_and_wake_def save_reply_def)
  finally show ?thesis using ok by auto
qed

lemma story_claims_accepted:
  assumes "status_at slug s t c" "slug \<noteq> []" "s \<noteq> []"
  shows "\<lbrakk>\<forall>e \<in> set envs. works e; length envs = length ts; successively StoryStatus_CanTransitionTo (t # ts)\<rbrakk>
    \<Longrightarrow> \<exists>c1. story_claims slug s (zip envs ts) c = (True, c1) \<and> status_at slug s (last (t # ts)) c1"
  using assms
proof (induction ts arbitrary: t c envs)
  case (Cons u ts)
  obtain e es where es: "envs = e # es" using Cons.prems(2) by (cases envs) auto
  have w: "works e" using Cons.prems(1) es by simp
  have tu: "StoryStatus_CanTransitionTo t u" using Cons.prems(3) by simp
  obtain c1 where c1: "handleStoryStatusMutation (Some (story_req slug s u)) e c = (None, c1)" "status_at slug s u c1"
    using claim_accepted[OF Cons.prems(4) w tu Cons.prems(5,6)] by blast
  from Cons.IH[OF _ _ _ c1(2) Cons.prems(5,6), of es] Cons.prems es c1(1) show ?case by (auto simp: successively_Cons)
qed auto

lemma walk_legal:
  assumes "StoryStatus_IsValid t"
  shows "successively StoryStatus_CanTransitionTo (t # storyStatusWalkToReady t)" "last (t # storyStatusWalkToReady t) = StoryStatusReady"
  using assms by (cases t; simp)+

text \<open>C16: the walk that reopens a story is legal for the plan manager: while plans can be read and saved it accepts every claim of
  the walk, whatever the status of the story was, and the story is ready; then it accepts one claim of the story for
  execution, and rejects every further one.
\<close>

theorem story_reservation:
  assumes "store_inv (co_plans c)" "vis c slug = Some p" "findStoryByID p s = Some story" "StoryStatus_IsValid (s_Status story)"
    and "slug \<noteq> []" "s \<noteq> []" "\<forall>e \<in> set envs. works e" "length envs = length (storyStatusWalkToReady (s_Status story))" "works e1"
  shows "\<exists>c1 c2. story_claims slug s (zip envs (storyStatusWalkToReady (s_Status story))) c = (True, c1) \<and> status_at slug s StoryStatusReady c1
    \<and> handleStoryStatusMutation (Some (story_req slug s StoryStatusExecuting)) e1 c1 = (None, c2)
    \<and> (\<forall>e2. en_read e2 \<longrightarrow> fst (handleStoryStatusMutation (Some (story_req slug s StoryStatusExecuting)) e2 c2)
          = Some (BadStoryTransition StoryStatusExecuting StoryStatusExecuting))"
proof -
  have "status_at slug s (s_Status story) c" using assms(1-3) by (auto simp: status_at_def find_story_at)
  from story_claims_accepted[OF this assms(5,6,7,8) walk_legal(1)[OF assms(4)]] obtain c1
    where c1: "story_claims slug s (zip envs (storyStatusWalkToReady (s_Status story))) c = (True, c1)" "status_at slug s StoryStatusReady c1"
    using walk_legal(2)[OF assms(4)] by auto
  obtain c2 where c2: "handleStoryStatusMutation (Some (story_req slug s StoryStatusExecuting)) e1 c1 = (None, c2)"
    "status_at slug s StoryStatusExecuting c2" using claim_accepted[OF c1(2) assms(9), of StoryStatusExecuting] assms(5,6) by auto
  have "fst (handleStoryStatusMutation (Some (story_req slug s StoryStatusExecuting)) e2 c2)
      = Some (BadStoryTransition StoryStatusExecuting StoryStatusExecuting)" if "en_read e2" for e2
  proof -
    obtain q st i where q: "store_inv (co_plans c2)" "vis c2 slug = Some q" "FindStory q s = Some (st, i)" "s_Status st = StoryStatusExecuting"
      using c2(2) by (auto simp: status_at_def)
    with get_visible[OF that q(2,1)] show ?thesis using assms(5,6)
      by (auto simp: handleStoryStatusMutation_def story_req_def with_plan_def)
  qed
  then show ?thesis using c1 c2(1) by blast
qed

text \<open>A story left executing by an earlier attempt.\<close>

definition ex_busy :: Plan where
  "ex_busy = ex_rplan\<lparr>p_Stories := map (\<lambda>s. s\<lparr>s_Status := StoryStatusExecuting\<rparr>) (p_Stories ex_rplan)\<rparr>"

theorem story_reservation_witness:
  "\<exists>c1. story_claims ''p'' ''s'' (zip [ex_env, ex_env, ex_env] (storyStatusWalkToReady StoryStatusExecuting)) (ex_comp ex_busy) = (True, c1)
    \<and> status_at ''p'' ''s'' StoryStatusReady c1"
proof -
  have s: "case findStoryByID ex_busy ''s'' of None \<Rightarrow> False | Some s \<Rightarrow> s_Status s = StoryStatusExecuting" by code_simp
  then obtain story where story: "findStoryByID ex_busy ''s'' = Some story" "s_Status story = StoryStatusExecuting" by (auto split: option.splits)
  have slug: "p_Slug ex_busy = ''p''" by code_simp
  have val: "ValidateSlug ''p'' = None" by code_simp
  have c: "store_inv (co_plans (ex_comp ex_busy))" "vis (ex_comp ex_busy) ''p'' = Some ex_busy"
    using ex_comp_inv[of ex_busy] slug val by (simp_all add: ex_comp_def visible_def)
  show ?thesis using story_reservation[OF c story(1), of "[ex_env, ex_env, ex_env]" ex_env] story(2)
    by (auto simp: works_def ex_env_def)
qed

end
