(* ===== verification/Spec2Isabelle.thy ===== *)
theory Spec2Isabelle
  imports Task_Dag Retry Plan_Machine Exec_Races Req_Stories
begin

text \<open>
  Semspec turns a request into a plan (requirements, architecture, stories, scenarios), executes it
  requirement by requirement in sandboxes, merges the branches and reviews the result.  The plan is
  a record in the bucket PLAN_STATES that one component, the plan manager, owns; every other
  component (generators, reviewers, executors) reads it and changes it by sending the plan manager
  mutation requests.  Execution is recorded in the bucket EXECUTION_STATES, which the execution
  manager owns and the plan manager watches.  The requirement executor runs a requirement: it
  reserves its stories with the plan manager, dispatches the nodes of each story to the execution
  manager one by one, and has each story reviewed; the execution manager runs each task through
  developer, structural validation, reviewer and merge.  This library models the domain package
  \<^verbatim>\<open>src/workflow\<close>, the plan manager, the scheduling of execution, the requirement executor, the
  execution manager and the retry registry, and proves what they promise.

  \<^bold>\<open>Parts and theories.\<close>
  \<^item> \<open>Prelude\<close>: byte strings and the functions of the Go library the sources call, rule collections.
    \<open>Dag\<close>: the depth-first searches and closures the sources repeat, once, with the locale of a DAG
    validator.
  \<^item> \<open>Status\<close>: the closed string types of \<^verbatim>\<open>types.go\<close> and \<^verbatim>\<open>story_task.go\<close> with their transition
    tables; locale \<open>status_machine\<close>, interpreted on each table.  \<open>Plan_Types\<close>: the structs of a plan
    and their accessors.  \<open>Execution_Types\<close>: the rows of EXECUTION_STATES.
  \<^item> \<open>File_Paths\<close>: path normalisation, ownership of scoped files, slugs, tags.  \<open>Validators\<close>: the
    structural validators of \<^verbatim>\<open>plan_requirement.go\<close>, \<^verbatim>\<open>plan_capability.go\<close>, \<^verbatim>\<open>plan_story.go\<close>.
    \<open>Scheduling\<close>: \<^verbatim>\<open>derive_story_scheduling.go\<close>.
  \<^item> \<open>Orchestrator\<close>: which requirements the scenario orchestrator dispatches
    (\<^verbatim>\<open>resolve_branch_prereqs.go\<close>, \<^verbatim>\<open>processor/scenario-orchestrator\<close>).  \<open>Assembly\<close>: the merge order of
    \<^verbatim>\<open>plan_merge.go\<close>.  \<open>Task_Dag\<close>: task DAGs of \<^verbatim>\<open>processor/requirement-executor\<close>.  \<open>Cascade\<close>:
    \<^verbatim>\<open>workflow/cascade\<close>.  \<open>Retry\<close>: \<^verbatim>\<open>workflow/dispatchretry\<close>.
  \<^item> the plan manager (\<^verbatim>\<open>processor/plan-manager\<close>): \<open>Plan_Store\<close> (\<^verbatim>\<open>plan_store.go\<close>, locale
    \<open>keyed_store\<close>), \<open>Handler\<close> (what the handlers of \<^verbatim>\<open>mutations.go\<close> share, locale \<open>plan_handler\<close>),
    \<open>Mutations\<close> (generation, claims, approval, start of execution), \<open>Review\<close> (verdicts, revision
    loop, QA), \<open>Decisions\<close> (plan decisions and the effects of accepting them), \<open>GitHub\<close> (issues and
    pull requests), \<open>Convergence\<close> (\<^verbatim>\<open>execution_events.go\<close>, \<^verbatim>\<open>completeness_gate.go\<close>),
    \<open>Plan_Machine\<close> (all handlers, the watcher and cache expiry as one transition system).
  \<^item> the execution manager (\<^verbatim>\<open>processor/execution-manager\<close>): \<open>Exec_Store\<close> (\<^verbatim>\<open>execution_store.go\<close>),
    \<open>Exec_Mutations\<close> (\<^verbatim>\<open>mutations.go\<close>), \<open>Exec_Feedback\<close> (what a retry is told: \<^verbatim>\<open>cycle_history.go\<close>
    and the feedback builders), \<open>Tdd_Pipeline\<close> (the stage handlers of \<^verbatim>\<open>component.go\<close>), \<open>Exec_Events\<close>
    (\<^verbatim>\<open>task_watcher.go\<close>, \<^verbatim>\<open>loop_completions.go\<close>, \<^verbatim>\<open>req_watcher.go\<close>, timers, reset, restart and stop),
    \<open>Exec_Invariant\<close> and \<open>Exec_Keeps\<close> (the invariant of the component, kept by every event),
    \<open>Exec_Machine\<close> (all events as one step relation), \<open>Exec_Claims\<close> (claims and resets of rows,
    locale \<open>claim_rows\<close>), \<open>Exec_Races\<close> (events outside the premises of the step relation).
  \<^item> the requirement executor (\<^verbatim>\<open>processor/requirement-executor\<close>): \<open>Req_Evidence\<close> (its pure functions:
    \<^verbatim>\<open>topo_sort.go\<close>, verdicts, evidence of stories, promised files), \<open>Req_State\<close> (\<^verbatim>\<open>execution_state.go\<close>,
    \<^verbatim>\<open>config.go\<close>, timers and terminal states), \<open>Req_Executor\<close> (stories, nodes, reviews, retries and
    recovery of \<^verbatim>\<open>component.go\<close>, \<^verbatim>\<open>deliverable_gate.go\<close>, \<^verbatim>\<open>awaiting_recovery.go\<close>), \<open>Req_Events\<close> (the claim,
    completions, accepted decisions, timers, restart and stop of \<^verbatim>\<open>req_watcher.go\<close>,
    \<^verbatim>\<open>req_completions.go\<close>, \<^verbatim>\<open>recover_completed.go\<close>), \<open>Req_Invariant\<close> (what every operation keeps of an
    execution), \<open>Req_Machine\<close> (all events as one step relation, locale \<open>locked_operation\<close>),
    \<open>Req_Order\<close> (the order of nodes), \<open>Req_Complete\<close> (what completion means), \<open>Req_Claims\<close> (the
    properties of the component), \<open>Req_Flaws\<close> (where it falls short), \<open>Req_Rows\<close> (the component with the
    rows of the execution manager), \<open>Req_Stories\<close> (the component with the plan manager).

  \<^bold>\<open>How state and operations correspond.\<close>  A struct is a record whose fields keep their Go name
  behind a prefix, a closed string type a datatype, a slice a list, a pointer an option, a time stamp
  a natural number, a Go map of IDs a list or a partial map.  A validator returns the first error of
  the code or \<open>None\<close>.  A handler is a function of the decoded request (\<open>None\<close> if it does not
  unmarshal), the environment \<open>Env\<close> (time and outcomes of the external calls: reads, saves,
  publications, resets) and the component \<open>Comp\<close> (configuration, plan store, outbox of published
  messages); it returns the error of its reply and the new component.  Code outside the repository
  (sandbox, git, NATS, hashing, the order in which Go iterates a map) is a parameter: \<open>Sandbox\<close>,
  \<open>Env\<close>, \<open>Ids\<close>, \<open>perm\<close>, \<open>merge\<close>.  Handlers hold the mutex of their slug, so concurrent requests for
  one plan are sequences of whole handlers; the watcher takes no lock and is a step of its own.
  In the execution manager \<open>XComp\<close> holds the executions, the tables of active executions and of
  routed loops, the armed timers, the validations under way and the outbox; an event runs under the
  mutex of one execution, and where the code releases it (structural validation, the set-up
  goroutine) the event is split in two.  The steps of \<open>Exec_Machine\<close> assume what the code relies on:
  UUIDs of new loops are fresh, a loop reports the workflow step it was sent with, the component is
  not shutting down, and no cancellation arrives while an execution is being set up; what happens
  when one of the last two fails is in \<open>Exec_Races\<close>, and so is the restart.
  In the requirement executor an operation named \<^verbatim>\<open>...Locked\<close> changes one execution, the record
  \<open>reqRun\<close>, which also has its outbox, its armed timers and a flag that its clean-up sets; \<open>locked\<close>
  runs it under the mutex and \<open>RComp\<close> is the component.  \<open>REnv\<close> has the answers of the outside: plans,
  rows, claims, the files of the reviewer's worktree, failed publications.  Requests to the other
  components are the request records those components decode.  \<open>Req_Machine\<close> assumes that the rows
  read are sound, and \<open>Req_Rows\<close> proves it for the rows the execution manager keeps.

  \<^bold>\<open>What is shown.\<close>
  \<^item> the plan manager as a whole: it refines the abstract machine of slugs and statuses that moves
    along the transition table only; every stored plan stays valid; of several claims at most one
    wins; revision is bounded; a clean rejection changes nothing (\<open>Plan_Machine\<close>, by the contract
    each handler is shown to meet).
  \<^item> the store keeps what a successful save wrote; a decision is accepted once and destroys nothing
    outside its closure; no plan reaches QA with a requirement open or a promised file missing; the
    counters of the convergence check agree with a reference definition.
  \<^item> the execution manager as a whole: whatever the agents answer, in whatever order events arrive, a
    task has a bounded number of developer and reviewer loops, is approved only after validation,
    review and merge, has exactly one thing outstanding while it lives and a timer that ends it, is
    final once terminated, and each loop is handled once; of several pinned claims of a row at most
    one wins; a reset removes the rows of a requirement when the cache is whole.
  \<^item> the requirement executor as a whole: a requirement is reported as completed only after an approved
    review of its last story, with a commit for every claimed file and every promised file present;
    retries, reviews and restarts stay within their budgets; an end is reported once and is final; a
    waiting execution has a timer that ends it; nodes are ordered after their dependencies; together
    with the execution manager, cursors and nodes stay consistent whatever messages are delivered,
    repeated or lost and wherever executors crash; together with the plan manager, the walk that
    reopens a story is accepted from every status and a story is reserved by one execution.
  \<^item> scheduling and dispatch: derived story edges are acyclic, order every two stories that share a
    file and are stable; what is dispatched is ready; there is progress while the waits are acyclic;
    branches merge in derivation order; closures are exact; task DAGs run to the end; validators
    accept exactly the structures they describe; the retry registry keeps its budget under every
    interleaving.
  \<^item> behaviour that departs from the comments or the intent: a plan every validator accepts that can
    never be dispatched, resource edges that close a cycle, batches of scenarios that are refused, a
    decision the watcher loses, a fallback that cannot apply, a double count, a create that replaces
    an expired plan; in the execution manager a timer that can no longer be stopped, approval during
    shutdown without a merge, a developer dispatched for a cancelled task, executions a restart
    recovers but never resumes, rows a reset leaves behind; in the requirement executor nodes that are
    skipped after a retry, stories whose work a restructure discards, and executions that lose their
    branch and their retry count in a restart.

  \<^bold>\<open>Bounds and fuel.\<close>  The depth-first searches run on one unit of fuel per node or edge endpoint
  plus one, which \<open>dfs_run_total\<close> shows is never used up.  The fixed-point loops of \<open>Assembly\<close> and
  \<open>Cascade\<close> terminate by measures; the blocked loop of \<open>Convergence\<close> has the bound of the code (the
  number of requirements), shown to be enough by \<open>blocked_exact\<close>.  Integers of the modelled code are
  counters of lists and iterations far below the machine width and are unbounded here; positions are
  natural numbers.  The sorting loop of \<open>Req_Evidence\<close> terminates by the nodes whose count is still
  positive and the length of its queue; \<open>dispatch_stories\<close> recurses on the stories that are left.

  \<^bold>\<open>Not modelled.\<close>  The HTTP API of the plan manager, the triples written to the graph and the
  graph fallback of the stores, the expiry of the tables of active executions and routed loops, the
  watchers and loops of the generator, plan reviewer and recovery components (dispatch of agent loops
  and decoding of model answers), prompts and lessons, tools, the sandbox server, vocabulary and export,
  command entry points and the user interface: input and output around the modelled core, or text.
  Encoding and decoding of JSON is the identity, except that a payload may fail to decode.
\<close>

end
